(* ===== verification/Go_Prelude.thy ===== *)
theory Go_Prelude
  imports
    Main
    "HOL-Library.AList"
    "HOL-Library.Sublist"
    "HOL-Library.List_Lexorder"
    "HOL-Library.Char_ord"
begin

text \<open>
  What the control plane uses of Go and of its standard library, and the generic lemmas the
  component theories share.

  \<^item> A Go \<open>string\<close> is a sequence of bytes: a \<^typ>\<open>string\<close>, one \<^typ>\<open>char\<close> per byte. The
    library orders on \<^typ>\<open>char\<close> and on lists make \<open><\<close> the byte-wise order of Go's string
    comparison and of \<open>sort.Strings\<close>.
  \<^item> An operation that can fail returns a sum, the error on the left. An \<open>error\<close> result
    alone is an \<open>option\<close>, \<open>None\<close> for \<open>nil\<close>. \<open>and_then\<close> and \<open>check\<close> are the two forms of
    Go's error propagation.
  \<^item> A Go map is an association list with distinct keys; reading a missing key gives
    the zero value of the value type.
  \<^item> A \<open>uint8\<close> is a \<^typ>\<open>nat\<close>, and the only arithmetic on one, an increment, wraps at 256.
  \<^item> A \<open>time.Time\<close> is the number of nanoseconds since the Unix epoch.
\<close>

named_theorems res_simps \<open>inversion of error propagation\<close>
named_theorems frame_simps \<open>what an operation leaves alone\<close>


section \<open>Error propagation\<close>

definition and_then :: "'e + 'a \<Rightarrow> ('a \<Rightarrow> 'e + 'b) \<Rightarrow> 'e + 'b" where
  "and_then r k = (case r of Inl e \<Rightarrow> Inl e | Inr x \<Rightarrow> k x)"

definition check :: "'e option \<Rightarrow> 'e + 'b \<Rightarrow> 'e + 'b" where
  "check r k = (case r of Some e \<Rightarrow> Inl e | None \<Rightarrow> k)"

definition err_of :: "'e + 'a \<Rightarrow> 'e option" where
  "err_of r = (case r of Inl e \<Rightarrow> Some e | Inr _ \<Rightarrow> None)"

lemma and_then_simps [simp]:
  "and_then (Inl e) k = Inl e"
  "and_then (Inr x) k = k x"
  by (simp_all add: and_then_def)

lemma check_simps [simp]:
  "check None k = k"
  "check (Some e) k = Inl e"
  by (simp_all add: check_def)

lemma err_of_simps [simp]:
  "err_of (Inl e) = Some e"
  "err_of (Inr x) = None"
  by (simp_all add: err_of_def)

lemma err_of_None_iff: "err_of r = None \<longleftrightarrow> (\<exists>x. r = Inr x)"
  by (cases r) auto

lemma and_then_Inr_iff [res_simps]:
  "and_then r k = Inr y \<longleftrightarrow> (\<exists>x. r = Inr x \<and> k x = Inr y)"
  by (cases r) auto

lemma check_Inr_iff [res_simps]: "check r k = Inr y \<longleftrightarrow> r = None \<and> k = Inr y"
  by (cases r) auto

lemma if_Inl_Inr_iff [res_simps]:
  "(if b then Inl e else k) = Inr y \<longleftrightarrow> \<not> b \<and> k = Inr y"
  by auto

lemma if_Some_None_iff [res_simps]:
  "(if b then Some e else k) = None \<longleftrightarrow> \<not> b \<and> k = None"
  by auto

text \<open>The first error of a loop that checks one element after the other.\<close>

fun first_err :: "('a \<Rightarrow> 'e option) \<Rightarrow> 'a list \<Rightarrow> 'e option" where
  "first_err f [] = None"
| "first_err f (x # xs) = (case f x of Some e \<Rightarrow> Some e | None \<Rightarrow> first_err f xs)"

lemma first_err_None_iff: "first_err f xs = None \<longleftrightarrow> (\<forall>x\<in>set xs. f x = None)"
  by (induction xs) (auto split: option.splits)

lemma first_err_Some:
  "first_err f xs = Some e \<Longrightarrow> \<exists>x\<in>set xs. f x = Some e"
  by (induction xs) (auto split: option.splits)


section \<open>Maps\<close>

definition map_get :: "'v \<Rightarrow> (string \<times> 'v) list \<Rightarrow> string \<Rightarrow> 'v" where
  "map_get zero m k = (case map_of m k of Some v \<Rightarrow> v | None \<Rightarrow> zero)"

lemma map_get_Some [simp]: "map_of m k = Some v \<Longrightarrow> map_get z m k = v"
  by (simp add: map_get_def)

lemma map_get_update:
  "map_get z (AList.update k v m) k' = (if k' = k then v else map_get z m k')"
  by (auto simp: map_get_def update_conv')

lemma update_keys_dom:
  "k \<in> fst ` set m \<Longrightarrow> map fst (AList.update k v m) = map fst m"
  by (induction m) auto

lemma update_keys: "map_of m k = Some v0 \<Longrightarrow> map fst (AList.update k v m) = map fst m"
  by (rule update_keys_dom) (force dest: map_of_SomeD)

lemma update_new: "k \<notin> fst ` set m \<Longrightarrow> AList.update k v m = m @ [(k, v)]"
  by (induction m) auto

lemma set_update_distinct:
  "distinct (map fst m) \<Longrightarrow>
    set (AList.update k v m) = insert (k, v) {p \<in> set m. fst p \<noteq> k}"
proof (induction m)
  case (Cons p m)
  obtain k' v' where "p = (k', v')" by (cases p)
  with Cons show ?case
    by (auto simp: rev_image_eqI)
qed simp

lemma map_of_SomeI:
  "distinct (map fst m) \<Longrightarrow> (k, v) \<in> set m \<Longrightarrow> map_of m k = Some v"
  by simp


section \<open>Binary search (\<open>sort.Search\<close>)\<close>

text \<open>
  \<open>sort.Search(n, f)\<close> returns the least \<open>i\<close> in \<open>[0, n)\<close> with \<open>f(i)\<close>, or \<open>n\<close>, for an \<open>f\<close>
  that is false up to some point and true from there on.
\<close>

function sort_Search_loop :: "(nat \<Rightarrow> bool) \<Rightarrow> nat \<Rightarrow> nat \<Rightarrow> nat" where
  "sort_Search_loop f i j =
     (if i < j then
        (let h = (i + j) div 2
         in if \<not> f h then sort_Search_loop f (h + 1) j else sort_Search_loop f i h)
      else i)"
  by pat_completeness auto
termination
  by (relation "measure (\<lambda>(f, i, j). j - i)") auto

declare sort_Search_loop.simps [simp del]

definition sort_Search :: "nat \<Rightarrow> (nat \<Rightarrow> bool) \<Rightarrow> nat" where
  "sort_Search n f = sort_Search_loop f 0 n"

lemma sort_Search_loop_spec:
  assumes "i \<le> j" and "\<And>a b. a \<le> b \<Longrightarrow> b < n \<Longrightarrow> f a \<Longrightarrow> f b"
    and "\<And>k. k < i \<Longrightarrow> \<not> f k" and "\<And>k. j \<le> k \<Longrightarrow> k < n \<Longrightarrow> f k" and "j \<le> n"
  shows "sort_Search_loop f i j \<le> n
    \<and> (\<forall>k < sort_Search_loop f i j. \<not> f k)
    \<and> (\<forall>k. sort_Search_loop f i j \<le> k \<longrightarrow> k < n \<longrightarrow> f k)"
  using assms
proof (induction f i j rule: sort_Search_loop.induct)
  case (1 f i j)
  define h where "h = (i + j) div 2"
  show ?case
  proof (cases "i < j")
    case False
    then have "sort_Search_loop f i j = i" by (simp add: sort_Search_loop.simps [of f i j])
    with False "1.prems" show ?thesis by auto
  next
    case True
    then have h: "i \<le> h" "h < j" by (auto simp: h_def)
    show ?thesis
    proof (cases "f h")
      case True
      have "f k" if "h \<le> k" "k < n" for k
        using "1.prems"(2) [of h k] True that by blast
      with "1.IH"(2) [OF \<open>i < j\<close> h_def] True h "1.prems"
      show ?thesis
        by (simp add: sort_Search_loop.simps [of f i j] flip: h_def)
    next
      case False
      have "\<not> f k" if "k < h + 1" for k
        using "1.prems"(2) [of k h] False that h "1.prems"(5) by auto
      with "1.IH"(1) [OF \<open>i < j\<close> h_def] False h "1.prems"
      show ?thesis
        by (simp add: sort_Search_loop.simps [of f i j] flip: h_def)
    qed
  qed
qed

lemma sort_Search_spec:
  assumes "\<forall>a b. a \<le> b \<longrightarrow> b < n \<longrightarrow> f a \<longrightarrow> f b"
  shows "sort_Search n f \<le> n" and "k < sort_Search n f \<Longrightarrow> \<not> f k"
    and "sort_Search n f \<le> k \<Longrightarrow> k < n \<Longrightarrow> f k"
  using sort_Search_loop_spec [of 0 n n f] assms by (auto simp: sort_Search_def)

text \<open>Looking a key up in a list sorted by key: what every \<open>Task(key)\<close> method does.\<close>

definition search_by_key :: "('a \<Rightarrow> string) \<Rightarrow> 'a list \<Rightarrow> string \<Rightarrow> 'a option" where
  "search_by_key f xs key =
     (let index = sort_Search (length xs) (\<lambda>i. f (xs ! i) \<ge> key)
      in if index = length xs \<or> f (xs ! index) \<noteq> key then None else Some (xs ! index))"

lemma search_by_key_sorted:
  assumes "sorted_wrt (<) (map f xs)"
  shows "search_by_key f xs key = find (\<lambda>x. f x = key) xs"
proof -
  let ?g = "\<lambda>i. f (xs ! i) \<ge> key"
  let ?i = "sort_Search (length xs) ?g"
  have mono: "?g a \<Longrightarrow> ?g b" if "a \<le> b" "b < length xs" for a b
  proof (cases "a = b")
    case False
    with that assms have "f (xs ! a) < f (xs ! b)"
      by (auto simp: sorted_wrt_iff_nth_less)
    then show "?g a \<Longrightarrow> ?g b" by auto
  qed simp
  then have "\<forall>a b. a \<le> b \<longrightarrow> b < length xs \<longrightarrow> ?g a \<longrightarrow> ?g b" by blast
  note spec = sort_Search_spec [OF this]
  have inj: "i = j" if "f (xs ! i) = f (xs ! j)" "i < length xs" "j < length xs" for i j
    using assms that by (metis (no_types, lifting) length_map linorder_neqE_nat nth_map
        order_less_irrefl sorted_wrt_nth_less)
  show ?thesis
  proof (cases "\<exists>i < length xs. f (xs ! i) = key")
    case True
    then obtain i where i: "i < length xs" "f (xs ! i) = key" by blast
    from i have "?i \<le> i" using spec(2) [where k = i] by (meson linorder_not_less order.refl)
    with i have lt: "?i < length xs" by simp
    with spec(3) [where k = ?i] have "key \<le> f (xs ! ?i)" by simp
    moreover have "f (xs ! ?i) \<le> f (xs ! i)"
    proof (cases "?i = i")
      case False
      with \<open>?i \<le> i\<close> have "?i < i" by simp
      with assms i show ?thesis by (auto simp: sorted_wrt_iff_nth_less intro: less_imp_le)
    qed simp
    ultimately have eq: "f (xs ! ?i) = key" using i by simp
    with lt have "search_by_key f xs key = Some (xs ! ?i)"
      by (simp add: search_by_key_def Let_def)
    moreover have "find (\<lambda>x. f x = key) xs = Some (xs ! ?i)"
    proof -
      have "f (xs ! j) \<noteq> key" if "j < ?i" for j
        using inj [of j ?i] that lt eq by auto
      with lt eq show ?thesis unfolding find_Some_iff by blast
    qed
    ultimately show ?thesis by simp
  next
    case False
    then have "search_by_key f xs key = None"
      using spec(1) by (auto simp: search_by_key_def Let_def)
    moreover from False have "find (\<lambda>x. f x = key) xs = None"
      by (auto simp: find_None_iff in_set_conv_nth)
    ultimately show ?thesis by simp
  qed
qed

lemma search_by_key_Some:
  "search_by_key f xs key = Some x \<Longrightarrow> sort_Search (length xs) (\<lambda>i. f (xs ! i) \<ge> key) \<le> length xs
    \<Longrightarrow> x \<in> set xs \<and> f x = key"
  by (auto simp: search_by_key_def Let_def split: if_splits)

lemma sort_Search_loop_le: "i \<le> j \<Longrightarrow> sort_Search_loop f i j \<le> j"
proof (induction f i j rule: sort_Search_loop.induct)
  case (1 f i j)
  define h where "h = (i + j) div 2"
  show ?case
  proof (cases "i < j")
    case True
    with h_def have "i \<le> h" "h < j" by auto
    with "1.IH"(1) [OF True h_def] "1.IH"(2) [OF True h_def] True show ?thesis
      by (auto simp: sort_Search_loop.simps [of f i j] simp flip: h_def)
  next
    case False
    then have "sort_Search_loop f i j = i" by (simp add: sort_Search_loop.simps [of f i j])
    with "1.prems" show ?thesis by simp
  qed
qed

lemma search_by_key_SomeD:
  "search_by_key f xs key = Some x \<Longrightarrow> x \<in> set xs \<and> f x = key"
  by (erule search_by_key_Some) (simp add: sort_Search_def sort_Search_loop_le)


section \<open>Time\<close>

type_synonym gotime = int

definition zero_time :: gotime where
  "zero_time = - 62135596800000000000"

definition UnixMilli :: "gotime \<Rightarrow> int" where
  "UnixMilli t = t div 1000000"

definition time_of_millis :: "int \<Rightarrow> gotime" where
  "time_of_millis v = v * 1000000"

definition add_millis :: "gotime \<Rightarrow> nat \<Rightarrow> gotime" where
  "add_millis t d = t + int d * 1000000"

lemma UnixMilli_of_millis [simp]: "UnixMilli (time_of_millis v) = v"
  by (simp add: UnixMilli_def time_of_millis_def)

lemma UnixMilli_add_millis [simp]: "UnixMilli (add_millis t d) = UnixMilli t + int d"
  by (simp add: UnixMilli_def add_millis_def)

lemma UnixMilli_zero_time [simp]: "UnixMilli zero_time = - 62135596800000"
  by (simp add: UnixMilli_def zero_time_def)

lemma pos_millis_not_zero_time: "0 < UnixMilli t \<Longrightarrow> t \<noteq> zero_time"
  by auto


section \<open>Fixed-width integers\<close>

definition u8_succ :: "nat \<Rightarrow> nat" where
  "u8_succ a = (a + 1) mod 256"

lemma u8_succ_small [simp]: "a < 255 \<Longrightarrow> u8_succ a = Suc a"
  by (simp add: u8_succ_def)

text \<open>The range of \<open>int64\<close>.\<close>

definition int64 :: "int \<Rightarrow> bool" where
  "int64 i \<longleftrightarrow> - (2 ^ 63) \<le> i \<and> i < 2 ^ 63"


section \<open>Lists\<close>

lemma sorted_wrt_less_sort:
  "distinct xs \<Longrightarrow> sorted_wrt (<) (sort (xs :: 'a :: linorder list))"
  by (simp add: strict_sorted_iff)

lemma sort_sorted_id: "sorted_wrt (<) (xs :: 'a :: linorder list) \<Longrightarrow> sort xs = xs"
  by (simp add: sorted_sort_id strict_sorted_imp_sorted)

lemma prefix_length_eq: "prefix xs ys \<Longrightarrow> length xs = length ys \<Longrightarrow> xs = ys"
  by (auto simp: prefix_def)

end
