(* ===== verification/Go_Encoding.thy ===== *)
theory Go_Encoding
  imports Go_Prelude
begin

text \<open>
  Strings, hexadecimal, JSON and hashing, as far as the control plane uses them:
  \<open>unicode/utf8\<close> decoding (the loop \<open>for _, r := range s\<close>), \<open>strings.ToLower\<close> and
  \<open>strings.Trim\<close> on digests, \<open>encoding/hex\<close>, and the part of \<open>json.Marshal\<close> that writes
  objects of strings, integers, booleans, arrays and \<open>null\<close> with HTML escaping on.

  SHA-256 is a parameter \<open>H\<close> of every definition that hashes, from the bytes hashed to the
  bytes of the sum. No theorem depends on which function it is. Those that need it to
  produce digests the validators accept assume \<open>sum256 H\<close>: 32 bytes, never all zero. Those
  that need two contents with the same identity to be equal say so for the contents at hand.
\<close>


section \<open>UTF-8\<close>

abbreviation byte_of :: "char \<Rightarrow> nat" where
  "byte_of \<equiv> of_char"

definition cont_byte :: "nat \<Rightarrow> bool" where
  "cont_byte b \<longleftrightarrow> 128 \<le> b \<and> b \<le> 191"

definition lead2 :: "nat \<Rightarrow> nat \<Rightarrow> bool" where
  "lead2 b0 b1 \<longleftrightarrow> 194 \<le> b0 \<and> b0 \<le> 223 \<and> cont_byte b1"

definition lead3 :: "nat \<Rightarrow> nat \<Rightarrow> nat \<Rightarrow> bool" where
  "lead3 b0 b1 b2 \<longleftrightarrow>
     (b0 = 224 \<and> 160 \<le> b1 \<and> b1 \<le> 191 \<or> b0 = 237 \<and> 128 \<le> b1 \<and> b1 \<le> 159
      \<or> 225 \<le> b0 \<and> b0 \<le> 239 \<and> b0 \<noteq> 237 \<and> cont_byte b1) \<and> cont_byte b2"

definition lead4 :: "nat \<Rightarrow> nat \<Rightarrow> nat \<Rightarrow> nat \<Rightarrow> bool" where
  "lead4 b0 b1 b2 b3 \<longleftrightarrow>
     (b0 = 240 \<and> 144 \<le> b1 \<and> b1 \<le> 191 \<or> b0 = 244 \<and> 128 \<le> b1 \<and> b1 \<le> 143
      \<or> 241 \<le> b0 \<and> b0 \<le> 243 \<and> cont_byte b1) \<and> cont_byte b2 \<and> cont_byte b3"

definition rune2 :: "nat \<Rightarrow> nat \<Rightarrow> nat" where
  "rune2 b0 b1 = (b0 - 192) * 64 + (b1 - 128)"

definition rune3 :: "nat \<Rightarrow> nat \<Rightarrow> nat \<Rightarrow> nat" where
  "rune3 b0 b1 b2 = (b0 - 224) * 4096 + (b1 - 128) * 64 + (b2 - 128)"

definition rune4 :: "nat \<Rightarrow> nat \<Rightarrow> nat \<Rightarrow> nat \<Rightarrow> nat" where
  "rune4 b0 b1 b2 b3 =
     (b0 - 240) * 262144 + (b1 - 128) * 4096 + (b2 - 128) * 64 + (b3 - 128)"

text \<open>Rune and width of the first character; an invalid sequence is \<open>U+FFFD\<close> of width 1.\<close>

definition utf8_first :: "nat list \<Rightarrow> nat \<times> nat" where
  "utf8_first bs =
     (case bs of
        [] \<Rightarrow> (65533, 0)
      | b0 # r0 \<Rightarrow>
          if b0 < 128 then (b0, 1)
          else (case r0 of
                  [] \<Rightarrow> (65533, 1)
                | b1 # r1 \<Rightarrow>
                    if lead2 b0 b1 then (rune2 b0 b1, 2)
                    else (case r1 of
                            [] \<Rightarrow> (65533, 1)
                          | b2 # r2 \<Rightarrow>
                              if lead3 b0 b1 b2 then (rune3 b0 b1 b2, 3)
                              else (case r2 of
                                      [] \<Rightarrow> (65533, 1)
                                    | b3 # _ \<Rightarrow>
                                        if lead4 b0 b1 b2 b3 then (rune4 b0 b1 b2 b3, 4)
                                        else (65533, 1)))))"

lemma lead_runes:
  "lead2 b0 b1 \<Longrightarrow> 128 \<le> rune2 b0 b1"
  "lead3 b0 b1 b2 \<Longrightarrow> 128 \<le> rune3 b0 b1 b2"
  "lead4 b0 b1 b2 b3 \<Longrightarrow> 128 \<le> rune4 b0 b1 b2 b3"
  unfolding lead2_def lead3_def lead4_def rune2_def rune3_def rune4_def by linarith+

lemma lead_conts:
  "lead2 b0 b1 \<Longrightarrow> 128 \<le> b1"
  "lead3 b0 b1 b2 \<Longrightarrow> 128 \<le> b1 \<and> 128 \<le> b2"
  "lead4 b0 b1 b2 b3 \<Longrightarrow> 128 \<le> b1 \<and> 128 \<le> b2 \<and> 128 \<le> b3"
  unfolding lead2_def lead3_def lead4_def cont_byte_def by linarith+

lemma utf8_first_width: "bs \<noteq> [] \<Longrightarrow> 0 < snd (utf8_first bs)"
  by (auto simp: utf8_first_def split: list.splits)

lemma utf8_first_ascii [simp]: "b < 128 \<Longrightarrow> utf8_first (b # r) = (b, 1)"
  by (simp add: utf8_first_def)

lemma utf8_first_high_fst: "128 \<le> b \<Longrightarrow> 128 \<le> fst (utf8_first (b # r))"
  by (simp add: utf8_first_def lead_runes split: list.split)

lemma utf8_first_high_rest:
  "128 \<le> b \<Longrightarrow> x \<in> set (take (snd (utf8_first (b # r)) - 1) r) \<Longrightarrow> 128 \<le> x"
  by (auto simp: utf8_first_def numeral_3_eq_3 numeral_2_eq_2 dest: lead_conts
      split: list.splits if_splits)

text \<open>The runes a \<open>range\<close> loop over a string visits.\<close>

function runes_of :: "nat list \<Rightarrow> nat list" where
  "runes_of bs =
     (if bs = [] then []
      else fst (utf8_first bs) # runes_of (drop (snd (utf8_first bs)) bs))"
  by pat_completeness auto
termination
  by (relation "measure length") (auto simp: utf8_first_width)

declare runes_of.simps [simp del]

definition go_runes :: "string \<Rightarrow> nat list" where
  "go_runes s = runes_of (map of_char s)"

text \<open>A rune below 128 stands for itself, so a test on such runes is a test on bytes.\<close>

lemma runes_of_low:
  assumes "\<And>x. 128 \<le> x \<Longrightarrow> \<not> P x"
  shows "(\<exists>r \<in> set (runes_of bs). P r) \<longleftrightarrow> (\<exists>b \<in> set bs. P b)"
proof (induction bs rule: runes_of.induct)
  case (1 bs)
  show ?case
  proof (cases bs)
    case Nil
    then show ?thesis by (simp add: runes_of.simps)
  next
    case (Cons b r)
    define w where "w = snd (utf8_first (b # r))"
    have w: "0 < w" using utf8_first_width [of "b # r"] by (simp add: w_def)
    have IH: "(\<exists>r \<in> set (runes_of (drop w bs)). P r) \<longleftrightarrow> (\<exists>b \<in> set (drop w bs). P b)"
      using 1 Cons by (simp add: w_def)
    have split: "set bs = insert b (set (take (w - 1) r) \<union> set (drop w bs))"
      using w Cons by (cases w) (auto simp flip: set_append)
    show ?thesis
    proof (cases "b < 128")
      case True
      with IH split show ?thesis
        unfolding runes_of.simps [of bs] using Cons by (simp add: w_def)
    next
      case False
      then have "128 \<le> b" by simp
      with utf8_first_high_fst [OF this, of r] utf8_first_high_rest [OF this, of _ r] assms
      have none: "\<not> P b" "\<not> P (fst (utf8_first (b # r)))" "\<forall>x\<in>set (take (w - 1) r). \<not> P x"
        by (auto simp: w_def)
      have "(\<exists>x\<in>set bs. P x) \<longleftrightarrow> (\<exists>x\<in>set (drop w bs). P x)"
        unfolding split using none by blast
      moreover have "(\<exists>x\<in>set (runes_of bs). P x) \<longleftrightarrow> (\<exists>x\<in>set (runes_of (drop w bs)). P x)"
        unfolding runes_of.simps [of bs] using none Cons by (simp add: w_def)
      ultimately show ?thesis using IH by simp
    qed
  qed
qed


section \<open>Digests in hexadecimal\<close>

definition lower_hex :: "char \<Rightarrow> bool" where
  "lower_hex c \<longleftrightarrow> 48 \<le> byte_of c \<and> byte_of c \<le> (57::nat) \<or> 97 \<le> byte_of c \<and> byte_of c \<le> (102::nat)"

definition upper_hex :: "char \<Rightarrow> bool" where
  "upper_hex c \<longleftrightarrow> 65 \<le> byte_of c \<and> byte_of c \<le> (70::nat)"

text \<open>
  \<open>strings.ToLower\<close> on ASCII; a digest with a byte outside ASCII is refused by
  \<open>hex.DecodeString\<close> whatever its lower case is.
\<close>

definition lower_char :: "char \<Rightarrow> char" where
  "lower_char c = (if 65 \<le> byte_of c \<and> byte_of c \<le> 90 then char_of (byte_of c + 32) else c)"

definition strings_ToLower :: "string \<Rightarrow> string" where
  "strings_ToLower s = map lower_char s"

text \<open>\<open>strings.Trim(s, "0")\<close>: zeros removed at both ends.\<close>

definition strings_Trim_zeros :: "string \<Rightarrow> string" where
  "strings_Trim_zeros s =
     rev (dropWhile (\<lambda>c. c = CHR ''0'') (rev (dropWhile (\<lambda>c. c = CHR ''0'') s)))"

text \<open>Whether \<open>hex.DecodeString\<close> accepts its argument.\<close>

definition hex_DecodeString_ok :: "string \<Rightarrow> bool" where
  "hex_DecodeString_ok s \<longleftrightarrow> even (length s) \<and> list_all (\<lambda>c. lower_hex c \<or> upper_hex c) s"

definition hexdigit :: "nat \<Rightarrow> char" where
  "hexdigit n = ''0123456789abcdef'' ! (n mod 16)"

definition hex_EncodeToString :: "string \<Rightarrow> string" where
  "hex_EncodeToString bs = concat (map (\<lambda>c. [hexdigit (byte_of c div 16), hexdigit (byte_of c)]) bs)"

lemma strings_Trim_zeros_empty:
  "strings_Trim_zeros s = [] \<longleftrightarrow> (\<forall>c\<in>set s. c = CHR ''0'')"
proof
  assume "strings_Trim_zeros s = []"
  then have all: "\<forall>c\<in>set (dropWhile (\<lambda>c. c = CHR ''0'') s). c = CHR ''0''"
    by (simp only: strings_Trim_zeros_def rev_is_Nil_conv dropWhile_eq_Nil_conv set_rev)
  have "dropWhile (\<lambda>c. c = CHR ''0'') s = []"
  proof (rule ccontr)
    assume ne: "dropWhile (\<lambda>c. c = CHR ''0'') s \<noteq> []"
    from hd_dropWhile [OF ne] all hd_in_set [OF ne] show False by blast
  qed
  then show "\<forall>c\<in>set s. c = CHR ''0''" by (simp only: dropWhile_eq_Nil_conv)
next
  assume "\<forall>c\<in>set s. c = CHR ''0''"
  then have d: "dropWhile (\<lambda>c. c = CHR ''0'') s = []" by (simp only: dropWhile_eq_Nil_conv)
  show "strings_Trim_zeros s = []"
    by (simp only: strings_Trim_zeros_def d rev.simps dropWhile.simps)
qed

lemma lower_char_hex: "lower_hex c \<Longrightarrow> lower_char c = c"
  by (auto simp: lower_hex_def lower_char_def)

lemma length_hex_EncodeToString [simp]: "length (hex_EncodeToString bs) = 2 * length bs"
  by (induction bs) (auto simp: hex_EncodeToString_def)

lemma hexdigit_table:
  "list_all (\<lambda>n. lower_hex (hexdigit n) \<and> (hexdigit n = CHR ''0'' \<longrightarrow> n = 0)) [0..<16]"
  by code_simp

lemma hexdigit_mod: "hexdigit (n mod 16) = hexdigit n"
  by (simp add: hexdigit_def)

lemma hexdigit_facts:
  "lower_hex (hexdigit (n mod 16)) \<and> (hexdigit (n mod 16) = CHR ''0'' \<longrightarrow> n mod 16 = 0)"
proof -
  have "n mod 16 \<in> set [0..<16]" by simp
  with hexdigit_table show ?thesis unfolding list_all_iff by blast
qed

lemma lower_hex_hexdigit: "lower_hex (hexdigit n)"
  using hexdigit_facts [of n] by (simp only: hexdigit_mod)

lemma hexdigit_zero: "hexdigit n = CHR ''0'' \<Longrightarrow> n mod 16 = 0"
  using hexdigit_facts [of n] by (simp only: hexdigit_mod)

lemma lower_hex_EncodeToString: "c \<in> set (hex_EncodeToString bs) \<Longrightarrow> lower_hex c"
  by (induction bs) (auto simp: hex_EncodeToString_def lower_hex_hexdigit)

lemma byte_of_less: "byte_of c < 256"
  by simp

lemma hex_byte_zero:
  "hexdigit (byte_of c div 16) = CHR ''0'' \<Longrightarrow> hexdigit (byte_of c) = CHR ''0'' \<Longrightarrow> byte_of c = 0"
proof -
  define b where "b = byte_of c"
  assume "hexdigit (byte_of c div 16) = CHR ''0''" and "hexdigit (byte_of c) = CHR ''0''"
  then have hi: "(b div 16) mod 16 = 0" and lo: "b mod 16 = 0"
    by (auto simp: b_def dest: hexdigit_zero)
  have "b div 16 < 16" using byte_of_less [of c] unfolding b_def by (simp add: less_mult_imp_div_less)
  with hi have "b div 16 = 0" by simp
  with lo have "b = 0" by (metis div_mult_mod_eq add.right_neutral mult_zero_left)
  then show "byte_of c = 0" by (simp add: b_def)
qed

lemma hex_EncodeToString_zero:
  "\<forall>c\<in>set (hex_EncodeToString bs). c = CHR ''0'' \<Longrightarrow> \<forall>c\<in>set bs. byte_of c = 0"
proof (induction bs)
  case (Cons b bs)
  then show ?case using hex_byte_zero [of b] by (simp add: hex_EncodeToString_def)
qed simp


section \<open>JSON\<close>

datatype json =
    JStr string
  | JInt int
  | JBool bool
  | JNull
  | JArr "json list"
  | JObj "(string \<times> json) list"

text \<open>
  \<open>appendString\<close> of \<open>encoding/json\<close> with HTML escaping: quotes and backslashes are escaped,
  control characters and \<open><\<close>, \<open>>\<close>, \<open>&\<close> are written as \<open>\u00xx\<close>, an invalid UTF-8 byte is
  written as \<open>\ufffd\<close>, the line separators \<open>U+2028\<close> and \<open>U+2029\<close> are escaped, and every other
  character is copied.
\<close>

definition json_ascii :: "nat \<Rightarrow> string" where
  "json_ascii b =
     (if b = 34 \<or> b = 92 then [CHR 92, char_of b]
      else if b = 8 then [CHR 92, CHR ''b'']
      else if b = 12 then [CHR 92, CHR ''f'']
      else if b = 10 then [CHR 92, CHR ''n'']
      else if b = 13 then [CHR 92, CHR ''r'']
      else if b = 9 then [CHR 92, CHR ''t'']
      else if b < 32 \<or> b = 60 \<or> b = 62 \<or> b = 38
      then CHR 92 # ''u00'' @ [hexdigit (b div 16), hexdigit b]
      else [char_of b])"

function json_bytes :: "nat list \<Rightarrow> string" where
  "json_bytes bs =
     (if bs = [] then []
      else (let (r, w) = utf8_first bs
            in (if hd bs < 128 then json_ascii (hd bs)
                else if r = 65533 \<and> w = 1 then CHR 92 # ''ufffd''
                else if r = 8232 then CHR 92 # ''u2028''
                else if r = 8233 then CHR 92 # ''u2029''
                else map char_of (take w bs))
               @ json_bytes (drop (snd (utf8_first bs)) bs)))"
  by pat_completeness auto
termination
  by (relation "measure length") (auto simp: utf8_first_width)

declare json_bytes.simps [simp del]

definition json_string :: "string \<Rightarrow> string" where
  "json_string s = CHR 34 # json_bytes (map of_char s) @ [CHR 34]"

fun dec_digits :: "nat \<Rightarrow> string" where
  "dec_digits n =
     (if n < 10 then [char_of (48 + n)] else dec_digits (n div 10) @ [char_of (48 + n mod 10)])"

declare dec_digits.simps [simp del]

definition dec_int :: "int \<Rightarrow> string" where
  "dec_int i = (if i < 0 then CHR ''-'' # dec_digits (nat (- i)) else dec_digits (nat i))"

fun json_commas :: "string list \<Rightarrow> string" where
  "json_commas [] = []"
| "json_commas [x] = x"
| "json_commas (x # y # ys) = x @ CHR '','' # json_commas (y # ys)"

fun json_Marshal :: "json \<Rightarrow> string" where
  "json_Marshal (JStr s) = json_string s"
| "json_Marshal (JInt i) = dec_int i"
| "json_Marshal (JBool b) = (if b then ''true'' else ''false'')"
| "json_Marshal JNull = ''null''"
| "json_Marshal (JArr xs) = CHR ''['' # json_commas (map json_Marshal xs) @ '']''"
| "json_Marshal (JObj fs) =
     CHR ''{'' # json_commas (map (\<lambda>(k, v). json_string k @ CHR '':'' # json_Marshal v) fs) @ ''}''"

text \<open>A \<open>[]string\<close>: a nil slice is \<open>null\<close>.\<close>

definition json_strings :: "string list \<Rightarrow> json" where
  "json_strings xs = JArr (map JStr xs)"

definition json_nilable_strings :: "string list \<Rightarrow> json" where
  "json_nilable_strings xs = (if xs = [] then JNull else json_strings xs)"


section \<open>Content identities\<close>

type_synonym sha = "string \<Rightarrow> string"

definition sum256 :: "sha \<Rightarrow> bool" where
  "sum256 H \<longleftrightarrow> (\<forall>s. length (H s) = 32 \<and> (\<exists>c\<in>set (H s). byte_of c \<noteq> 0))"

definition hashControlPlaneValue :: "sha \<Rightarrow> json \<Rightarrow> string" where
  "hashControlPlaneValue H value = hex_EncodeToString (H (json_Marshal value))"

definition validControlPlaneDigest :: "string \<Rightarrow> bool" where
  "validControlPlaneDigest value =
     (if length value \<noteq> 64 \<or> value \<noteq> strings_ToLower value \<or> strings_Trim_zeros value = []
      then False
      else hex_DecodeString_ok value)"

lemma lower_not_upper: "lower_char c = c \<Longrightarrow> upper_hex c \<Longrightarrow> False"
proof -
  assume "lower_char c = c" and u: "upper_hex c"
  then have "char_of (byte_of c + 32) = c"
    by (auto simp: lower_char_def upper_hex_def split: if_splits)
  then have "of_char (char_of (byte_of c + 32) :: char) = byte_of c" by simp
  then have eq: "(byte_of c + 32) mod 256 = byte_of c" by (simp only: of_char_of)
  define b where "b = byte_of c"
  have "b + 32 < 256" using u by (simp add: upper_hex_def b_def)
  with eq [folded b_def] show False by simp
qed

lemma validControlPlaneDigest_iff:
  "validControlPlaneDigest v \<longleftrightarrow>
     length v = 64 \<and> (\<forall>c\<in>set v. lower_hex c) \<and> (\<exists>c\<in>set v. c \<noteq> CHR ''0'')"
proof
  assume v: "validControlPlaneDigest v"
  then have eq: "map lower_char v = v" and hex: "list_all (\<lambda>c. lower_hex c \<or> upper_hex c) v"
    by (auto simp: validControlPlaneDigest_def strings_ToLower_def hex_DecodeString_ok_def split: if_splits)
  have "\<forall>c\<in>set v. lower_char c = c" using map_eq_conv [of lower_char v "\<lambda>c. c"] eq by simp
  with hex have "\<forall>c\<in>set v. lower_hex c" by (auto simp: list_all_iff dest: lower_not_upper)
  with v show "length v = 64 \<and> (\<forall>c\<in>set v. lower_hex c) \<and> (\<exists>c\<in>set v. c \<noteq> CHR ''0'')"
    by (auto simp: validControlPlaneDigest_def strings_Trim_zeros_empty split: if_splits)
next
  assume v: "length v = 64 \<and> (\<forall>c\<in>set v. lower_hex c) \<and> (\<exists>c\<in>set v. c \<noteq> CHR ''0'')"
  then have "strings_ToLower v = v"
    by (simp add: strings_ToLower_def lower_char_hex map_idI)
  with v show "validControlPlaneDigest v"
    by (auto simp: validControlPlaneDigest_def strings_Trim_zeros_empty hex_DecodeString_ok_def list_all_iff)
qed

lemma validControlPlaneDigest_nonempty [simp]: "\<not> validControlPlaneDigest []"
  by (simp add: validControlPlaneDigest_def)

lemma hash_valid: "sum256 H \<Longrightarrow> validControlPlaneDigest (hashControlPlaneValue H v)"
  unfolding validControlPlaneDigest_iff hashControlPlaneValue_def
  using hex_EncodeToString_zero lower_hex_EncodeToString by (fastforce simp: sum256_def)

end
