(* ===== verification/Cp_Errors.thy ===== *)
theory Cp_Errors
  imports Main
begin

text \<open>
  The error values of the packages \<open>audit\<close> and \<open>controlplane\<close>, one datatype per source file in
  the order of its \<open>var\<close> block, and their union \<open>error\<close>. The code compares errors by identity
  (\<open>errors.Is\<close>), so a constructor without arguments stands for each; the \<open>Err\<close> names are those
  of the source.
\<close>

text \<open>audit/event.go\<close>

datatype audit_error =
    InvalidAuditScopeIdentifier
  | InvalidAuditScopeIdentity
  | InvalidAuditEventKind
  | InvalidAuditSequence
  | InvalidAuditPreviousIdentity
  | InvalidAuditSubjectIdentity
  | TooManyAuditCausalParents
  | DuplicateAuditCausalParent
  | InvalidAuditEventTime
  | InvalidAuditEventIdentity
  | InvalidAuditEventEncoding

text \<open>audit/ledger.go\<close>

datatype audit_ledger_error =
    InvalidAuditLedger
  | InvalidAuditContext
  | AuditContextDone
  | InvalidAuditExpectedHead
  | AuditHeadConflict
  | AuditChainMismatch
  | InvalidAuditReadLimit

text \<open>audit/file\_ledger.go\<close>

datatype file_ledger_error =
    InvalidAuditLedgerRoot
  | AuditLedgerLocked
  | AuditLedgerClosed
  | CorruptAuditStream
  | AuditStreamTooLarge
  | AuditPersistence

text \<open>controlplane/run\_plan.go\<close>

datatype run_plan_error =
    InvalidReviewRunMode
  | InvalidReviewRunIdentity
  | InvalidReviewRunRequest
  | InvalidReviewRunPolicy
  | InvalidReviewRunTaskCount
  | DuplicateReviewRunTask
  | ReviewRunTaskDependencyMissing
  | ReviewRunTaskCycle
  | ReviewRunSafetyDependencyMissing
  | ReviewRunPublicationNotAllowed
  | InvalidReviewTaskKey
  | InvalidReviewTaskKind
  | InvalidReviewTaskInput
  | InvalidReviewTaskHandler
  | InvalidReviewTaskAttempts
  | InvalidReviewTaskRetry
  | InvalidReviewTaskLease
  | ReviewRunTaskSelfDependency
  | DuplicateReviewTaskDependency
  | InvalidReviewTaskIdentity
  | ReviewRunResultTaskAmbiguous

text \<open>controlplane/run\_plan\_encoding.go\<close>

datatype run_plan_encoding_error =
    InvalidReviewRunPlanEncoding

text \<open>controlplane/run\_event.go\<close>

datatype run_event_error =
    InvalidRunEventKind
  | InvalidRunEventSequence
  | InvalidRunEventPreviousIdentity
  | InvalidRunEventTask
  | InvalidRunEventAttempt
  | InvalidRunEventLease
  | InvalidRunEventOutput
  | InvalidRunEventFailure
  | InvalidRunEventTime
  | InvalidRunEventIdentity

text \<open>controlplane/run\_event\_encoding.go\<close>

datatype run_event_encoding_error =
    InvalidRunEventEncoding

text \<open>controlplane/run\_state.go\<close>

datatype run_state_error =
    RunEventPlanMismatch
  | RunEventScopeMismatch
  | RunTransitionSequenceMismatch
  | RunTransitionInvalid
  | RunTransitionDependencyBlocked
  | RunTransitionLeaseMismatch
  | RunTransitionAttemptLimit
  | RunAlreadyTerminal
  | InvalidReviewRunState

text \<open>controlplane/run\_journal.go\<close>

datatype run_journal_error =
    InvalidRunJournal
  | InvalidRunJournalContext
  | RunJournalContextDone
  | RunJournalHeadConflict
  | RunJournalSequenceMismatch
  | RunJournalChainMismatch
  | InvalidRunJournalReadLimit
  | RunPlanConflict
  | InvalidRunPlanQuery

text \<open>controlplane/file\_run\_journal.go\<close>

datatype file_journal_error =
    InvalidRunJournalRoot
  | RunJournalLocked
  | RunJournalClosed
  | CorruptRunJournalStream
  | RunJournalStreamTooLarge
  | RunJournalPersistence

text \<open>controlplane/coordinator.go\<close>

datatype coordinator_error =
    InvalidCoordinator
  | InvalidCoordinatorJournal
  | RunNotOpened
  | ReviewTaskNotFound
  | TaskAlreadyCompleted
  | InvalidTaskLease
  | InvalidTaskLeaseIdentity
  | InvalidTaskCompletion
  | InvalidTaskCompletionIdentity
  | CoordinatorContention
  | CoordinatorRandomness
  | TaskLeaseRenewalLimit

text \<open>controlplane/task\_wire.go\<close>

datatype task_wire_error =
    InvalidTaskLeaseEncoding
  | InvalidTaskCompletionEncoding

text \<open>controlplane/run\_finalizer.go\<close>

datatype finalizer_error =
    InvalidRunFinalizer

text \<open>controlplane/run\_receipt.go\<close>

datatype receipt_error =
    InvalidReviewRunReceipt
  | InvalidReviewRunReceiptIdentity
  | InvalidReviewRunReceiptEncoding

text \<open>controlplane/task\_handler.go\<close>

datatype handler_error =
    InvalidTaskHandler
  | InvalidTaskHandlerCatalog
  | DuplicateTaskHandler
  | TaskHandlerNotRegistered
  | TaskHandlerKindMismatch
  | InvalidTaskExecutionRequest
  | InvalidTaskExecutionRequestIdentity
  | TaskDependencyOutputMismatch

text \<open>controlplane/task\_notification.go\<close>

datatype notification_error =
    InvalidTaskNotification
  | InvalidTaskNotificationEncoding
  | InvalidTaskNotificationQueue
  | TaskNotificationConflict
  | TaskNotificationLeaseMismatch
  | TaskNotificationWaitCanceled

text \<open>controlplane/task\_notification\_supervisor.go\<close>

datatype supervisor_error =
    InvalidTaskNotificationSupervisor
  | TaskNotificationSupervisorRunning
  | TaskNotificationSupervisorUnavailable

datatype error =
    AuditError audit_error
  | AuditLedgerError audit_ledger_error
  | FileLedgerError file_ledger_error
  | RunPlanError run_plan_error
  | RunPlanEncodingError run_plan_encoding_error
  | RunEventError run_event_error
  | RunEventEncodingError run_event_encoding_error
  | RunStateError run_state_error
  | RunJournalError run_journal_error
  | FileJournalError file_journal_error
  | CoordinatorError coordinator_error
  | TaskWireError task_wire_error
  | FinalizerError finalizer_error
  | ReceiptError receipt_error
  | HandlerError handler_error
  | NotificationError notification_error
  | SupervisorError supervisor_error

abbreviation ErrInvalidAuditScopeIdentifier :: error where
  "ErrInvalidAuditScopeIdentifier \<equiv> AuditError InvalidAuditScopeIdentifier"

abbreviation ErrInvalidAuditScopeIdentity :: error where
  "ErrInvalidAuditScopeIdentity \<equiv> AuditError InvalidAuditScopeIdentity"

abbreviation ErrInvalidAuditEventKind :: error where
  "ErrInvalidAuditEventKind \<equiv> AuditError InvalidAuditEventKind"

abbreviation ErrInvalidAuditSequence :: error where
  "ErrInvalidAuditSequence \<equiv> AuditError InvalidAuditSequence"

abbreviation ErrInvalidAuditPreviousIdentity :: error where
  "ErrInvalidAuditPreviousIdentity \<equiv> AuditError InvalidAuditPreviousIdentity"

abbreviation ErrInvalidAuditSubjectIdentity :: error where
  "ErrInvalidAuditSubjectIdentity \<equiv> AuditError InvalidAuditSubjectIdentity"

abbreviation ErrTooManyAuditCausalParents :: error where
  "ErrTooManyAuditCausalParents \<equiv> AuditError TooManyAuditCausalParents"

abbreviation ErrDuplicateAuditCausalParent :: error where
  "ErrDuplicateAuditCausalParent \<equiv> AuditError DuplicateAuditCausalParent"

abbreviation ErrInvalidAuditEventTime :: error where
  "ErrInvalidAuditEventTime \<equiv> AuditError InvalidAuditEventTime"

abbreviation ErrInvalidAuditEventIdentity :: error where
  "ErrInvalidAuditEventIdentity \<equiv> AuditError InvalidAuditEventIdentity"

abbreviation ErrInvalidAuditEventEncoding :: error where
  "ErrInvalidAuditEventEncoding \<equiv> AuditError InvalidAuditEventEncoding"

abbreviation ErrInvalidAuditLedger :: error where
  "ErrInvalidAuditLedger \<equiv> AuditLedgerError InvalidAuditLedger"

abbreviation ErrInvalidAuditContext :: error where
  "ErrInvalidAuditContext \<equiv> AuditLedgerError InvalidAuditContext"

abbreviation ErrAuditContextDone :: error where
  "ErrAuditContextDone \<equiv> AuditLedgerError AuditContextDone"

abbreviation ErrInvalidAuditExpectedHead :: error where
  "ErrInvalidAuditExpectedHead \<equiv> AuditLedgerError InvalidAuditExpectedHead"

abbreviation ErrAuditHeadConflict :: error where
  "ErrAuditHeadConflict \<equiv> AuditLedgerError AuditHeadConflict"

abbreviation ErrAuditChainMismatch :: error where
  "ErrAuditChainMismatch \<equiv> AuditLedgerError AuditChainMismatch"

abbreviation ErrInvalidAuditReadLimit :: error where
  "ErrInvalidAuditReadLimit \<equiv> AuditLedgerError InvalidAuditReadLimit"

abbreviation ErrInvalidAuditLedgerRoot :: error where
  "ErrInvalidAuditLedgerRoot \<equiv> FileLedgerError InvalidAuditLedgerRoot"

abbreviation ErrAuditLedgerLocked :: error where
  "ErrAuditLedgerLocked \<equiv> FileLedgerError AuditLedgerLocked"

abbreviation ErrAuditLedgerClosed :: error where
  "ErrAuditLedgerClosed \<equiv> FileLedgerError AuditLedgerClosed"

abbreviation ErrCorruptAuditStream :: error where
  "ErrCorruptAuditStream \<equiv> FileLedgerError CorruptAuditStream"

abbreviation ErrAuditStreamTooLarge :: error where
  "ErrAuditStreamTooLarge \<equiv> FileLedgerError AuditStreamTooLarge"

abbreviation ErrAuditPersistence :: error where
  "ErrAuditPersistence \<equiv> FileLedgerError AuditPersistence"

abbreviation ErrInvalidReviewRunMode :: error where
  "ErrInvalidReviewRunMode \<equiv> RunPlanError InvalidReviewRunMode"

abbreviation ErrInvalidReviewRunIdentity :: error where
  "ErrInvalidReviewRunIdentity \<equiv> RunPlanError InvalidReviewRunIdentity"

abbreviation ErrInvalidReviewRunRequest :: error where
  "ErrInvalidReviewRunRequest \<equiv> RunPlanError InvalidReviewRunRequest"

abbreviation ErrInvalidReviewRunPolicy :: error where
  "ErrInvalidReviewRunPolicy \<equiv> RunPlanError InvalidReviewRunPolicy"

abbreviation ErrInvalidReviewRunTaskCount :: error where
  "ErrInvalidReviewRunTaskCount \<equiv> RunPlanError InvalidReviewRunTaskCount"

abbreviation ErrDuplicateReviewRunTask :: error where
  "ErrDuplicateReviewRunTask \<equiv> RunPlanError DuplicateReviewRunTask"

abbreviation ErrReviewRunTaskDependencyMissing :: error where
  "ErrReviewRunTaskDependencyMissing \<equiv> RunPlanError ReviewRunTaskDependencyMissing"

abbreviation ErrReviewRunTaskCycle :: error where
  "ErrReviewRunTaskCycle \<equiv> RunPlanError ReviewRunTaskCycle"

abbreviation ErrReviewRunSafetyDependencyMissing :: error where
  "ErrReviewRunSafetyDependencyMissing \<equiv> RunPlanError ReviewRunSafetyDependencyMissing"

abbreviation ErrReviewRunPublicationNotAllowed :: error where
  "ErrReviewRunPublicationNotAllowed \<equiv> RunPlanError ReviewRunPublicationNotAllowed"

abbreviation ErrInvalidReviewTaskKey :: error where
  "ErrInvalidReviewTaskKey \<equiv> RunPlanError InvalidReviewTaskKey"

abbreviation ErrInvalidReviewTaskKind :: error where
  "ErrInvalidReviewTaskKind \<equiv> RunPlanError InvalidReviewTaskKind"

abbreviation ErrInvalidReviewTaskInput :: error where
  "ErrInvalidReviewTaskInput \<equiv> RunPlanError InvalidReviewTaskInput"

abbreviation ErrInvalidReviewTaskHandler :: error where
  "ErrInvalidReviewTaskHandler \<equiv> RunPlanError InvalidReviewTaskHandler"

abbreviation ErrInvalidReviewTaskAttempts :: error where
  "ErrInvalidReviewTaskAttempts \<equiv> RunPlanError InvalidReviewTaskAttempts"

abbreviation ErrInvalidReviewTaskRetry :: error where
  "ErrInvalidReviewTaskRetry \<equiv> RunPlanError InvalidReviewTaskRetry"

abbreviation ErrInvalidReviewTaskLease :: error where
  "ErrInvalidReviewTaskLease \<equiv> RunPlanError InvalidReviewTaskLease"

abbreviation ErrReviewRunTaskSelfDependency :: error where
  "ErrReviewRunTaskSelfDependency \<equiv> RunPlanError ReviewRunTaskSelfDependency"

abbreviation ErrDuplicateReviewTaskDependency :: error where
  "ErrDuplicateReviewTaskDependency \<equiv> RunPlanError DuplicateReviewTaskDependency"

abbreviation ErrInvalidReviewTaskIdentity :: error where
  "ErrInvalidReviewTaskIdentity \<equiv> RunPlanError InvalidReviewTaskIdentity"

abbreviation ErrReviewRunResultTaskAmbiguous :: error where
  "ErrReviewRunResultTaskAmbiguous \<equiv> RunPlanError ReviewRunResultTaskAmbiguous"

abbreviation ErrInvalidReviewRunPlanEncoding :: error where
  "ErrInvalidReviewRunPlanEncoding \<equiv> RunPlanEncodingError InvalidReviewRunPlanEncoding"

abbreviation ErrInvalidRunEventKind :: error where
  "ErrInvalidRunEventKind \<equiv> RunEventError InvalidRunEventKind"

abbreviation ErrInvalidRunEventSequence :: error where
  "ErrInvalidRunEventSequence \<equiv> RunEventError InvalidRunEventSequence"

abbreviation ErrInvalidRunEventPreviousIdentity :: error where
  "ErrInvalidRunEventPreviousIdentity \<equiv> RunEventError InvalidRunEventPreviousIdentity"

abbreviation ErrInvalidRunEventTask :: error where
  "ErrInvalidRunEventTask \<equiv> RunEventError InvalidRunEventTask"

abbreviation ErrInvalidRunEventAttempt :: error where
  "ErrInvalidRunEventAttempt \<equiv> RunEventError InvalidRunEventAttempt"

abbreviation ErrInvalidRunEventLease :: error where
  "ErrInvalidRunEventLease \<equiv> RunEventError InvalidRunEventLease"

abbreviation ErrInvalidRunEventOutput :: error where
  "ErrInvalidRunEventOutput \<equiv> RunEventError InvalidRunEventOutput"

abbreviation ErrInvalidRunEventFailure :: error where
  "ErrInvalidRunEventFailure \<equiv> RunEventError InvalidRunEventFailure"

abbreviation ErrInvalidRunEventTime :: error where
  "ErrInvalidRunEventTime \<equiv> RunEventError InvalidRunEventTime"

abbreviation ErrInvalidRunEventIdentity :: error where
  "ErrInvalidRunEventIdentity \<equiv> RunEventError InvalidRunEventIdentity"

abbreviation ErrInvalidRunEventEncoding :: error where
  "ErrInvalidRunEventEncoding \<equiv> RunEventEncodingError InvalidRunEventEncoding"

abbreviation ErrRunEventPlanMismatch :: error where
  "ErrRunEventPlanMismatch \<equiv> RunStateError RunEventPlanMismatch"

abbreviation ErrRunEventScopeMismatch :: error where
  "ErrRunEventScopeMismatch \<equiv> RunStateError RunEventScopeMismatch"

abbreviation ErrRunTransitionSequenceMismatch :: error where
  "ErrRunTransitionSequenceMismatch \<equiv> RunStateError RunTransitionSequenceMismatch"

abbreviation ErrRunTransitionInvalid :: error where
  "ErrRunTransitionInvalid \<equiv> RunStateError RunTransitionInvalid"

abbreviation ErrRunTransitionDependencyBlocked :: error where
  "ErrRunTransitionDependencyBlocked \<equiv> RunStateError RunTransitionDependencyBlocked"

abbreviation ErrRunTransitionLeaseMismatch :: error where
  "ErrRunTransitionLeaseMismatch \<equiv> RunStateError RunTransitionLeaseMismatch"

abbreviation ErrRunTransitionAttemptLimit :: error where
  "ErrRunTransitionAttemptLimit \<equiv> RunStateError RunTransitionAttemptLimit"

abbreviation ErrRunAlreadyTerminal :: error where
  "ErrRunAlreadyTerminal \<equiv> RunStateError RunAlreadyTerminal"

abbreviation ErrInvalidReviewRunState :: error where
  "ErrInvalidReviewRunState \<equiv> RunStateError InvalidReviewRunState"

abbreviation ErrInvalidRunJournal :: error where
  "ErrInvalidRunJournal \<equiv> RunJournalError InvalidRunJournal"

abbreviation ErrInvalidRunJournalContext :: error where
  "ErrInvalidRunJournalContext \<equiv> RunJournalError InvalidRunJournalContext"

abbreviation ErrRunJournalContextDone :: error where
  "ErrRunJournalContextDone \<equiv> RunJournalError RunJournalContextDone"

abbreviation ErrRunJournalHeadConflict :: error where
  "ErrRunJournalHeadConflict \<equiv> RunJournalError RunJournalHeadConflict"

abbreviation ErrRunJournalSequenceMismatch :: error where
  "ErrRunJournalSequenceMismatch \<equiv> RunJournalError RunJournalSequenceMismatch"

abbreviation ErrRunJournalChainMismatch :: error where
  "ErrRunJournalChainMismatch \<equiv> RunJournalError RunJournalChainMismatch"

abbreviation ErrInvalidRunJournalReadLimit :: error where
  "ErrInvalidRunJournalReadLimit \<equiv> RunJournalError InvalidRunJournalReadLimit"

abbreviation ErrRunPlanConflict :: error where
  "ErrRunPlanConflict \<equiv> RunJournalError RunPlanConflict"

abbreviation ErrInvalidRunPlanQuery :: error where
  "ErrInvalidRunPlanQuery \<equiv> RunJournalError InvalidRunPlanQuery"

abbreviation ErrInvalidRunJournalRoot :: error where
  "ErrInvalidRunJournalRoot \<equiv> FileJournalError InvalidRunJournalRoot"

abbreviation ErrRunJournalLocked :: error where
  "ErrRunJournalLocked \<equiv> FileJournalError RunJournalLocked"

abbreviation ErrRunJournalClosed :: error where
  "ErrRunJournalClosed \<equiv> FileJournalError RunJournalClosed"

abbreviation ErrCorruptRunJournalStream :: error where
  "ErrCorruptRunJournalStream \<equiv> FileJournalError CorruptRunJournalStream"

abbreviation ErrRunJournalStreamTooLarge :: error where
  "ErrRunJournalStreamTooLarge \<equiv> FileJournalError RunJournalStreamTooLarge"

abbreviation ErrRunJournalPersistence :: error where
  "ErrRunJournalPersistence \<equiv> FileJournalError RunJournalPersistence"

abbreviation ErrInvalidCoordinator :: error where
  "ErrInvalidCoordinator \<equiv> CoordinatorError InvalidCoordinator"

abbreviation ErrInvalidCoordinatorJournal :: error where
  "ErrInvalidCoordinatorJournal \<equiv> CoordinatorError InvalidCoordinatorJournal"

abbreviation ErrRunNotOpened :: error where
  "ErrRunNotOpened \<equiv> CoordinatorError RunNotOpened"

abbreviation ErrReviewTaskNotFound :: error where
  "ErrReviewTaskNotFound \<equiv> CoordinatorError ReviewTaskNotFound"

abbreviation ErrTaskAlreadyCompleted :: error where
  "ErrTaskAlreadyCompleted \<equiv> CoordinatorError TaskAlreadyCompleted"

abbreviation ErrInvalidTaskLease :: error where
  "ErrInvalidTaskLease \<equiv> CoordinatorError InvalidTaskLease"

abbreviation ErrInvalidTaskLeaseIdentity :: error where
  "ErrInvalidTaskLeaseIdentity \<equiv> CoordinatorError InvalidTaskLeaseIdentity"

abbreviation ErrInvalidTaskCompletion :: error where
  "ErrInvalidTaskCompletion \<equiv> CoordinatorError InvalidTaskCompletion"

abbreviation ErrInvalidTaskCompletionIdentity :: error where
  "ErrInvalidTaskCompletionIdentity \<equiv> CoordinatorError InvalidTaskCompletionIdentity"

abbreviation ErrCoordinatorContention :: error where
  "ErrCoordinatorContention \<equiv> CoordinatorError CoordinatorContention"

abbreviation ErrCoordinatorRandomness :: error where
  "ErrCoordinatorRandomness \<equiv> CoordinatorError CoordinatorRandomness"

abbreviation ErrTaskLeaseRenewalLimit :: error where
  "ErrTaskLeaseRenewalLimit \<equiv> CoordinatorError TaskLeaseRenewalLimit"

abbreviation ErrInvalidTaskLeaseEncoding :: error where
  "ErrInvalidTaskLeaseEncoding \<equiv> TaskWireError InvalidTaskLeaseEncoding"

abbreviation ErrInvalidTaskCompletionEncoding :: error where
  "ErrInvalidTaskCompletionEncoding \<equiv> TaskWireError InvalidTaskCompletionEncoding"

abbreviation ErrInvalidRunFinalizer :: error where
  "ErrInvalidRunFinalizer \<equiv> FinalizerError InvalidRunFinalizer"

abbreviation ErrInvalidReviewRunReceipt :: error where
  "ErrInvalidReviewRunReceipt \<equiv> ReceiptError InvalidReviewRunReceipt"

abbreviation ErrInvalidReviewRunReceiptIdentity :: error where
  "ErrInvalidReviewRunReceiptIdentity \<equiv> ReceiptError InvalidReviewRunReceiptIdentity"

abbreviation ErrInvalidReviewRunReceiptEncoding :: error where
  "ErrInvalidReviewRunReceiptEncoding \<equiv> ReceiptError InvalidReviewRunReceiptEncoding"

abbreviation ErrInvalidTaskHandler :: error where
  "ErrInvalidTaskHandler \<equiv> HandlerError InvalidTaskHandler"

abbreviation ErrInvalidTaskHandlerCatalog :: error where
  "ErrInvalidTaskHandlerCatalog \<equiv> HandlerError InvalidTaskHandlerCatalog"

abbreviation ErrDuplicateTaskHandler :: error where
  "ErrDuplicateTaskHandler \<equiv> HandlerError DuplicateTaskHandler"

abbreviation ErrTaskHandlerNotRegistered :: error where
  "ErrTaskHandlerNotRegistered \<equiv> HandlerError TaskHandlerNotRegistered"

abbreviation ErrTaskHandlerKindMismatch :: error where
  "ErrTaskHandlerKindMismatch \<equiv> HandlerError TaskHandlerKindMismatch"

abbreviation ErrInvalidTaskExecutionRequest :: error where
  "ErrInvalidTaskExecutionRequest \<equiv> HandlerError InvalidTaskExecutionRequest"

abbreviation ErrInvalidTaskExecutionRequestIdentity :: error where
  "ErrInvalidTaskExecutionRequestIdentity \<equiv> HandlerError InvalidTaskExecutionRequestIdentity"

abbreviation ErrTaskDependencyOutputMismatch :: error where
  "ErrTaskDependencyOutputMismatch \<equiv> HandlerError TaskDependencyOutputMismatch"

abbreviation ErrInvalidTaskNotification :: error where
  "ErrInvalidTaskNotification \<equiv> NotificationError InvalidTaskNotification"

abbreviation ErrInvalidTaskNotificationEncoding :: error where
  "ErrInvalidTaskNotificationEncoding \<equiv> NotificationError InvalidTaskNotificationEncoding"

abbreviation ErrInvalidTaskNotificationQueue :: error where
  "ErrInvalidTaskNotificationQueue \<equiv> NotificationError InvalidTaskNotificationQueue"

abbreviation ErrTaskNotificationConflict :: error where
  "ErrTaskNotificationConflict \<equiv> NotificationError TaskNotificationConflict"

abbreviation ErrTaskNotificationLeaseMismatch :: error where
  "ErrTaskNotificationLeaseMismatch \<equiv> NotificationError TaskNotificationLeaseMismatch"

abbreviation ErrTaskNotificationWaitCanceled :: error where
  "ErrTaskNotificationWaitCanceled \<equiv> NotificationError TaskNotificationWaitCanceled"

abbreviation ErrInvalidTaskNotificationSupervisor :: error where
  "ErrInvalidTaskNotificationSupervisor \<equiv> SupervisorError InvalidTaskNotificationSupervisor"

abbreviation ErrTaskNotificationSupervisorRunning :: error where
  "ErrTaskNotificationSupervisorRunning \<equiv> SupervisorError TaskNotificationSupervisorRunning"

abbreviation ErrTaskNotificationSupervisorUnavailable :: error where
  "ErrTaskNotificationSupervisorUnavailable \<equiv> SupervisorError TaskNotificationSupervisorUnavailable"

end
