(* ===== verification/Review_Scope.thy ===== *)
theory Review_Scope
  imports Go_Encoding Cp_Errors
begin

text \<open>
  \<open>audit.ReviewScope\<close> (audit/event.go): the tenant, repository and review run that own one
  event stream, with the identity under which journals file it.
\<close>

record ReviewScope =
  sc_identity :: string
  sc_tenantID :: string
  sc_repositoryID :: string
  sc_reviewRunID :: string

definition isAuditIdentifierAlphaNumeric :: "char \<Rightarrow> bool" where
  "isAuditIdentifierAlphaNumeric c \<longleftrightarrow>
     CHR ''a'' \<le> c \<and> c \<le> CHR ''z'' \<or> CHR ''0'' \<le> c \<and> c \<le> CHR ''9''"

definition validAuditScopeIdentifier :: "string \<Rightarrow> bool" where
  "validAuditScopeIdentifier value =
     (if length value = 0 \<or> length value > 128 then False
      else if \<not> list_all (\<lambda>c. CHR ''a'' \<le> c \<and> c \<le> CHR ''z'' \<or> CHR ''0'' \<le> c \<and> c \<le> CHR ''9''
                \<or> c = CHR ''-'' \<or> c = CHR ''_'' \<or> c = CHR ''.'' \<or> c = CHR '':'') value then False
      else isAuditIdentifierAlphaNumeric (hd value) \<and> isAuditIdentifierAlphaNumeric (last value))"

text \<open>The hashed JSON object of an identity, a constant of its own in every theory.\<close>

definition reviewScopePreimage :: "string \<Rightarrow> string \<Rightarrow> string \<Rightarrow> json" where
  "reviewScopePreimage tenant repository reviewRun =
     JObj [(''contract'', JStr ''open-trestle/audit-review-scope''), (''version'', JInt 1),
           (''tenant'', JStr tenant), (''repository'', JStr repository),
           (''review_run'', JStr reviewRun)]"

definition deriveReviewScopeIdentity :: "sha \<Rightarrow> ReviewScope \<Rightarrow> string" where
  "deriveReviewScopeIdentity H scope =
     hashControlPlaneValue H
       (reviewScopePreimage (sc_tenantID scope) (sc_repositoryID scope) (sc_reviewRunID scope))"

definition NewReviewScope :: "sha \<Rightarrow> string \<Rightarrow> string \<Rightarrow> string \<Rightarrow> error + ReviewScope" where
  "NewReviewScope H tenantID repositoryID reviewRunID =
     (if \<not> list_all validAuditScopeIdentifier [tenantID, repositoryID, reviewRunID]
      then Inl ErrInvalidAuditScopeIdentifier
      else (let scope = \<lparr>sc_identity = [], sc_tenantID = tenantID, sc_repositoryID = repositoryID,
                         sc_reviewRunID = reviewRunID\<rparr>
            in Inr (scope\<lparr>sc_identity := deriveReviewScopeIdentity H scope\<rparr>)))"

definition ReviewScope_Validate :: "sha \<Rightarrow> ReviewScope \<Rightarrow> error option" where
  "ReviewScope_Validate H s =
     (if \<not> list_all validAuditScopeIdentifier [sc_tenantID s, sc_repositoryID s, sc_reviewRunID s]
      then Some ErrInvalidAuditScopeIdentifier
      else if sc_identity s \<noteq> deriveReviewScopeIdentity H s then Some ErrInvalidAuditScopeIdentity
      else None)"



lemma NewReviewScope_valid:
  "NewReviewScope H t r v = Inr s \<Longrightarrow> ReviewScope_Validate H s = None"
  by (auto simp: NewReviewScope_def ReviewScope_Validate_def deriveReviewScopeIdentity_def Let_def
      res_simps)

end
