(* ===== verification/Run_Plan.thy ===== *)
theory Run_Plan
  imports Review_Scope
begin

text \<open>
  The immutable task graph of a review run (controlplane/run\_plan.go): task definitions and
  their canonical form, the plan with its graph and safety checks, the binary-search lookup,
  and the plan encodings that identities are computed from.

  The lemmas show what the checks guarantee. A plan that passes has distinct sorted task keys,
  no missing dependency and no cycle (and only those are refused as missing or cyclic); every
  task has the ancestor kind its own kind requires; publication occurs in required mode only.
\<close>


section \<open>Modes and task kinds\<close>

text \<open>
  A Go enumeration is an integer type: besides the named constants there are the zero value
  and the unnamed codes, which \<open>String\<close> maps to the empty string.
\<close>

datatype ReviewRunMode =
    ReviewRunLocal
  | ReviewRunAdvisory
  | ReviewRunRequired
  | ReviewRunModeUnnamed nat

fun ReviewRunMode_String :: "ReviewRunMode \<Rightarrow> string" where
  "ReviewRunMode_String ReviewRunLocal = ''local''"
| "ReviewRunMode_String ReviewRunAdvisory = ''advisory''"
| "ReviewRunMode_String ReviewRunRequired = ''required''"
| "ReviewRunMode_String (ReviewRunModeUnnamed _) = ''''"

definition ReviewRunMode_Validate :: "ReviewRunMode \<Rightarrow> error option" where
  "ReviewRunMode_Validate m =
     (if ReviewRunMode_String m = '''' then Some ErrInvalidReviewRunMode else None)"

datatype TaskKind =
    TaskAcquireSource
  | TaskBuildChange
  | TaskInspectDeterministic
  | TaskRetrieveContext
  | TaskAssembleContext
  | TaskGenerateCandidates
  | TaskVerifyCandidates
  | TaskEvaluatePublication
  | TaskPublishResult
  | TaskKindUnnamed nat

fun TaskKind_String :: "TaskKind \<Rightarrow> string" where
  "TaskKind_String TaskAcquireSource = ''acquire_source''"
| "TaskKind_String TaskBuildChange = ''build_change''"
| "TaskKind_String TaskInspectDeterministic = ''inspect_deterministic''"
| "TaskKind_String TaskRetrieveContext = ''retrieve_context''"
| "TaskKind_String TaskAssembleContext = ''assemble_context''"
| "TaskKind_String TaskGenerateCandidates = ''generate_candidates''"
| "TaskKind_String TaskVerifyCandidates = ''verify_candidates''"
| "TaskKind_String TaskEvaluatePublication = ''evaluate_publication''"
| "TaskKind_String TaskPublishResult = ''publish_result''"
| "TaskKind_String (TaskKindUnnamed _) = ''''"

definition TaskKind_Validate :: "TaskKind \<Rightarrow> error option" where
  "TaskKind_Validate k = (if TaskKind_String k = '''' then Some ErrInvalidReviewTaskKind else None)"

text \<open>The integer behind a kind, which the result-task selection compares.\<close>

fun kind_code :: "TaskKind \<Rightarrow> nat" where
  "kind_code TaskAcquireSource = 1"
| "kind_code TaskBuildChange = 2"
| "kind_code TaskInspectDeterministic = 3"
| "kind_code TaskRetrieveContext = 4"
| "kind_code TaskAssembleContext = 5"
| "kind_code TaskGenerateCandidates = 6"
| "kind_code TaskVerifyCandidates = 7"
| "kind_code TaskEvaluatePublication = 8"
| "kind_code TaskPublishResult = 9"
| "kind_code (TaskKindUnnamed n) = n"

lemma ReviewRunMode_Validate_None:
  "ReviewRunMode_Validate m = None \<longleftrightarrow> m \<in> {ReviewRunLocal, ReviewRunAdvisory, ReviewRunRequired}"
  by (cases m) (auto simp: ReviewRunMode_Validate_def)

lemma TaskKind_Validate_None: "TaskKind_Validate k = None \<longleftrightarrow> (\<forall>n. k \<noteq> TaskKindUnnamed n)"
  by (cases k) (auto simp: TaskKind_Validate_def)


section \<open>Task keys\<close>

definition key_letter_or_digit :: "char \<Rightarrow> bool" where
  "key_letter_or_digit c \<longleftrightarrow>
     CHR ''a'' \<le> c \<and> c \<le> CHR ''z'' \<or> CHR ''0'' \<le> c \<and> c \<le> CHR ''9''"

definition key_separator :: "char \<Rightarrow> bool" where
  "key_separator c \<longleftrightarrow> c = CHR ''.'' \<or> c = CHR ''_'' \<or> c = CHR ''-''"

definition validReviewTaskKey :: "string \<Rightarrow> bool" where
  "validReviewTaskKey value =
     (if length value = 0 \<or> length value > 64 then False
      else if \<not> list_all (\<lambda>(index, c). key_letter_or_digit c \<or> key_separator c \<and> index > 0)
                (zip [0..<length value] value) then False
      else \<not> key_separator (last value))"

lemma validReviewTaskKey_nonempty [simp]: "\<not> validReviewTaskKey []"
  by (simp add: validReviewTaskKey_def)


section \<open>Task definitions\<close>

record TaskDefinition =
  td_identity :: string
  td_key :: string
  td_kind :: TaskKind
  td_inputIdentity :: string
  td_handlerIdentity :: string
  td_dependencies :: "string list"
  td_maxAttempts :: nat
  td_retryDelayMillis :: nat
  td_leaseDurationMillis :: nat
  td_required :: bool

definition zeroTaskDefinition :: TaskDefinition where
  "zeroTaskDefinition =
     \<lparr>td_identity = '''', td_key = '''', td_kind = TaskKindUnnamed 0, td_inputIdentity = '''',
      td_handlerIdentity = '''', td_dependencies = [], td_maxAttempts = 0,
      td_retryDelayMillis = 0, td_leaseDurationMillis = 0, td_required = False\<rparr>"

definition taskDefinitionPreimage ::
    "string \<Rightarrow> TaskKind \<Rightarrow> string \<Rightarrow> string \<Rightarrow> string list \<Rightarrow> nat \<Rightarrow> nat \<Rightarrow> nat \<Rightarrow> bool \<Rightarrow> json" where
  "taskDefinitionPreimage key kind input handler dependencies attempts retry lease required =
     JObj [(''contract'', JStr ''open-trestle/review-task-definition''), (''version'', JInt 1),
           (''key'', JStr key), (''kind'', JStr (TaskKind_String kind)),
           (''input'', JStr input), (''handler'', JStr handler),
           (''dependencies'', json_nilable_strings dependencies),
           (''max_attempts'', JInt (int attempts)), (''retry_milliseconds'', JInt (int retry)),
           (''lease_milliseconds'', JInt (int lease)), (''required'', JBool required)]"

definition deriveTaskDefinitionIdentity :: "sha \<Rightarrow> TaskDefinition \<Rightarrow> string" where
  "deriveTaskDefinitionIdentity H task =
     hashControlPlaneValue H
       (taskDefinitionPreimage (td_key task) (td_kind task) (td_inputIdentity task)
          (td_handlerIdentity task) (td_dependencies task) (td_maxAttempts task)
          (td_retryDelayMillis task) (td_leaseDurationMillis task) (td_required task))"

text \<open>The loop over the sorted dependencies, with the previous one for the duplicate test.\<close>

fun check_dependencies :: "string \<Rightarrow> string option \<Rightarrow> string list \<Rightarrow> error option" where
  "check_dependencies key previous [] = None"
| "check_dependencies key previous (dependency # rest) =
     (if \<not> validReviewTaskKey dependency then Some ErrInvalidReviewTaskKey
      else if dependency = key then Some ErrReviewRunTaskSelfDependency
      else if previous = Some dependency then Some ErrDuplicateReviewTaskDependency
      else check_dependencies key (Some dependency) rest)"

definition canonicalReviewTaskDependencies :: "string \<Rightarrow> string list \<Rightarrow> error + string list" where
  "canonicalReviewTaskDependencies key dependencies =
     (if length dependencies > 16 then Inl ErrReviewRunTaskDependencyMissing
      else (let canonical = sort dependencies
            in check (check_dependencies key None canonical) (Inr canonical)))"

definition NewTaskDefinition ::
    "sha \<Rightarrow> string \<Rightarrow> TaskKind \<Rightarrow> string \<Rightarrow> string \<Rightarrow> string list \<Rightarrow> nat \<Rightarrow> nat \<Rightarrow> nat \<Rightarrow> bool
      \<Rightarrow> error + TaskDefinition" where
  "NewTaskDefinition H key kind inputIdentity handlerIdentity dependencies maxAttempts
       retryDelayMillis leaseDurationMillis required =
     (if \<not> validReviewTaskKey key then Inl ErrInvalidReviewTaskKey
      else check (TaskKind_Validate kind)
       (if \<not> validControlPlaneDigest inputIdentity then Inl ErrInvalidReviewTaskInput
        else if \<not> validControlPlaneDigest handlerIdentity then Inl ErrInvalidReviewTaskHandler
        else if maxAttempts = 0 \<or> maxAttempts > 5 then Inl ErrInvalidReviewTaskAttempts
        else if retryDelayMillis > 3600000 then Inl ErrInvalidReviewTaskRetry
        else if leaseDurationMillis < 1000 \<or> leaseDurationMillis > 3600000
        then Inl ErrInvalidReviewTaskLease
        else and_then (canonicalReviewTaskDependencies key dependencies)
          (\<lambda>canonicalDependencies.
             let task = \<lparr>td_identity = '''', td_key = key, td_kind = kind,
                         td_inputIdentity = inputIdentity, td_handlerIdentity = handlerIdentity,
                         td_dependencies = canonicalDependencies, td_maxAttempts = maxAttempts,
                         td_retryDelayMillis = retryDelayMillis,
                         td_leaseDurationMillis = leaseDurationMillis, td_required = required\<rparr>
             in Inr (task\<lparr>td_identity := deriveTaskDefinitionIdentity H task\<rparr>))))"

definition TaskDefinition_Validate :: "sha \<Rightarrow> TaskDefinition \<Rightarrow> error option" where
  "TaskDefinition_Validate H t =
     (case NewTaskDefinition H (td_key t) (td_kind t) (td_inputIdentity t) (td_handlerIdentity t)
             (td_dependencies t) (td_maxAttempts t) (td_retryDelayMillis t)
             (td_leaseDurationMillis t) (td_required t) of
        Inl err \<Rightarrow> Some err
      | Inr rebuilt \<Rightarrow>
          if td_identity rebuilt \<noteq> td_identity t \<or> td_dependencies rebuilt \<noteq> td_dependencies t
          then Some ErrInvalidReviewTaskIdentity else None)"


section \<open>Graph validation\<close>

definition by_key :: "TaskDefinition list \<Rightarrow> string \<rightharpoonup> TaskDefinition" where
  "by_key tasks = foldl (\<lambda>m task. m(td_key task \<mapsto> task)) Map.empty tasks"

text \<open>\<open>byKey[key].dependencies\<close>: nil for a key outside the graph.\<close>

definition deps_of :: "TaskDefinition list \<Rightarrow> string \<Rightarrow> string list" where
  "deps_of tasks key = (case by_key tasks key of Some task \<Rightarrow> td_dependencies task | None \<Rightarrow> [])"

text \<open>
  The depth-first \<open>visit\<close>. The code keeps two maps: \<open>visiting\<close>, set on entry and cleared on
  every normal return, is the stack of open calls and is passed down here; \<open>visited\<close> only
  grows and is threaded through. An error ends the whole traversal.
\<close>

lemma by_key_foldl_Some:
  "foldl (\<lambda>m task. m(td_key task \<mapsto> task)) m0 tasks k = Some t \<Longrightarrow>
     t \<in> set tasks \<and> td_key t = k \<or> m0 k = Some t"
  by (induction tasks arbitrary: m0) (fastforce split: if_splits)+

lemma by_key_foldl_None:
  "foldl (\<lambda>m task. m(td_key task \<mapsto> task)) m0 tasks k = None \<longleftrightarrow>
     k \<notin> td_key ` set tasks \<and> m0 k = None"
  by (induction tasks arbitrary: m0) auto

lemma by_key_None_iff: "by_key tasks k = None \<longleftrightarrow> k \<notin> td_key ` set tasks"
  by (simp add: by_key_def by_key_foldl_None)

lemma by_key_SomeD: "by_key tasks k = Some t \<Longrightarrow> t \<in> set tasks \<and> td_key t = k"
  using by_key_foldl_Some [of Map.empty tasks k t] by (simp add: by_key_def)

lemma by_key_distinct:
  assumes "distinct (map td_key tasks)" and "t \<in> set tasks"
  shows "by_key tasks (td_key t) = Some t"
proof (cases "by_key tasks (td_key t)")
  case None
  with assms show ?thesis by (simp add: by_key_None_iff)
next
  case (Some t')
  with by_key_SomeD [OF Some] assms show ?thesis
    by (metis distinct_map inj_onD)
qed

lemma deps_of_outside [simp]: "k \<notin> td_key ` set tasks \<Longrightarrow> deps_of tasks k = []"
  using by_key_None_iff [of tasks k] by (simp add: deps_of_def)

function (sequential) visit ::
    "TaskDefinition list \<Rightarrow> string \<Rightarrow> string set \<Rightarrow> string set \<Rightarrow> error + string set"
and visit_all ::
    "TaskDefinition list \<Rightarrow> string list \<Rightarrow> string set \<Rightarrow> string set \<Rightarrow> error + string set" where
  "visit tasks key visiting visited =
     (if key \<in> visiting then Inl ErrReviewRunTaskCycle
      else if key \<in> visited then Inr visited
      else and_then (visit_all tasks (deps_of tasks key) (insert key visiting) visited)
             (\<lambda>visited'. Inr (insert key visited')))"
| "visit_all tasks [] visiting visited = Inr visited"
| "visit_all tasks (key # keys) visiting visited =
     and_then (visit tasks key visiting visited)
       (\<lambda>visited'. visit_all tasks keys visiting visited')"
  by pat_completeness auto
termination
proof (relation "measures
    [\<lambda>x. case x of Inl (tasks, key, visiting, visited) \<Rightarrow> card (td_key ` set tasks - visiting)
                 | Inr (tasks, keys, visiting, visited) \<Rightarrow> card (td_key ` set tasks - visiting),
     \<lambda>x. case x of Inl _ \<Rightarrow> 1 | Inr (tasks, keys, visiting, visited) \<Rightarrow> 2 * length keys]")
  fix tasks :: "TaskDefinition list" and key and visiting visited :: "string set"
  assume "key \<notin> visiting"
  let ?K = "td_key ` set tasks"
  show "(Inr (tasks, deps_of tasks key, insert key visiting, visited),
         Inl (tasks, key, visiting, visited)) \<in> measures
    [\<lambda>x. case x of Inl (tasks, key, visiting, visited) \<Rightarrow> card (td_key ` set tasks - visiting)
                 | Inr (tasks, keys, visiting, visited) \<Rightarrow> card (td_key ` set tasks - visiting),
     \<lambda>x. case x of Inl _ \<Rightarrow> 1 | Inr (tasks, keys, visiting, visited) \<Rightarrow> 2 * length keys]"
  proof (cases "key \<in> ?K")
    case True
    with \<open>key \<notin> visiting\<close> have "?K - insert key visiting \<subset> ?K - visiting" by auto
    then have "card (?K - insert key visiting) < card (?K - visiting)"
      by (intro psubset_card_mono) auto
    then show ?thesis by simp
  next
    case False
    then have "?K - insert key visiting = ?K - visiting" by auto
    with False show ?thesis by simp
  qed
qed auto

declare visit.simps [simp del]

text \<open>
  \<open>taskHasAncestorKind\<close>: depth first over the dependencies with one shared \<open>seen\<close> map, which
  the recursive call extends; the result carries it.
\<close>

definition parent_of :: "TaskDefinition list \<Rightarrow> string \<Rightarrow> TaskDefinition" where
  "parent_of tasks k = (case by_key tasks k of Some t \<Rightarrow> t | None \<Rightarrow> zeroTaskDefinition)"

function (sequential) taskHasAncestorKind ::
    "TaskDefinition list \<Rightarrow> TaskKind \<Rightarrow> string list \<Rightarrow> string set \<Rightarrow> bool \<times> string set" where
  "taskHasAncestorKind tasks kind [] seen = (False, seen)"
| "taskHasAncestorKind tasks kind (dependency # rest) seen =
     (if dependency \<in> seen then taskHasAncestorKind tasks kind rest seen
      else if td_kind (parent_of tasks dependency) = kind then (True, insert dependency seen)
      else (case taskHasAncestorKind tasks kind (td_dependencies (parent_of tasks dependency))
                   (insert dependency seen) of
              (found, seen') \<Rightarrow>
                if found then (True, seen') else taskHasAncestorKind tasks kind rest seen'))"
  by pat_completeness auto

lemma taskHasAncestorKind_seen_dom:
  "taskHasAncestorKind_dom (tasks, kind, ds, seen) \<Longrightarrow>
     seen \<subseteq> snd (taskHasAncestorKind tasks kind ds seen)"
proof (induction tasks kind ds seen rule: taskHasAncestorKind.pinduct)
  case (1 tasks kind seen)
  then show ?case by (simp add: taskHasAncestorKind.psimps)
next
  case (2 tasks kind dep rest seen)
  obtain found s1 where r: "taskHasAncestorKind tasks kind
      (td_dependencies (parent_of tasks dep)) (insert dep seen) = (found, s1)"
    by (cases "taskHasAncestorKind tasks kind
        (td_dependencies (parent_of tasks dep)) (insert dep seen)")
  show ?case
  proof (cases "dep \<in> seen \<or> td_kind (parent_of tasks dep) = kind")
    case True
    with "2.IH"(1) "2.hyps" show ?thesis by (auto simp: taskHasAncestorKind.psimps)
  next
    case False
    with "2.IH"(2) r have s1: "insert dep seen \<subseteq> s1" by simp
    with "2.IH"(3) False r have "\<not> found \<Longrightarrow> s1 \<subseteq> snd (taskHasAncestorKind tasks kind rest s1)"
      by simp
    with False r s1 "2.hyps" show ?thesis
      by (auto simp: taskHasAncestorKind.psimps(2) [OF "2.hyps"])
  qed
qed

lemma parent_of_dependencies: "td_dependencies (parent_of tasks k) = deps_of tasks k"
  by (auto simp: parent_of_def deps_of_def zeroTaskDefinition_def split: option.splits)

lemma card_insert_seen:
  assumes "dep \<notin> seen" and "dep \<in> K" and "finite K" and "insert dep seen \<subseteq> s"
  shows "card (K - s) < card (K - seen)"
  by (rule psubset_card_mono) (use assms in auto)

termination taskHasAncestorKind
proof (relation "measures [\<lambda>(tasks, kind, ds, seen). card (td_key ` set tasks - seen),
    \<lambda>(tasks, kind, ds, seen). length ds]", goal_cases)
  case 1
  show ?case by simp
next
  case 2
  then show ?case by simp
next
  case (3 tasks kind dep rest seen)
  let ?K = "td_key ` set tasks"
  show ?case
  proof (cases "dep \<in> ?K")
    case True
    with 3 card_insert_seen [of dep seen ?K "insert dep seen"] show ?thesis by simp
  next
    case False
    then have "?K - insert dep seen = ?K - seen" by auto
    with False show ?thesis by (simp add: parent_of_dependencies)
  qed
next
  case (4 tasks kind dep rest seen found seen')
  let ?K = "td_key ` set tasks"
  from 4 have eq: "taskHasAncestorKind tasks kind (td_dependencies (parent_of tasks dep))
      (insert dep seen) = (found, seen')" by simp
  from taskHasAncestorKind_seen_dom [OF 4(5)] have sub: "insert dep seen \<subseteq> seen'"
    by (simp add: eq)
  have "card (?K - seen') \<le> card (?K - seen)"
    using sub by (intro card_mono) auto
  then show ?case by auto
qed

section \<open>Safety rules\<close>

definition kind_count :: "TaskDefinition list \<Rightarrow> TaskKind \<Rightarrow> nat" where
  "kind_count tasks kind = length (filter (\<lambda>t. td_kind t = kind) tasks)"

fun requiredAncestor :: "TaskKind \<Rightarrow> TaskKind option" where
  "requiredAncestor TaskBuildChange = Some TaskAcquireSource"
| "requiredAncestor TaskInspectDeterministic = Some TaskBuildChange"
| "requiredAncestor TaskRetrieveContext = Some TaskBuildChange"
| "requiredAncestor TaskAssembleContext = Some TaskBuildChange"
| "requiredAncestor TaskGenerateCandidates = Some TaskAssembleContext"
| "requiredAncestor TaskVerifyCandidates = Some TaskGenerateCandidates"
| "requiredAncestor TaskEvaluatePublication = Some TaskVerifyCandidates"
| "requiredAncestor TaskPublishResult = Some TaskEvaluatePublication"
| "requiredAncestor _ = None"

text \<open>The loop body of \<open>validateReviewRunSafety\<close>.\<close>

definition check_task_safety :: "TaskDefinition list \<Rightarrow> TaskDefinition \<Rightarrow> error option" where
  "check_task_safety tasks task =
     (let safetyCritical = td_kind task \<noteq> TaskInspectDeterministic \<and> td_kind task \<noteq> TaskRetrieveContext
      in if safetyCritical \<and> \<not> td_required task then Some ErrReviewRunSafetyDependencyMissing
         else if td_kind task = TaskPublishResult \<and> td_maxAttempts task \<noteq> 1
         then Some ErrReviewRunSafetyDependencyMissing
         else if td_kind task = TaskAcquireSource \<and> length (td_dependencies task) \<noteq> 0
         then Some ErrReviewRunSafetyDependencyMissing
         else (case requiredAncestor (td_kind task) of
                 None \<Rightarrow> None
               | Some ancestorKind \<Rightarrow>
                   if \<not> fst (taskHasAncestorKind tasks ancestorKind (td_dependencies task) {})
                   then Some ErrReviewRunSafetyDependencyMissing else None))"

text \<open>The selection loop of \<open>resultTaskFromDefinitions\<close>: selected task, its kind, its count.\<close>

fun select_result ::
    "TaskDefinition \<Rightarrow> nat \<Rightarrow> nat \<Rightarrow> TaskDefinition list \<Rightarrow> TaskDefinition \<times> nat" where
  "select_result selected highest count [] = (selected, count)"
| "select_result selected highest count (task # rest) =
     (if \<not> td_required task then select_result selected highest count rest
      else if kind_code (td_kind task) > highest
      then select_result task (kind_code (td_kind task)) 1 rest
      else if kind_code (td_kind task) = highest
      then select_result selected highest (count + 1) rest
      else select_result selected highest count rest)"

definition resultTaskFromDefinitions :: "sha \<Rightarrow> TaskDefinition list \<Rightarrow> error + TaskDefinition" where
  "resultTaskFromDefinitions H tasks =
     (case select_result zeroTaskDefinition 0 0 tasks of
        (selected, count) \<Rightarrow>
          if count \<noteq> 1 \<or> TaskDefinition_Validate H selected \<noteq> None
          then Inl ErrReviewRunResultTaskAmbiguous else Inr selected)"

definition validateReviewRunSafety ::
    "sha \<Rightarrow> ReviewRunMode \<Rightarrow> TaskDefinition list \<Rightarrow> error option" where
  "validateReviewRunSafety H mode tasks =
     (if kind_count tasks TaskAcquireSource = 0 then Some ErrReviewRunSafetyDependencyMissing
      else if kind_count tasks TaskPublishResult > 1 \<or> kind_count tasks TaskEvaluatePublication > 1
      then Some ErrReviewRunSafetyDependencyMissing
      else if mode \<noteq> ReviewRunRequired \<and> kind_count tasks TaskPublishResult \<noteq> 0
      then Some ErrReviewRunPublicationNotAllowed
      else (case first_err (check_task_safety tasks) tasks of
              Some err \<Rightarrow> Some err
            | None \<Rightarrow> err_of (resultTaskFromDefinitions H tasks)))"

definition validateReviewRunGraph ::
    "sha \<Rightarrow> ReviewRunMode \<Rightarrow> TaskDefinition list \<Rightarrow> error option" where
  "validateReviewRunGraph H mode tasks =
     (if \<not> list_all (\<lambda>task. list_all (\<lambda>d. by_key tasks d \<noteq> None) (td_dependencies task)) tasks
      then Some ErrReviewRunTaskDependencyMissing
      else (case visit_all tasks (map td_key tasks) {} {} of
              Inl err \<Rightarrow> Some err
            | Inr _ \<Rightarrow> validateReviewRunSafety H mode tasks))"


section \<open>Plans\<close>

record ReviewRunPlan =
  rp_identity :: string
  rp_scope :: ReviewScope
  rp_requestIdentity :: string
  rp_policyIdentity :: string
  rp_mode :: ReviewRunMode
  rp_tasks :: "TaskDefinition list"

definition reviewRunPlanPreimage ::
    "string \<Rightarrow> string \<Rightarrow> string \<Rightarrow> ReviewRunMode \<Rightarrow> string list \<Rightarrow> json" where
  "reviewRunPlanPreimage scope request policy mode tasks =
     JObj [(''contract'', JStr ''open-trestle/review-run-plan''), (''version'', JInt 1),
           (''scope'', JStr scope), (''request'', JStr request), (''policy'', JStr policy),
           (''mode'', JStr (ReviewRunMode_String mode)), (''tasks'', json_strings tasks)]"

definition deriveReviewRunPlanIdentity :: "sha \<Rightarrow> ReviewRunPlan \<Rightarrow> string" where
  "deriveReviewRunPlanIdentity H plan =
     hashControlPlaneValue H
       (reviewRunPlanPreimage (sc_identity (rp_scope plan)) (rp_requestIdentity plan)
          (rp_policyIdentity plan) (rp_mode plan) (map td_identity (rp_tasks plan)))"

text \<open>
  \<open>sort.Slice\<close> by key; where two keys are equal its order does not matter, since the next
  check refuses them.
\<close>

definition sort_tasks :: "TaskDefinition list \<Rightarrow> TaskDefinition list" where
  "sort_tasks tasks = sort_key td_key tasks"

fun adjacent_duplicate :: "string list \<Rightarrow> bool" where
  "adjacent_duplicate (x # y # ys) = (x = y \<or> adjacent_duplicate (y # ys))"
| "adjacent_duplicate _ = False"

definition NewReviewRunPlan ::
    "sha \<Rightarrow> ReviewScope \<Rightarrow> string \<Rightarrow> string \<Rightarrow> ReviewRunMode \<Rightarrow> TaskDefinition list
      \<Rightarrow> error + ReviewRunPlan" where
  "NewReviewRunPlan H scope requestIdentity policyIdentity mode tasks =
     check (ReviewScope_Validate H scope)
     (if \<not> validControlPlaneDigest requestIdentity then Inl ErrInvalidReviewRunRequest
      else if \<not> validControlPlaneDigest policyIdentity then Inl ErrInvalidReviewRunPolicy
      else check (ReviewRunMode_Validate mode)
       (if length tasks = 0 \<or> length tasks > 64 then Inl ErrInvalidReviewRunTaskCount
        else check (first_err (TaskDefinition_Validate H) tasks)
         (let canonicalTasks = sort_tasks tasks
          in if adjacent_duplicate (map td_key canonicalTasks) then Inl ErrDuplicateReviewRunTask
             else check (validateReviewRunGraph H mode canonicalTasks)
               (let plan = \<lparr>rp_identity = '''', rp_scope = scope, rp_requestIdentity = requestIdentity,
                           rp_policyIdentity = policyIdentity, rp_mode = mode,
                           rp_tasks = canonicalTasks\<rparr>
                in Inr (plan\<lparr>rp_identity := deriveReviewRunPlanIdentity H plan\<rparr>)))))"

definition ReviewRunPlan_Validate :: "sha \<Rightarrow> ReviewRunPlan \<Rightarrow> error option" where
  "ReviewRunPlan_Validate H p =
     (case NewReviewRunPlan H (rp_scope p) (rp_requestIdentity p) (rp_policyIdentity p) (rp_mode p)
             (rp_tasks p) of
        Inl err \<Rightarrow> Some err
      | Inr rebuilt \<Rightarrow> if rp_identity rebuilt \<noteq> rp_identity p then Some ErrInvalidReviewRunIdentity
                       else None)"

definition ReviewRunPlan_Task :: "ReviewRunPlan \<Rightarrow> string \<Rightarrow> TaskDefinition option" where
  "ReviewRunPlan_Task p key = search_by_key td_key (rp_tasks p) key"

definition ReviewRunPlan_ResultTask :: "sha \<Rightarrow> ReviewRunPlan \<Rightarrow> error + TaskDefinition" where
  "ReviewRunPlan_ResultTask H p =
     (if ReviewRunPlan_Validate H p \<noteq> None then Inl ErrReviewRunResultTaskAmbiguous
      else resultTaskFromDefinitions H (rp_tasks p))"

text \<open>The default recipe of controlplane/task\_attempt\_policy.go.\<close>

record TaskAttemptPolicy =
  tap_attempts :: nat
  tap_retry :: nat
  tap_lease :: nat

definition DefaultTaskAttemptPolicy :: "TaskKind \<Rightarrow> error + TaskAttemptPolicy" where
  "DefaultTaskAttemptPolicy kind =
     check (TaskKind_Validate kind)
       (let attempts = (if kind \<in> {TaskAssembleContext, TaskGenerateCandidates, TaskVerifyCandidates,
                                    TaskPublishResult} then 1 else 3)
        in Inr \<lparr>tap_attempts = attempts, tap_retry = 1000, tap_lease = 30000\<rparr>)"

section \<open>What the task constructor guarantees\<close>

definition dependencies_ok :: "string \<Rightarrow> string list \<Rightarrow> bool" where
  "dependencies_ok key ds \<longleftrightarrow>
     length ds \<le> 16 \<and> sorted_wrt (<) ds \<and> list_all validReviewTaskKey ds \<and> key \<notin> set ds"

lemma check_dependencies_None_iff:
  "sorted ds \<Longrightarrow> check_dependencies key prev ds = None \<longleftrightarrow>
     list_all validReviewTaskKey ds \<and> key \<notin> set ds \<and> sorted_wrt (<) ds
     \<and> (\<forall>p. prev = Some p \<longrightarrow> ds = [] \<or> hd ds \<noteq> p)"
proof (induction key prev ds rule: check_dependencies.induct)
  case (2 key prev d ds)
  then have s: "sorted ds" and le: "\<forall>x\<in>set ds. d \<le> x" by simp_all
  have eq: "(ds = [] \<or> hd ds \<noteq> d) \<and> sorted_wrt (<) ds \<longleftrightarrow> sorted_wrt (<) (d # ds)"
  proof (cases ds)
    case (Cons x xs)
    with le s show ?thesis by (auto simp: strict_sorted_iff order_le_less)
  qed simp
  show ?case
  proof (cases "validReviewTaskKey d \<and> d \<noteq> key \<and> prev \<noteq> Some d")
    case True
    with 2 s have "check_dependencies key (Some d) ds = None \<longleftrightarrow> list_all validReviewTaskKey ds
      \<and> key \<notin> set ds \<and> sorted_wrt (<) ds \<and> (ds = [] \<or> hd ds \<noteq> d)" by auto
    with True eq show ?thesis by auto
  next
    case False
    then show ?thesis by auto
  qed
qed simp

lemma canonicalReviewTaskDependencies_Inr:
  "canonicalReviewTaskDependencies key ds = Inr cs \<longleftrightarrow>
     cs = sort ds \<and> dependencies_ok key cs"
  by (auto simp: canonicalReviewTaskDependencies_def dependencies_ok_def res_simps Let_def
      check_dependencies_None_iff)

text \<open>A task definition the constructor can produce.\<close>

definition task_ok :: "sha \<Rightarrow> TaskDefinition \<Rightarrow> bool" where
  "task_ok H t \<longleftrightarrow>
     validReviewTaskKey (td_key t) \<and> TaskKind_Validate (td_kind t) = None
     \<and> validControlPlaneDigest (td_inputIdentity t) \<and> validControlPlaneDigest (td_handlerIdentity t)
     \<and> 1 \<le> td_maxAttempts t \<and> td_maxAttempts t \<le> 5 \<and> td_retryDelayMillis t \<le> 3600000
     \<and> 1000 \<le> td_leaseDurationMillis t \<and> td_leaseDurationMillis t \<le> 3600000
     \<and> dependencies_ok (td_key t) (td_dependencies t)
     \<and> td_identity t = deriveTaskDefinitionIdentity H t"

lemma NewTaskDefinition_Inr:
  "NewTaskDefinition H key kind input handler ds n r l q = Inr t \<longleftrightarrow>
     task_ok H t \<and> td_key t = key \<and> td_kind t = kind \<and> td_inputIdentity t = input
     \<and> td_handlerIdentity t = handler \<and> td_dependencies t = sort ds \<and> td_maxAttempts t = n
     \<and> td_retryDelayMillis t = r \<and> td_leaseDurationMillis t = l \<and> td_required t = q"
proof
  assume "NewTaskDefinition H key kind input handler ds n r l q = Inr t"
  then show "task_ok H t \<and> td_key t = key \<and> td_kind t = kind \<and> td_inputIdentity t = input
     \<and> td_handlerIdentity t = handler \<and> td_dependencies t = sort ds \<and> td_maxAttempts t = n
     \<and> td_retryDelayMillis t = r \<and> td_leaseDurationMillis t = l \<and> td_required t = q"
    by (auto simp: NewTaskDefinition_def task_ok_def res_simps Let_def
        canonicalReviewTaskDependencies_Inr deriveTaskDefinitionIdentity_def)
next
  assume t: "task_ok H t \<and> td_key t = key \<and> td_kind t = kind \<and> td_inputIdentity t = input
     \<and> td_handlerIdentity t = handler \<and> td_dependencies t = sort ds \<and> td_maxAttempts t = n
     \<and> td_retryDelayMillis t = r \<and> td_leaseDurationMillis t = l \<and> td_required t = q"
  then have "dependencies_ok (td_key t) (td_dependencies t)" and "td_dependencies t = sort ds"
    unfolding task_ok_def by blast+
  then have c: "canonicalReviewTaskDependencies (td_key t) ds = Inr (td_dependencies t)"
    by (simp add: canonicalReviewTaskDependencies_Inr)
  have e: "key = td_key t" "kind = td_kind t" "input = td_inputIdentity t"
    "handler = td_handlerIdentity t" "n = td_maxAttempts t" "r = td_retryDelayMillis t"
    "l = td_leaseDurationMillis t" "q = td_required t" using t by blast+
  from t have ok: "task_ok H t" by blast
  show "NewTaskDefinition H key kind input handler ds n r l q = Inr t"
    unfolding e using ok c
    by (simp add: NewTaskDefinition_def task_ok_def deriveTaskDefinitionIdentity_def Let_def
        not_less)
qed

lemma TaskDefinition_Validate_None: "TaskDefinition_Validate H t = None \<longleftrightarrow> task_ok H t"
proof
  assume v: "TaskDefinition_Validate H t = None"
  then obtain t' where t': "NewTaskDefinition H (td_key t) (td_kind t) (td_inputIdentity t)
      (td_handlerIdentity t) (td_dependencies t) (td_maxAttempts t) (td_retryDelayMillis t)
      (td_leaseDurationMillis t) (td_required t) = Inr t'"
    and same: "td_identity t' = td_identity t" "td_dependencies t' = td_dependencies t"
    by (auto simp: TaskDefinition_Validate_def split: sum.splits if_splits)
  with t' have "t' = t" by (simp add: NewTaskDefinition_Inr TaskDefinition.equality)
  with t' show "task_ok H t" by (simp add: NewTaskDefinition_Inr)
next
  assume "task_ok H t"
  moreover from this have "sort (td_dependencies t) = td_dependencies t"
    by (simp add: task_ok_def dependencies_ok_def sort_sorted_id)
  ultimately have "NewTaskDefinition H (td_key t) (td_kind t) (td_inputIdentity t)
      (td_handlerIdentity t) (td_dependencies t) (td_maxAttempts t) (td_retryDelayMillis t)
      (td_leaseDurationMillis t) (td_required t) = Inr t"
    by (simp add: NewTaskDefinition_Inr)
  then show "TaskDefinition_Validate H t = None" by (simp add: TaskDefinition_Validate_def)
qed

lemma task_ok_key: "task_ok H t \<Longrightarrow> td_key t \<noteq> []"
  by (auto simp: task_ok_def)

lemma task_ok_identity:
  "sum256 H \<Longrightarrow> task_ok H t \<Longrightarrow> validControlPlaneDigest (td_identity t)"
  by (simp add: task_ok_def deriveTaskDefinitionIdentity_def hash_valid)


section \<open>The dependency graph\<close>

text \<open>\<open>(k, d)\<close>: the task \<open>k\<close> depends on \<open>d\<close>; an ancestor is reached by one or more such steps.\<close>

definition dep_rel :: "TaskDefinition list \<Rightarrow> (string \<times> string) set" where
  "dep_rel tasks = {(k, d). d \<in> set (deps_of tasks k)}"

lemma dep_rel_iff [simp]: "(k, d) \<in> dep_rel tasks \<longleftrightarrow> d \<in> set (deps_of tasks k)"
  by (simp add: dep_rel_def)

definition kind_at :: "TaskDefinition list \<Rightarrow> string \<Rightarrow> TaskKind" where
  "kind_at tasks k = td_kind (parent_of tasks k)"

lemma closed_reach:
  "(a, b) \<in> (dep_rel tasks)\<^sup>* \<Longrightarrow> a \<in> V \<Longrightarrow> (\<forall>k\<in>V. set (deps_of tasks k) \<subseteq> V) \<Longrightarrow> b \<in> V"
  by (induction rule: rtrancl_induct) auto

text \<open>A set of finished keys: closed under dependencies and on no cycle.\<close>

definition finished :: "TaskDefinition list \<Rightarrow> string set \<Rightarrow> bool" where
  "finished tasks V \<longleftrightarrow>
     (\<forall>k\<in>V. set (deps_of tasks k) \<subseteq> V \<and> (k, k) \<notin> (dep_rel tasks)\<^sup>+)"

lemma finished_insert:
  assumes "finished tasks V" and "set (deps_of tasks key) \<subseteq> V"
  shows "finished tasks (insert key V)"
proof -
  have "(key, key) \<notin> (dep_rel tasks)\<^sup>+"
  proof
    assume cyc: "(key, key) \<in> (dep_rel tasks)\<^sup>+"
    from tranclD [OF cyc] obtain d where "(key, d) \<in> dep_rel tasks"
      and d: "(d, key) \<in> (dep_rel tasks)\<^sup>*" by auto
    with assms(2) have "d \<in> V" by auto
    from closed_reach [OF d this] assms(1) have "key \<in> V" by (simp add: finished_def)
    with assms(1) cyc show False by (auto simp: finished_def)
  qed
  with assms show ?thesis by (auto simp: finished_def)
qed

lemma visit_finished:
  "visit tasks key visiting V = Inr V' \<Longrightarrow> finished tasks V \<Longrightarrow>
     finished tasks V' \<and> V \<subseteq> V' \<and> key \<in> V'"
  "visit_all tasks keys visiting V = Inr V' \<Longrightarrow> finished tasks V \<Longrightarrow>
     finished tasks V' \<and> V \<subseteq> V' \<and> set keys \<subseteq> V'"
proof (induction tasks key visiting V and tasks keys visiting V
    arbitrary: V' and V' rule: visit_visit_all.induct)
  case (1 tasks key visiting V)
  show ?case
  proof (cases "key \<in> V")
    case True
    with 1 show ?thesis by (auto simp: visit.simps split: if_splits)
  next
    case False
    with "1.prems" have "key \<notin> visiting" by (auto simp: visit.simps split: if_splits)
    with False "1.prems" obtain W where
      W: "visit_all tasks (deps_of tasks key) (insert key visiting) V = Inr W"
      and V': "V' = insert key W"
      by (auto simp: visit.simps res_simps)
    from "1.IH" [OF \<open>key \<notin> visiting\<close> False W "1.prems"(2)] V' finished_insert
    show ?thesis by auto
  qed
next
  case (2 tasks visiting V)
  then show ?case by simp
next
  case (3 tasks key keys visiting V)
  then show ?case by (fastforce simp: res_simps)
qed

lemma visit_cycle:
  "visit tasks key visiting V = Inl err \<Longrightarrow> \<forall>v\<in>visiting. (v, key) \<in> (dep_rel tasks)\<^sup>+ \<Longrightarrow>
     err = ErrReviewRunTaskCycle \<and> (\<exists>k. (k, k) \<in> (dep_rel tasks)\<^sup>+)"
  "visit_all tasks keys visiting V = Inl err \<Longrightarrow>
     \<forall>d\<in>set keys. \<forall>v\<in>visiting. (v, d) \<in> (dep_rel tasks)\<^sup>+ \<Longrightarrow>
     err = ErrReviewRunTaskCycle \<and> (\<exists>k. (k, k) \<in> (dep_rel tasks)\<^sup>+)"
proof (induction tasks key visiting V and tasks keys visiting V rule: visit_visit_all.induct)
  case (1 tasks key visiting V)
  show ?case
  proof (cases "key \<in> visiting")
    case True
    with 1 show ?thesis by (auto simp: visit.simps split: if_splits)
  next
    case False
    with "1.prems" have "key \<notin> V" by (auto simp: visit.simps split: if_splits)
    with False "1.prems" have
      e: "visit_all tasks (deps_of tasks key) (insert key visiting) V = Inl err"
      by (auto simp: visit.simps and_then_def split: sum.splits)
    have "\<forall>d\<in>set (deps_of tasks key). \<forall>v\<in>insert key visiting. (v, d) \<in> (dep_rel tasks)\<^sup>+"
      using "1.prems"(2) by (auto intro: trancl_into_trancl)
    from "1.IH" [OF False \<open>key \<notin> V\<close> e this] show ?thesis .
  qed
next
  case (2 tasks visiting V)
  then show ?case by simp
next
  case (3 tasks key keys visiting V)
  then show ?case by (auto simp: and_then_def split: sum.splits)
qed

theorem visit_all_acyclic:
  assumes "visit_all tasks (map td_key tasks) {} {} = Inr V"
  shows "acyclic (dep_rel tasks)"
  unfolding acyclic_def
proof
  fix k
  have f: "finished tasks V" "set (map td_key tasks) \<subseteq> V"
    using visit_finished(2) [OF assms] by (auto simp: finished_def)
  show "(k, k) \<notin> (dep_rel tasks)\<^sup>+"
  proof
    assume c: "(k, k) \<in> (dep_rel tasks)\<^sup>+"
    then obtain d where "(k, d) \<in> dep_rel tasks" by (blast dest: tranclD)
    then have "deps_of tasks k \<noteq> []" by auto
    then have "k \<in> td_key ` set tasks" by (metis deps_of_outside)
    with f c show False by (auto simp: finished_def)
  qed
qed


section \<open>Ancestors\<close>

lemma taskHasAncestorKind_True:
  "taskHasAncestorKind tasks kind ds seen = (True, seen') \<Longrightarrow>
     \<exists>d\<in>set ds. \<exists>a. (d, a) \<in> (dep_rel tasks)\<^sup>* \<and> kind_at tasks a = kind"
proof (induction tasks kind ds seen arbitrary: seen' rule: taskHasAncestorKind.induct)
  case (1 tasks kind seen)
  then show ?case by simp
next
  case (2 tasks kind d rest seen)
  obtain found s1 where r: "taskHasAncestorKind tasks kind
      (td_dependencies (parent_of tasks d)) (insert d seen) = (found, s1)"
    by (cases "taskHasAncestorKind tasks kind (td_dependencies (parent_of tasks d)) (insert d seen)")
  consider "d \<in> seen" | "d \<notin> seen" "kind_at tasks d = kind"
    | "d \<notin> seen" "kind_at tasks d \<noteq> kind" found
    | "d \<notin> seen" "kind_at tasks d \<noteq> kind" "\<not> found" by blast
  then show ?case
  proof cases
    case 1
    with "2.IH"(1) "2.prems" show ?thesis by auto
  next
    case 2
    then show ?thesis by auto
  next
    case 3
    with "2.IH"(2) r obtain x a where x: "x \<in> set (deps_of tasks d)"
      "(x, a) \<in> (dep_rel tasks)\<^sup>*" "kind_at tasks a = kind"
      by (auto simp: kind_at_def parent_of_dependencies)
    have "(d, a) \<in> (dep_rel tasks)\<^sup>*"
      by (rule converse_rtrancl_into_rtrancl [of _ x]) (simp_all add: x)
    with x show ?thesis by auto
  next
    case 4
    with "2.IH"(3) [of found s1] "2.prems" r show ?thesis by (auto simp: kind_at_def)
  qed
qed

lemma taskHasAncestorKind_False:
  "taskHasAncestorKind tasks kind ds seen = (False, seen') \<Longrightarrow>
     seen \<subseteq> seen' \<and> set ds \<subseteq> seen' \<and>
     (\<forall>k\<in>seen' - seen. kind_at tasks k \<noteq> kind \<and> set (deps_of tasks k) \<subseteq> seen')"
proof (induction tasks kind ds seen arbitrary: seen' rule: taskHasAncestorKind.induct)
  case (1 tasks kind seen)
  then show ?case by simp
next
  case (2 tasks kind d rest seen)
  obtain found s1 where r: "taskHasAncestorKind tasks kind
      (td_dependencies (parent_of tasks d)) (insert d seen) = (found, s1)"
    by (cases "taskHasAncestorKind tasks kind (td_dependencies (parent_of tasks d)) (insert d seen)")
  show ?case
  proof (cases "d \<in> seen")
    case True
    with "2.IH"(1) "2.prems" show ?thesis by auto
  next
    case False
    with "2.prems" r have k: "kind_at tasks d \<noteq> kind" and nf: "\<not> found"
      and rest: "taskHasAncestorKind tasks kind rest s1 = (False, seen')"
      by (auto simp: kind_at_def split: if_splits)
    from "2.IH"(2) False k r nf have
      A: "insert d seen \<subseteq> s1" "set (deps_of tasks d) \<subseteq> s1"
         "\<forall>k\<in>s1 - insert d seen. kind_at tasks k \<noteq> kind \<and> set (deps_of tasks k) \<subseteq> s1"
      by (auto simp: kind_at_def parent_of_dependencies)
    have kk: "td_kind (parent_of tasks d) \<noteq> kind" using k by (simp add: kind_at_def)
    from "2.IH"(3) [OF False kk r [symmetric] nf rest] have
      B: "s1 \<subseteq> seen'" "set rest \<subseteq> seen'"
         "\<forall>k\<in>seen' - s1. kind_at tasks k \<noteq> kind \<and> set (deps_of tasks k) \<subseteq> seen'"
      by blast+
    have "kind_at tasks x \<noteq> kind \<and> set (deps_of tasks x) \<subseteq> seen'" if "x \<in> seen' - seen" for x
      using that A B k by (cases "x = d"; cases "x \<in> s1") auto
    with A B show ?thesis by auto
  qed
qed

theorem taskHasAncestorKind_iff:
  "fst (taskHasAncestorKind tasks kind ds {}) \<longleftrightarrow>
     (\<exists>d\<in>set ds. \<exists>a. (d, a) \<in> (dep_rel tasks)\<^sup>* \<and> kind_at tasks a = kind)"
proof (cases "taskHasAncestorKind tasks kind ds {}")
  case (Pair found seen')
  show ?thesis
  proof (cases found)
    case True
    with Pair taskHasAncestorKind_True [of tasks kind ds "{}" seen'] show ?thesis by simp
  next
    case False
    with Pair taskHasAncestorKind_False [of tasks kind ds "{}" seen']
    have s: "set ds \<subseteq> seen'"
      "\<forall>k\<in>seen'. kind_at tasks k \<noteq> kind \<and> set (deps_of tasks k) \<subseteq> seen'" by auto
    then have "kind_at tasks a \<noteq> kind" if "d \<in> set ds" "(d, a) \<in> (dep_rel tasks)\<^sup>*" for d a
      using that closed_reach [of d a tasks seen'] by blast
    with Pair False show ?thesis by auto
  qed
qed

section \<open>What an accepted plan guarantees\<close>

lemma adjacent_duplicate_sorted:
  "sorted xs \<Longrightarrow> \<not> adjacent_duplicate xs \<longleftrightarrow> sorted_wrt (<) xs"
proof (induction xs rule: adjacent_duplicate.induct)
  case (1 x y ys)
  then have "\<not> adjacent_duplicate (y # ys) \<longleftrightarrow> sorted_wrt (<) (y # ys)" and "x \<le> y" by simp_all
  then show ?case by (cases "x = y") (auto simp: order_le_less intro: order.strict_trans)
qed simp_all

lemma visit_all_Inr_iff:
  "(\<exists>V. visit_all tasks (map td_key tasks) {} {} = Inr V) \<longleftrightarrow> acyclic (dep_rel tasks)"
proof
  assume "acyclic (dep_rel tasks)"
  then show "\<exists>V. visit_all tasks (map td_key tasks) {} {} = Inr V"
    using visit_cycle(2) [of tasks "map td_key tasks" "{}" "{}"]
    by (cases "visit_all tasks (map td_key tasks) {} {}") (auto simp: acyclic_def)
qed (auto dest: visit_all_acyclic)

definition deps_present :: "TaskDefinition list \<Rightarrow> bool" where
  "deps_present tasks \<longleftrightarrow> (\<forall>t\<in>set tasks. set (td_dependencies t) \<subseteq> td_key ` set tasks)"

lemma deps_present_check:
  "list_all (\<lambda>t. list_all (\<lambda>d. by_key tasks d \<noteq> None) (td_dependencies t)) tasks
     \<longleftrightarrow> deps_present tasks"
  unfolding list_all_iff deps_present_def by_key_None_iff by auto

lemma validateReviewRunGraph_cases:
  "validateReviewRunGraph H mode tasks =
     (if \<not> deps_present tasks then Some ErrReviewRunTaskDependencyMissing
      else if \<not> acyclic (dep_rel tasks) then Some ErrReviewRunTaskCycle
      else validateReviewRunSafety H mode tasks)"
proof (cases "visit_all tasks (map td_key tasks) {} {}")
  case (Inl e)
  with visit_all_Inr_iff [of tasks] have "\<not> acyclic (dep_rel tasks)" by auto
  moreover have "e = ErrReviewRunTaskCycle" using visit_cycle(2) [OF Inl] by simp
  ultimately show ?thesis using Inl unfolding validateReviewRunGraph_def deps_present_check by simp
next
  case (Inr V)
  with visit_all_Inr_iff [of tasks] have "acyclic (dep_rel tasks)" by auto
  with Inr show ?thesis unfolding validateReviewRunGraph_def deps_present_check by simp
qed

text \<open>A plan the constructor can produce.\<close>

definition plan_wf :: "sha \<Rightarrow> ReviewRunPlan \<Rightarrow> bool" where
  "plan_wf H p \<longleftrightarrow>
     ReviewScope_Validate H (rp_scope p) = None \<and> validControlPlaneDigest (rp_requestIdentity p)
     \<and> validControlPlaneDigest (rp_policyIdentity p) \<and> ReviewRunMode_Validate (rp_mode p) = None
     \<and> 1 \<le> length (rp_tasks p) \<and> length (rp_tasks p) \<le> 64
     \<and> (\<forall>t\<in>set (rp_tasks p). task_ok H t) \<and> sorted_wrt (<) (map td_key (rp_tasks p))
     \<and> validateReviewRunGraph H (rp_mode p) (rp_tasks p) = None
     \<and> rp_identity p = deriveReviewRunPlanIdentity H p"

lemma sorted_sort_tasks: "sorted (map td_key (sort_tasks tasks))"
  by (simp add: sort_tasks_def)

lemma set_sort_tasks [simp]: "set (sort_tasks tasks) = set tasks"
  by (simp add: sort_tasks_def)

lemma length_sort_tasks [simp]: "length (sort_tasks tasks) = length tasks"
  by (simp add: sort_tasks_def)

lemma sort_tasks_Nil [simp]: "sort_tasks tasks = [] \<longleftrightarrow> tasks = []"
  using length_sort_tasks [of tasks] by (metis length_0_conv)

lemma sort_tasks_id: "sorted_wrt (<) (map td_key tasks) \<Longrightarrow> sort_tasks tasks = tasks"
  unfolding sort_tasks_def by (rule sort_key_id_if_sorted) (rule strict_sorted_imp_sorted)

lemma NewReviewRunPlan_Inr:
  "NewReviewRunPlan H s r q m ts = Inr p \<longleftrightarrow>
     plan_wf H p \<and> rp_scope p = s \<and> rp_requestIdentity p = r \<and> rp_policyIdentity p = q
     \<and> rp_mode p = m \<and> rp_tasks p = sort_tasks ts"
proof
  assume "NewReviewRunPlan H s r q m ts = Inr p"
  then show "plan_wf H p \<and> rp_scope p = s \<and> rp_requestIdentity p = r \<and> rp_policyIdentity p = q
     \<and> rp_mode p = m \<and> rp_tasks p = sort_tasks ts"
    by (auto simp: NewReviewRunPlan_def plan_wf_def res_simps Let_def first_err_None_iff
        TaskDefinition_Validate_None deriveReviewRunPlanIdentity_def not_less Suc_le_eq
        adjacent_duplicate_sorted [OF sorted_sort_tasks])
next
  assume p: "plan_wf H p \<and> rp_scope p = s \<and> rp_requestIdentity p = r \<and> rp_policyIdentity p = q
     \<and> rp_mode p = m \<and> rp_tasks p = sort_tasks ts"
  have e: "s = rp_scope p" "r = rp_requestIdentity p" "q = rp_policyIdentity p" "m = rp_mode p"
    and ts: "sort_tasks ts = rp_tasks p" and wf: "plan_wf H p" using p by auto
  from ts have "set ts = set (rp_tasks p)" "length ts = length (rp_tasks p)"
    by (metis set_sort_tasks, metis length_sort_tasks)
  moreover have "\<not> adjacent_duplicate (map td_key (rp_tasks p))"
    using wf by (simp add: plan_wf_def adjacent_duplicate_sorted strict_sorted_imp_sorted)
  moreover have "first_err (TaskDefinition_Validate H) ts = None"
    using wf calculation by (simp add: plan_wf_def first_err_None_iff TaskDefinition_Validate_None)
  ultimately show "NewReviewRunPlan H s r q m ts = Inr p"
    unfolding e NewReviewRunPlan_def ts Let_def using wf
    by (auto simp: plan_wf_def deriveReviewRunPlanIdentity_def)
qed

lemma plan_wf_new:
  "plan_wf H p \<Longrightarrow>
     NewReviewRunPlan H (rp_scope p) (rp_requestIdentity p) (rp_policyIdentity p) (rp_mode p)
       (rp_tasks p) = Inr p"
  by (simp add: NewReviewRunPlan_Inr sort_tasks_id plan_wf_def)

lemma ReviewRunPlan_Validate_wf: "plan_wf H p \<Longrightarrow> ReviewRunPlan_Validate H p = None"
  by (simp add: ReviewRunPlan_Validate_def plan_wf_new)

text \<open>
  The validator rebuilds the plan and compares identities, so what it accepts is a plan of
  the constructor up to the order of the tasks.
\<close>

lemma ReviewRunPlan_Validate_None:
  "ReviewRunPlan_Validate H p = None \<longleftrightarrow>
     plan_wf H (p\<lparr>rp_tasks := sort_tasks (rp_tasks p)\<rparr>)"
proof
  assume "ReviewRunPlan_Validate H p = None"
  then obtain p' where p': "NewReviewRunPlan H (rp_scope p) (rp_requestIdentity p)
      (rp_policyIdentity p) (rp_mode p) (rp_tasks p) = Inr p'" and "rp_identity p' = rp_identity p"
    by (auto simp: ReviewRunPlan_Validate_def split: sum.splits if_splits)
  then have "p' = p\<lparr>rp_tasks := sort_tasks (rp_tasks p)\<rparr>"
    by (simp add: NewReviewRunPlan_Inr ReviewRunPlan.equality)
  with p' show "plan_wf H (p\<lparr>rp_tasks := sort_tasks (rp_tasks p)\<rparr>)"
    by (simp add: NewReviewRunPlan_Inr)
next
  assume "plan_wf H (p\<lparr>rp_tasks := sort_tasks (rp_tasks p)\<rparr>)"
  then have "NewReviewRunPlan H (rp_scope p) (rp_requestIdentity p) (rp_policyIdentity p)
      (rp_mode p) (rp_tasks p) = Inr (p\<lparr>rp_tasks := sort_tasks (rp_tasks p)\<rparr>)"
    by (simp add: NewReviewRunPlan_Inr)
  then show "ReviewRunPlan_Validate H p = None" by (simp add: ReviewRunPlan_Validate_def)
qed

lemma plan_wf_distinct: "plan_wf H p \<Longrightarrow> distinct (map td_key (rp_tasks p))"
  by (simp add: plan_wf_def strict_sorted_iff)

lemma plan_wf_task_ok: "plan_wf H p \<Longrightarrow> t \<in> set (rp_tasks p) \<Longrightarrow> task_ok H t"
  by (simp add: plan_wf_def)

lemma ReviewRunPlan_Task_iff:
  assumes "plan_wf H p"
  shows "ReviewRunPlan_Task p key = Some t \<longleftrightarrow> t \<in> set (rp_tasks p) \<and> td_key t = key"
proof -
  have eq: "ReviewRunPlan_Task p key = find (\<lambda>t. td_key t = key) (rp_tasks p)"
    using assms by (simp add: ReviewRunPlan_Task_def plan_wf_def search_by_key_sorted)
  show ?thesis
  proof
    assume "ReviewRunPlan_Task p key = Some t"
    then show "t \<in> set (rp_tasks p) \<and> td_key t = key"
      unfolding eq find_Some_iff by auto
  next
    assume t: "t \<in> set (rp_tasks p) \<and> td_key t = key"
    then obtain t' where t': "find (\<lambda>t. td_key t = key) (rp_tasks p) = Some t'"
      by (cases "find (\<lambda>t. td_key t = key) (rp_tasks p)") (auto simp: find_None_iff)
    then have "t' \<in> set (rp_tasks p)" "td_key t' = key" by (auto simp: find_Some_iff)
    with t plan_wf_distinct [OF assms] have "t' = t" by (metis distinct_map inj_onD)
    with t' eq show "ReviewRunPlan_Task p key = Some t" by simp
  qed
qed

section \<open>Safety of an accepted plan\<close>

text \<open>\<open>a\<close> is a task that \<open>t\<close> depends on, directly or through other tasks.\<close>

definition ancestor :: "ReviewRunPlan \<Rightarrow> TaskDefinition \<Rightarrow> TaskDefinition \<Rightarrow> bool" where
  "ancestor p a t \<longleftrightarrow>
     a \<in> set (rp_tasks p) \<and> (td_key t, td_key a) \<in> (dep_rel (rp_tasks p))\<^sup>+"

lemma plan_wf_graph:
  assumes "plan_wf H p"
  shows "deps_present (rp_tasks p)" and "acyclic (dep_rel (rp_tasks p))"
    and "validateReviewRunSafety H (rp_mode p) (rp_tasks p) = None"
  using assms by (auto simp: plan_wf_def validateReviewRunGraph_cases split: if_splits)

lemma plan_wf_deps_of:
  "plan_wf H p \<Longrightarrow> t \<in> set (rp_tasks p) \<Longrightarrow> deps_of (rp_tasks p) (td_key t) = td_dependencies t"
  by (simp add: deps_of_def by_key_distinct plan_wf_distinct)

lemma plan_wf_check_task:
  "plan_wf H p \<Longrightarrow> t \<in> set (rp_tasks p) \<Longrightarrow> check_task_safety (rp_tasks p) t = None"
  using plan_wf_graph(3) [of H p]
  by (auto simp: validateReviewRunSafety_def res_simps first_err_None_iff split: option.splits)

lemma reach_in_plan:
  assumes "plan_wf H p" and "(a, b) \<in> (dep_rel (rp_tasks p))\<^sup>*" and "a \<in> td_key ` set (rp_tasks p)"
  shows "b \<in> td_key ` set (rp_tasks p)"
proof -
  have "\<forall>k\<in>td_key ` set (rp_tasks p). set (deps_of (rp_tasks p) k) \<subseteq> td_key ` set (rp_tasks p)"
    using plan_wf_graph(1) [OF assms(1)] plan_wf_deps_of [OF assms(1)]
    by (auto simp: deps_present_def)
  with closed_reach [OF assms(2,3)] show ?thesis by blast
qed

lemma required_ancestor_exists:
  assumes wf: "plan_wf H p" and t: "t \<in> set (rp_tasks p)"
    and k: "requiredAncestor (td_kind t) = Some k"
  shows "\<exists>a. ancestor p a t \<and> td_kind a = k"
proof -
  let ?ts = "rp_tasks p"
  from plan_wf_check_task [OF wf t] k have
    "fst (taskHasAncestorKind ?ts k (td_dependencies t) {})"
    by (auto simp: check_task_safety_def Let_def split: if_splits)
  then obtain d b where d: "d \<in> set (td_dependencies t)" "(d, b) \<in> (dep_rel ?ts)\<^sup>*"
      "kind_at ?ts b = k"
    unfolding taskHasAncestorKind_iff by blast
  have "(td_key t, d) \<in> dep_rel ?ts" using d t wf by (simp add: plan_wf_deps_of)
  with d have tb: "(td_key t, b) \<in> (dep_rel ?ts)\<^sup>+" by (meson rtrancl_into_trancl2)
  have "d \<in> td_key ` set ?ts" using plan_wf_graph(1) [OF wf] t d by (auto simp: deps_present_def)
  with reach_in_plan [OF wf d(2)] obtain a where a: "a \<in> set ?ts" "td_key a = b" by auto
  with d have "td_kind a = k"
    by (auto simp: kind_at_def parent_of_def by_key_distinct plan_wf_distinct [OF wf])
  with a tb show ?thesis by (auto simp: ancestor_def)
qed

lemma ancestor_trans: "ancestor p a b \<Longrightarrow> ancestor p b c \<Longrightarrow> ancestor p a c"
  by (auto simp: ancestor_def intro: trancl_trans)

lemma ancestor_in: "ancestor p a t \<Longrightarrow> a \<in> set (rp_tasks p)"
  by (simp add: ancestor_def)

lemma ancestor_irrefl: "plan_wf H p \<Longrightarrow> \<not> ancestor p t t"
  using plan_wf_graph(2) [of H p] by (simp add: ancestor_def acyclic_def)

text \<open>The kinds that every task of a given kind has somewhere above it.\<close>

fun ancestor_kinds :: "TaskKind \<Rightarrow> TaskKind list" where
  "ancestor_kinds TaskBuildChange = [TaskAcquireSource]"
| "ancestor_kinds TaskInspectDeterministic = [TaskBuildChange, TaskAcquireSource]"
| "ancestor_kinds TaskRetrieveContext = [TaskBuildChange, TaskAcquireSource]"
| "ancestor_kinds TaskAssembleContext = [TaskBuildChange, TaskAcquireSource]"
| "ancestor_kinds TaskGenerateCandidates = [TaskAssembleContext, TaskBuildChange, TaskAcquireSource]"
| "ancestor_kinds TaskVerifyCandidates =
     [TaskGenerateCandidates, TaskAssembleContext, TaskBuildChange, TaskAcquireSource]"
| "ancestor_kinds TaskEvaluatePublication =
     [TaskVerifyCandidates, TaskGenerateCandidates, TaskAssembleContext, TaskBuildChange,
      TaskAcquireSource]"
| "ancestor_kinds TaskPublishResult =
     [TaskEvaluatePublication, TaskVerifyCandidates, TaskGenerateCandidates, TaskAssembleContext,
      TaskBuildChange, TaskAcquireSource]"
| "ancestor_kinds _ = []"

lemma ancestor_kinds_step:
  "k \<in> set (ancestor_kinds kind) \<Longrightarrow>
     \<exists>k'. requiredAncestor kind = Some k' \<and> (k = k' \<or> k \<in> set (ancestor_kinds k'))"
  by (cases kind) auto

lemma ancestor_kinds_exist:
  assumes wf: "plan_wf H p"
  shows "t \<in> set (rp_tasks p) \<Longrightarrow> k \<in> set (ancestor_kinds (td_kind t)) \<Longrightarrow>
    \<exists>a. ancestor p a t \<and> td_kind a = k"
proof (induction "kind_code (td_kind t)" arbitrary: t rule: less_induct)
  case less
  from ancestor_kinds_step [OF less.prems(2)] obtain k' where
    k': "requiredAncestor (td_kind t) = Some k'" "k = k' \<or> k \<in> set (ancestor_kinds k')" by blast
  from required_ancestor_exists [OF wf less.prems(1) k'(1)] obtain b where
    b: "ancestor p b t" "td_kind b = k'" by blast
  have "kind_code (td_kind b) < kind_code (td_kind t)"
    using k'(1) b(2) by (cases "td_kind t") auto
  from less.hyps [OF this ancestor_in [OF b(1)]] b k'(2) show ?case
    by (blast intro: ancestor_trans)
qed

lemma plan_wf_publish_mode:
  assumes "plan_wf H p" and "t \<in> set (rp_tasks p)" and "td_kind t = TaskPublishResult"
  shows "rp_mode p = ReviewRunRequired"
  using plan_wf_graph(3) [OF assms(1)] assms(2,3)
  by (auto simp: validateReviewRunSafety_def kind_count_def filter_empty_conv res_simps)

lemma plan_wf_required:
  assumes "plan_wf H p" and "t \<in> set (rp_tasks p)"
    and "td_kind t \<notin> {TaskInspectDeterministic, TaskRetrieveContext}"
  shows "td_required t"
  using plan_wf_check_task [OF assms(1,2)] assms(3)
  by (auto simp: check_task_safety_def Let_def res_simps)

section \<open>The result task\<close>

definition selected_inv :: "TaskDefinition list \<Rightarrow> TaskDefinition \<Rightarrow> nat \<Rightarrow> nat \<Rightarrow> bool" where
  "selected_inv ts s highest count \<longleftrightarrow>
     count = length (filter (\<lambda>t. td_required t \<and> kind_code (td_kind t) = highest) ts)
     \<and> (\<forall>t\<in>set ts. td_required t \<longrightarrow> kind_code (td_kind t) \<le> highest)
     \<and> (0 < count \<longrightarrow> s \<in> set ts \<and> td_required s \<and> kind_code (td_kind s) = highest)"

lemma selected_inv_skip:
  "selected_inv ps s h c \<Longrightarrow> \<not> td_required t \<or> kind_code (td_kind t) < h \<Longrightarrow>
     selected_inv (ps @ [t]) s h c"
  by (auto simp: selected_inv_def)

lemma selected_inv_same:
  "selected_inv ps s h c \<Longrightarrow> td_required t \<Longrightarrow> kind_code (td_kind t) = h \<Longrightarrow> 0 < c \<Longrightarrow>
     selected_inv (ps @ [t]) s h (Suc c)"
  by (auto simp: selected_inv_def)

lemma selected_inv_new:
  assumes "selected_inv ps s h c" and "td_required t" and "h < kind_code (td_kind t)"
  shows "selected_inv (ps @ [t]) t (kind_code (td_kind t)) (Suc 0)"
proof -
  have "filter (\<lambda>x. td_required x \<and> kind_code (td_kind x) = kind_code (td_kind t)) ps = []"
    using assms by (auto simp: filter_empty_conv selected_inv_def)
  with assms show ?thesis by (auto simp: selected_inv_def)
qed

lemma select_result_inv:
  assumes "select_result s h c ts = (s', c')" and "selected_inv ps s h c" and "0 < c \<or> h = 0"
    and "\<forall>t\<in>set ts. 1 \<le> kind_code (td_kind t)"
  shows "\<exists>h'. selected_inv (ps @ ts) s' h' c'"
  using assms
proof (induction s h c ts arbitrary: ps rule: select_result.induct)
  case (1 s h c)
  then show ?case by auto
next
  case (2 s h c t ts)
  consider "\<not> td_required t \<or> kind_code (td_kind t) < h"
    | "td_required t" "kind_code (td_kind t) = h" | "td_required t" "h < kind_code (td_kind t)"
    by linarith
  then show ?case
  proof cases
    case 1
    note inv = selected_inv_skip [OF "2.prems"(2) 1]
    show ?thesis
    proof (cases "td_required t")
      case True
      with 1 inv "2.prems" "2.IH"(4) [of "ps @ [t]"] show ?thesis by simp
    next
      case False
      with inv "2.prems" "2.IH"(1) [of "ps @ [t]"] show ?thesis by simp
    qed
  next
    case 2
    with "2.prems" have "0 < c" by auto
    with 2 "2.prems" "2.IH"(3) [of "ps @ [t]"] selected_inv_same [of ps s h c t] show ?thesis by simp
  next
    case 3
    with "2.prems" "2.IH"(2) [of "ps @ [t]"] selected_inv_new [of ps s h c t] show ?thesis by simp
  qed
qed

lemma filter_length_one:
  "length (filter P xs) = 1 \<Longrightarrow> x \<in> set xs \<Longrightarrow> P x \<Longrightarrow> y \<in> set xs \<Longrightarrow> P y \<Longrightarrow> x = y"
proof -
  assume "length (filter P xs) = 1" and x: "x \<in> set xs" "P x" and y: "y \<in> set xs" "P y"
  then obtain z where z: "filter P xs = [z]" by (auto simp: length_Suc_conv)
  have "x \<in> set (filter P xs)" "y \<in> set (filter P xs)" using x y by simp_all
  with z show "x = y" by simp
qed

lemma resultTask_unique:
  assumes ok: "\<forall>t\<in>set tasks. task_ok H t" and r: "resultTaskFromDefinitions H tasks = Inr s"
  shows "s \<in> set tasks \<and> td_required s
    \<and> (\<forall>t\<in>set tasks. td_required t \<longrightarrow> t \<noteq> s \<longrightarrow> kind_code (td_kind t) < kind_code (td_kind s))"
proof -
  obtain c where sel: "select_result zeroTaskDefinition 0 0 tasks = (s, c)" and c: "c = 1"
    using r by (cases "select_result zeroTaskDefinition 0 0 tasks")
      (auto simp: resultTaskFromDefinitions_def split: if_splits)
  have "\<forall>t\<in>set tasks. 1 \<le> kind_code (td_kind t)"
  proof
    fix t assume "t \<in> set tasks"
    with ok have "TaskKind_Validate (td_kind t) = None" by (simp add: task_ok_def)
    then show "1 \<le> kind_code (td_kind t)" by (cases "td_kind t") (auto simp: TaskKind_Validate_None)
  qed
  moreover have "selected_inv [] zeroTaskDefinition 0 0" by (simp add: selected_inv_def)
  ultimately obtain h where inv: "selected_inv tasks s h 1"
    using select_result_inv [OF sel, of "[]"] c by auto
  then have s: "s \<in> set tasks" "td_required s" "kind_code (td_kind s) = h"
    by (auto simp: selected_inv_def)
  have "kind_code (td_kind t) < h" if "t \<in> set tasks" "td_required t" "t \<noteq> s" for t
  proof -
    have "kind_code (td_kind t) \<le> h" using inv that by (auto simp: selected_inv_def)
    moreover have "kind_code (td_kind t) \<noteq> h"
      using filter_length_one [of "\<lambda>t. td_required t \<and> kind_code (td_kind t) = h" tasks t s]
        inv s that by (auto simp: selected_inv_def)
    ultimately show ?thesis by simp
  qed
  with s show ?thesis by auto
qed

lemma ReviewRunPlan_ResultTask_ex:
  assumes "plan_wf H p"
  shows "\<exists>s. ReviewRunPlan_ResultTask H p = Inr s \<and> s \<in> set (rp_tasks p) \<and> td_required s
    \<and> (\<forall>t\<in>set (rp_tasks p). td_required t \<longrightarrow> t \<noteq> s \<longrightarrow> kind_code (td_kind t) < kind_code (td_kind s))"
proof -
  have "resultTaskFromDefinitions H (rp_tasks p) \<noteq> Inl e" for e
    using plan_wf_graph(3) [OF assms]
    by (auto simp: validateReviewRunSafety_def res_simps split: option.splits)
  then obtain s where "resultTaskFromDefinitions H (rp_tasks p) = Inr s"
    by (cases "resultTaskFromDefinitions H (rp_tasks p)") auto
  moreover have "\<forall>t\<in>set (rp_tasks p). task_ok H t" using assms by (simp add: plan_wf_def)
  ultimately show ?thesis using resultTask_unique [of "rp_tasks p" H s] ReviewRunPlan_Validate_wf [OF assms]
    by (auto simp: ReviewRunPlan_ResultTask_def)
qed

section \<open>The graph check\<close>

text \<open>
  C37. The depth-first check of a plan's graph is exact: it reports a missing
  dependency exactly when one is missing, a cycle exactly when the dependencies have one, and
  otherwise leaves the verdict to the safety rules; the search for an ancestor of a kind, which
  marks what it has seen, finds one exactly when the dependencies lead to one.
\<close>

theorem graph_check_exact:
  "validateReviewRunGraph H mode tasks =
     (if \<not> deps_present tasks then Some ErrReviewRunTaskDependencyMissing
      else if \<not> acyclic (dep_rel tasks) then Some ErrReviewRunTaskCycle
      else validateReviewRunSafety H mode tasks)
   \<and> (fst (taskHasAncestorKind tasks kind dependencies {}) =
       (\<exists>d\<in>set dependencies. \<exists>b. (d, b) \<in> (dep_rel tasks)\<^sup>* \<and> kind_at tasks b = kind))"
  using validateReviewRunGraph_cases taskHasAncestorKind_iff by auto

end
