(* ===== verification/Run_Event.thy ===== *)
theory Run_Event
  imports Run_Plan
begin

text \<open>
  Journal events (controlplane/run\_event.go): kinds, failure classes, the closed field rules
  of every kind, construction and validation.

  Times are kept as the code keeps them, in milliseconds since the epoch with 0 for an absent
  time. \<open>validateFields_kind\<close> is the table of which fields an event of each kind carries; the
  replay of Run\_State relies on it.
\<close>


section \<open>Kinds and failures\<close>

datatype RunEventKind =
    RunEventOpened
  | RunEventTaskAvailable
  | RunEventTaskLeased
  | RunEventTaskLeaseRenewed
  | RunEventTaskSucceeded
  | RunEventTaskFailed
  | RunEventTaskSkipped
  | RunEventSucceeded
  | RunEventFailed
  | RunEventCanceled
  | RunEventKindUnnamed nat

fun RunEventKind_String :: "RunEventKind \<Rightarrow> string" where
  "RunEventKind_String RunEventOpened = ''run_opened''"
| "RunEventKind_String RunEventTaskAvailable = ''task_available''"
| "RunEventKind_String RunEventTaskLeased = ''task_leased''"
| "RunEventKind_String RunEventTaskLeaseRenewed = ''task_lease_renewed''"
| "RunEventKind_String RunEventTaskSucceeded = ''task_succeeded''"
| "RunEventKind_String RunEventTaskFailed = ''task_failed''"
| "RunEventKind_String RunEventTaskSkipped = ''task_skipped''"
| "RunEventKind_String RunEventSucceeded = ''run_succeeded''"
| "RunEventKind_String RunEventFailed = ''run_failed''"
| "RunEventKind_String RunEventCanceled = ''run_canceled''"
| "RunEventKind_String (RunEventKindUnnamed _) = ''''"

definition RunEventKind_Validate :: "RunEventKind \<Rightarrow> error option" where
  "RunEventKind_Validate k =
     (if RunEventKind_String k = '''' then Some ErrInvalidRunEventKind else None)"

text \<open>\<open>NoRunFailure\<close> is the zero value, which marks the absence of a failure.\<close>

datatype RunFailure =
    NoRunFailure
  | RunFailureTransient
  | RunFailureResourceLimit
  | RunFailurePolicy
  | RunFailureInvalidInput
  | RunFailureCanceled
  | RunFailureDependency
  | RunFailureInternal
  | RunFailureUnnamed nat

fun RunFailure_String :: "RunFailure \<Rightarrow> string" where
  "RunFailure_String RunFailureTransient = ''transient''"
| "RunFailure_String RunFailureResourceLimit = ''resource_limit''"
| "RunFailure_String RunFailurePolicy = ''policy''"
| "RunFailure_String RunFailureInvalidInput = ''invalid_input''"
| "RunFailure_String RunFailureCanceled = ''canceled''"
| "RunFailure_String RunFailureDependency = ''dependency''"
| "RunFailure_String RunFailureInternal = ''internal''"
| "RunFailure_String _ = ''''"

definition RunFailure_Retryable :: "RunFailure \<Rightarrow> bool" where
  "RunFailure_Retryable f \<longleftrightarrow>
     f = RunFailureTransient \<or> f = RunFailureResourceLimit \<or> f = RunFailureInternal"

lemma RunEventKind_Validate_None:
  "RunEventKind_Validate k = None \<longleftrightarrow> (\<forall>n. k \<noteq> RunEventKindUnnamed n)"
  by (cases k) (auto simp: RunEventKind_Validate_def)

lemma RunFailure_String_empty:
  "RunFailure_String f = [] \<longleftrightarrow> f = NoRunFailure \<or> (\<exists>n. f = RunFailureUnnamed n)"
  by (cases f) auto

lemma RunFailure_Retryable_named: "RunFailure_Retryable f \<Longrightarrow> RunFailure_String f \<noteq> []"
  by (auto simp: RunFailure_Retryable_def)


section \<open>Times and worker names\<close>

definition maxRunEventUnixMilliseconds :: int where
  "maxRunEventUnixMilliseconds = 253402300799999"

definition validRunMillis :: "int \<Rightarrow> bool" where
  "validRunMillis value \<longleftrightarrow> value > 0 \<and> value \<le> maxRunEventUnixMilliseconds"

definition timeToRunMillis :: "gotime \<Rightarrow> int" where
  "timeToRunMillis value = (if value = zero_time then 0 else UnixMilli value)"

definition runMillisToTime :: "int \<Rightarrow> gotime" where
  "runMillisToTime value = (if value = 0 then zero_time else time_of_millis value)"

definition validWorkerIdentity :: "string \<Rightarrow> bool" where
  "validWorkerIdentity value =
     (if length value = 0 \<or> length value > 128 then False
      else list_all (\<lambda>character. \<not> (character \<le> 32 \<or> character = 127)) (go_runes value))"

lemma timeToRunMillis_zero [simp]: "timeToRunMillis zero_time = 0"
  by (simp add: timeToRunMillis_def)

lemma timeToRunMillis_ToTime:
  "v \<noteq> UnixMilli zero_time \<Longrightarrow> timeToRunMillis (runMillisToTime v) = v"
  by (auto simp: timeToRunMillis_def runMillisToTime_def dest: arg_cong [where f = UnixMilli])

lemma validWorkerIdentity_bytes:
  "validWorkerIdentity s \<longleftrightarrow>
     s \<noteq> [] \<and> length s \<le> 128 \<and> (\<forall>c\<in>set s. 32 < byte_of c \<and> byte_of c \<noteq> 127)"
proof -
  have "(\<exists>r\<in>set (go_runes s). r \<le> 32 \<or> r = 127) \<longleftrightarrow>
      (\<exists>b\<in>set (map byte_of s). b \<le> 32 \<or> b = 127)"
    unfolding go_runes_def by (rule runes_of_low) auto
  then show ?thesis by (auto simp: validWorkerIdentity_def list_all_iff not_le)
qed


section \<open>Events\<close>

record RunEvent =
  ev_identity :: string
  ev_planIdentity :: string
  ev_scope :: ReviewScope
  ev_sequence :: nat
  ev_previousIdentity :: string
  ev_kind :: RunEventKind
  ev_taskKey :: string
  ev_taskIdentity :: string
  ev_attempt :: nat
  ev_leaseTokenIdentity :: string
  ev_workerIdentity :: string
  ev_leaseExpiresAtMillis :: int
  ev_outputIdentity :: string
  ev_failure :: RunFailure
  ev_retryAtMillis :: int
  ev_occurredAtMillis :: int

definition runEventPreimage :: "RunEvent \<Rightarrow> json" where
  "runEventPreimage e =
     JObj [(''contract'', JStr ''open-trestle/review-run-event''), (''version'', JInt 1),
           (''plan'', JStr (ev_planIdentity e)), (''scope'', JStr (sc_identity (ev_scope e))),
           (''sequence'', JInt (int (ev_sequence e))), (''previous'', JStr (ev_previousIdentity e)),
           (''kind'', JStr (RunEventKind_String (ev_kind e))), (''task_key'', JStr (ev_taskKey e)),
           (''task'', JStr (ev_taskIdentity e)), (''attempt'', JInt (int (ev_attempt e))),
           (''lease_token'', JStr (ev_leaseTokenIdentity e)), (''worker'', JStr (ev_workerIdentity e)),
           (''lease_expires'', JInt (ev_leaseExpiresAtMillis e)),
           (''output'', JStr (ev_outputIdentity e)),
           (''failure'', JStr (RunFailure_String (ev_failure e))),
           (''retry_at'', JInt (ev_retryAtMillis e)), (''occurred_at'', JInt (ev_occurredAtMillis e))]"

definition deriveRunEventIdentity :: "sha \<Rightarrow> RunEvent \<Rightarrow> string" where
  "deriveRunEventIdentity H event = hashControlPlaneValue H (runEventPreimage event)"

definition hasAttemptFields :: "RunEvent \<Rightarrow> bool" where
  "hasAttemptFields e \<longleftrightarrow>
     ev_attempt e \<noteq> 0 \<or> ev_leaseTokenIdentity e \<noteq> '''' \<or> ev_workerIdentity e \<noteq> ''''
     \<or> ev_leaseExpiresAtMillis e \<noteq> 0"

definition event_hasTask :: "RunEvent \<Rightarrow> bool" where
  "event_hasTask e \<longleftrightarrow> ev_taskKey e \<noteq> '''' \<or> ev_taskIdentity e \<noteq> ''''"

text \<open>The shared branch of the two lease kinds.\<close>

definition validateLeaseFields :: "RunEvent \<Rightarrow> error option" where
  "validateLeaseFields e =
     (let validLease = ev_attempt e \<noteq> 0 \<and> validControlPlaneDigest (ev_leaseTokenIdentity e);
          validOwner = validWorkerIdentity (ev_workerIdentity e);
          validExpiry = ev_leaseExpiresAtMillis e > ev_occurredAtMillis e;
          emptyResult = ev_outputIdentity e = '''' \<and> ev_failure e = NoRunFailure
            \<and> ev_retryAtMillis e = 0
      in if \<not> event_hasTask e \<or> \<not> validLease \<or> \<not> validOwner \<or> \<not> validExpiry \<or> \<not> emptyResult
         then Some ErrInvalidRunEventLease else None)"

definition validateFields :: "RunEvent \<Rightarrow> error option" where
  "validateFields e =
     (if \<not> validRunMillis (ev_occurredAtMillis e) then Some ErrInvalidRunEventTime
      else if event_hasTask e
              \<and> (\<not> validReviewTaskKey (ev_taskKey e) \<or> \<not> validControlPlaneDigest (ev_taskIdentity e))
      then Some ErrInvalidRunEventTask
      else (case ev_kind e of
        RunEventOpened \<Rightarrow>
          if event_hasTask e \<or> hasAttemptFields e \<or> ev_outputIdentity e \<noteq> ''''
             \<or> ev_failure e \<noteq> NoRunFailure \<or> ev_retryAtMillis e \<noteq> 0
          then Some ErrInvalidRunEventTask else None
      | RunEventTaskAvailable \<Rightarrow>
          if \<not> event_hasTask e \<or> hasAttemptFields e \<or> ev_outputIdentity e \<noteq> ''''
             \<or> ev_failure e \<noteq> NoRunFailure \<or> ev_retryAtMillis e \<noteq> 0
          then Some ErrInvalidRunEventTask else None
      | RunEventTaskLeased \<Rightarrow> validateLeaseFields e
      | RunEventTaskLeaseRenewed \<Rightarrow> validateLeaseFields e
      | RunEventTaskSucceeded \<Rightarrow>
          (let validLease = ev_attempt e \<noteq> 0 \<and> validControlPlaneDigest (ev_leaseTokenIdentity e);
               emptyLeaseMetadata = ev_workerIdentity e = '''' \<and> ev_leaseExpiresAtMillis e = 0;
               validResult = validControlPlaneDigest (ev_outputIdentity e)
                 \<and> ev_failure e = NoRunFailure \<and> ev_retryAtMillis e = 0
           in if \<not> event_hasTask e \<or> \<not> validLease \<or> \<not> emptyLeaseMetadata \<or> \<not> validResult
              then Some ErrInvalidRunEventOutput else None)
      | RunEventTaskFailed \<Rightarrow>
          if \<not> event_hasTask e \<or> ev_attempt e = 0 \<or> \<not> validControlPlaneDigest (ev_leaseTokenIdentity e)
             \<or> ev_workerIdentity e \<noteq> '''' \<or> ev_leaseExpiresAtMillis e \<noteq> 0
             \<or> ev_outputIdentity e \<noteq> '''' \<or> RunFailure_String (ev_failure e) = ''''
          then Some ErrInvalidRunEventFailure
          else if ev_retryAtMillis e \<noteq> 0
             \<and> (\<not> RunFailure_Retryable (ev_failure e) \<or> ev_retryAtMillis e < ev_occurredAtMillis e)
          then Some ErrInvalidRunEventTime else None
      | RunEventTaskSkipped \<Rightarrow>
          if \<not> event_hasTask e \<or> hasAttemptFields e \<or> ev_outputIdentity e \<noteq> ''''
             \<or> (ev_failure e \<noteq> RunFailureDependency \<and> ev_failure e \<noteq> RunFailurePolicy)
             \<or> ev_retryAtMillis e \<noteq> 0
          then Some ErrInvalidRunEventFailure else None
      | RunEventSucceeded \<Rightarrow>
          if event_hasTask e \<or> hasAttemptFields e \<or> \<not> validControlPlaneDigest (ev_outputIdentity e)
             \<or> ev_failure e \<noteq> NoRunFailure \<or> ev_retryAtMillis e \<noteq> 0
          then Some ErrInvalidRunEventOutput else None
      | RunEventFailed \<Rightarrow>
          if event_hasTask e \<or> hasAttemptFields e \<or> ev_outputIdentity e \<noteq> ''''
             \<or> RunFailure_String (ev_failure e) = '''' \<or> ev_retryAtMillis e \<noteq> 0
          then Some ErrInvalidRunEventFailure else None
      | RunEventCanceled \<Rightarrow>
          if event_hasTask e \<or> hasAttemptFields e \<or> ev_outputIdentity e \<noteq> ''''
             \<or> ev_failure e \<noteq> RunFailureCanceled \<or> ev_retryAtMillis e \<noteq> 0
          then Some ErrInvalidRunEventFailure else None
      | RunEventKindUnnamed _ \<Rightarrow> None))"

text \<open>
  The constructor in its three steps: the event with every field but the task's, the task
  reference checked against the plan, the identity.
\<close>

definition new_event_fields ::
    "ReviewRunPlan \<Rightarrow> nat \<Rightarrow> string \<Rightarrow> RunEventKind \<Rightarrow> nat \<Rightarrow> string \<Rightarrow> string \<Rightarrow> gotime \<Rightarrow> string
      \<Rightarrow> RunFailure \<Rightarrow> gotime \<Rightarrow> gotime \<Rightarrow> RunEvent" where
  "new_event_fields plan sequence previousIdentity kind attempt leaseTokenIdentity workerIdentity
       leaseExpiresAt outputIdentity failure retryAt occurredAt =
     \<lparr>ev_identity = [], ev_planIdentity = rp_identity plan, ev_scope = rp_scope plan,
      ev_sequence = sequence, ev_previousIdentity = previousIdentity, ev_kind = kind,
      ev_taskKey = [], ev_taskIdentity = [], ev_attempt = attempt,
      ev_leaseTokenIdentity = leaseTokenIdentity, ev_workerIdentity = workerIdentity,
      ev_leaseExpiresAtMillis = timeToRunMillis leaseExpiresAt,
      ev_outputIdentity = outputIdentity, ev_failure = failure,
      ev_retryAtMillis = timeToRunMillis retryAt,
      ev_occurredAtMillis = timeToRunMillis occurredAt\<rparr>"

definition attach_event_task ::
    "ReviewRunPlan \<Rightarrow> TaskDefinition \<Rightarrow> RunEvent \<Rightarrow> error + RunEvent" where
  "attach_event_task plan task event =
     (if td_identity task \<noteq> []
      then (case ReviewRunPlan_Task plan (td_key task) of
              None \<Rightarrow> Inl ErrInvalidRunEventTask
            | Some canonical \<Rightarrow>
                if td_identity canonical \<noteq> td_identity task then Inl ErrInvalidRunEventTask
                else Inr (event\<lparr>ev_taskKey := td_key task, ev_taskIdentity := td_identity task\<rparr>))
      else Inr event)"

definition NewRunEvent ::
    "sha \<Rightarrow> ReviewRunPlan \<Rightarrow> nat \<Rightarrow> string \<Rightarrow> RunEventKind \<Rightarrow> TaskDefinition \<Rightarrow> nat \<Rightarrow> string
      \<Rightarrow> string \<Rightarrow> gotime \<Rightarrow> string \<Rightarrow> RunFailure \<Rightarrow> gotime \<Rightarrow> gotime \<Rightarrow> error + RunEvent" where
  "NewRunEvent H plan sequence previousIdentity kind task attempt leaseTokenIdentity workerIdentity
       leaseExpiresAt outputIdentity failure retryAt occurredAt =
     check (ReviewRunPlan_Validate H plan) (check (RunEventKind_Validate kind)
     (if sequence = 0 then Inl ErrInvalidRunEventSequence
      else if sequence = 1 \<and> previousIdentity \<noteq> []
              \<or> sequence > 1 \<and> \<not> validControlPlaneDigest previousIdentity
      then Inl ErrInvalidRunEventPreviousIdentity
      else and_then
             (attach_event_task plan task
                (new_event_fields plan sequence previousIdentity kind attempt leaseTokenIdentity
                   workerIdentity leaseExpiresAt outputIdentity failure retryAt occurredAt))
             (\<lambda>event. check (validateFields event)
                (Inr (event\<lparr>ev_identity := deriveRunEventIdentity H event\<rparr>)))))"

definition RunEvent_Validate :: "sha \<Rightarrow> RunEvent \<Rightarrow> error option" where
  "RunEvent_Validate H e =
     (case ReviewScope_Validate H (ev_scope e) of
        Some err \<Rightarrow> Some err
      | None \<Rightarrow>
          if \<not> validControlPlaneDigest (ev_planIdentity e) \<or> ev_sequence e = 0
          then Some ErrInvalidRunEventSequence
          else if ev_sequence e = 1 \<and> ev_previousIdentity e \<noteq> ''''
                  \<or> ev_sequence e > 1 \<and> \<not> validControlPlaneDigest (ev_previousIdentity e)
          then Some ErrInvalidRunEventPreviousIdentity
          else (case RunEventKind_Validate (ev_kind e) of
                  Some err \<Rightarrow> Some err
                | None \<Rightarrow>
                    (case validateFields e of
                       Some err \<Rightarrow> Some err
                     | None \<Rightarrow>
                         if ev_identity e \<noteq> deriveRunEventIdentity H e
                         then Some ErrInvalidRunEventIdentity else None)))"


section \<open>What validation guarantees\<close>

lemma runEventPreimage_identity [simp]:
  "runEventPreimage (e\<lparr>ev_identity := i\<rparr>) = runEventPreimage e"
  by (simp add: runEventPreimage_def)

lemma event_tests_identity [simp]:
  "event_hasTask (e\<lparr>ev_identity := i\<rparr>) = event_hasTask e"
  "hasAttemptFields (e\<lparr>ev_identity := i\<rparr>) = hasAttemptFields e"
  "validateLeaseFields (e\<lparr>ev_identity := i\<rparr>) = validateLeaseFields e"
  by (simp_all add: event_hasTask_def hasAttemptFields_def validateLeaseFields_def)

lemma validateFields_identity [simp]:
  "validateFields (e\<lparr>ev_identity := i\<rparr>) = validateFields e"
  by (cases "ev_kind e") (simp_all add: validateFields_def Let_def split del: if_split cong: if_cong)

lemma RunEvent_Validate_None:
  "RunEvent_Validate H e = None \<longleftrightarrow>
     ReviewScope_Validate H (ev_scope e) = None \<and> validControlPlaneDigest (ev_planIdentity e)
     \<and> 1 \<le> ev_sequence e
     \<and> (if ev_sequence e = 1 then ev_previousIdentity e = ''''
        else validControlPlaneDigest (ev_previousIdentity e))
     \<and> RunEventKind_Validate (ev_kind e) = None \<and> validateFields e = None
     \<and> ev_identity e = deriveRunEventIdentity H e"
  by (auto simp: RunEvent_Validate_def split: option.splits if_splits)

lemma validateFields_time: "validateFields e = None \<Longrightarrow> validRunMillis (ev_occurredAtMillis e)"
  by (simp add: validateFields_def res_simps)

text \<open>Kinds that concern a task, and the fields each kind carries.\<close>

definition task_event :: "RunEventKind \<Rightarrow> bool" where
  "task_event k \<longleftrightarrow> k \<in> {RunEventTaskAvailable, RunEventTaskLeased, RunEventTaskLeaseRenewed,
     RunEventTaskSucceeded, RunEventTaskFailed, RunEventTaskSkipped}"

lemma validateFields_task:
  "validateFields e = None \<Longrightarrow> task_event (ev_kind e) \<Longrightarrow>
     validReviewTaskKey (ev_taskKey e) \<and> validControlPlaneDigest (ev_taskIdentity e)"
  by (cases "ev_kind e")
    (auto simp: validateFields_def validateLeaseFields_def task_event_def Let_def res_simps)

lemma validateFields_lease:
  "validateFields e = None \<Longrightarrow> ev_kind e \<in> {RunEventTaskLeased, RunEventTaskLeaseRenewed} \<Longrightarrow>
     1 \<le> ev_attempt e \<and> validControlPlaneDigest (ev_leaseTokenIdentity e)
     \<and> validWorkerIdentity (ev_workerIdentity e)
     \<and> ev_occurredAtMillis e < ev_leaseExpiresAtMillis e"
  by (auto simp: validateFields_def validateLeaseFields_def Let_def res_simps)

lemma validateFields_succeeded:
  "validateFields e = None \<Longrightarrow> ev_kind e = RunEventTaskSucceeded \<Longrightarrow>
     1 \<le> ev_attempt e \<and> validControlPlaneDigest (ev_leaseTokenIdentity e)
     \<and> validControlPlaneDigest (ev_outputIdentity e)"
  by (auto simp: validateFields_def Let_def res_simps)

lemma validateFields_failed:
  "validateFields e = None \<Longrightarrow> ev_kind e = RunEventTaskFailed \<Longrightarrow>
     1 \<le> ev_attempt e \<and> validControlPlaneDigest (ev_leaseTokenIdentity e)
     \<and> RunFailure_String (ev_failure e) \<noteq> ''''
     \<and> (ev_retryAtMillis e \<noteq> 0 \<longrightarrow>
          RunFailure_Retryable (ev_failure e) \<and> ev_occurredAtMillis e \<le> ev_retryAtMillis e)"
  by (auto simp: validateFields_def Let_def res_simps)

lemma validateFields_skipped:
  "validateFields e = None \<Longrightarrow> ev_kind e = RunEventTaskSkipped \<Longrightarrow>
     ev_failure e \<in> {RunFailureDependency, RunFailurePolicy}"
  by (auto simp: validateFields_def Let_def res_simps)

lemma validateFields_run:
  "validateFields e = None \<Longrightarrow>
     (ev_kind e = RunEventSucceeded \<longrightarrow> validControlPlaneDigest (ev_outputIdentity e))
     \<and> (ev_kind e = RunEventFailed \<longrightarrow> RunFailure_String (ev_failure e) \<noteq> '''')
     \<and> (ev_kind e = RunEventCanceled \<longrightarrow> ev_failure e = RunFailureCanceled)"
  by (auto simp: validateFields_def Let_def res_simps)

lemmas validateFields_facts = validateFields_time validateFields_task validateFields_lease
  validateFields_succeeded validateFields_failed validateFields_skipped validateFields_run


section \<open>The constructor agrees with the validator\<close>

text \<open>What a constructed event says: the fields are the arguments.\<close>

definition event_fields ::
    "ReviewRunPlan \<Rightarrow> nat \<Rightarrow> string \<Rightarrow> RunEventKind \<Rightarrow> TaskDefinition \<Rightarrow> nat \<Rightarrow> string
      \<Rightarrow> string \<Rightarrow> gotime \<Rightarrow> string \<Rightarrow> RunFailure \<Rightarrow> gotime \<Rightarrow> gotime \<Rightarrow> RunEvent \<Rightarrow> bool" where
  "event_fields plan sequence previous kind task attempt token worker expires output failure retry
       occurred e \<longleftrightarrow>
     ev_planIdentity e = rp_identity plan \<and> ev_scope e = rp_scope plan \<and> ev_sequence e = sequence
     \<and> ev_previousIdentity e = previous \<and> ev_kind e = kind
     \<and> ev_taskKey e = (if td_identity task = '''' then '''' else td_key task)
     \<and> ev_taskIdentity e = td_identity task \<and> ev_attempt e = attempt
     \<and> ev_leaseTokenIdentity e = token \<and> ev_workerIdentity e = worker
     \<and> ev_leaseExpiresAtMillis e = timeToRunMillis expires \<and> ev_outputIdentity e = output
     \<and> ev_failure e = failure \<and> ev_retryAtMillis e = timeToRunMillis retry
     \<and> ev_occurredAtMillis e = timeToRunMillis occurred"

lemma NewRunEvent_InrD:
  assumes "NewRunEvent H plan n prev kind task a tok w ex out f ret occ = Inr e"
  shows "event_fields plan n prev kind task a tok w ex out f ret occ e"
    and "ReviewRunPlan_Validate H plan = None" and "RunEventKind_Validate kind = None"
    and "1 \<le> n" and "if n = 1 then prev = '''' else validControlPlaneDigest prev"
    and "validateFields e = None" and "ev_identity e = deriveRunEventIdentity H e"
    and "td_identity task \<noteq> '''' \<Longrightarrow>
      \<exists>t. ReviewRunPlan_Task plan (td_key task) = Some t \<and> td_identity t = td_identity task"
proof -
  obtain e0 where e0: "attach_event_task plan task
      (new_event_fields plan n prev kind a tok w ex out f ret occ) = Inr e0"
    and v: "validateFields e0 = None" and e: "e = e0\<lparr>ev_identity := deriveRunEventIdentity H e0\<rparr>"
    using assms by (auto simp: NewRunEvent_def res_simps)
  from e0 have f0: "event_fields plan n prev kind task a tok w ex out f ret occ e0"
    by (auto simp: attach_event_task_def new_event_fields_def event_fields_def
        split: if_splits option.splits)
  then show "event_fields plan n prev kind task a tok w ex out f ret occ e"
    by (simp add: e event_fields_def)
  show "validateFields e = None" "ev_identity e = deriveRunEventIdentity H e"
    using v by (simp_all add: e deriveRunEventIdentity_def)
  show "ReviewRunPlan_Validate H plan = None" "RunEventKind_Validate kind = None" "1 \<le> n"
    "if n = 1 then prev = [] else validControlPlaneDigest prev"
    using assms by (auto simp: NewRunEvent_def res_simps)
  show "\<exists>t. ReviewRunPlan_Task plan (td_key task) = Some t \<and> td_identity t = td_identity task"
    if "td_identity task \<noteq> []"
    using e0 that by (auto simp: attach_event_task_def split: if_splits option.splits)
qed

lemma plan_identity_valid:
  "sum256 H \<Longrightarrow> ReviewRunPlan_Validate H p = None \<Longrightarrow> validControlPlaneDigest (rp_identity p)"
  by (simp add: ReviewRunPlan_Validate_None plan_wf_def deriveReviewRunPlanIdentity_def hash_valid)

lemma plan_scope_valid:
  "ReviewRunPlan_Validate H p = None \<Longrightarrow> ReviewScope_Validate H (rp_scope p) = None"
  by (simp add: ReviewRunPlan_Validate_None plan_wf_def)

lemma NewRunEvent_valid:
  assumes "sum256 H" and "NewRunEvent H plan n prev kind task a tok w ex out f ret occ = Inr e"
  shows "RunEvent_Validate H e = None"
  using NewRunEvent_InrD [OF assms(2)] plan_identity_valid [OF assms(1)] plan_scope_valid
  by (simp add: RunEvent_Validate_None event_fields_def)

lemma event_identity_valid:
  "sum256 H \<Longrightarrow> RunEvent_Validate H e = None \<Longrightarrow> validControlPlaneDigest (ev_identity e)"
  by (simp add: RunEvent_Validate_None deriveRunEventIdentity_def hash_valid)

text \<open>The integers of an event in the range of their Go types.\<close>

definition event_ints :: "RunEvent \<Rightarrow> bool" where
  "event_ints e \<longleftrightarrow> ev_sequence e < 2 ^ 64 \<and> ev_attempt e < 2 ^ 8
     \<and> int64 (ev_leaseExpiresAtMillis e) \<and> int64 (ev_retryAtMillis e)"

lemma int64_millis: "validRunMillis m \<Longrightarrow> int64 m"
  by (simp add: validRunMillis_def maxRunEventUnixMilliseconds_def int64_def)

end
