(* ===== verification/Task_Completion.thy ===== *)
theory Task_Completion
  imports Run_Event
begin

text \<open>
  Closed worker output (\<open>TaskCompletion\<close> of controlplane/coordinator.go): a success with the
  identity of its output or a failure class, identified by its content.
\<close>

datatype TaskCompletionStatus =
    TaskCompletionSucceeded
  | TaskCompletionFailed
  | TaskCompletionStatusUnnamed nat

fun TaskCompletionStatus_String :: "TaskCompletionStatus \<Rightarrow> string" where
  "TaskCompletionStatus_String TaskCompletionSucceeded = ''succeeded''"
| "TaskCompletionStatus_String TaskCompletionFailed = ''failed''"
| "TaskCompletionStatus_String (TaskCompletionStatusUnnamed _) = ''''"

definition TaskCompletionStatus_Validate :: "TaskCompletionStatus \<Rightarrow> error option" where
  "TaskCompletionStatus_Validate s =
     (if TaskCompletionStatus_String s = '''' then Some ErrInvalidTaskCompletion else None)"

record TaskCompletion =
  tc_identity :: string
  tc_status :: TaskCompletionStatus
  tc_outputIdentity :: string
  tc_failure :: RunFailure

definition taskCompletionPreimage :: "string \<Rightarrow> string \<Rightarrow> string \<Rightarrow> json" where
  "taskCompletionPreimage status output failure =
     JObj [(''contract'', JStr ''open-trestle/task-completion''), (''version'', JInt 1),
           (''status'', JStr status), (''output'', JStr output), (''failure'', JStr failure)]"

definition deriveTaskCompletionIdentity :: "sha \<Rightarrow> TaskCompletion \<Rightarrow> string" where
  "deriveTaskCompletionIdentity H completion =
     (let status = (if tc_status completion = TaskCompletionSucceeded then ''succeeded'' else ''failed'')
      in hashControlPlaneValue H
           (taskCompletionPreimage status (tc_outputIdentity completion)
              (RunFailure_String (tc_failure completion))))"

definition NewTaskSuccess :: "sha \<Rightarrow> string \<Rightarrow> error + TaskCompletion" where
  "NewTaskSuccess H outputIdentity =
     (if \<not> validControlPlaneDigest outputIdentity then Inl ErrInvalidTaskCompletion
      else (let completion = \<lparr>tc_identity = [], tc_status = TaskCompletionSucceeded,
                              tc_outputIdentity = outputIdentity, tc_failure = NoRunFailure\<rparr>
            in Inr (completion\<lparr>tc_identity := deriveTaskCompletionIdentity H completion\<rparr>)))"

definition NewTaskFailure :: "sha \<Rightarrow> RunFailure \<Rightarrow> error + TaskCompletion" where
  "NewTaskFailure H failure =
     (if RunFailure_String failure = [] then Inl ErrInvalidTaskCompletion
      else (let completion = \<lparr>tc_identity = [], tc_status = TaskCompletionFailed,
                              tc_outputIdentity = [], tc_failure = failure\<rparr>
            in Inr (completion\<lparr>tc_identity := deriveTaskCompletionIdentity H completion\<rparr>)))"

definition TaskCompletion_Validate :: "sha \<Rightarrow> TaskCompletion \<Rightarrow> error option" where
  "TaskCompletion_Validate H c =
     (let shape =
        (if tc_status c = TaskCompletionSucceeded
         then \<not> (\<not> validControlPlaneDigest (tc_outputIdentity c) \<or> tc_failure c \<noteq> NoRunFailure)
         else if tc_status c = TaskCompletionFailed
         then \<not> (tc_outputIdentity c \<noteq> [] \<or> RunFailure_String (tc_failure c) = [])
         else False)
      in if \<not> shape then Some ErrInvalidTaskCompletion
         else if tc_identity c \<noteq> deriveTaskCompletionIdentity H c
         then Some ErrInvalidTaskCompletionIdentity else None)"

text \<open>A valid completion is exactly one the two constructors can build.\<close>

lemma deriveTaskCompletionIdentity_identity [simp]:
  "deriveTaskCompletionIdentity H (c\<lparr>tc_identity := i\<rparr>) = deriveTaskCompletionIdentity H c"
  by (simp add: deriveTaskCompletionIdentity_def)

lemma NewTaskSuccess_Inr:
  "NewTaskSuccess H out = Inr c \<longleftrightarrow>
     TaskCompletion_Validate H c = None \<and> tc_status c = TaskCompletionSucceeded
     \<and> tc_outputIdentity c = out"
  by (auto simp: NewTaskSuccess_def TaskCompletion_Validate_def Let_def res_simps
      deriveTaskCompletionIdentity_def intro!: TaskCompletion.equality)

lemma NewTaskFailure_Inr:
  "NewTaskFailure H f = Inr c \<longleftrightarrow>
     TaskCompletion_Validate H c = None \<and> tc_status c = TaskCompletionFailed \<and> tc_failure c = f"
  by (auto simp: NewTaskFailure_def TaskCompletion_Validate_def Let_def res_simps
      deriveTaskCompletionIdentity_def intro!: TaskCompletion.equality)

lemma TaskCompletion_Validate_iff:
  "TaskCompletion_Validate H c = None \<longleftrightarrow>
     NewTaskSuccess H (tc_outputIdentity c) = Inr c \<or> NewTaskFailure H (tc_failure c) = Inr c"
  by (cases "tc_status c")
    (auto simp: NewTaskSuccess_Inr NewTaskFailure_Inr, auto simp: TaskCompletion_Validate_def)

end
