(* ===== verification/Run_State.thy ===== *)
theory Run_State
  imports Task_Completion
begin

text \<open>
  Replay of a journal into the state of a review run (controlplane/run\_state.go).

  \<open>replay_step\<close> is one iteration of the loop of \<open>ReplayReviewRun\<close>, \<open>apply_event\<close> the method
  \<open>apply\<close>. Run\_State\_Invariants proves what every replayed state satisfies.
\<close>


section \<open>States\<close>

datatype ReviewRunStatus =
    ReviewRunActive
  | ReviewRunSucceeded
  | ReviewRunFailed
  | ReviewRunCanceled
  | ReviewRunStatusUnnamed nat

fun ReviewRunStatus_String :: "ReviewRunStatus \<Rightarrow> string" where
  "ReviewRunStatus_String ReviewRunActive = ''active''"
| "ReviewRunStatus_String ReviewRunSucceeded = ''succeeded''"
| "ReviewRunStatus_String ReviewRunFailed = ''failed''"
| "ReviewRunStatus_String ReviewRunCanceled = ''canceled''"
| "ReviewRunStatus_String (ReviewRunStatusUnnamed _) = ''''"

datatype TaskRuntimeStatus =
    TaskRuntimePending
  | TaskRuntimeAvailable
  | TaskRuntimeLeased
  | TaskRuntimeSucceeded
  | TaskRuntimeFailed
  | TaskRuntimeSkipped
  | TaskRuntimeStatusUnnamed nat

fun TaskRuntimeStatus_String :: "TaskRuntimeStatus \<Rightarrow> string" where
  "TaskRuntimeStatus_String TaskRuntimePending = ''pending''"
| "TaskRuntimeStatus_String TaskRuntimeAvailable = ''available''"
| "TaskRuntimeStatus_String TaskRuntimeLeased = ''leased''"
| "TaskRuntimeStatus_String TaskRuntimeSucceeded = ''succeeded''"
| "TaskRuntimeStatus_String TaskRuntimeFailed = ''failed''"
| "TaskRuntimeStatus_String TaskRuntimeSkipped = ''skipped''"
| "TaskRuntimeStatus_String (TaskRuntimeStatusUnnamed _) = ''''"

record TaskRuntimeState =
  rt_definition :: TaskDefinition
  rt_status :: TaskRuntimeStatus
  rt_attempts :: nat
  rt_leaseTokenIdentity :: string
  rt_workerIdentity :: string
  rt_leaseExpiresAtMillis :: int
  rt_outputIdentity :: string
  rt_failure :: RunFailure
  rt_retryAtMillis :: int
  rt_lastEventRevision :: nat
  rt_lastEventIdentity :: string
  rt_lastEventAtMillis :: int

definition newTaskRuntimeState :: "TaskDefinition \<Rightarrow> TaskRuntimeStatus \<Rightarrow> TaskRuntimeState" where
  "newTaskRuntimeState definition status =
     \<lparr>rt_definition = definition, rt_status = status, rt_attempts = 0, rt_leaseTokenIdentity = [],
      rt_workerIdentity = [], rt_leaseExpiresAtMillis = 0, rt_outputIdentity = [],
      rt_failure = NoRunFailure, rt_retryAtMillis = 0, rt_lastEventRevision = 0,
      rt_lastEventIdentity = [], rt_lastEventAtMillis = 0\<rparr>"

definition zeroTaskRuntimeState :: TaskRuntimeState where
  "zeroTaskRuntimeState = newTaskRuntimeState zeroTaskDefinition (TaskRuntimeStatusUnnamed 0)"

record ReviewRunState =
  rs_plan :: ReviewRunPlan
  rs_status :: ReviewRunStatus
  rs_revision :: nat
  rs_headIdentity :: string
  rs_lastOccurredAtMillis :: int
  rs_tasks :: "(string \<times> TaskRuntimeState) list"
  rs_outputIdentity :: string
  rs_failure :: RunFailure

text \<open>\<open>s.tasks[key]\<close>, the zero state for a key outside the plan.\<close>

definition runtime_at :: "ReviewRunState \<Rightarrow> string \<Rightarrow> TaskRuntimeState" where
  "runtime_at s key = map_get zeroTaskRuntimeState (rs_tasks s) key"

definition ReviewRunState_Task :: "ReviewRunState \<Rightarrow> string \<Rightarrow> TaskRuntimeState option" where
  "ReviewRunState_Task s key = map_of (rs_tasks s) key"


section \<open>Conditions of a state\<close>

definition RetryableAt :: "TaskRuntimeState \<Rightarrow> gotime \<Rightarrow> bool" where
  "RetryableAt s now \<longleftrightarrow>
     rt_status s = TaskRuntimeFailed \<and> RunFailure_Retryable (rt_failure s)
     \<and> rt_attempts s < td_maxAttempts (rt_definition s) \<and> rt_retryAtMillis s \<noteq> 0
     \<and> UnixMilli now \<ge> rt_retryAtMillis s"

definition matchesLeaseResult :: "TaskRuntimeState \<Rightarrow> RunEvent \<Rightarrow> bool" where
  "matchesLeaseResult s event \<longleftrightarrow>
     rt_status s = TaskRuntimeLeased \<and> ev_attempt event = rt_attempts s
     \<and> ev_leaseTokenIdentity event = rt_leaseTokenIdentity s
     \<and> ev_occurredAtMillis event \<le> rt_leaseExpiresAtMillis s"

text \<open>Failed with no attempt left or with a failure that is not retried.\<close>

definition failedWithoutRetry :: "TaskRuntimeState \<Rightarrow> bool" where
  "failedWithoutRetry r \<longleftrightarrow>
     rt_status r = TaskRuntimeFailed
     \<and> (\<not> RunFailure_Retryable (rt_failure r) \<or> rt_attempts r \<ge> td_maxAttempts (rt_definition r))"

definition dependenciesSatisfied :: "ReviewRunState \<Rightarrow> TaskDefinition \<Rightarrow> bool" where
  "dependenciesSatisfied s task =
     list_all (\<lambda>key.
       let dependency = runtime_at s key
       in rt_status dependency = TaskRuntimeSucceeded
          \<or> \<not> td_required (rt_definition dependency)
            \<and> (rt_status dependency = TaskRuntimeSkipped \<or> failedWithoutRetry dependency))
       (td_dependencies task)"

definition hasFailedDependency :: "ReviewRunState \<Rightarrow> TaskDefinition \<Rightarrow> bool" where
  "hasFailedDependency s task =
     list_ex (\<lambda>key.
       let runtime = runtime_at s key
       in td_required (rt_definition runtime)
          \<and> (failedWithoutRetry runtime \<or> rt_status runtime = TaskRuntimeSkipped))
       (td_dependencies task)"

definition canSucceed :: "ReviewRunState \<Rightarrow> bool" where
  "canSucceed s =
     list_all (\<lambda>(key, task).
       \<not> (td_required (rt_definition task) \<and> rt_status task \<noteq> TaskRuntimeSucceeded)
       \<and> \<not> (rt_status task \<noteq> TaskRuntimeSucceeded \<and> rt_status task \<noteq> TaskRuntimeFailed
            \<and> rt_status task \<noteq> TaskRuntimeSkipped))
       (rs_tasks s)"

definition canFail :: "ReviewRunState \<Rightarrow> bool" where
  "canFail s =
     list_ex (\<lambda>(key, task).
       td_required (rt_definition task)
       \<and> (rt_status task = TaskRuntimeFailed
            \<and> \<not> RetryableAt task (time_of_millis maxRunEventUnixMilliseconds)
          \<or> rt_status task = TaskRuntimeSkipped))
       (rs_tasks s)"


section \<open>Applying an event\<close>

definition applyTaskEvent ::
    "ReviewRunState \<Rightarrow> RunEvent \<Rightarrow> TaskRuntimeState \<Rightarrow> error + TaskRuntimeState" where
  "applyTaskEvent s event runtime =
     (case ev_kind event of
        RunEventTaskAvailable \<Rightarrow>
          (let pendingReady = rt_status runtime = TaskRuntimePending
                 \<and> dependenciesSatisfied s (rt_definition runtime);
               retryReady = RetryableAt runtime (runMillisToTime (ev_occurredAtMillis event))
           in if \<not> pendingReady \<and> \<not> retryReady
              then if rt_status runtime = TaskRuntimePending
                   then Inl ErrRunTransitionDependencyBlocked else Inl ErrRunTransitionInvalid
              else Inr (runtime\<lparr>rt_status := TaskRuntimeAvailable, rt_retryAtMillis := 0,
                                rt_failure := NoRunFailure\<rparr>))
      | RunEventTaskLeased \<Rightarrow>
          (let available = rt_status runtime = TaskRuntimeAvailable;
               expired = rt_status runtime = TaskRuntimeLeased
                 \<and> ev_occurredAtMillis event \<ge> rt_leaseExpiresAtMillis runtime
           in if \<not> available \<and> \<not> expired then Inl ErrRunTransitionInvalid
              else if ev_attempt event \<noteq> u8_succ (rt_attempts runtime)
                      \<or> ev_attempt event > td_maxAttempts (rt_definition runtime)
              then Inl ErrRunTransitionAttemptLimit
              else Inr (runtime\<lparr>rt_status := TaskRuntimeLeased, rt_attempts := ev_attempt event,
                                rt_leaseTokenIdentity := ev_leaseTokenIdentity event,
                                rt_workerIdentity := ev_workerIdentity event,
                                rt_leaseExpiresAtMillis := ev_leaseExpiresAtMillis event\<rparr>))
      | RunEventTaskLeaseRenewed \<Rightarrow>
          (let matching = rt_status runtime = TaskRuntimeLeased
                 \<and> ev_attempt event = rt_attempts runtime
                 \<and> ev_leaseTokenIdentity event = rt_leaseTokenIdentity runtime
                 \<and> ev_workerIdentity event = rt_workerIdentity runtime;
               timely = ev_occurredAtMillis event \<le> rt_leaseExpiresAtMillis runtime
                 \<and> ev_leaseExpiresAtMillis event > rt_leaseExpiresAtMillis runtime
           in if \<not> matching \<or> \<not> timely then Inl ErrRunTransitionLeaseMismatch
              else Inr (runtime\<lparr>rt_leaseExpiresAtMillis := ev_leaseExpiresAtMillis event\<rparr>))
      | RunEventTaskSucceeded \<Rightarrow>
          if \<not> matchesLeaseResult runtime event then Inl ErrRunTransitionLeaseMismatch
          else Inr (runtime\<lparr>rt_status := TaskRuntimeSucceeded,
                            rt_outputIdentity := ev_outputIdentity event,
                            rt_workerIdentity := [], rt_leaseExpiresAtMillis := 0\<rparr>)
      | RunEventTaskFailed \<Rightarrow>
          (let exhaustedExpiry = rt_status runtime = TaskRuntimeLeased
                 \<and> rt_attempts runtime = td_maxAttempts (rt_definition runtime)
                 \<and> ev_attempt event = rt_attempts runtime
                 \<and> ev_leaseTokenIdentity event = rt_leaseTokenIdentity runtime
                 \<and> ev_occurredAtMillis event \<ge> rt_leaseExpiresAtMillis runtime
                 \<and> ev_failure event = RunFailureResourceLimit \<and> ev_retryAtMillis event = 0;
               canRetry = RunFailure_Retryable (ev_failure event)
                 \<and> rt_attempts runtime < td_maxAttempts (rt_definition runtime)
           in if \<not> matchesLeaseResult runtime event \<and> \<not> exhaustedExpiry
              then Inl ErrRunTransitionLeaseMismatch
              else if canRetry \<noteq> (ev_retryAtMillis event \<noteq> 0) then Inl ErrRunTransitionInvalid
              else Inr (runtime\<lparr>rt_status := TaskRuntimeFailed, rt_failure := ev_failure event,
                                rt_retryAtMillis := ev_retryAtMillis event,
                                rt_workerIdentity := [], rt_leaseExpiresAtMillis := 0\<rparr>))
      | RunEventTaskSkipped \<Rightarrow>
          if rt_status runtime \<noteq> TaskRuntimePending then Inl ErrRunTransitionInvalid
          else if ev_failure event = RunFailureDependency
                  \<and> \<not> hasFailedDependency s (rt_definition runtime)
          then Inl ErrRunTransitionDependencyBlocked
          else if ev_failure event = RunFailurePolicy \<and> td_required (rt_definition runtime)
          then Inl ErrRunTransitionInvalid
          else Inr (runtime\<lparr>rt_status := TaskRuntimeSkipped, rt_failure := ev_failure event\<rparr>)
      | _ \<Rightarrow> Inl ErrRunTransitionInvalid)"

definition apply_event :: "ReviewRunState \<Rightarrow> RunEvent \<Rightarrow> error + ReviewRunState" where
  "apply_event s event =
     (if ev_kind event = RunEventOpened
      then if ev_sequence event \<noteq> 1 \<or> rs_status s \<noteq> ReviewRunStatusUnnamed 0
           then Inl ErrRunTransitionInvalid
           else Inr (s\<lparr>rs_status := ReviewRunActive\<rparr>)
      else if rs_status s \<noteq> ReviewRunActive then Inl ErrRunTransitionInvalid
      else if ev_taskKey event \<noteq> []
      then (case map_of (rs_tasks s) (ev_taskKey event) of
              None \<Rightarrow> Inl ErrInvalidRunEventTask
            | Some runtime \<Rightarrow>
                if td_identity (rt_definition runtime) \<noteq> ev_taskIdentity event
                then Inl ErrInvalidRunEventTask
                else and_then (applyTaskEvent s event runtime)
                       (\<lambda>runtime. Inr (s\<lparr>rs_tasks := AList.update (ev_taskKey event)
                          (runtime\<lparr>rt_lastEventRevision := ev_sequence event,
                                   rt_lastEventIdentity := ev_identity event,
                                   rt_lastEventAtMillis := ev_occurredAtMillis event\<rparr>)
                          (rs_tasks s)\<rparr>)))
      else (case ev_kind event of
              RunEventSucceeded \<Rightarrow>
                if \<not> canSucceed s then Inl ErrRunTransitionInvalid
                else Inr (s\<lparr>rs_status := ReviewRunSucceeded,
                            rs_outputIdentity := ev_outputIdentity event\<rparr>)
            | RunEventFailed \<Rightarrow>
                if \<not> canFail s then Inl ErrRunTransitionInvalid
                else Inr (s\<lparr>rs_status := ReviewRunFailed, rs_failure := ev_failure event\<rparr>)
            | RunEventCanceled \<Rightarrow>
                Inr (s\<lparr>rs_status := ReviewRunCanceled, rs_failure := RunFailureCanceled\<rparr>)
            | _ \<Rightarrow> Inl ErrRunTransitionInvalid))"


section \<open>Replay\<close>

definition initial_tasks :: "ReviewRunPlan \<Rightarrow> (string \<times> TaskRuntimeState) list" where
  "initial_tasks plan =
     foldl (\<lambda>m definition. AList.update (td_key definition)
              (newTaskRuntimeState definition TaskRuntimePending) m) [] (rp_tasks plan)"

definition initial_state :: "ReviewRunPlan \<Rightarrow> ReviewRunState" where
  "initial_state plan =
     \<lparr>rs_plan = plan, rs_status = ReviewRunStatusUnnamed 0, rs_revision = 0, rs_headIdentity = [],
      rs_lastOccurredAtMillis = 0, rs_tasks = initial_tasks plan, rs_outputIdentity = [],
      rs_failure = NoRunFailure\<rparr>"

definition valid_task_event :: "ReviewRunState \<Rightarrow> TaskRuntimeState \<Rightarrow> bool" where
  "valid_task_event s runtime \<longleftrightarrow>
     rt_status runtime = TaskRuntimePending \<and> rt_lastEventRevision runtime = 0
       \<and> rt_lastEventIdentity runtime = [] \<and> rt_lastEventAtMillis runtime = 0
     \<or> rt_status runtime \<noteq> TaskRuntimePending \<and> rt_lastEventRevision runtime > 0
       \<and> rt_lastEventRevision runtime \<le> rs_revision s
       \<and> validControlPlaneDigest (rt_lastEventIdentity runtime)
       \<and> validRunMillis (rt_lastEventAtMillis runtime)
       \<and> rt_lastEventAtMillis runtime \<le> rs_lastOccurredAtMillis s"

definition ReviewRunState_Validate :: "sha \<Rightarrow> ReviewRunState \<Rightarrow> error option" where
  "ReviewRunState_Validate H s =
     (case ReviewRunPlan_Validate H (rs_plan s) of
        Some err \<Rightarrow> Some err
      | None \<Rightarrow>
          if ReviewRunStatus_String (rs_status s) = [] \<or> rs_revision s = 0
             \<or> \<not> validControlPlaneDigest (rs_headIdentity s)
             \<or> length (rs_tasks s) \<noteq> length (rp_tasks (rs_plan s))
             \<or> \<not> validRunMillis (rs_lastOccurredAtMillis s)
          then Some ErrInvalidReviewRunState
          else if \<not> list_all (\<lambda>definition.
               (case map_of (rs_tasks s) (td_key definition) of
                  None \<Rightarrow> False
                | Some runtime \<Rightarrow>
                    td_identity (rt_definition runtime) = td_identity definition
                    \<and> TaskRuntimeStatus_String (rt_status runtime) \<noteq> []
                    \<and> rt_attempts runtime \<le> td_maxAttempts definition
                    \<and> valid_task_event s runtime)) (rp_tasks (rs_plan s))
          then Some ErrInvalidReviewRunState
          else if rs_status s = ReviewRunSucceeded \<and> \<not> validControlPlaneDigest (rs_outputIdentity s)
          then Some ErrInvalidReviewRunState
          else if (rs_status s = ReviewRunFailed \<or> rs_status s = ReviewRunCanceled)
                  \<and> RunFailure_String (rs_failure s) = []
          then Some ErrInvalidReviewRunState
          else None)"

text \<open>One iteration of the replay loop, at the given index, after an event with identity \<open>previous\<close>.\<close>

definition replay_step ::
    "sha \<Rightarrow> ReviewRunPlan \<Rightarrow> nat \<Rightarrow> string \<Rightarrow> ReviewRunState \<Rightarrow> RunEvent \<Rightarrow> error + ReviewRunState" where
  "replay_step H plan index previous state event =
     check (RunEvent_Validate H event)
     (if ev_planIdentity event \<noteq> rp_identity plan then Inl ErrRunEventPlanMismatch
      else if sc_identity (ev_scope event) \<noteq> sc_identity (rp_scope plan)
      then Inl ErrRunEventScopeMismatch
      else if ev_sequence event \<noteq> index + 1 \<or> ev_previousIdentity event \<noteq> previous
              \<or> index > 0 \<and> ev_occurredAtMillis event < rs_lastOccurredAtMillis state
      then Inl ErrRunTransitionSequenceMismatch
      else if rs_status state \<noteq> ReviewRunStatusUnnamed 0 \<and> rs_status state \<noteq> ReviewRunActive
      then Inl ErrRunAlreadyTerminal
      else and_then (apply_event state event)
             (\<lambda>state. Inr (state\<lparr>rs_revision := ev_sequence event,
                                 rs_headIdentity := ev_identity event,
                                 rs_lastOccurredAtMillis := ev_occurredAtMillis event\<rparr>)))"

fun replay_events ::
    "sha \<Rightarrow> ReviewRunPlan \<Rightarrow> nat \<Rightarrow> string \<Rightarrow> ReviewRunState \<Rightarrow> RunEvent list \<Rightarrow> error + ReviewRunState"
where
  "replay_events H plan index previous state [] = Inr state"
| "replay_events H plan index previous state (event # events) =
     and_then (replay_step H plan index previous state event)
       (\<lambda>state. replay_events H plan (index + 1) (ev_identity event) state events)"

definition ReplayReviewRun :: "sha \<Rightarrow> ReviewRunPlan \<Rightarrow> RunEvent list \<Rightarrow> error + ReviewRunState" where
  "ReplayReviewRun H plan events =
     check (ReviewRunPlan_Validate H plan)
     (if events = [] then Inl ErrRunTransitionSequenceMismatch
      else and_then (replay_events H plan 0 [] (initial_state plan) events)
             (\<lambda>state. check (ReviewRunState_Validate H state) (Inr state)))"


section \<open>Work that can be scheduled\<close>

definition ReadyTasks :: "ReviewRunState \<Rightarrow> gotime \<Rightarrow> TaskDefinition list" where
  "ReadyTasks s now =
     (if rs_status s \<noteq> ReviewRunActive then []
      else filter (\<lambda>definition.
             let runtime = runtime_at s (td_key definition)
             in rt_status runtime = TaskRuntimePending \<and> dependenciesSatisfied s definition
                \<or> RetryableAt runtime now) (rp_tasks (rs_plan s)))"

definition SkippableTasks :: "ReviewRunState \<Rightarrow> TaskDefinition list" where
  "SkippableTasks s =
     (if rs_status s \<noteq> ReviewRunActive then []
      else filter (\<lambda>definition.
             rt_status (runtime_at s (td_key definition)) = TaskRuntimePending
             \<and> hasFailedDependency s definition) (rp_tasks (rs_plan s)))"

text \<open>The loop of \<open>TerminalCompletion\<close> that selects the first blocking task.\<close>

fun select_failed ::
    "ReviewRunState \<Rightarrow> TaskRuntimeState option \<Rightarrow> TaskDefinition list \<Rightarrow> TaskRuntimeState option" where
  "select_failed s selected [] = selected"
| "select_failed s selected (definition # rest) =
     (let runtime = runtime_at s (td_key definition)
      in if \<not> td_required definition
            \<or> \<not> failedWithoutRetry runtime \<and> rt_status runtime \<noteq> TaskRuntimeSkipped
         then select_failed s selected rest
         else (case selected of
                 None \<Rightarrow> select_failed s (Some runtime) rest
               | Some best \<Rightarrow>
                   if rt_lastEventRevision runtime < rt_lastEventRevision best
                      \<or> rt_lastEventRevision runtime = rt_lastEventRevision best
                        \<and> td_key (rt_definition runtime) < td_key (rt_definition best)
                   then select_failed s (Some runtime) rest
                   else select_failed s selected rest))"

text \<open>\<open>Inr None\<close> is the code's \<open>(TaskCompletion{}, false, nil)\<close>.\<close>

definition TerminalCompletion :: "sha \<Rightarrow> ReviewRunState \<Rightarrow> error + TaskCompletion option" where
  "TerminalCompletion H s =
     (if ReviewRunState_Validate H s \<noteq> None \<or> rs_status s \<noteq> ReviewRunActive
      then Inl ErrInvalidReviewRunState
      else if canFail s
      then (case select_failed s None (rp_tasks (rs_plan s)) of
              None \<Rightarrow> Inl ErrInvalidReviewRunState
            | Some selected \<Rightarrow>
                (let failure = (if rt_status selected = TaskRuntimeSkipped then RunFailureDependency
                                else rt_failure selected)
                 in case NewTaskFailure H failure of
                      Inl _ \<Rightarrow> Inl ErrInvalidReviewRunState
                    | Inr completion \<Rightarrow> Inr (Some completion)))
      else if \<not> canSucceed s then Inr None
      else and_then (ReviewRunPlan_ResultTask H (rs_plan s))
        (\<lambda>resultTask.
           case ReviewRunState_Task s (td_key resultTask) of
             None \<Rightarrow> Inl ErrInvalidReviewRunState
           | Some runtime \<Rightarrow>
               if rt_status runtime \<noteq> TaskRuntimeSucceeded then Inl ErrInvalidReviewRunState
               else (case NewTaskSuccess H (rt_outputIdentity runtime) of
                       Inl _ \<Rightarrow> Inl ErrInvalidReviewRunState
                     | Inr completion \<Rightarrow> Inr (Some completion))))"

end
