(* ===== verification/Run_Journal.thy ===== *)
theory Run_Journal
  imports Run_State
begin

text \<open>
  The journal of review runs (controlplane/run\_journal.go): the interface \<open>RunJournal\<close> as a record
  of its methods over an abstract journal state, and \<open>MemoryRunJournal\<close>, which implements it.
  Every method of the memory journal holds the lock for its whole body, so each is one atomic
  step on the state. A nil receiver is not modelled.

  A context is nil, done or live; it does not change during one operation.
\<close>

datatype gocontext =
    NilContext
  | DoneContext
  | LiveContext

fun validateContext :: "gocontext \<Rightarrow> error option" where
  "validateContext NilContext = Some ErrInvalidRunJournalContext"
| "validateContext DoneContext = Some ErrRunJournalContextDone"
| "validateContext LiveContext = None"

definition maxRunJournalReadLimit :: nat where
  "maxRunJournalReadLimit = 1000"

definition maxRunJournalStreamEvents :: nat where
  "maxRunJournalStreamEvents = 10000"


section \<open>The interface\<close>

record 's RunJournal =
  rj_SavePlan :: "gocontext \<Rightarrow> ReviewRunPlan \<Rightarrow> 's \<Rightarrow> error option \<times> 's"
  rj_LoadPlan :: "gocontext \<Rightarrow> ReviewScope \<Rightarrow> 's \<Rightarrow> (error + ReviewRunPlan option) \<times> 's"
  rj_ListPlans :: "gocontext \<Rightarrow> string \<Rightarrow> string \<Rightarrow> string \<Rightarrow> int \<Rightarrow> 's \<Rightarrow> (error + ReviewRunPlan list) \<times> 's"
  rj_Head :: "gocontext \<Rightarrow> ReviewScope \<Rightarrow> 's \<Rightarrow> (error + RunEvent option) \<times> 's"
  rj_Append :: "gocontext \<Rightarrow> string \<Rightarrow> RunEvent \<Rightarrow> 's \<Rightarrow> error option \<times> 's"
  rj_Read :: "gocontext \<Rightarrow> ReviewScope \<Rightarrow> nat \<Rightarrow> int \<Rightarrow> 's \<Rightarrow> (error + RunEvent list) \<times> 's"


section \<open>The memory journal\<close>

record MemoryRunJournal =
  mj_streams :: "(string \<times> RunEvent list) list"
  mj_plans :: "(string \<times> ReviewRunPlan) list"

definition NewMemoryRunJournal :: MemoryRunJournal where
  "NewMemoryRunJournal = \<lparr>mj_streams = [], mj_plans = []\<rparr>"

definition mj_stream :: "MemoryRunJournal \<Rightarrow> string \<Rightarrow> RunEvent list" where
  "mj_stream j scope = map_get [] (mj_streams j) scope"

definition MemoryRunJournal_SavePlan ::
    "sha \<Rightarrow> gocontext \<Rightarrow> ReviewRunPlan \<Rightarrow> MemoryRunJournal \<Rightarrow> error option \<times> MemoryRunJournal" where
  "MemoryRunJournal_SavePlan H ctx plan j =
     (case validateContext ctx of
        Some err \<Rightarrow> (Some err, j)
      | None \<Rightarrow>
     (case ReviewRunPlan_Validate H plan of
        Some err \<Rightarrow> (Some err, j)
      | None \<Rightarrow>
          (let key = sc_identity (rp_scope plan)
           in case map_of (mj_plans j) key of
                Some existing \<Rightarrow>
                  if rp_identity existing = rp_identity plan then (None, j)
                  else (Some ErrRunPlanConflict, j)
              | None \<Rightarrow>
                  (let stream = mj_stream j key
                   in if stream \<noteq> [] \<and> ev_planIdentity (hd stream) \<noteq> rp_identity plan
                      then (Some ErrRunPlanConflict, j)
                      else (None, j\<lparr>mj_plans := AList.update key plan (mj_plans j)\<rparr>)))))"

definition validateRunJournalOperation :: "sha \<Rightarrow> gocontext \<Rightarrow> ReviewScope \<Rightarrow> error option" where
  "validateRunJournalOperation H ctx scope =
     (case validateContext ctx of
        Some err \<Rightarrow> Some err
      | None \<Rightarrow> ReviewScope_Validate H scope)"

definition MemoryRunJournal_LoadPlan ::
    "sha \<Rightarrow> gocontext \<Rightarrow> ReviewScope \<Rightarrow> MemoryRunJournal
      \<Rightarrow> (error + ReviewRunPlan option) \<times> MemoryRunJournal" where
  "MemoryRunJournal_LoadPlan H ctx scope j =
     (case validateRunJournalOperation H ctx scope of
        Some err \<Rightarrow> (Inl err, j)
      | None \<Rightarrow> (Inr (map_of (mj_plans j) (sc_identity scope)), j))"

definition validRunPlanQuery :: "string \<Rightarrow> bool" where
  "validRunPlanQuery value =
     (if length value = 0 \<or> length value > 128 then False
      else list_all (\<lambda>character. \<not> (character \<le> 32 \<or> character = 127)) (go_runes value))"

text \<open>
  The listing sorts by run identifier; two plans of one tenant and repository with the same run
  identifier have the same scope, hence the same key, so the order is determined.
\<close>

definition MemoryRunJournal_ListPlans ::
    "gocontext \<Rightarrow> string \<Rightarrow> string \<Rightarrow> string \<Rightarrow> int \<Rightarrow> MemoryRunJournal
      \<Rightarrow> (error + ReviewRunPlan list) \<times> MemoryRunJournal" where
  "MemoryRunJournal_ListPlans ctx tenantID repositoryID afterRunID limit j =
     (case validateContext ctx of
        Some err \<Rightarrow> (Inl err, j)
      | None \<Rightarrow>
          if \<not> validRunPlanQuery tenantID \<or> \<not> validRunPlanQuery repositoryID
             \<or> afterRunID \<noteq> [] \<and> \<not> validRunPlanQuery afterRunID
             \<or> limit \<le> 0 \<or> limit > int maxRunJournalReadLimit
          then (Inl ErrInvalidRunPlanQuery, j)
          else (let plans = filter (\<lambda>plan. sc_tenantID (rp_scope plan) = tenantID
                      \<and> sc_repositoryID (rp_scope plan) = repositoryID
                      \<and> sc_reviewRunID (rp_scope plan) > afterRunID) (map snd (mj_plans j));
                    sorted_plans = sort_key (\<lambda>plan. sc_reviewRunID (rp_scope plan)) plans
                in (Inr (if int (length sorted_plans) > limit then take (nat limit) sorted_plans
                         else sorted_plans), j)))"

definition MemoryRunJournal_Head ::
    "sha \<Rightarrow> gocontext \<Rightarrow> ReviewScope \<Rightarrow> MemoryRunJournal
      \<Rightarrow> (error + RunEvent option) \<times> MemoryRunJournal" where
  "MemoryRunJournal_Head H ctx scope j =
     (case validateRunJournalOperation H ctx scope of
        Some err \<Rightarrow> (Inl err, j)
      | None \<Rightarrow>
          (let events = mj_stream j (sc_identity scope)
           in if events = [] then (Inr None, j) else (Inr (Some (last events)), j)))"

definition MemoryRunJournal_Append ::
    "sha \<Rightarrow> gocontext \<Rightarrow> string \<Rightarrow> RunEvent \<Rightarrow> MemoryRunJournal \<Rightarrow> error option \<times> MemoryRunJournal" where
  "MemoryRunJournal_Append H ctx expectedHead event j =
     (case validateContext ctx of
        Some err \<Rightarrow> (Some err, j)
      | None \<Rightarrow>
     (case RunEvent_Validate H event of
        Some err \<Rightarrow> (Some err, j)
      | None \<Rightarrow>
          (let key = sc_identity (ev_scope event);
               events = mj_stream j key;
               planConflict = (case map_of (mj_plans j) key of
                                 Some plan \<Rightarrow> rp_identity plan \<noteq> ev_planIdentity event
                               | None \<Rightarrow> False);
               actualHead = (if events = [] then [] else ev_identity (last events))
           in if planConflict then (Some ErrRunPlanConflict, j)
              else if events \<noteq> [] \<and> ev_planIdentity (hd events) \<noteq> ev_planIdentity event
              then (Some ErrRunPlanConflict, j)
              else if events \<noteq> [] \<and> ev_identity (last events) = ev_identity event then (None, j)
              else if actualHead \<noteq> expectedHead then (Some ErrRunJournalHeadConflict, j)
              else if ev_sequence event \<noteq> length events + 1 then (Some ErrRunJournalSequenceMismatch, j)
              else if ev_previousIdentity event \<noteq> actualHead then (Some ErrRunJournalChainMismatch, j)
              else if length events \<ge> maxRunJournalStreamEvents
              then (Some ErrRunJournalStreamTooLarge, j)
              else (None, j\<lparr>mj_streams := AList.update key (events @ [event]) (mj_streams j)\<rparr>))))"

definition MemoryRunJournal_Read ::
    "sha \<Rightarrow> gocontext \<Rightarrow> ReviewScope \<Rightarrow> nat \<Rightarrow> int \<Rightarrow> MemoryRunJournal
      \<Rightarrow> (error + RunEvent list) \<times> MemoryRunJournal" where
  "MemoryRunJournal_Read H ctx scope after limit j =
     (case validateRunJournalOperation H ctx scope of
        Some err \<Rightarrow> (Inl err, j)
      | None \<Rightarrow>
          if limit \<le> 0 \<or> limit > int maxRunJournalReadLimit
          then (Inl ErrInvalidRunJournalReadLimit, j)
          else (let events = mj_stream j (sc_identity scope)
                in if after \<ge> length events then (Inr [], j)
                   else (let stop = min (after + nat limit) (length events)
                         in (Inr (drop after (take stop events)), j))))"

definition memoryJournal :: "sha \<Rightarrow> MemoryRunJournal RunJournal" where
  "memoryJournal H =
     \<lparr>rj_SavePlan = MemoryRunJournal_SavePlan H, rj_LoadPlan = MemoryRunJournal_LoadPlan H,
      rj_ListPlans = MemoryRunJournal_ListPlans, rj_Head = MemoryRunJournal_Head H,
      rj_Append = MemoryRunJournal_Append H, rj_Read = MemoryRunJournal_Read H\<rparr>"


section \<open>Other clients\<close>

text \<open>
  Several clients share one journal. What the others do between two calls of the client under
  study is a function on the journal state; a schedule is the list of those functions, one per
  call, and an empty schedule is a client on its own.
\<close>

type_synonym 's schedule = "('s \<Rightarrow> 's) list"

definition others :: "'s \<times> 's schedule \<Rightarrow> 's \<times> 's schedule" where
  "others w = (case w of (s, []) \<Rightarrow> (s, []) | (s, f # fs) \<Rightarrow> (f s, fs))"

definition after_others :: "('s \<Rightarrow> 'a \<times> 's) \<Rightarrow> 's \<times> 's schedule \<Rightarrow> 'a \<times> ('s \<times> 's schedule)" where
  "after_others f w = (case others w of (s, fs) \<Rightarrow> (case f s of (x, s') \<Rightarrow> (x, (s', fs))))"

definition sharedJournal :: "'s RunJournal \<Rightarrow> ('s \<times> 's schedule) RunJournal" where
  "sharedJournal J =
     \<lparr>rj_SavePlan = (\<lambda>ctx p. after_others (rj_SavePlan J ctx p)),
      rj_LoadPlan = (\<lambda>ctx sc. after_others (rj_LoadPlan J ctx sc)),
      rj_ListPlans = (\<lambda>ctx t r a l. after_others (rj_ListPlans J ctx t r a l)),
      rj_Head = (\<lambda>ctx sc. after_others (rj_Head J ctx sc)),
      rj_Append = (\<lambda>ctx h e. after_others (rj_Append J ctx h e)),
      rj_Read = (\<lambda>ctx sc a l. after_others (rj_Read J ctx sc a l))\<rparr>"

end
