(* ===== verification/Coordinator.thy ===== *)
theory Coordinator
  imports Run_Journal
begin

text \<open>
  The coordinator of review runs (controlplane/coordinator.go): optimistic, restartable
  transitions over any \<open>RunJournal\<close>. Each operation loads and replays the stream, builds the next
  event from the state it saw and appends it under a comparison of the head; a lost race starts
  the iteration again, at most \<open>maxCoordinatorConflicts\<close> times.

  An operation is a function of the journal methods \<open>J\<close> and the journal state, and returns the
  result with the state after it. The random source of lease tokens is the function \<open>random\<close>,
  which gives the 32 bytes of each draw or fails. Where the code returns a value beside an
  error, the model returns the error.
\<close>

definition maxCoordinatorConflicts :: nat where
  "maxCoordinatorConflicts = 16"

definition maxReviewRunTasks :: nat where
  "maxReviewRunTasks = 64"


section \<open>Leases\<close>

record TaskLease =
  tl_identity :: string
  tl_planIdentity :: string
  tl_taskKey :: string
  tl_taskIdentity :: string
  tl_handlerIdentity :: string
  tl_workerIdentity :: string
  tl_token :: string
  tl_tokenIdentity :: string
  tl_eventIdentity :: string
  tl_attempt :: nat
  tl_expiresAtMillis :: int

definition taskLeasePreimage :: "TaskLease \<Rightarrow> json" where
  "taskLeasePreimage lease =
     JObj [(''contract'', JStr ''open-trestle/task-lease''), (''version'', JInt 1),
           (''plan'', JStr (tl_planIdentity lease)), (''task_key'', JStr (tl_taskKey lease)),
           (''task'', JStr (tl_taskIdentity lease)), (''handler'', JStr (tl_handlerIdentity lease)),
           (''worker'', JStr (tl_workerIdentity lease)), (''token'', JStr (tl_tokenIdentity lease)),
           (''event'', JStr (tl_eventIdentity lease)), (''attempt'', JInt (int (tl_attempt lease))),
           (''expires'', JInt (tl_expiresAtMillis lease))]"

definition deriveTaskLeaseIdentity :: "sha \<Rightarrow> TaskLease \<Rightarrow> string" where
  "deriveTaskLeaseIdentity H lease = hashControlPlaneValue H (taskLeasePreimage lease)"

definition leaseTokenPrefix :: string where
  "leaseTokenPrefix = ''open-trestle/task-lease/v1/''"

definition deriveLeaseTokenIdentity :: "sha \<Rightarrow> string \<Rightarrow> string" where
  "deriveLeaseTokenIdentity H token = hex_EncodeToString (H (leaseTokenPrefix @ token))"

definition validLeaseToken :: "string \<Rightarrow> bool" where
  "validLeaseToken token =
     (if length token \<noteq> 64 \<or> token \<noteq> strings_ToLower token \<or> strings_Trim_zeros token = [] then False
      else hex_DecodeString_ok token)"

definition TaskLease_Validate :: "sha \<Rightarrow> TaskLease \<Rightarrow> error option" where
  "TaskLease_Validate H l =
     (let validPlan = validControlPlaneDigest (tl_planIdentity l);
          validTask = validReviewTaskKey (tl_taskKey l) \<and> validControlPlaneDigest (tl_taskIdentity l);
          validHandler = validControlPlaneDigest (tl_handlerIdentity l);
          validWorker = validWorkerIdentity (tl_workerIdentity l);
          validToken = validLeaseToken (tl_token l)
            \<and> deriveLeaseTokenIdentity H (tl_token l) = tl_tokenIdentity l;
          validEvent = validControlPlaneDigest (tl_eventIdentity l)
      in if \<not> validPlan \<or> \<not> validTask \<or> \<not> validHandler \<or> \<not> validWorker \<or> tl_attempt l = 0
            \<or> \<not> validToken \<or> \<not> validEvent \<or> \<not> validRunMillis (tl_expiresAtMillis l)
         then Some ErrInvalidTaskLease
         else if tl_identity l \<noteq> deriveTaskLeaseIdentity H l then Some ErrInvalidTaskLeaseIdentity
         else None)"

definition planTaskHandler :: "ReviewRunPlan \<Rightarrow> string \<Rightarrow> string" where
  "planTaskHandler plan taskKey =
     (case ReviewRunPlan_Task plan taskKey of None \<Rightarrow> [] | Some task \<Rightarrow> td_handlerIdentity task)"

definition newTaskLease :: "sha \<Rightarrow> ReviewRunPlan \<Rightarrow> RunEvent \<Rightarrow> string \<Rightarrow> error + TaskLease" where
  "newTaskLease H plan event token =
     (let lease = \<lparr>tl_identity = [], tl_planIdentity = rp_identity plan, tl_taskKey = ev_taskKey event,
                   tl_taskIdentity = ev_taskIdentity event,
                   tl_handlerIdentity = planTaskHandler plan (ev_taskKey event),
                   tl_workerIdentity = ev_workerIdentity event, tl_token = token,
                   tl_tokenIdentity = ev_leaseTokenIdentity event,
                   tl_eventIdentity = ev_identity event, tl_attempt = ev_attempt event,
                   tl_expiresAtMillis = ev_leaseExpiresAtMillis event\<rparr>;
          lease = lease\<lparr>tl_identity := deriveTaskLeaseIdentity H lease\<rparr>
      in check (TaskLease_Validate H lease) (Inr lease))"

definition runtimeMatchesLease :: "TaskRuntimeState \<Rightarrow> TaskLease \<Rightarrow> bool" where
  "runtimeMatchesLease runtime lease =
     (let active = rt_status runtime = TaskRuntimeLeased;
          matchingTask = td_identity (rt_definition runtime) = tl_taskIdentity lease;
          matchingAttempt = rt_attempts runtime = tl_attempt lease;
          matchingToken = rt_leaseTokenIdentity runtime = tl_tokenIdentity lease;
          matchingWorker = rt_workerIdentity runtime = tl_workerIdentity lease
      in active \<and> matchingTask \<and> matchingAttempt \<and> matchingToken \<and> matchingWorker)"

definition completedTaskMatches :: "TaskRuntimeState \<Rightarrow> TaskLease \<Rightarrow> TaskCompletion \<Rightarrow> bool" where
  "completedTaskMatches runtime lease completion =
     (if td_identity (rt_definition runtime) \<noteq> tl_taskIdentity lease
         \<or> rt_attempts runtime \<noteq> tl_attempt lease
         \<or> rt_leaseTokenIdentity runtime \<noteq> tl_tokenIdentity lease then False
      else if rt_status runtime = TaskRuntimeSucceeded
      then tc_status completion = TaskCompletionSucceeded
           \<and> rt_outputIdentity runtime = tc_outputIdentity completion
      else tc_status completion = TaskCompletionFailed \<and> rt_failure runtime = tc_failure completion)"

text \<open>\<open>newLeaseToken\<close>: the draw \<open>n\<close> of the random source.\<close>

definition newLeaseToken :: "sha \<Rightarrow> string option \<Rightarrow> error + string \<times> string" where
  "newLeaseToken H draw =
     (case draw of
        None \<Rightarrow> Inl ErrCoordinatorRandomness
      | Some bytes \<Rightarrow>
          if length bytes \<noteq> 32 then Inl ErrCoordinatorRandomness
          else (let token = hex_EncodeToString bytes
                in if \<not> validLeaseToken token then Inl ErrCoordinatorRandomness
                   else Inr (token, deriveLeaseTokenIdentity H token)))"


section \<open>Loading\<close>

text \<open>
  The loop of \<open>readAllRunEvents\<close>. It ends: every iteration but the last adds a full page, and the
  total is bounded by \<open>maxRunJournalStreamEvents\<close>.
\<close>

function read_pages ::
    "'s RunJournal \<Rightarrow> gocontext \<Rightarrow> ReviewScope \<Rightarrow> RunEvent list \<Rightarrow> nat \<Rightarrow> 's \<Rightarrow> (error + RunEvent list) \<times> 's"
where
  "read_pages J ctx scope events after s =
     (case rj_Read J ctx scope after (int maxRunJournalReadLimit) s of
        (Inl err, s') \<Rightarrow> (Inl err, s')
      | (Inr page, s') \<Rightarrow>
          if length page > maxRunJournalStreamEvents - length events
          then (Inl ErrRunJournalStreamTooLarge, s')
          else if length page < maxRunJournalReadLimit then (Inr (events @ page), s')
          else (let nextAfter = ev_sequence (last page)
                in if nextAfter \<le> after then (Inl ErrRunJournalSequenceMismatch, s')
                   else read_pages J ctx scope (events @ page) nextAfter s'))"
  by pat_completeness auto
termination
  by (relation "measure (\<lambda>(J, ctx, scope, events, after, s). maxRunJournalStreamEvents - length events)")
    (auto simp: maxRunJournalReadLimit_def)

declare read_pages.simps [simp del]

definition readAllRunEvents ::
    "'s RunJournal \<Rightarrow> gocontext \<Rightarrow> ReviewScope \<Rightarrow> 's \<Rightarrow> (error + RunEvent list) \<times> 's" where
  "readAllRunEvents J ctx scope s = read_pages J ctx scope [] 0 s"

definition Coordinator_validate :: "sha \<Rightarrow> gocontext \<Rightarrow> ReviewRunPlan \<Rightarrow> error option" where
  "Coordinator_validate H ctx plan =
     (case validateContext ctx of Some err \<Rightarrow> Some err | None \<Rightarrow> ReviewRunPlan_Validate H plan)"

definition Coordinator_load ::
    "sha \<Rightarrow> 's RunJournal \<Rightarrow> gocontext \<Rightarrow> ReviewRunPlan \<Rightarrow> 's \<Rightarrow> (error + ReviewRunState) \<times> 's" where
  "Coordinator_load H J ctx plan s =
     (case readAllRunEvents J ctx (rp_scope plan) s of
        (Inl err, s') \<Rightarrow> (Inl err, s')
      | (Inr events, s') \<Rightarrow>
          if events = [] then (Inl ErrRunNotOpened, s') else (ReplayReviewRun H plan events, s'))"

definition Coordinator_Resume ::
    "sha \<Rightarrow> 's RunJournal \<Rightarrow> gocontext \<Rightarrow> ReviewScope \<Rightarrow> 's
      \<Rightarrow> (error + ReviewRunPlan \<times> ReviewRunState) \<times> 's" where
  "Coordinator_Resume H J ctx scope s =
     (case validateContext ctx of
        Some err \<Rightarrow> (Inl err, s)
      | None \<Rightarrow>
     (case ReviewScope_Validate H scope of
        Some err \<Rightarrow> (Inl err, s)
      | None \<Rightarrow>
     (case rj_LoadPlan J ctx scope s of
        (Inl err, s') \<Rightarrow> (Inl err, s')
      | (Inr None, s') \<Rightarrow> (Inl ErrRunNotOpened, s')
      | (Inr (Some plan), s') \<Rightarrow>
          (case Coordinator_load H J ctx plan s' of
             (Inl err, s'') \<Rightarrow> (Inl err, s'')
           | (Inr state, s'') \<Rightarrow> (Inr (plan, state), s'')))))"

definition transitionTimeAllowed :: "ReviewRunState \<Rightarrow> gotime \<Rightarrow> bool" where
  "transitionTimeAllowed state now \<longleftrightarrow>
     now \<noteq> zero_time \<and> UnixMilli now \<ge> rs_lastOccurredAtMillis state \<and> validRunMillis (UnixMilli now)"


section \<open>The append of an iteration\<close>

text \<open>
  What every operation does with the event it built: return when it could not be built, append it
  under the head it was built on, and distinguish success, a lost race and any other error.
\<close>

datatype 'a appended =
    Appended 'a
  | Conflict
  | Refused error

definition append_event ::
    "'s RunJournal \<Rightarrow> gocontext \<Rightarrow> string \<Rightarrow> error + RunEvent \<Rightarrow> 's \<Rightarrow> RunEvent appended \<times> 's" where
  "append_event J ctx expectedHead built s =
     (case built of
        Inl err \<Rightarrow> (Refused err, s)
      | Inr event \<Rightarrow>
          (case rj_Append J ctx expectedHead event s of
             (None, s') \<Rightarrow> (Appended event, s')
           | (Some err, s') \<Rightarrow>
               if err = ErrRunJournalHeadConflict then (Conflict, s') else (Refused err, s')))"

text \<open>The next event of a loaded state: sequence and predecessor come from the state.\<close>

definition next_event ::
    "sha \<Rightarrow> ReviewRunPlan \<Rightarrow> ReviewRunState \<Rightarrow> RunEventKind \<Rightarrow> TaskDefinition \<Rightarrow> nat \<Rightarrow> string
      \<Rightarrow> string \<Rightarrow> gotime \<Rightarrow> string \<Rightarrow> RunFailure \<Rightarrow> gotime \<Rightarrow> gotime \<Rightarrow> error + RunEvent" where
  "next_event H plan state kind task attempt token worker expires output failure retry now =
     NewRunEvent H plan (rs_revision state + 1) (rs_headIdentity state) kind task attempt token worker
       expires output failure retry now"


section \<open>Opening and advancing\<close>

fun open_loop ::
    "nat \<Rightarrow> sha \<Rightarrow> 's RunJournal \<Rightarrow> gocontext \<Rightarrow> ReviewRunPlan \<Rightarrow> gotime \<Rightarrow> 's \<Rightarrow> (error + ReviewRunState) \<times> 's"
where
  "open_loop 0 H J ctx plan now s = (Inl ErrCoordinatorContention, s)"
| "open_loop (Suc n) H J ctx plan now s =
     (case readAllRunEvents J ctx (rp_scope plan) s of
        (Inl err, s') \<Rightarrow> (Inl err, s')
      | (Inr events, s') \<Rightarrow>
          if events \<noteq> [] then (ReplayReviewRun H plan events, s')
          else (case append_event J ctx []
                       (NewRunEvent H plan 1 [] RunEventOpened zeroTaskDefinition 0 [] [] zero_time []
                          NoRunFailure zero_time now) s' of
                  (Appended event, s'') \<Rightarrow> (ReplayReviewRun H plan [event], s'')
                | (Conflict, s'') \<Rightarrow> open_loop n H J ctx plan now s''
                | (Refused err, s'') \<Rightarrow> (Inl err, s'')))"

definition Coordinator_Open ::
    "sha \<Rightarrow> 's RunJournal \<Rightarrow> gocontext \<Rightarrow> ReviewRunPlan \<Rightarrow> gotime \<Rightarrow> 's \<Rightarrow> (error + ReviewRunState) \<times> 's" where
  "Coordinator_Open H J ctx plan now s =
     (case Coordinator_validate H ctx plan of
        Some err \<Rightarrow> (Inl err, s)
      | None \<Rightarrow>
          (case rj_SavePlan J ctx plan s of
             (Some err, s') \<Rightarrow> (Inl err, s')
           | (None, s') \<Rightarrow> open_loop maxCoordinatorConflicts H J ctx plan now s'))"

text \<open>The first leased task whose last attempt has expired.\<close>

definition exhausted_task :: "ReviewRunPlan \<Rightarrow> ReviewRunState \<Rightarrow> gotime \<Rightarrow> TaskRuntimeState option" where
  "exhausted_task plan state now =
     map_option (\<lambda>definition. runtime_at state (td_key definition))
       (find (\<lambda>definition.
          let runtime = runtime_at state (td_key definition)
          in rt_status runtime = TaskRuntimeLeased \<and> rt_attempts runtime = td_maxAttempts definition
             \<and> UnixMilli now \<ge> rt_leaseExpiresAtMillis runtime) (rp_tasks plan))"

text \<open>The event an iteration of \<open>Advance\<close> appends, \<open>None\<close> when there is nothing to do.\<close>

definition advance_event ::
    "sha \<Rightarrow> ReviewRunPlan \<Rightarrow> ReviewRunState \<Rightarrow> gotime \<Rightarrow> (error + RunEvent) option" where
  "advance_event H plan state now =
     (case exhausted_task plan state now of
        Some exhausted \<Rightarrow>
          Some (next_event H plan state RunEventTaskFailed (rt_definition exhausted)
                  (rt_attempts exhausted) (rt_leaseTokenIdentity exhausted) [] zero_time []
                  RunFailureResourceLimit zero_time now)
      | None \<Rightarrow>
          (case ReadyTasks state now of
             task # _ \<Rightarrow>
               Some (next_event H plan state RunEventTaskAvailable task 0 [] [] zero_time []
                       NoRunFailure zero_time now)
           | [] \<Rightarrow>
               (case SkippableTasks state of
                  [] \<Rightarrow> None
                | task # _ \<Rightarrow>
                    Some (next_event H plan state RunEventTaskSkipped task 0 [] [] zero_time []
                            RunFailureDependency zero_time now))))"

fun advance_loop ::
    "nat \<Rightarrow> sha \<Rightarrow> 's RunJournal \<Rightarrow> gocontext \<Rightarrow> ReviewRunPlan \<Rightarrow> gotime \<Rightarrow> 's \<Rightarrow> (error + ReviewRunState) \<times> 's"
where
  "advance_loop 0 H J ctx plan now s = (Inl ErrCoordinatorContention, s)"
| "advance_loop (Suc n) H J ctx plan now s =
     (case Coordinator_load H J ctx plan s of
        (Inl err, s') \<Rightarrow> (Inl err, s')
      | (Inr state, s') \<Rightarrow>
          if \<not> transitionTimeAllowed state now then (Inl ErrRunTransitionSequenceMismatch, s')
          else if rs_status state \<noteq> ReviewRunActive then (Inr state, s')
          else (case advance_event H plan state now of
                  None \<Rightarrow> (Inr state, s')
                | Some built \<Rightarrow>
                    (case append_event J ctx (rs_headIdentity state) built s' of
                       (Refused err, s'') \<Rightarrow> (Inl err, s'')
                     | (_, s'') \<Rightarrow> advance_loop n H J ctx plan now s'')))"

definition Coordinator_Advance ::
    "sha \<Rightarrow> 's RunJournal \<Rightarrow> gocontext \<Rightarrow> ReviewRunPlan \<Rightarrow> gotime \<Rightarrow> 's \<Rightarrow> (error + ReviewRunState) \<times> 's" where
  "Coordinator_Advance H J ctx plan now s =
     (case Coordinator_validate H ctx plan of
        Some err \<Rightarrow> (Inl err, s)
      | None \<Rightarrow> advance_loop (maxReviewRunTasks + maxCoordinatorConflicts) H J ctx plan now s)"

section \<open>The conflict loop\<close>

text \<open>
  The loop that the remaining operations share, as a function of what distinguishes them: the
  decision taken on a loaded state, and what follows a successful append. The first argument
  counts the iterations left and also numbers the draws of the random source.
\<close>

datatype 'a decision =
    Return "error + 'a"
  | Try "error + RunEvent"

fun retry_loop ::
    "nat \<Rightarrow> sha \<Rightarrow> 's RunJournal \<Rightarrow> gocontext \<Rightarrow> ReviewRunPlan \<Rightarrow> (nat \<Rightarrow> ReviewRunState \<Rightarrow> 'a decision)
      \<Rightarrow> (nat \<Rightarrow> RunEvent \<Rightarrow> 's \<Rightarrow> (error + 'a) \<times> 's) \<Rightarrow> 's \<Rightarrow> (error + 'a) \<times> 's"
where
  "retry_loop 0 H J ctx plan decide finish s = (Inl ErrCoordinatorContention, s)"
| "retry_loop (Suc n) H J ctx plan decide finish s =
     (case Coordinator_load H J ctx plan s of
        (Inl err, s') \<Rightarrow> (Inl err, s')
      | (Inr state, s') \<Rightarrow>
          (case decide n state of
             Return res \<Rightarrow> (res, s')
           | Try built \<Rightarrow>
               (case append_event J ctx (rs_headIdentity state) built s' of
                  (Appended event, s'') \<Rightarrow> finish n event s''
                | (Conflict, s'') \<Rightarrow> retry_loop n H J ctx plan decide finish s''
                | (Refused err, s'') \<Rightarrow> (Inl err, s''))))"

definition finish_load ::
    "sha \<Rightarrow> 's RunJournal \<Rightarrow> gocontext \<Rightarrow> ReviewRunPlan \<Rightarrow> nat \<Rightarrow> RunEvent \<Rightarrow> 's
      \<Rightarrow> (error + ReviewRunState) \<times> 's" where
  "finish_load H J ctx plan n event s = Coordinator_load H J ctx plan s"


section \<open>Claiming and renewing a lease\<close>

text \<open>A found lease is \<open>Some\<close>; \<open>Return (Inr None)\<close> is the code's \<open>(TaskLease{}, false, nil)\<close>.\<close>

definition claim_decide ::
    "sha \<Rightarrow> ReviewRunPlan \<Rightarrow> string \<Rightarrow> string \<Rightarrow> (nat \<Rightarrow> string option) \<Rightarrow> gotime \<Rightarrow> nat \<Rightarrow> ReviewRunState
      \<Rightarrow> TaskLease option decision" where
  "claim_decide H plan taskKey workerIdentity random now n state =
     (if \<not> transitionTimeAllowed state now then Return (Inl ErrRunTransitionSequenceMismatch)
      else if rs_status state \<noteq> ReviewRunActive then Return (Inl ErrRunAlreadyTerminal)
      else (let runtime = runtime_at state taskKey;
                claimable = rt_status runtime = TaskRuntimeAvailable;
                expired = rt_status runtime = TaskRuntimeLeased
                  \<and> UnixMilli now \<ge> rt_leaseExpiresAtMillis runtime
            in if \<not> claimable \<and> \<not> expired then Return (Inr None)
               else (let attempt = u8_succ (rt_attempts runtime)
                     in if attempt > td_maxAttempts (rt_definition runtime)
                        then Return (Inl ErrRunTransitionAttemptLimit)
                        else (case newLeaseToken H (random n) of
                                Inl err \<Rightarrow> Return (Inl err)
                              | Inr (token, tokenIdentity) \<Rightarrow>
                                  Try (next_event H plan state RunEventTaskLeased
                                         (rt_definition runtime) attempt tokenIdentity workerIdentity
                                         (add_millis now (td_leaseDurationMillis (rt_definition runtime)))
                                         [] NoRunFailure zero_time now)))))"

definition claim_finish ::
    "sha \<Rightarrow> ReviewRunPlan \<Rightarrow> (nat \<Rightarrow> string option) \<Rightarrow> nat \<Rightarrow> RunEvent \<Rightarrow> 's
      \<Rightarrow> (error + TaskLease option) \<times> 's" where
  "claim_finish H plan random n event s =
     (case newLeaseToken H (random n) of
        Inl err \<Rightarrow> (Inl err, s)
      | Inr (token, _) \<Rightarrow> (and_then (newTaskLease H plan event token) (\<lambda>lease. Inr (Some lease)), s))"

definition Coordinator_ClaimTask ::
    "sha \<Rightarrow> 's RunJournal \<Rightarrow> (nat \<Rightarrow> string option) \<Rightarrow> gocontext \<Rightarrow> ReviewRunPlan \<Rightarrow> string \<Rightarrow> string \<Rightarrow> string
      \<Rightarrow> gotime \<Rightarrow> 's \<Rightarrow> (error + TaskLease option) \<times> 's" where
  "Coordinator_ClaimTask H J random ctx plan taskKey handlerIdentity workerIdentity now s =
     (case Coordinator_validate H ctx plan of
        Some err \<Rightarrow> (Inl err, s)
      | None \<Rightarrow>
          if \<not> validWorkerIdentity workerIdentity then (Inl ErrInvalidTaskLease, s)
          else (case ReviewRunPlan_Task plan taskKey of
                  None \<Rightarrow> (Inl ErrReviewTaskNotFound, s)
                | Some taskDefinition \<Rightarrow>
                    if td_handlerIdentity taskDefinition \<noteq> handlerIdentity
                    then (Inl ErrInvalidReviewTaskHandler, s)
                    else (case Coordinator_Advance H J ctx plan now s of
                            (Inl err, s') \<Rightarrow> (Inl err, s')
                          | (Inr _, s') \<Rightarrow>
                              retry_loop maxCoordinatorConflicts H J ctx plan
                                (claim_decide H plan taskKey workerIdentity random now)
                                (claim_finish H plan random) s')))"

text \<open>What a renewal keeps free for the rest of the run: one terminal event, three per attempt.\<close>

definition renew_reserved :: "ReviewRunPlan \<Rightarrow> nat" where
  "renew_reserved plan = foldl (\<lambda>reserved task. reserved + 3 * td_maxAttempts task) 1 (rp_tasks plan)"

definition renew_decide ::
    "sha \<Rightarrow> ReviewRunPlan \<Rightarrow> TaskLease \<Rightarrow> gotime \<Rightarrow> nat \<Rightarrow> ReviewRunState
      \<Rightarrow> (TaskLease \<times> ReviewRunState) decision" where
  "renew_decide H plan lease now n state =
     (if rs_status state \<noteq> ReviewRunActive then Return (Inl ErrRunAlreadyTerminal)
      else if \<not> transitionTimeAllowed state now then Return (Inl ErrRunTransitionSequenceMismatch)
      else (case ReviewRunState_Task state (tl_taskKey lease) of
              None \<Rightarrow> Return (Inl ErrRunTransitionLeaseMismatch)
            | Some runtime \<Rightarrow>
                if tl_planIdentity lease \<noteq> rp_identity plan
                   \<or> tl_handlerIdentity lease \<noteq> td_handlerIdentity (rt_definition runtime)
                   \<or> \<not> runtimeMatchesLease runtime lease
                   \<or> UnixMilli now > rt_leaseExpiresAtMillis runtime
                then Return (Inl ErrRunTransitionLeaseMismatch)
                else (let expiresAt = add_millis now (td_leaseDurationMillis (rt_definition runtime))
                      in if \<not> expiresAt > runMillisToTime (rt_leaseExpiresAtMillis runtime)
                         then (let current = lease\<lparr>tl_eventIdentity := rt_lastEventIdentity runtime,
                                     tl_expiresAtMillis := rt_leaseExpiresAtMillis runtime\<rparr>;
                                   current = current\<lparr>tl_identity := deriveTaskLeaseIdentity H current\<rparr>
                               in if TaskLease_Validate H current \<noteq> None
                                  then Return (Inl ErrInvalidTaskLease)
                                  else Return (Inr (current, state)))
                         else if rs_revision state + 1 + renew_reserved plan > maxRunJournalStreamEvents
                         then Return (Inl ErrTaskLeaseRenewalLimit)
                         else Try (next_event H plan state RunEventTaskLeaseRenewed
                                     (rt_definition runtime) (rt_attempts runtime)
                                     (rt_leaseTokenIdentity runtime) (rt_workerIdentity runtime)
                                     expiresAt [] NoRunFailure zero_time now))))"

definition renew_finish ::
    "sha \<Rightarrow> 's RunJournal \<Rightarrow> gocontext \<Rightarrow> ReviewRunPlan \<Rightarrow> TaskLease \<Rightarrow> nat \<Rightarrow> RunEvent \<Rightarrow> 's
      \<Rightarrow> (error + TaskLease \<times> ReviewRunState) \<times> 's" where
  "renew_finish H J ctx plan lease n event s =
     (case newTaskLease H plan event (tl_token lease) of
        Inl err \<Rightarrow> (Inl err, s)
      | Inr renewed \<Rightarrow>
          (case Coordinator_load H J ctx plan s of
             (Inl err, s') \<Rightarrow> (Inl err, s')
           | (Inr state, s') \<Rightarrow> (Inr (renewed, state), s')))"

definition Coordinator_RenewTaskLease ::
    "sha \<Rightarrow> 's RunJournal \<Rightarrow> gocontext \<Rightarrow> ReviewRunPlan \<Rightarrow> TaskLease \<Rightarrow> gotime \<Rightarrow> 's
      \<Rightarrow> (error + TaskLease \<times> ReviewRunState) \<times> 's" where
  "Coordinator_RenewTaskLease H J ctx plan lease now s =
     (case Coordinator_validate H ctx plan of
        Some err \<Rightarrow> (Inl err, s)
      | None \<Rightarrow>
     (case TaskLease_Validate H lease of
        Some err \<Rightarrow> (Inl err, s)
      | None \<Rightarrow>
          retry_loop maxCoordinatorConflicts H J ctx plan (renew_decide H plan lease now)
            (renew_finish H J ctx plan lease) s))"


section \<open>Completing a task\<close>

definition complete_decide ::
    "sha \<Rightarrow> ReviewRunPlan \<Rightarrow> TaskLease \<Rightarrow> TaskCompletion \<Rightarrow> gotime \<Rightarrow> nat \<Rightarrow> ReviewRunState
      \<Rightarrow> ReviewRunState decision" where
  "complete_decide H plan lease completion now n state =
     (if rs_status state \<noteq> ReviewRunActive then Return (Inl ErrRunAlreadyTerminal)
      else (case ReviewRunState_Task state (tl_taskKey lease) of
              None \<Rightarrow> Return (Inl ErrReviewTaskNotFound)
            | Some runtime \<Rightarrow>
                if rt_status runtime = TaskRuntimeSucceeded \<or> rt_status runtime = TaskRuntimeFailed
                then if completedTaskMatches runtime lease completion then Return (Inr state)
                     else Return (Inl ErrTaskAlreadyCompleted)
                else if \<not> runtimeMatchesLease runtime lease
                then Return (Inl ErrRunTransitionLeaseMismatch)
                else if \<not> transitionTimeAllowed state now
                then Return (Inl ErrRunTransitionSequenceMismatch)
                else if UnixMilli now > rt_leaseExpiresAtMillis runtime
                then Return (Inl ErrRunTransitionLeaseMismatch)
                else if tc_status completion = TaskCompletionFailed
                then (let failure = tc_failure completion;
                          retryAt = (if RunFailure_Retryable failure
                                        \<and> rt_attempts runtime < td_maxAttempts (rt_definition runtime)
                                     then add_millis now (td_retryDelayMillis (rt_definition runtime))
                                     else zero_time)
                      in Try (next_event H plan state RunEventTaskFailed (rt_definition runtime)
                                (rt_attempts runtime) (rt_leaseTokenIdentity runtime) [] zero_time []
                                failure retryAt now))
                else Try (next_event H plan state RunEventTaskSucceeded (rt_definition runtime)
                            (rt_attempts runtime) (rt_leaseTokenIdentity runtime) [] zero_time
                            (tc_outputIdentity completion) NoRunFailure zero_time now)))"

definition Coordinator_CompleteTask ::
    "sha \<Rightarrow> 's RunJournal \<Rightarrow> gocontext \<Rightarrow> ReviewRunPlan \<Rightarrow> TaskLease \<Rightarrow> TaskCompletion \<Rightarrow> gotime \<Rightarrow> 's
      \<Rightarrow> (error + ReviewRunState) \<times> 's" where
  "Coordinator_CompleteTask H J ctx plan lease completion now s =
     (case Coordinator_validate H ctx plan of
        Some err \<Rightarrow> (Inl err, s)
      | None \<Rightarrow>
     (case TaskLease_Validate H lease of
        Some err \<Rightarrow> (Inl err, s)
      | None \<Rightarrow>
     (case TaskCompletion_Validate H completion of
        Some err \<Rightarrow> (Inl err, s)
      | None \<Rightarrow>
          retry_loop maxCoordinatorConflicts H J ctx plan (complete_decide H plan lease completion now)
            (finish_load H J ctx plan) s)))"


section \<open>Ending a run\<close>

definition succeed_decide ::
    "sha \<Rightarrow> ReviewRunPlan \<Rightarrow> string \<Rightarrow> gotime \<Rightarrow> nat \<Rightarrow> ReviewRunState \<Rightarrow> ReviewRunState decision" where
  "succeed_decide H plan outputIdentity now n state =
     (if rs_status state = ReviewRunSucceeded \<and> rs_outputIdentity state = outputIdentity
      then Return (Inr state)
      else if rs_status state \<noteq> ReviewRunActive then Return (Inl ErrRunAlreadyTerminal)
      else (case TerminalCompletion H state of
              Inr (Some derived) \<Rightarrow>
                if tc_status derived \<noteq> TaskCompletionSucceeded
                   \<or> tc_outputIdentity derived \<noteq> outputIdentity
                then Return (Inl ErrRunTransitionInvalid)
                else if \<not> transitionTimeAllowed state now \<or> \<not> canSucceed state
                then Return (Inl ErrRunTransitionInvalid)
                else Try (next_event H plan state RunEventSucceeded zeroTaskDefinition 0 [] [] zero_time
                            outputIdentity NoRunFailure zero_time now)
            | _ \<Rightarrow> Return (Inl ErrRunTransitionInvalid)))"

definition Coordinator_SucceedRun ::
    "sha \<Rightarrow> 's RunJournal \<Rightarrow> gocontext \<Rightarrow> ReviewRunPlan \<Rightarrow> string \<Rightarrow> gotime \<Rightarrow> 's
      \<Rightarrow> (error + ReviewRunState) \<times> 's" where
  "Coordinator_SucceedRun H J ctx plan outputIdentity now s =
     (case Coordinator_validate H ctx plan of
        Some err \<Rightarrow> (Inl err, s)
      | None \<Rightarrow>
          if \<not> validControlPlaneDigest outputIdentity then (Inl ErrInvalidRunEventOutput, s)
          else retry_loop maxCoordinatorConflicts H J ctx plan (succeed_decide H plan outputIdentity now)
                 (finish_load H J ctx plan) s)"

definition fail_decide ::
    "sha \<Rightarrow> ReviewRunPlan \<Rightarrow> RunFailure \<Rightarrow> gotime \<Rightarrow> nat \<Rightarrow> ReviewRunState \<Rightarrow> ReviewRunState decision" where
  "fail_decide H plan failure now n state =
     (if rs_status state = ReviewRunFailed \<and> rs_failure state = failure then Return (Inr state)
      else if rs_status state \<noteq> ReviewRunActive then Return (Inl ErrRunAlreadyTerminal)
      else (case TerminalCompletion H state of
              Inr (Some derived) \<Rightarrow>
                if tc_status derived \<noteq> TaskCompletionFailed \<or> tc_failure derived \<noteq> failure
                then Return (Inl ErrRunTransitionInvalid)
                else if \<not> transitionTimeAllowed state now \<or> \<not> canFail state
                then Return (Inl ErrRunTransitionInvalid)
                else Try (next_event H plan state RunEventFailed zeroTaskDefinition 0 [] [] zero_time []
                            failure zero_time now)
            | _ \<Rightarrow> Return (Inl ErrRunTransitionInvalid)))"

definition Coordinator_FailRun ::
    "sha \<Rightarrow> 's RunJournal \<Rightarrow> gocontext \<Rightarrow> ReviewRunPlan \<Rightarrow> RunFailure \<Rightarrow> gotime \<Rightarrow> 's
      \<Rightarrow> (error + ReviewRunState) \<times> 's" where
  "Coordinator_FailRun H J ctx plan failure now s =
     (case Coordinator_validate H ctx plan of
        Some err \<Rightarrow> (Inl err, s)
      | None \<Rightarrow>
          if RunFailure_String failure = [] then (Inl ErrInvalidRunEventFailure, s)
          else (case Coordinator_Advance H J ctx plan now s of
                  (Inl err, s') \<Rightarrow> (Inl err, s')
                | (Inr _, s') \<Rightarrow>
                    retry_loop maxCoordinatorConflicts H J ctx plan (fail_decide H plan failure now)
                      (finish_load H J ctx plan) s'))"

definition cancel_decide ::
    "sha \<Rightarrow> ReviewRunPlan \<Rightarrow> gotime \<Rightarrow> nat \<Rightarrow> ReviewRunState \<Rightarrow> ReviewRunState decision" where
  "cancel_decide H plan now n state =
     (if rs_status state = ReviewRunCanceled then Return (Inr state)
      else if rs_status state \<noteq> ReviewRunActive then Return (Inl ErrRunAlreadyTerminal)
      else if \<not> transitionTimeAllowed state now then Return (Inl ErrRunTransitionSequenceMismatch)
      else Try (next_event H plan state RunEventCanceled zeroTaskDefinition 0 [] [] zero_time []
                  RunFailureCanceled zero_time now))"

definition Coordinator_CancelRun ::
    "sha \<Rightarrow> 's RunJournal \<Rightarrow> gocontext \<Rightarrow> ReviewRunPlan \<Rightarrow> gotime \<Rightarrow> 's \<Rightarrow> (error + ReviewRunState) \<times> 's" where
  "Coordinator_CancelRun H J ctx plan now s =
     (case Coordinator_validate H ctx plan of
        Some err \<Rightarrow> (Inl err, s)
      | None \<Rightarrow>
          retry_loop maxCoordinatorConflicts H J ctx plan (cancel_decide H plan now)
            (finish_load H J ctx plan) s)"

end
