(* ===== verification/Event_Fold.thy ===== *)
theory Event_Fold
  imports Go_Prelude
begin

text \<open>
  Event sourcing in general: a state rebuilt by folding a fallible step over a list of events.
  The locale \<open>event_sourced\<close> is the contract of such a step with an invariant, and
  \<open>bounded_event_sourced\<close> adds a rank that every event but the free ones uses up. The replay of
  a review run is an instance (Run\_State\_Invariants).
\<close>

fun fold_err :: "('s \<Rightarrow> 'e \<Rightarrow> 'err + 's) \<Rightarrow> 's \<Rightarrow> 'e list \<Rightarrow> 'err + 's" where
  "fold_err step s [] = Inr s"
| "fold_err step s (e # es) = and_then (step s e) (\<lambda>s'. fold_err step s' es)"

lemma fold_err_append:
  "fold_err step s (xs @ ys) = and_then (fold_err step s xs) (\<lambda>s'. fold_err step s' ys)"
  by (induction xs arbitrary: s) (auto simp: and_then_def split: sum.splits)

lemma fold_err_snoc:
  "fold_err step s (xs @ [e]) = Inr s'' \<longleftrightarrow>
     (\<exists>s'. fold_err step s xs = Inr s' \<and> step s' e = Inr s'')"
  by (auto simp: fold_err_append and_then_Inr_iff)

lemma fold_err_prefix:
  "fold_err step s (xs @ ys) = Inr s'' \<Longrightarrow>
     \<exists>s'. fold_err step s xs = Inr s' \<and> fold_err step s' ys = Inr s''"
  by (auto simp: fold_err_append and_then_Inr_iff)

locale event_sourced =
  fixes step :: "'s \<Rightarrow> 'e \<Rightarrow> 'err + 's" and start :: 's and invar :: "'s \<Rightarrow> bool"
  assumes invar_start: "invar start"
    and invar_step: "invar s \<Longrightarrow> step s e = Inr s' \<Longrightarrow> invar s'"
begin

lemma invar_fold: "fold_err step s es = Inr s' \<Longrightarrow> invar s \<Longrightarrow> invar s'"
  by (induction es arbitrary: s) (auto simp: and_then_Inr_iff dest: invar_step)

lemma invar_replayed: "fold_err step start es = Inr s \<Longrightarrow> invar s"
  using invar_fold invar_start by blast

text \<open>A relation that every step respects and that composes holds across a whole replay.\<close>

lemma fold_relation:
  assumes "fold_err step s es = Inr s'" and "invar s"
    and "\<And>s. R s s" and "\<And>a b c. R a b \<Longrightarrow> R b c \<Longrightarrow> R a c"
    and "\<And>s e s'. invar s \<Longrightarrow> step s e = Inr s' \<Longrightarrow> R s s'"
  shows "R s s'"
  using assms(1,2)
proof (induction es arbitrary: s)
  case Nil
  then show ?case using assms(3) by simp
next
  case (Cons e es)
  then obtain s1 where s1: "step s e = Inr s1" "fold_err step s1 es = Inr s'"
    by (auto simp: and_then_Inr_iff)
  with Cons invar_step have "R s1 s'" by blast
  with assms(4,5) s1(1) Cons.prems(2) show ?case by blast
qed

end

locale bounded_event_sourced = event_sourced +
  fixes rank :: "'a \<Rightarrow> nat" and free :: "'b \<Rightarrow> bool"
  assumes rank_step: "invar s \<Longrightarrow> step s e = Inr s' \<Longrightarrow> \<not> free e \<Longrightarrow> rank s' < rank s"
    and rank_free: "invar s \<Longrightarrow> step s e = Inr s' \<Longrightarrow> free e \<Longrightarrow> rank s' \<le> rank s"
begin

lemma fold_bound:
  "fold_err step s es = Inr s' \<Longrightarrow> invar s \<Longrightarrow>
     length (filter (\<lambda>e. \<not> free e) es) + rank s' \<le> rank s"
proof (induction es arbitrary: s)
  case (Cons e es)
  then obtain s1 where s1: "step s e = Inr s1" "fold_err step s1 es = Inr s'"
    by (auto simp: and_then_Inr_iff)
  with Cons invar_step have "length (filter (\<lambda>e. \<not> free e) es) + rank s' \<le> rank s1" by blast
  with rank_step [OF Cons.prems(2) s1(1)] rank_free [OF Cons.prems(2) s1(1)] show ?case
    by (cases "free e") auto
qed simp

lemma replay_bound:
  "fold_err step start es = Inr s \<Longrightarrow> length (filter (\<lambda>e. \<not> free e) es) + rank s \<le> rank start"
  using fold_bound invar_start by blast

end

end
