(* ===== verification/Run_State_Invariants.thy ===== *)
theory Run_State_Invariants
  imports Run_State Event_Fold
begin

text \<open>
  What every replayed review run satisfies, whoever wrote its journal.

  \<^item> \<open>task_next\<close> is the abstract life cycle of a task; \<open>applyTaskEvent\<close> implements it.
  \<^item> \<open>state_inv\<close> is the invariant of replayed states; from it the final \<open>Validate\<close> of the replay
    can never fail, and a task leaves the pending state only over satisfied dependencies.
  \<^item> \<open>run_rank\<close> bounds the events of a run other than lease renewals.
\<close>


section \<open>The life cycle of a task\<close>

text \<open>
  A phase is a status with the number of attempts begun; a failure is final when it cannot be
  retried. The rules are indexed by the attempt limit and the kind of the event.
\<close>

datatype phase =
    Pending
  | Available nat
  | Leased nat
  | Succeeded
  | FailedRetry nat
  | FailedFinal
  | Skipped
  | NoPhase

inductive task_next :: "nat \<Rightarrow> RunEventKind \<Rightarrow> phase \<Rightarrow> phase \<Rightarrow> bool" for m where
  admit: "task_next m RunEventTaskAvailable Pending (Available 0)"
| retry: "a < m \<Longrightarrow> task_next m RunEventTaskAvailable (FailedRetry a) (Available a)"
| lease: "a < m \<Longrightarrow> task_next m RunEventTaskLeased (Available a) (Leased (Suc a))"
| reclaim: "a < m \<Longrightarrow> task_next m RunEventTaskLeased (Leased a) (Leased (Suc a))"
| renew: "task_next m RunEventTaskLeaseRenewed (Leased a) (Leased a)"
| succeed: "task_next m RunEventTaskSucceeded (Leased a) Succeeded"
| fail_retry: "a < m \<Longrightarrow> task_next m RunEventTaskFailed (Leased a) (FailedRetry a)"
| fail_final: "task_next m RunEventTaskFailed (Leased a) FailedFinal"
| skip: "task_next m RunEventTaskSkipped Pending Skipped"

inductive_cases task_next_renewE: "task_next m RunEventTaskLeaseRenewed p q"
inductive_cases task_next_fromE: "task_next m k p q"

inductive_simps task_next_final_simps:
  "task_next m k Succeeded q" "task_next m k FailedFinal q" "task_next m k Skipped q"

fun phase_rank :: "nat \<Rightarrow> phase \<Rightarrow> nat" where
  "phase_rank m Pending = 3 * m"
| "phase_rank m (Available a) = 3 * (m - a) - 1"
| "phase_rank m (Leased a) = 3 * (m - a) + 1"
| "phase_rank m (FailedRetry a) = 3 * (m - a)"
| "phase_rank m _ = 0"

lemma task_next_rank:
  "task_next m k p q \<Longrightarrow> 1 \<le> m \<Longrightarrow> k \<noteq> RunEventTaskLeaseRenewed \<Longrightarrow> phase_rank m q < phase_rank m p"
  by (induction rule: task_next.induct) auto

lemma task_next_rank_renew:
  "task_next m RunEventTaskLeaseRenewed p q \<Longrightarrow> phase_rank m q \<le> phase_rank m p"
  by (erule task_next_renewE) simp

definition phase_of :: "TaskRuntimeState \<Rightarrow> phase" where
  "phase_of r =
     (case rt_status r of
        TaskRuntimePending \<Rightarrow> Pending
      | TaskRuntimeAvailable \<Rightarrow> Available (rt_attempts r)
      | TaskRuntimeLeased \<Rightarrow> Leased (rt_attempts r)
      | TaskRuntimeSucceeded \<Rightarrow> Succeeded
      | TaskRuntimeFailed \<Rightarrow> if failedWithoutRetry r then FailedFinal else FailedRetry (rt_attempts r)
      | TaskRuntimeSkipped \<Rightarrow> Skipped
      | TaskRuntimeStatusUnnamed _ \<Rightarrow> NoPhase)"

text \<open>What the fields of a task say in each status.\<close>

definition phase_ok :: "TaskRuntimeState \<Rightarrow> bool" where
  "phase_ok r \<longleftrightarrow>
     rt_attempts r \<le> td_maxAttempts (rt_definition r) \<and>
     (case rt_status r of
        TaskRuntimePending \<Rightarrow> rt_attempts r = 0
      | TaskRuntimeAvailable \<Rightarrow> rt_attempts r < td_maxAttempts (rt_definition r)
      | TaskRuntimeLeased \<Rightarrow>
          1 \<le> rt_attempts r \<and> validControlPlaneDigest (rt_leaseTokenIdentity r)
          \<and> validWorkerIdentity (rt_workerIdentity r) \<and> 0 < rt_leaseExpiresAtMillis r
      | TaskRuntimeSucceeded \<Rightarrow> 1 \<le> rt_attempts r \<and> validControlPlaneDigest (rt_outputIdentity r)
      | TaskRuntimeFailed \<Rightarrow>
          1 \<le> rt_attempts r \<and> RunFailure_String (rt_failure r) \<noteq> []
          \<and> (rt_retryAtMillis r \<noteq> 0 \<longleftrightarrow> \<not> failedWithoutRetry r)
      | TaskRuntimeSkipped \<Rightarrow>
          rt_attempts r = 0 \<and> rt_failure r \<in> {RunFailureDependency, RunFailurePolicy}
      | TaskRuntimeStatusUnnamed _ \<Rightarrow> False)"

text \<open>The transitions that \<open>applyTaskEvent\<close> accepts, one case each.\<close>

lemma applyTaskEvent_cases [consumes 1, case_names available leased renewed succeeded failed skipped]:
  assumes "applyTaskEvent s e r = Inr r'"
  obtains "ev_kind e = RunEventTaskAvailable"
      "rt_status r = TaskRuntimePending \<and> dependenciesSatisfied s (rt_definition r)
        \<or> RetryableAt r (runMillisToTime (ev_occurredAtMillis e))"
      "r' = r\<lparr>rt_status := TaskRuntimeAvailable, rt_retryAtMillis := 0, rt_failure := NoRunFailure\<rparr>"
  | "ev_kind e = RunEventTaskLeased"
      "rt_status r = TaskRuntimeAvailable \<or>
        rt_status r = TaskRuntimeLeased \<and> rt_leaseExpiresAtMillis r \<le> ev_occurredAtMillis e"
      "ev_attempt e = u8_succ (rt_attempts r)" "ev_attempt e \<le> td_maxAttempts (rt_definition r)"
      "r' = r\<lparr>rt_status := TaskRuntimeLeased, rt_attempts := ev_attempt e,
              rt_leaseTokenIdentity := ev_leaseTokenIdentity e,
              rt_workerIdentity := ev_workerIdentity e,
              rt_leaseExpiresAtMillis := ev_leaseExpiresAtMillis e\<rparr>"
  | "ev_kind e = RunEventTaskLeaseRenewed" "rt_status r = TaskRuntimeLeased"
      "ev_attempt e = rt_attempts r" "ev_leaseTokenIdentity e = rt_leaseTokenIdentity r"
      "ev_workerIdentity e = rt_workerIdentity r"
      "ev_occurredAtMillis e \<le> rt_leaseExpiresAtMillis r"
      "rt_leaseExpiresAtMillis r < ev_leaseExpiresAtMillis e"
      "r' = r\<lparr>rt_leaseExpiresAtMillis := ev_leaseExpiresAtMillis e\<rparr>"
  | "ev_kind e = RunEventTaskSucceeded" "matchesLeaseResult r e"
      "r' = r\<lparr>rt_status := TaskRuntimeSucceeded, rt_outputIdentity := ev_outputIdentity e,
              rt_workerIdentity := [], rt_leaseExpiresAtMillis := 0\<rparr>"
  | "ev_kind e = RunEventTaskFailed" "rt_status r = TaskRuntimeLeased"
      "ev_attempt e = rt_attempts r" "ev_leaseTokenIdentity e = rt_leaseTokenIdentity r"
      "ev_occurredAtMillis e \<le> rt_leaseExpiresAtMillis r
        \<or> rt_attempts r = td_maxAttempts (rt_definition r) \<and> ev_failure e = RunFailureResourceLimit"
      "RunFailure_Retryable (ev_failure e) \<and> rt_attempts r < td_maxAttempts (rt_definition r)
        \<longleftrightarrow> ev_retryAtMillis e \<noteq> 0"
      "r' = r\<lparr>rt_status := TaskRuntimeFailed, rt_failure := ev_failure e,
              rt_retryAtMillis := ev_retryAtMillis e, rt_workerIdentity := [],
              rt_leaseExpiresAtMillis := 0\<rparr>"
  | "ev_kind e = RunEventTaskSkipped" "rt_status r = TaskRuntimePending"
      "ev_failure e = RunFailureDependency \<longrightarrow> hasFailedDependency s (rt_definition r)"
      "ev_failure e = RunFailurePolicy \<longrightarrow> \<not> td_required (rt_definition r)"
      "r' = r\<lparr>rt_status := TaskRuntimeSkipped, rt_failure := ev_failure e\<rparr>"
  using assms
  by (cases "ev_kind e")
    (auto simp: applyTaskEvent_def Let_def matchesLeaseResult_def split: if_splits)

lemma applyTaskEvent_definition:
  "applyTaskEvent s e r = Inr r' \<Longrightarrow> rt_definition r' = rt_definition r"
  by (erule applyTaskEvent_cases) simp_all

lemma applyTaskEvent_kind:
  "applyTaskEvent s e r = Inr r' \<Longrightarrow> task_event (ev_kind e)"
  by (erule applyTaskEvent_cases) (simp_all add: task_event_def)

text \<open>The step of a single task refines the life cycle and keeps the fields consistent.\<close>

lemma applyTaskEvent_refines:
  assumes r': "applyTaskEvent s e r = Inr r'" and ok: "phase_ok r"
    and m: "td_maxAttempts (rt_definition r) \<le> 5"
  shows "task_next (td_maxAttempts (rt_definition r)) (ev_kind e) (phase_of r) (phase_of r')"
  using r'
proof (cases rule: applyTaskEvent_cases)
  case available
  with ok show ?thesis
    by (auto simp: phase_of_def phase_ok_def RetryableAt_def failedWithoutRetry_def not_le
        intro: task_next.intros)
next
  case leased
  from ok m have "u8_succ (rt_attempts r) = Suc (rt_attempts r)" by (simp add: phase_ok_def)
  with leased show ?thesis by (auto simp: phase_of_def Suc_le_eq intro: task_next.intros)
next
  case renewed
  then show ?thesis by (auto simp: phase_of_def intro: task_next.intros)
next
  case succeeded
  then show ?thesis by (auto simp: phase_of_def matchesLeaseResult_def intro: task_next.intros)
next
  case failed
  then show ?thesis
    by (auto simp: phase_of_def failedWithoutRetry_def intro: task_next.intros)
next
  case skipped
  then show ?thesis by (auto simp: phase_of_def intro: task_next.intros)
qed

lemma applyTaskEvent_phase_ok:
  assumes r': "applyTaskEvent s e r = Inr r'" and ok: "phase_ok r" and v: "validateFields e = None"
    and m: "1 \<le> td_maxAttempts (rt_definition r)"
  shows "phase_ok r'"
proof -
  have t: "0 < ev_occurredAtMillis e" using validateFields_time [OF v] by (simp add: validRunMillis_def)
  note facts = validateFields_lease [OF v] validateFields_succeeded [OF v]
    validateFields_failed [OF v] validateFields_skipped [OF v]
  from r' show ?thesis
  proof (cases rule: applyTaskEvent_cases)
    case available
    with ok m show ?thesis by (auto simp: phase_ok_def RetryableAt_def)
  next
    case leased
    with facts t show ?thesis by (auto simp: phase_ok_def)
  next
    case renewed
    with ok facts t show ?thesis by (auto simp: phase_ok_def)
  next
    case succeeded
    with ok facts show ?thesis by (auto simp: phase_ok_def matchesLeaseResult_def)
  next
    case failed
    with ok facts show ?thesis by (auto simp: phase_ok_def failedWithoutRetry_def)
  next
    case skipped
    with ok facts show ?thesis by (auto simp: phase_ok_def)
  qed
qed

section \<open>Replay as a fold\<close>

definition stamp :: "RunEvent \<Rightarrow> TaskRuntimeState \<Rightarrow> TaskRuntimeState" where
  "stamp e r = r\<lparr>rt_lastEventRevision := ev_sequence e, rt_lastEventIdentity := ev_identity e,
                 rt_lastEventAtMillis := ev_occurredAtMillis e\<rparr>"

lemma apply_event_cases [consumes 1, case_names opened task succeeded failed canceled]:
  assumes "apply_event s e = Inr s'"
  obtains "ev_kind e = RunEventOpened" "ev_sequence e = 1" "rs_status s = ReviewRunStatusUnnamed 0"
      "s' = s\<lparr>rs_status := ReviewRunActive\<rparr>"
  | r r' where "rs_status s = ReviewRunActive" "ev_taskKey e \<noteq> []"
      "map_of (rs_tasks s) (ev_taskKey e) = Some r"
      "td_identity (rt_definition r) = ev_taskIdentity e" "applyTaskEvent s e r = Inr r'"
      "s' = s\<lparr>rs_tasks := AList.update (ev_taskKey e) (stamp e r') (rs_tasks s)\<rparr>"
  | "ev_kind e = RunEventSucceeded" "rs_status s = ReviewRunActive" "canSucceed s"
      "s' = s\<lparr>rs_status := ReviewRunSucceeded, rs_outputIdentity := ev_outputIdentity e\<rparr>"
  | "ev_kind e = RunEventFailed" "rs_status s = ReviewRunActive" "canFail s"
      "s' = s\<lparr>rs_status := ReviewRunFailed, rs_failure := ev_failure e\<rparr>"
  | "ev_kind e = RunEventCanceled" "rs_status s = ReviewRunActive"
      "s' = s\<lparr>rs_status := ReviewRunCanceled, rs_failure := RunFailureCanceled\<rparr>"
proof (cases "ev_taskKey e = [] \<or> ev_kind e = RunEventOpened")
  case True
  with assms have
    "ev_kind e = RunEventOpened \<and> ev_sequence e = 1 \<and> rs_status s = ReviewRunStatusUnnamed 0
      \<and> s' = s\<lparr>rs_status := ReviewRunActive\<rparr>
     \<or> rs_status s = ReviewRunActive \<and>
       (ev_kind e = RunEventSucceeded \<and> canSucceed s
          \<and> s' = s\<lparr>rs_status := ReviewRunSucceeded, rs_outputIdentity := ev_outputIdentity e\<rparr>
        \<or> ev_kind e = RunEventFailed \<and> canFail s
          \<and> s' = s\<lparr>rs_status := ReviewRunFailed, rs_failure := ev_failure e\<rparr>
        \<or> ev_kind e = RunEventCanceled
          \<and> s' = s\<lparr>rs_status := ReviewRunCanceled, rs_failure := RunFailureCanceled\<rparr>)"
    by (cases "ev_kind e") (simp_all add: apply_event_def split: if_splits)
  with that(1,3-5) show ?thesis by blast
next
  case False
  with assms obtain r r' where "rs_status s = ReviewRunActive"
    "map_of (rs_tasks s) (ev_taskKey e) = Some r"
    "td_identity (rt_definition r) = ev_taskIdentity e" "applyTaskEvent s e r = Inr r'"
    "s' = s\<lparr>rs_tasks := AList.update (ev_taskKey e) (stamp e r') (rs_tasks s)\<rparr>"
    by (auto simp: apply_event_def stamp_def res_simps split: if_splits option.splits)
  with False that(2) show ?thesis by blast
qed

definition set_head :: "RunEvent \<Rightarrow> ReviewRunState \<Rightarrow> ReviewRunState" where
  "set_head e s = s\<lparr>rs_revision := ev_sequence e, rs_headIdentity := ev_identity e,
                    rs_lastOccurredAtMillis := ev_occurredAtMillis e\<rparr>"

lemma set_head_sel [simp]:
  "rs_plan (set_head e s) = rs_plan s" "rs_status (set_head e s) = rs_status s"
  "rs_tasks (set_head e s) = rs_tasks s" "rs_outputIdentity (set_head e s) = rs_outputIdentity s"
  "rs_failure (set_head e s) = rs_failure s" "rs_revision (set_head e s) = ev_sequence e"
  "rs_headIdentity (set_head e s) = ev_identity e"
  "rs_lastOccurredAtMillis (set_head e s) = ev_occurredAtMillis e"
  by (simp_all add: set_head_def)

lemma replay_step_Inr:
  "replay_step H plan i prev s e = Inr s' \<longleftrightarrow>
     RunEvent_Validate H e = None \<and> ev_planIdentity e = rp_identity plan
     \<and> sc_identity (ev_scope e) = sc_identity (rp_scope plan) \<and> ev_sequence e = Suc i
     \<and> ev_previousIdentity e = prev \<and> (i > 0 \<longrightarrow> rs_lastOccurredAtMillis s \<le> ev_occurredAtMillis e)
     \<and> rs_status s \<in> {ReviewRunStatusUnnamed 0, ReviewRunActive}
     \<and> (\<exists>s1. apply_event s e = Inr s1 \<and> s' = set_head e s1)"
  by (auto simp: replay_step_def set_head_def res_simps)

text \<open>The step from a state that carries its own index and previous identity.\<close>

definition run_step :: "sha \<Rightarrow> ReviewRunPlan \<Rightarrow> ReviewRunState \<Rightarrow> RunEvent \<Rightarrow> error + ReviewRunState" where
  "run_step H plan s e = replay_step H plan (rs_revision s) (rs_headIdentity s) s e"

lemma run_step_head:
  "run_step H plan s e = Inr s' \<Longrightarrow>
     rs_revision s' = Suc (rs_revision s) \<and> rs_headIdentity s' = ev_identity e
     \<and> rs_lastOccurredAtMillis s' = ev_occurredAtMillis e"
  by (auto simp: run_step_def replay_step_Inr)

lemma replay_events_fold:
  "replay_events H plan (rs_revision s) (rs_headIdentity s) s es = fold_err (run_step H plan) s es"
proof (induction es arbitrary: s)
  case (Cons e es)
  show ?case
  proof (cases "run_step H plan s e")
    case (Inl err)
    then show ?thesis by (simp add: run_step_def)
  next
    case (Inr s')
    from run_step_head [OF this] Cons [of s'] Inr show ?thesis by (simp add: run_step_def)
  qed
qed simp

lemma replay_initial:
  "replay_events H plan 0 [] (initial_state plan) es = fold_err (run_step H plan) (initial_state plan) es"
  using replay_events_fold [of H plan "initial_state plan" es] by (simp add: initial_state_def)

lemma ReplayReviewRun_Inr:
  "ReplayReviewRun H plan es = Inr s \<longleftrightarrow>
     ReviewRunPlan_Validate H plan = None \<and> es \<noteq> []
     \<and> fold_err (run_step H plan) (initial_state plan) es = Inr s
     \<and> ReviewRunState_Validate H s = None"
  by (auto simp: ReplayReviewRun_def replay_initial res_simps)

section \<open>The invariant of replayed states\<close>

text \<open>Statuses that a task reaches only through admission.\<close>

definition started :: "TaskRuntimeState \<Rightarrow> bool" where
  "started r \<longleftrightarrow> rt_status r \<in> {TaskRuntimeAvailable, TaskRuntimeLeased, TaskRuntimeSucceeded,
     TaskRuntimeFailed}"

definition head_inv :: "ReviewRunState \<Rightarrow> bool" where
  "head_inv s \<longleftrightarrow>
     (if rs_revision s = 0
      then rs_status s = ReviewRunStatusUnnamed 0 \<and> rs_headIdentity s = [] \<and> rs_lastOccurredAtMillis s = 0
      else ReviewRunStatus_String (rs_status s) \<noteq> [] \<and> validControlPlaneDigest (rs_headIdentity s)
           \<and> validRunMillis (rs_lastOccurredAtMillis s))
     \<and> (rs_status s = ReviewRunSucceeded \<longrightarrow> validControlPlaneDigest (rs_outputIdentity s))
     \<and> (rs_status s \<in> {ReviewRunFailed, ReviewRunCanceled} \<longrightarrow> RunFailure_String (rs_failure s) \<noteq> [])"

definition tasks_inv :: "ReviewRunPlan \<Rightarrow> ReviewRunState \<Rightarrow> bool" where
  "tasks_inv plan s \<longleftrightarrow>
     rs_plan s = plan \<and> map fst (rs_tasks s) = map td_key (rp_tasks plan)
     \<and> (\<forall>k r. map_of (rs_tasks s) k = Some r \<longrightarrow>
          rt_definition r \<in> set (rp_tasks plan) \<and> td_key (rt_definition r) = k
          \<and> phase_ok r \<and> valid_task_event s r)"

definition deps_inv :: "ReviewRunState \<Rightarrow> bool" where
  "deps_inv s \<longleftrightarrow>
     (\<forall>k r. map_of (rs_tasks s) k = Some r \<longrightarrow>
        (started r \<longrightarrow> dependenciesSatisfied s (rt_definition r))
        \<and> (rt_status r = TaskRuntimeSkipped \<longrightarrow> rt_failure r = RunFailureDependency \<longrightarrow>
             hasFailedDependency s (rt_definition r)))"

definition state_inv :: "ReviewRunPlan \<Rightarrow> ReviewRunState \<Rightarrow> bool" where
  "state_inv plan s \<longleftrightarrow> head_inv s \<and> tasks_inv plan s \<and> deps_inv s"

text \<open>The initial state.\<close>

lemma initial_tasks_foldl:
  "distinct (map td_key ds) \<Longrightarrow> td_key ` set ds \<inter> fst ` set m = {} \<Longrightarrow>
     foldl (\<lambda>m d. AList.update (td_key d) (f d) m) m ds = m @ map (\<lambda>d. (td_key d, f d)) ds"
proof (induction ds arbitrary: m)
  case (Cons d ds)
  then have "AList.update (td_key d) (f d) m = m @ [(td_key d, f d)]"
    by (simp add: update_new)
  with Cons show ?case by auto
qed simp

lemma initial_tasks_map:
  "plan_wf H plan \<Longrightarrow> initial_tasks plan =
     map (\<lambda>d. (td_key d, newTaskRuntimeState d TaskRuntimePending)) (rp_tasks plan)"
  unfolding initial_tasks_def by (simp add: initial_tasks_foldl plan_wf_distinct)

lemma map_of_initial:
  "map_of (map (\<lambda>d. (td_key d, f d)) ds) k = Some r \<Longrightarrow> \<exists>d\<in>set ds. td_key d = k \<and> r = f d"
  by (induction ds) (auto split: if_splits)

lemma newTaskRuntimeState_sel [simp]:
  "rt_definition (newTaskRuntimeState d st) = d" "rt_status (newTaskRuntimeState d st) = st"
  "rt_attempts (newTaskRuntimeState d st) = 0" "rt_lastEventRevision (newTaskRuntimeState d st) = 0"
  "rt_lastEventIdentity (newTaskRuntimeState d st) = []"
  "rt_lastEventAtMillis (newTaskRuntimeState d st) = 0"
  by (simp_all add: newTaskRuntimeState_def)

lemma state_inv_initial:
  assumes "plan_wf H plan"
  shows "state_inv plan (initial_state plan)"
proof -
  have r: "\<exists>d\<in>set (rp_tasks plan). td_key d = k \<and> r = newTaskRuntimeState d TaskRuntimePending"
    if "map_of (initial_tasks plan) k = Some r" for k r
    using that unfolding initial_tasks_map [OF assms] by (rule map_of_initial)
  have "head_inv (initial_state plan)" by (simp add: head_inv_def initial_state_def)
  moreover have "map fst (initial_tasks plan) = map td_key (rp_tasks plan)"
    unfolding initial_tasks_map [OF assms] by simp
  then have "tasks_inv plan (initial_state plan)"
    by (auto simp: tasks_inv_def initial_state_def phase_ok_def valid_task_event_def dest!: r)
  moreover have "deps_inv (initial_state plan)"
    by (auto simp: deps_inv_def initial_state_def started_def dest!: r)
  ultimately show ?thesis by (simp add: state_inv_def)
qed

text \<open>How a step changes the task map: one task by an accepted transition, or nothing.\<close>

lemma run_step_cases [consumes 1, case_names task run]:
  assumes "run_step H plan s e = Inr s'"
  obtains r r' where "rs_status s = ReviewRunActive" "rs_status s' = ReviewRunActive"
      "map_of (rs_tasks s) (ev_taskKey e) = Some r" "td_identity (rt_definition r) = ev_taskIdentity e"
      "applyTaskEvent s e r = Inr r'"
      "rs_tasks s' = AList.update (ev_taskKey e) (stamp e r') (rs_tasks s)"
      "rs_outputIdentity s' = rs_outputIdentity s" "rs_failure s' = rs_failure s"
      "rs_plan s' = rs_plan s"
  | "rs_tasks s' = rs_tasks s" "\<not> task_event (ev_kind e)" "rs_plan s' = rs_plan s"
      "ev_kind e = RunEventOpened \<and> rs_status s = ReviewRunStatusUnnamed 0 \<and> rs_status s' = ReviewRunActive
       \<or> rs_status s = ReviewRunActive \<and>
         (ev_kind e = RunEventSucceeded \<and> canSucceed s \<and> rs_status s' = ReviewRunSucceeded
            \<and> rs_outputIdentity s' = ev_outputIdentity e
          \<or> ev_kind e = RunEventFailed \<and> canFail s \<and> rs_status s' = ReviewRunFailed
            \<and> rs_failure s' = ev_failure e
          \<or> ev_kind e = RunEventCanceled \<and> rs_status s' = ReviewRunCanceled
            \<and> rs_failure s' = RunFailureCanceled)"
proof -
  from assms obtain s1 where s1: "apply_event s e = Inr s1" and s': "s' = set_head e s1"
    by (auto simp: run_step_def replay_step_Inr)
  from s1 show ?thesis
  proof (cases rule: apply_event_cases)
    case (task r r')
    then show ?thesis by (intro that(1) [of r r']) (simp_all add: s')
  qed (rule that(2); simp add: s' task_event_def)+
qed

lemma run_step_valid:
  "run_step H plan s e = Inr s' \<Longrightarrow> RunEvent_Validate H e = None \<and> validateFields e = None
     \<and> ev_sequence e = Suc (rs_revision s)
     \<and> (rs_revision s > 0 \<longrightarrow> rs_lastOccurredAtMillis s \<le> ev_occurredAtMillis e)"
  by (auto simp: run_step_def replay_step_Inr RunEvent_Validate_None)

lemma tasks_inv_maxAttempts:
  assumes "plan_wf H plan" and "tasks_inv plan s" and "map_of (rs_tasks s) k = Some r"
  shows "1 \<le> td_maxAttempts (rt_definition r)" and "td_maxAttempts (rt_definition r) \<le> 5"
  using assms by (auto simp: tasks_inv_def plan_wf_def task_ok_def)

text \<open>Finished tasks are never touched again.\<close>

abbreviation final_phases :: "phase set" where
  "final_phases \<equiv> {Succeeded, FailedFinal, Skipped}"

lemma final_stays:
  assumes wf: "plan_wf H plan" and inv: "tasks_inv plan s" and step: "run_step H plan s e = Inr s'"
    and k: "map_of (rs_tasks s) k = Some r" and final: "phase_of r \<in> final_phases"
  shows "map_of (rs_tasks s') k = Some r"
  using step
proof (cases rule: run_step_cases)
  case (task r0 r')
  have "ev_taskKey e \<noteq> k"
  proof
    assume "ev_taskKey e = k"
    with task k have r: "r0 = r" by simp
    have "phase_ok r" using inv k by (auto simp: tasks_inv_def)
    from applyTaskEvent_refines [OF task(5) [unfolded r] this] tasks_inv_maxAttempts [OF wf inv k]
    show False using final by (auto simp: task_next_final_simps)
  qed
  with task k show ?thesis by (simp add: update_conv')
next
  case run
  with k show ?thesis by simp
qed

lemma runtime_at_Some: "map_of (rs_tasks s) k = Some r \<Longrightarrow> runtime_at s k = r"
  by (simp add: runtime_at_def)

lemma runtime_at_None: "map_of (rs_tasks s) k = None \<Longrightarrow> runtime_at s k = zeroTaskRuntimeState"
  by (simp add: runtime_at_def map_get_def)

lemma zero_runtime_phase [simp]: "phase_of zeroTaskRuntimeState = NoPhase"
  by (simp add: zeroTaskRuntimeState_def phase_of_def)

lemma runtime_at_phase:
  "phase_of (runtime_at s k) \<noteq> NoPhase \<Longrightarrow> map_of (rs_tasks s) k = Some (runtime_at s k)"
  by (cases "map_of (rs_tasks s) k") (simp_all add: runtime_at_None runtime_at_Some)

lemma phase_of_iff:
  "phase_of r = Pending \<longleftrightarrow> rt_status r = TaskRuntimePending"
  "phase_of r = Succeeded \<longleftrightarrow> rt_status r = TaskRuntimeSucceeded"
  "phase_of r = Skipped \<longleftrightarrow> rt_status r = TaskRuntimeSkipped"
  "phase_of r = FailedFinal \<longleftrightarrow> failedWithoutRetry r"
  by (auto simp: phase_of_def failedWithoutRetry_def split: TaskRuntimeStatus.splits if_splits)

lemma dependenciesSatisfied_iff:
  "dependenciesSatisfied s t \<longleftrightarrow> (\<forall>k\<in>set (td_dependencies t).
     phase_of (runtime_at s k) = Succeeded
     \<or> \<not> td_required (rt_definition (runtime_at s k)) \<and> phase_of (runtime_at s k) \<in> {Skipped, FailedFinal})"
  by (auto simp: dependenciesSatisfied_def list_all_iff Let_def phase_of_iff)

lemma hasFailedDependency_iff:
  "hasFailedDependency s t \<longleftrightarrow> (\<exists>k\<in>set (td_dependencies t).
     td_required (rt_definition (runtime_at s k)) \<and> phase_of (runtime_at s k) \<in> {Skipped, FailedFinal})"
  by (auto simp: hasFailedDependency_def list_ex_iff Let_def phase_of_iff)

lemma final_runtime_stays:
  assumes "plan_wf H plan" and "tasks_inv plan s" and "run_step H plan s e = Inr s'"
    and "phase_of (runtime_at s k) \<in> final_phases"
  shows "runtime_at s' k = runtime_at s k"
proof -
  have "map_of (rs_tasks s) k = Some (runtime_at s k)" using assms(4) by (intro runtime_at_phase) auto
  from final_stays [OF assms(1-3) this assms(4)] show ?thesis by (rule runtime_at_Some)
qed

lemma dependency_conditions_stay:
  assumes "plan_wf H plan" and "tasks_inv plan s" and "run_step H plan s e = Inr s'"
  shows "dependenciesSatisfied s t \<Longrightarrow> dependenciesSatisfied s' t"
    and "hasFailedDependency s t \<Longrightarrow> hasFailedDependency s' t"
proof -
  have eq: "runtime_at s' k = runtime_at s k" if "phase_of (runtime_at s k) \<in> final_phases" for k
    using final_runtime_stays [OF assms that] .
  show "dependenciesSatisfied s t \<Longrightarrow> dependenciesSatisfied s' t"
    unfolding dependenciesSatisfied_iff using eq by auto
  assume "hasFailedDependency s t"
  then obtain k where "k \<in> set (td_dependencies t)" "td_required (rt_definition (runtime_at s k))"
    "phase_of (runtime_at s k) \<in> {Skipped, FailedFinal}" unfolding hasFailedDependency_iff by blast
  with eq [of k] show "hasFailedDependency s' t" unfolding hasFailedDependency_iff by force
qed

text \<open>The three parts of the invariant, step by step.\<close>

lemma head_inv_step:
  assumes "sum256 H" and "head_inv s" and step: "run_step H plan s e = Inr s'"
  shows "head_inv s'"
proof -
  note v = run_step_valid [OF step] run_step_head [OF step]
  have digest: "validControlPlaneDigest (ev_identity e)"
    using event_identity_valid [OF assms(1)] v by blast
  have time: "validRunMillis (ev_occurredAtMillis e)" using v validateFields_time by blast
  note run_fields = validateFields_run [of e]
  from step show ?thesis
  proof (cases rule: run_step_cases)
    case (task r r')
    with v digest time show ?thesis by (simp add: head_inv_def)
  next
    case run
    with v digest time run_fields show ?thesis by (auto simp: head_inv_def)
  qed
qed

lemma stamp_sel [simp]:
  "rt_definition (stamp e r) = rt_definition r" "rt_status (stamp e r) = rt_status r"
  "rt_attempts (stamp e r) = rt_attempts r" "rt_failure (stamp e r) = rt_failure r"
  "rt_retryAtMillis (stamp e r) = rt_retryAtMillis r"
  "rt_leaseTokenIdentity (stamp e r) = rt_leaseTokenIdentity r"
  "rt_workerIdentity (stamp e r) = rt_workerIdentity r"
  "rt_leaseExpiresAtMillis (stamp e r) = rt_leaseExpiresAtMillis r"
  "rt_outputIdentity (stamp e r) = rt_outputIdentity r"
  "rt_lastEventRevision (stamp e r) = ev_sequence e"
  "rt_lastEventIdentity (stamp e r) = ev_identity e"
  "rt_lastEventAtMillis (stamp e r) = ev_occurredAtMillis e"
  by (simp_all add: stamp_def)

lemma stamp_tests [simp]:
  "phase_of (stamp e r) = phase_of r" "phase_ok (stamp e r) = phase_ok r"
  "started (stamp e r) = started r" "failedWithoutRetry (stamp e r) = failedWithoutRetry r"
  by (simp_all add: phase_of_def phase_ok_def started_def failedWithoutRetry_def
      cong: TaskRuntimeStatus.case_cong)

lemma applyTaskEvent_not_pending:
  "applyTaskEvent s e r = Inr r' \<Longrightarrow> rt_status r' \<noteq> TaskRuntimePending"
  by (erule applyTaskEvent_cases) simp_all

lemma valid_task_event_mono:
  "valid_task_event s r \<Longrightarrow> rs_revision s \<le> rs_revision s' \<Longrightarrow>
     rs_lastOccurredAtMillis s \<le> rs_lastOccurredAtMillis s' \<Longrightarrow> valid_task_event s' r"
  by (auto simp: valid_task_event_def)

lemma run_step_times:
  assumes "head_inv s" and "run_step H plan s e = Inr s'"
  shows "rs_revision s \<le> rs_revision s'" and "rs_lastOccurredAtMillis s \<le> rs_lastOccurredAtMillis s'"
proof -
  note v = run_step_valid [OF assms(2)] run_step_head [OF assms(2)]
  from v show "rs_revision s \<le> rs_revision s'" by simp
  have "0 < ev_occurredAtMillis e" using v validateFields_time by (auto simp: validRunMillis_def)
  with assms(1) v show "rs_lastOccurredAtMillis s \<le> rs_lastOccurredAtMillis s'"
    by (auto simp: head_inv_def split: if_splits)
qed

lemma tasks_inv_step:
  assumes "sum256 H" and wf: "plan_wf H plan" and head: "head_inv s" and inv: "tasks_inv plan s"
    and step: "run_step H plan s e = Inr s'"
  shows "tasks_inv plan s'"
proof -
  note v = run_step_valid [OF step] run_step_head [OF step]
  note mono = valid_task_event_mono [OF _ run_step_times [OF head step]]
  from step show ?thesis
  proof (cases rule: run_step_cases)
    case (task r r')
    note r = inv [unfolded tasks_inv_def, THEN conjunct2, THEN conjunct2, rule_format, OF task(3)]
    have "phase_ok r'"
      using applyTaskEvent_phase_ok [OF task(5)] r v tasks_inv_maxAttempts(1) [OF wf inv task(3)]
      by simp
    moreover have "valid_task_event s' (stamp e r')"
      using v applyTaskEvent_not_pending [OF task(5)] event_identity_valid [OF assms(1)]
        validateFields_time [of e]
      by (auto simp: valid_task_event_def)
    moreover have "map fst (rs_tasks s') = map fst (rs_tasks s)"
      using task(3,6) by (simp add: update_keys)
    ultimately show ?thesis
      using inv task r applyTaskEvent_definition [OF task(5)] mono
      unfolding tasks_inv_def by (auto simp: update_conv')
  next
    case run
    with inv mono show ?thesis unfolding tasks_inv_def by auto
  qed
qed

lemma deps_inv_step:
  assumes wf: "plan_wf H plan" and inv: "tasks_inv plan s" and deps: "deps_inv s"
    and step: "run_step H plan s e = Inr s'"
  shows "deps_inv s'"
proof -
  note stay = dependency_conditions_stay [OF wf inv step]
  from step show ?thesis
  proof (cases rule: run_step_cases)
    case (task r r')
    have old: "(started r \<longrightarrow> dependenciesSatisfied s (rt_definition r))"
      using deps task(3) by (auto simp: deps_inv_def)
    have "(started r' \<longrightarrow> dependenciesSatisfied s (rt_definition r))
      \<and> (rt_status r' = TaskRuntimeSkipped \<longrightarrow> rt_failure r' = RunFailureDependency \<longrightarrow>
           hasFailedDependency s (rt_definition r))"
      using task(5) old
      by (cases rule: applyTaskEvent_cases)
        (auto simp: started_def RetryableAt_def matchesLeaseResult_def)
    with task deps stay applyTaskEvent_definition [OF task(5)] show ?thesis
      by (auto simp: deps_inv_def update_conv')
  next
    case run
    with deps stay show ?thesis by (auto simp: deps_inv_def)
  qed
qed

lemma state_inv_step:
  "sum256 H \<Longrightarrow> plan_wf H plan \<Longrightarrow> state_inv plan s \<Longrightarrow> run_step H plan s e = Inr s' \<Longrightarrow>
     state_inv plan s'"
  unfolding state_inv_def using head_inv_step tasks_inv_step deps_inv_step by blast

section \<open>Replay is event sourced\<close>

text \<open>
  The contract of \<open>event_sourced\<close> holds for a plan the constructor built and a hash with 32-byte
  sums. The guarded step refuses every event otherwise, which makes it an instance for every
  plan; under the two conditions it is the step of the replay.
\<close>

definition replay_context :: "sha \<Rightarrow> ReviewRunPlan \<Rightarrow> bool" where
  "replay_context H plan \<longleftrightarrow> sum256 H \<and> plan_wf H plan"

definition guarded_step :: "sha \<Rightarrow> ReviewRunPlan \<Rightarrow> ReviewRunState \<Rightarrow> RunEvent \<Rightarrow> error + ReviewRunState" where
  "guarded_step H plan s e =
     (if replay_context H plan then run_step H plan s e else Inl ErrInvalidReviewRunState)"

lemma guarded_step_eq: "replay_context H plan \<Longrightarrow> guarded_step H plan = run_step H plan"
  by (intro ext) (simp add: guarded_step_def)

definition guarded_inv :: "sha \<Rightarrow> ReviewRunPlan \<Rightarrow> ReviewRunState \<Rightarrow> bool" where
  "guarded_inv H plan s \<longleftrightarrow> (replay_context H plan \<longrightarrow> state_inv plan s)"

definition runtime_rank :: "TaskRuntimeState \<Rightarrow> nat" where
  "runtime_rank r = phase_rank (td_maxAttempts (rt_definition r)) (phase_of r)"

fun status_rank :: "ReviewRunStatus \<Rightarrow> nat" where
  "status_rank (ReviewRunStatusUnnamed _) = 2"
| "status_rank ReviewRunActive = 1"
| "status_rank _ = 0"

text \<open>How many events other than renewals a run can still have.\<close>

definition run_rank :: "ReviewRunState \<Rightarrow> nat" where
  "run_rank s = status_rank (rs_status s) + sum_list (map (\<lambda>(k, r). runtime_rank r) (rs_tasks s))"

definition renewal :: "RunEvent \<Rightarrow> bool" where
  "renewal e \<longleftrightarrow> ev_kind e = RunEventTaskLeaseRenewed"

lemma sum_list_update:
  fixes f :: "'v \<Rightarrow> nat"
  shows "map_of m k = Some v \<Longrightarrow>
    sum_list (map (\<lambda>(k, x). f x) (AList.update k v' m)) + f v
      = sum_list (map (\<lambda>(k, x). f x) m) + f v'"
  by (induction m) (auto split: if_splits)

lemma runtime_rank_step:
  assumes "plan_wf H plan" and "tasks_inv plan s" and "map_of (rs_tasks s) k = Some r"
    and "applyTaskEvent s e r = Inr r'"
  shows "\<not> renewal e \<Longrightarrow> runtime_rank r' < runtime_rank r" and "runtime_rank r' \<le> runtime_rank r"
proof -
  have "phase_ok r" using assms by (auto simp: tasks_inv_def)
  note m = tasks_inv_maxAttempts [OF assms(1-3)]
  note nxt = applyTaskEvent_refines [OF assms(4) \<open>phase_ok r\<close> m(2)]
  show "\<not> renewal e \<Longrightarrow> runtime_rank r' < runtime_rank r"
    using task_next_rank [OF nxt m(1)] applyTaskEvent_definition [OF assms(4)]
    by (simp add: runtime_rank_def renewal_def)
  then show "runtime_rank r' \<le> runtime_rank r"
    using task_next_rank_renew [of _ "phase_of r" "phase_of r'"] nxt
      applyTaskEvent_definition [OF assms(4)]
    by (cases "renewal e") (auto simp: runtime_rank_def renewal_def)
qed

lemma run_rank_step:
  assumes "plan_wf H plan" and "tasks_inv plan s" and "run_step H plan s e = Inr s'"
  shows "\<not> renewal e \<Longrightarrow> run_rank s' < run_rank s" and "run_rank s' \<le> run_rank s"
proof -
  have "(\<not> renewal e \<longrightarrow> run_rank s' < run_rank s) \<and> run_rank s' \<le> run_rank s"
    using assms(3)
  proof (cases rule: run_step_cases)
    case (task r r')
    have "runtime_rank (stamp e r') = runtime_rank r'" by (simp add: runtime_rank_def)
    with task runtime_rank_step [OF assms(1,2) task(3,5)]
      sum_list_update [OF task(3), of runtime_rank "stamp e r'"]
    show ?thesis by (auto simp: run_rank_def)
  next
    case run
    then show ?thesis by (auto simp: run_rank_def)
  qed
  then show "\<not> renewal e \<Longrightarrow> run_rank s' < run_rank s" and "run_rank s' \<le> run_rank s" by auto
qed

interpretation run: bounded_event_sourced "guarded_step H plan" "initial_state plan"
  "guarded_inv H plan" run_rank renewal for H plan
proof unfold_locales
  show "guarded_inv H plan (initial_state plan)"
    by (auto simp: guarded_inv_def replay_context_def intro: state_inv_initial)
next
  fix s s' e
  assume "guarded_inv H plan s" and "guarded_step H plan s e = Inr s'"
  then show "guarded_inv H plan s'"
    by (auto simp: guarded_inv_def guarded_step_def replay_context_def intro: state_inv_step)
next
  fix s s' e
  assume *: "guarded_inv H plan s" "guarded_step H plan s e = Inr s'"
  then have ctx: "plan_wf H plan" "tasks_inv plan s" "run_step H plan s e = Inr s'"
    by (auto simp: guarded_inv_def guarded_step_def replay_context_def state_inv_def split: if_splits)
  show "run_rank s' < run_rank s" if "\<not> renewal e" using run_rank_step(1) [OF ctx that] .
  show "run_rank s' \<le> run_rank s" using run_rank_step(2) [OF ctx] .
qed

text \<open>The facts of the instance, for the replay under its two conditions.\<close>

abbreviation replayed :: "sha \<Rightarrow> ReviewRunPlan \<Rightarrow> RunEvent list \<Rightarrow> ReviewRunState \<Rightarrow> bool" where
  "replayed H plan es s \<equiv> fold_err (run_step H plan) (initial_state plan) es = Inr s"

lemma replayed_inv:
  assumes "replay_context H plan" and "replayed H plan es s"
  shows "state_inv plan s"
proof -
  have "fold_err (guarded_step H plan) (initial_state plan) es = Inr s"
    using assms by (simp add: guarded_step_eq)
  from run.invar_replayed [OF this] assms(1) show ?thesis by (simp add: guarded_inv_def)
qed

lemma replayed_bound:
  assumes "replay_context H plan" and "state_inv plan s" and "fold_err (run_step H plan) s es = Inr s'"
  shows "length (filter (\<lambda>e. \<not> renewal e) es) + run_rank s' \<le> run_rank s"
  using run.fold_bound [of H plan s es s'] assms by (simp add: guarded_step_eq guarded_inv_def)

lemma replayed_relation:
  assumes "replay_context H plan" and "state_inv plan s" and "fold_err (run_step H plan) s es = Inr s'"
    and "\<And>s. R s s" and "\<And>a b c. R a b \<Longrightarrow> R b c \<Longrightarrow> R a c"
    and "\<And>s e s'. state_inv plan s \<Longrightarrow> run_step H plan s e = Inr s' \<Longrightarrow> R s s'"
  shows "R s s'"
proof (rule run.fold_relation [where R = R])
  show "fold_err (guarded_step H plan) s es = Inr s'" using assms by (simp add: guarded_step_eq)
  show "guarded_inv H plan s" using assms by (simp add: guarded_inv_def)
  show "R s s" for s by (rule assms(4))
  show "R a b \<Longrightarrow> R b c \<Longrightarrow> R a c" for a b c by (rule assms(5))
  show "guarded_inv H plan s \<Longrightarrow> guarded_step H plan s e = Inr s' \<Longrightarrow> R s s'" for s e s'
    using assms(1,6) by (simp add: guarded_step_eq guarded_inv_def)
qed

end
