(* ===== verification/Run_State_Properties.thy ===== *)
theory Run_State_Properties
  imports Run_State_Invariants
begin

text \<open>
  The theorems about replayed review runs: what a journal that replays tells about its tasks,
  its leases and its end, and that a run whose work is done can always be closed.
\<close>


section \<open>Shared facts\<close>

lemma state_inv_runtime:
  assumes "state_inv plan s" and "map_of (rs_tasks s) k = Some r"
  shows "rt_definition r \<in> set (rp_tasks plan)" "td_key (rt_definition r) = k" "phase_ok r"
    "valid_task_event s r" "started r \<Longrightarrow> dependenciesSatisfied s (rt_definition r)"
  using assms by (auto simp: state_inv_def tasks_inv_def deps_inv_def)

lemma state_inv_task:
  assumes "state_inv plan s" and "t \<in> set (rp_tasks plan)"
  shows "\<exists>r. map_of (rs_tasks s) (td_key t) = Some r"
proof -
  have "map fst (rs_tasks s) = map td_key (rp_tasks plan)"
    using assms(1) by (simp add: state_inv_def tasks_inv_def)
  then have "fst ` set (rs_tasks s) = td_key ` set (rp_tasks plan)" by (metis set_map)
  with assms(2) have "td_key t \<in> fst ` set (rs_tasks s)" by auto
  then show ?thesis by (metis map_of_eq_None_iff option.exhaust)
qed

lemma state_inv_definition:
  assumes wf: "plan_wf H plan" and inv: "state_inv plan s" and t: "t \<in> set (rp_tasks plan)"
  shows "map_of (rs_tasks s) (td_key t) = Some (runtime_at s (td_key t))"
    and "rt_definition (runtime_at s (td_key t)) = t"
proof -
  from state_inv_task [OF inv t] obtain r where r: "map_of (rs_tasks s) (td_key t) = Some r" by blast
  then show "map_of (rs_tasks s) (td_key t) = Some (runtime_at s (td_key t))"
    by (simp add: runtime_at_Some)
  from state_inv_runtime(1,2) [OF inv r] t plan_wf_distinct [OF wf] have "rt_definition r = t"
    by (metis distinct_map inj_onD)
  with r show "rt_definition (runtime_at s (td_key t)) = t" by (simp add: runtime_at_Some)
qed

lemma state_inv_distinct:
  "plan_wf H plan \<Longrightarrow> state_inv plan s \<Longrightarrow> distinct (map fst (rs_tasks s))"
  by (simp add: state_inv_def tasks_inv_def plan_wf_distinct)

lemma state_inv_set:
  assumes "plan_wf H plan" and "state_inv plan s" and "(k, r) \<in> set (rs_tasks s)"
  shows "map_of (rs_tasks s) k = Some r"
  using assms state_inv_distinct by (simp add: map_of_SomeI)

lemma replayed_revision:
  "replayed H plan es s \<Longrightarrow> rs_revision s = length es
     \<and> rs_headIdentity s = (if es = [] then [] else ev_identity (last es))"
proof (induction es arbitrary: s rule: rev_induct)
  case Nil
  then show ?case by (auto simp: initial_state_def)
next
  case (snoc e es)
  then obtain s1 where "replayed H plan es s1" "run_step H plan s1 e = Inr s"
    by (auto simp: fold_err_snoc)
  with snoc.IH run_step_head show ?case by auto
qed

lemma phase_ok_status:
  "phase_ok r \<Longrightarrow> TaskRuntimeStatus_String (rt_status r) \<noteq> []
     \<and> rt_attempts r \<le> td_maxAttempts (rt_definition r)"
  by (cases "rt_status r") (simp_all add: phase_ok_def)

lemma ReviewRunState_Validate_inv:
  assumes "plan_wf H plan" and inv: "state_inv plan s" and "rs_revision s > 0"
  shows "ReviewRunState_Validate H s = None"
proof -
  have plan: "rs_plan s = plan" and keys: "map fst (rs_tasks s) = map td_key (rp_tasks plan)"
    using inv by (auto simp: state_inv_def tasks_inv_def)
  have "length (rs_tasks s) = length (rp_tasks plan)" using arg_cong [OF keys, of length] by simp
  moreover have "(case map_of (rs_tasks s) (td_key d) of None \<Rightarrow> False
      | Some runtime \<Rightarrow> td_identity (rt_definition runtime) = td_identity d
          \<and> TaskRuntimeStatus_String (rt_status runtime) \<noteq> []
          \<and> rt_attempts runtime \<le> td_maxAttempts d \<and> valid_task_event s runtime)"
    if d: "d \<in> set (rp_tasks plan)" for d
  proof -
    note r = state_inv_definition [OF assms(1) inv d]
    from phase_ok_status [OF state_inv_runtime(3) [OF inv r(1)]] state_inv_runtime(4) [OF inv r(1)] r
    show ?thesis by simp
  qed
  moreover from inv assms(3) have "ReviewRunStatus_String (rs_status s) \<noteq> []"
    "validControlPlaneDigest (rs_headIdentity s)" "validRunMillis (rs_lastOccurredAtMillis s)"
    "rs_status s = ReviewRunSucceeded \<Longrightarrow> validControlPlaneDigest (rs_outputIdentity s)"
    "rs_status s = ReviewRunFailed \<or> rs_status s = ReviewRunCanceled \<Longrightarrow> RunFailure_String (rs_failure s) \<noteq> []"
    by (auto simp: state_inv_def head_inv_def)
  ultimately show ?thesis
    using assms(3) ReviewRunPlan_Validate_wf [OF assms(1)]
    unfolding ReviewRunState_Validate_def plan list_all_iff by (simp, blast)
qed

lemma replay_iff:
  assumes ctx: "replay_context H plan"
  shows "ReplayReviewRun H plan es = Inr s \<longleftrightarrow> es \<noteq> [] \<and> replayed H plan es s"
proof
  assume "es \<noteq> [] \<and> replayed H plan es s"
  then have es: "es \<noteq> []" "replayed H plan es s" by auto
  have "ReviewRunState_Validate H s = None"
    using replayed_inv [OF ctx es(2)] replayed_revision [OF es(2)] es(1) ctx
    by (auto simp: replay_context_def intro: ReviewRunState_Validate_inv)
  moreover have "ReviewRunPlan_Validate H plan = None"
    using ctx by (simp add: replay_context_def ReviewRunPlan_Validate_wf)
  ultimately show "ReplayReviewRun H plan es = Inr s" using es by (simp add: ReplayReviewRun_Inr)
qed (auto simp: ReplayReviewRun_Inr)

lemma replay_inv:
  "replay_context H plan \<Longrightarrow> ReplayReviewRun H plan es = Inr s \<Longrightarrow> state_inv plan s"
  by (auto simp: replay_iff intro: replayed_inv)

section \<open>Replay\<close>

text \<open>
  Every non-empty prefix of a journal that replays also replays: no event is accepted only because
  of what comes after it, so a reader that stops early sees a valid run.
\<close>

lemma replay_prefix_closed:
  assumes "sum256 H" and "plan_wf H plan" and "ReplayReviewRun H plan (xs @ ys) = Inr s" and "xs \<noteq> []"
  shows "\<exists>s'. ReplayReviewRun H plan xs = Inr s'"
proof -
  have ctx: "replay_context H plan" using assms by (simp add: replay_context_def)
  from assms(3) have "replayed H plan (xs @ ys) s" by (simp add: replay_iff [OF ctx])
  from fold_err_prefix [OF this] assms(4) show ?thesis by (auto simp: replay_iff [OF ctx])
qed

text \<open>
  C17. The validation of the reconstructed state at the end of
  \<open>ReplayReviewRun\<close> never fails: an error of a replay is always an error of one of its events.
\<close>

theorem replay_validation_redundant:
  assumes "sum256 H" and "plan_wf H plan" and "es \<noteq> []"
  shows "ReplayReviewRun H plan es = replay_events H plan 0 [] (initial_state plan) es"
proof -
  have ctx: "replay_context H plan" using assms by (simp add: replay_context_def)
  have v: "ReviewRunPlan_Validate H plan = None" using assms(2) by (rule ReviewRunPlan_Validate_wf)
  show ?thesis
  proof (cases "replay_events H plan 0 [] (initial_state plan) es")
    case (Inl err)
    with v assms(3) show ?thesis by (simp add: ReplayReviewRun_def)
  next
    case (Inr s)
    with replay_iff [OF ctx, of es s] assms(3) show ?thesis by (simp add: replay_initial)
  qed
qed

text \<open>Once a run has succeeded, failed or been canceled, no further event replays.\<close>

lemma no_event_after_end:
  assumes "sum256 H" and "plan_wf H plan" and "ReplayReviewRun H plan es = Inr s"
    and "rs_status s \<noteq> ReviewRunActive"
  shows "\<exists>err. ReplayReviewRun H plan (es @ e # rest) = Inl err"
proof -
  have ctx: "replay_context H plan" using assms by (simp add: replay_context_def)
  have es: "replayed H plan es s" "es \<noteq> []" using assms(3) by (simp_all add: replay_iff [OF ctx])
  have "rs_revision s > 0" using replayed_revision [OF es(1)] es(2) by simp
  with replayed_inv [OF ctx es(1)] have "rs_status s \<noteq> ReviewRunStatusUnnamed 0"
    by (auto simp: state_inv_def head_inv_def)
  with assms(4) have no: "run_step H plan s e \<noteq> Inr s'" for s'
    by (auto simp: run_step_def replay_step_Inr)
  have "\<not> replayed H plan (es @ e # rest) s''" for s''
    using es no by (auto simp: fold_err_append and_then_Inr_iff)
  then show ?thesis by (cases "ReplayReviewRun H plan (es @ e # rest)") (auto simp: replay_iff [OF ctx])
qed

lemma outcome_step:
  assumes "plan_wf H plan" and "state_inv plan s" and "run_step H plan s e = Inr s'"
  shows "(rs_status s' = ReviewRunSucceeded \<longrightarrow> canSucceed s') \<and> (rs_status s' = ReviewRunFailed \<longrightarrow> canFail s')"
  using assms(3)
proof (cases rule: run_step_cases)
  case run
  then show ?thesis by (auto simp: canSucceed_def canFail_def)
qed auto

lemma replayed_outcome:
  assumes "replay_context H plan" and "replayed H plan es s"
  shows "(rs_status s = ReviewRunSucceeded \<longrightarrow> canSucceed s) \<and> (rs_status s = ReviewRunFailed \<longrightarrow> canFail s)"
proof (cases es rule: rev_cases)
  case Nil
  with assms(2) show ?thesis by (auto simp: initial_state_def)
next
  case (snoc es' e)
  with assms(2) obtain s1 where "replayed H plan es' s1" "run_step H plan s1 e = Inr s"
    by (auto simp: fold_err_snoc)
  with outcome_step replayed_inv [OF assms(1)] assms(1) show ?thesis
    unfolding replay_context_def by blast
qed

text \<open>
  C16. A run that ended in success has every required task succeeded and no
  task unfinished; one that ended in failure has a required task that failed or was skipped. After
  a run has ended, also by cancellation, no further event replays.
\<close>

theorem terminal_run_outcome:
  assumes "sum256 H" and "plan_wf H plan" and "ReplayReviewRun H plan es = Inr s"
  shows "(rs_status s = ReviewRunSucceeded \<longrightarrow> (\<forall>t\<in>set (rp_tasks plan).
      rt_status (runtime_at s (td_key t)) \<in>
        (if td_required t then {TaskRuntimeSucceeded}
         else {TaskRuntimeSucceeded, TaskRuntimeFailed, TaskRuntimeSkipped})))
    \<and> (rs_status s = ReviewRunFailed \<longrightarrow> (\<exists>t\<in>set (rp_tasks plan). td_required t
        \<and> rt_status (runtime_at s (td_key t)) \<in> {TaskRuntimeFailed, TaskRuntimeSkipped}))
    \<and> (rs_status s \<noteq> ReviewRunActive \<longrightarrow> (\<exists>err. ReplayReviewRun H plan (es @ e # rest) = Inl err))"
proof (intro conjI impI ballI)
  show "\<exists>err. ReplayReviewRun H plan (es @ e # rest) = Inl err" if "rs_status s \<noteq> ReviewRunActive"
    by (rule no_event_after_end [OF assms that])
  have ctx: "replay_context H plan" using assms by (simp add: replay_context_def)
  have es: "replayed H plan es s" using assms(3) by (simp add: replay_iff [OF ctx])
  note inv = replayed_inv [OF ctx es]
  note out = replayed_outcome [OF ctx es]
  show "rt_status (runtime_at s (td_key t)) \<in>
        (if td_required t then {TaskRuntimeSucceeded}
         else {TaskRuntimeSucceeded, TaskRuntimeFailed, TaskRuntimeSkipped})"
    if "rs_status s = ReviewRunSucceeded" and t: "t \<in> set (rp_tasks plan)" for t
  proof -
    note r = state_inv_definition [OF assms(2) inv t]
    from map_of_SomeD [OF r(1)] out that r(2) show ?thesis by (auto simp: canSucceed_def list_all_iff)
  qed
  assume "rs_status s = ReviewRunFailed"
  with out obtain k r where kr: "(k, r) \<in> set (rs_tasks s)" "td_required (rt_definition r)"
      "rt_status r \<in> {TaskRuntimeFailed, TaskRuntimeSkipped}"
    by (auto simp: canFail_def list_ex_iff)
  note m = state_inv_set [OF assms(2) inv kr(1)]
  from state_inv_runtime(1,2) [OF inv m] kr runtime_at_Some [OF m]
  show "\<exists>t\<in>set (rp_tasks plan). td_required t
        \<and> rt_status (runtime_at s (td_key t)) \<in> {TaskRuntimeFailed, TaskRuntimeSkipped}" by auto
qed

section \<open>Dependencies\<close>

lemma dependency_settled:
  assumes wf: "plan_wf H plan" and inv: "state_inv plan s" and t: "t \<in> set (rp_tasks plan)"
    and d: "d \<in> set (rp_tasks plan)" "td_key d \<in> set (td_dependencies t)"
    and "rt_status (runtime_at s (td_key t)) \<in>
      {TaskRuntimeAvailable, TaskRuntimeLeased, TaskRuntimeSucceeded, TaskRuntimeFailed}"
  shows "rt_status (runtime_at s (td_key d)) = TaskRuntimeSucceeded
    \<or> \<not> td_required d \<and> (rt_status (runtime_at s (td_key d)) = TaskRuntimeSkipped
         \<or> failedWithoutRetry (runtime_at s (td_key d)))"
proof -
  note t = state_inv_definition [OF wf inv t] and dd = state_inv_definition [OF wf inv d(1)]
  have "dependenciesSatisfied s t"
    using state_inv_runtime(5) [OF inv t(1)] t(2) assms(6) by (simp add: started_def)
  with d(2) dd(2) show ?thesis by (auto simp: dependenciesSatisfied_def list_all_iff Let_def)
qed

text \<open>
  C11. In every replayed run, a task that was ever made available, leased,
  completed or failed has each of its dependencies settled: a required dependency succeeded, an
  optional one succeeded, was skipped, or failed for good.
\<close>

theorem dependencies_before_work:
  assumes "sum256 H" and "plan_wf H plan" and "ReplayReviewRun H plan es = Inr s"
    and "t \<in> set (rp_tasks plan)" and "d \<in> set (rp_tasks plan)" and "td_key d \<in> set (td_dependencies t)"
    and "rt_status (runtime_at s (td_key t)) \<in>
      {TaskRuntimeAvailable, TaskRuntimeLeased, TaskRuntimeSucceeded, TaskRuntimeFailed}"
  shows "rt_status (runtime_at s (td_key d)) = TaskRuntimeSucceeded
    \<or> \<not> td_required d \<and> (rt_status (runtime_at s (td_key d)) = TaskRuntimeSkipped
         \<or> failedWithoutRetry (runtime_at s (td_key d)))"
proof -
  have ctx: "replay_context H plan" using assms by (simp add: replay_context_def)
  from dependency_settled [OF assms(2) replay_inv [OF ctx assms(3)] assms(4-7)] show ?thesis .
qed


section \<open>Leases\<close>

definition lease_events :: "string \<Rightarrow> RunEvent list \<Rightarrow> RunEvent list" where
  "lease_events k es = filter (\<lambda>e. ev_kind e = RunEventTaskLeased \<and> ev_taskKey e = k) es"

lemma lease_events_snoc:
  "lease_events k (es @ [e]) =
     lease_events k es @ (if ev_kind e = RunEventTaskLeased \<and> ev_taskKey e = k then [e] else [])"
  by (simp add: lease_events_def)

text \<open>The state of a task reflects the last lease event of the journal.\<close>

definition lease_inv :: "RunEvent list \<Rightarrow> string \<Rightarrow> TaskRuntimeState \<Rightarrow> bool" where
  "lease_inv es k r \<longleftrightarrow>
     length (lease_events k es) = rt_attempts r
     \<and> (rt_attempts r \<noteq> 0 \<longrightarrow>
          ev_attempt (last (lease_events k es)) = rt_attempts r
          \<and> ev_leaseTokenIdentity (last (lease_events k es)) = rt_leaseTokenIdentity r
          \<and> (rt_status r = TaskRuntimeLeased \<longrightarrow>
               ev_workerIdentity (last (lease_events k es)) = rt_workerIdentity r))"

lemma lease_inv_other:
  "lease_inv es k r \<Longrightarrow> ev_kind e \<noteq> RunEventTaskLeased \<or> ev_taskKey e \<noteq> k \<Longrightarrow> lease_inv (es @ [e]) k r"
  by (auto simp: lease_inv_def lease_events_snoc)

lemma lease_inv_task:
  assumes "applyTaskEvent s e r = Inr r'" and "lease_inv es (ev_taskKey e) r" and "phase_ok r"
    and "td_maxAttempts (rt_definition r) \<le> 5"
  shows "lease_inv (es @ [e]) (ev_taskKey e) r'"
  using assms(1)
proof (cases rule: applyTaskEvent_cases)
  case leased
  from assms(3,4) have "u8_succ (rt_attempts r) = Suc (rt_attempts r)" by (simp add: phase_ok_def)
  with leased assms(2) show ?thesis by (auto simp: lease_inv_def lease_events_snoc)
qed (use assms(2) in \<open>auto simp: lease_inv_def lease_events_snoc matchesLeaseResult_def\<close>)

lemma lease_inv_stamp [simp]: "lease_inv es k (stamp e r) = lease_inv es k r"
  by (simp add: lease_inv_def)

lemma replayed_lease_inv:
  assumes ctx: "replay_context H plan"
  shows "replayed H plan es s \<Longrightarrow> map_of (rs_tasks s) k = Some r \<Longrightarrow> lease_inv es k r"
proof (induction es arbitrary: s k r rule: rev_induct)
  case Nil
  have wf: "plan_wf H plan" using ctx by (simp add: replay_context_def)
  from Nil have "map_of (initial_tasks plan) k = Some r" by (auto simp: initial_state_def)
  then show ?case unfolding initial_tasks_map [OF wf]
    by (auto dest!: map_of_initial simp: lease_inv_def lease_events_def)
next
  case (snoc e es)
  then obtain s1 where s1: "replayed H plan es s1" and step: "run_step H plan s1 e = Inr s"
    by (auto simp: fold_err_snoc)
  have wf: "plan_wf H plan" using ctx by (simp add: replay_context_def)
  note inv = replayed_inv [OF ctx s1]
  from step show ?case
  proof (cases rule: run_step_cases)
    case (task r0 r')
    show ?thesis
    proof (cases "ev_taskKey e = k")
      case True
      have "tasks_inv plan s1" using inv by (simp add: state_inv_def)
      from lease_inv_task [OF task(5) snoc.IH [OF s1 task(3)] state_inv_runtime(3) [OF inv task(3)]
          tasks_inv_maxAttempts(2) [OF wf this task(3)]] True snoc.prems(2) task(6)
      show ?thesis by (auto simp: update_conv')
    next
      case False
      with task(6) snoc.prems(2) have "map_of (rs_tasks s1) k = Some r" by (simp add: update_conv')
      from snoc.IH [OF s1 this] False show ?thesis by (simp add: lease_inv_other)
    qed
  next
    case run
    with snoc.prems(2) have "map_of (rs_tasks s1) k = Some r" by simp
    from snoc.IH [OF s1 this] run(2) show ?thesis by (auto simp: task_event_def intro: lease_inv_other)
  qed
qed

lemma runtime_kept:
  "fold_err (run_step H plan) s ys = Inr s' \<Longrightarrow>
     \<forall>y\<in>set ys. \<not> (task_event (ev_kind y) \<and> ev_taskKey y = k) \<Longrightarrow>
     map_of (rs_tasks s') k = map_of (rs_tasks s) k"
proof (induction ys arbitrary: s)
  case (Cons y ys)
  then obtain s1 where s1: "run_step H plan s y = Inr s1" "fold_err (run_step H plan) s1 ys = Inr s'"
    by (auto simp: and_then_Inr_iff)
  have "map_of (rs_tasks s1) k = map_of (rs_tasks s) k"
    using s1(1)
  proof (cases rule: run_step_cases)
    case (task r r')
    from task(5) have "task_event (ev_kind y)"
      by (cases rule: applyTaskEvent_cases) (auto simp: task_event_def)
    with task(6) Cons.prems(2) show ?thesis by (auto simp: update_conv')
  qed simp
  with Cons.IH [OF s1(2)] Cons.prems(2) show ?case by simp
qed simp

lemma final_task_no_events:
  assumes ctx: "replay_context H plan"
  shows "fold_err (run_step H plan) s ys = Inr s' \<Longrightarrow> state_inv plan s \<Longrightarrow>
    map_of (rs_tasks s) k = Some r \<Longrightarrow> phase_of r \<in> final_phases \<Longrightarrow> y \<in> set ys \<Longrightarrow> ev_taskKey y = k \<Longrightarrow>
    \<not> task_event (ev_kind y)"
proof (induction ys arbitrary: s)
  case (Cons z ys)
  have hyps: "sum256 H" "plan_wf H plan" using ctx by (simp_all add: replay_context_def)
  obtain s1 where s1: "run_step H plan s z = Inr s1" "fold_err (run_step H plan) s1 ys = Inr s'"
    using Cons.prems(1) by (auto simp: and_then_Inr_iff)
  have inv: "tasks_inv plan s" using Cons.prems(2) by (simp add: state_inv_def)
  show ?case
  proof (cases "y = z")
    case True
    show ?thesis using s1(1)
    proof (cases rule: run_step_cases)
      case (task r0 r')
      with True Cons.prems have "r0 = r" by simp
      with applyTaskEvent_refines [OF task(5)] state_inv_runtime(3) [OF Cons.prems(2) task(3)]
        tasks_inv_maxAttempts(2) [OF hyps(2) inv task(3)] Cons.prems(4)
      show ?thesis by (auto simp: task_next_final_simps)
    next
      case run
      with True show ?thesis by simp
    qed
  next
    case False
    with Cons.prems have y: "y \<in> set ys" by simp
    from Cons.IH [OF s1(2) state_inv_step [OF hyps Cons.prems(2) s1(1)]
        final_stays [OF hyps(2) inv s1(1) Cons.prems(3,4)] Cons.prems(4) y Cons.prems(6)]
    show ?thesis .
  qed
qed simp

text \<open>
  C12. The attempts of a task are the lease events the journal holds for it, and
  there are never more of them than the limit of its definition, at most five.
\<close>

theorem attempts_bounded:
  assumes "sum256 H" and "plan_wf H plan" and "ReplayReviewRun H plan es = Inr s"
    and "t \<in> set (rp_tasks plan)"
  shows "length (lease_events (td_key t) es) = rt_attempts (runtime_at s (td_key t))
    \<and> length (lease_events (td_key t) es) \<le> td_maxAttempts t \<and> td_maxAttempts t \<le> 5"
proof -
  have ctx: "replay_context H plan" using assms by (simp add: replay_context_def)
  have es: "replayed H plan es s" using assms(3) by (simp add: replay_iff [OF ctx])
  note inv = replayed_inv [OF ctx es]
  note t = state_inv_definition [OF assms(2) inv assms(4)]
  from replayed_lease_inv [OF ctx es t(1)] phase_ok_status [OF state_inv_runtime(3) [OF inv t(1)]]
    t(2) plan_wf_task_ok [OF assms(2,4)]
  show ?thesis by (auto simp: lease_inv_def task_ok_def)
qed

text \<open>
  C10. A renewal or a result that replays carries the attempt number and the token of
  the latest lease of its task, and a renewal also the worker: after a lease has been taken over,
  nothing issued under the old one is accepted.
\<close>

theorem lease_fencing:
  assumes "sum256 H" and "plan_wf H plan" and "ReplayReviewRun H plan (es @ [e]) = Inr s"
    and "ev_kind e \<in> {RunEventTaskLeaseRenewed, RunEventTaskSucceeded, RunEventTaskFailed}"
  shows "\<exists>l. l \<in> set es \<and> last (lease_events (ev_taskKey e) es) = l \<and> lease_events (ev_taskKey e) es \<noteq> []
    \<and> ev_attempt l = ev_attempt e \<and> ev_leaseTokenIdentity l = ev_leaseTokenIdentity e
    \<and> (ev_kind e = RunEventTaskLeaseRenewed \<longrightarrow> ev_workerIdentity l = ev_workerIdentity e)"
proof -
  have ctx: "replay_context H plan" using assms by (simp add: replay_context_def)
  obtain s1 where s1: "replayed H plan es s1" and step: "run_step H plan s1 e = Inr s"
    using assms(3) by (auto simp: replay_iff [OF ctx] fold_err_snoc)
  note inv = replayed_inv [OF ctx s1]
  from step show ?thesis
  proof (cases rule: run_step_cases)
    case (task r r')
    let ?ls = "lease_events (ev_taskKey e) es"
    have "rt_status r = TaskRuntimeLeased" "ev_attempt e = rt_attempts r"
      "ev_leaseTokenIdentity e = rt_leaseTokenIdentity r"
      "ev_kind e = RunEventTaskLeaseRenewed \<longrightarrow> ev_workerIdentity e = rt_workerIdentity r"
      using task(5) assms(4) by (cases rule: applyTaskEvent_cases; auto simp: matchesLeaseResult_def)+
    moreover have "rt_attempts r \<noteq> 0"
      using state_inv_runtime(3) [OF inv task(3)] calculation(1) by (simp add: phase_ok_def)
    moreover note replayed_lease_inv [OF ctx s1 task(3)]
    ultimately have "?ls \<noteq> []" and "ev_attempt (last ?ls) = ev_attempt e \<and>
      ev_leaseTokenIdentity (last ?ls) = ev_leaseTokenIdentity e
      \<and> (ev_kind e = RunEventTaskLeaseRenewed \<longrightarrow> ev_workerIdentity (last ?ls) = ev_workerIdentity e)"
      by (auto simp: lease_inv_def)
    moreover have "last ?ls \<in> set es"
      using last_in_set [OF calculation(1)] by (auto simp: lease_events_def)
    ultimately show ?thesis by blast
  next
    case run
    with assms(4) show ?thesis by (auto simp: task_event_def)
  qed
qed

text \<open>
  C13. After a task has succeeded, no event of any kind replays for it: a
  result is recorded once.
\<close>

theorem one_result_per_task:
  assumes "sum256 H" and "plan_wf H plan" and "ReplayReviewRun H plan (xs @ e # ys) = Inr s"
    and "ev_kind e = RunEventTaskSucceeded"
  shows "\<forall>y\<in>set ys. task_event (ev_kind y) \<longrightarrow> ev_taskKey y \<noteq> ev_taskKey e"
proof -
  have ctx: "replay_context H plan" using assms by (simp add: replay_context_def)
  have "replayed H plan (xs @ e # ys) s" using assms(3) by (simp add: replay_iff [OF ctx])
  then obtain s0 s1 where s0: "replayed H plan xs s0" and s1: "run_step H plan s0 e = Inr s1"
    and ys: "fold_err (run_step H plan) s1 ys = Inr s"
    by (auto simp: fold_err_append and_then_Inr_iff)
  have "replayed H plan (xs @ [e]) s1" using s0 s1 by (auto simp: fold_err_snoc)
  note inv1 = replayed_inv [OF ctx this]
  obtain r where "map_of (rs_tasks s1) (ev_taskKey e) = Some r" and "phase_of r = Succeeded"
    using s1
  proof (cases rule: run_step_cases)
    case (task r0 r')
    have "phase_of r' = Succeeded"
      using task(5) assms(4) by (cases rule: applyTaskEvent_cases; simp add: phase_of_iff)
    with task that [of "stamp e r'"] show ?thesis by (simp add: update_conv')
  next
    case run
    with assms(4) show ?thesis by (simp add: task_event_def)
  qed
  with ys inv1 show ?thesis by (auto dest: final_task_no_events [OF ctx])
qed

section \<open>The length of a run\<close>

text \<open>What \<open>RenewTaskLease\<close> reserves: one terminal event and three events per attempt.\<close>

definition reserved_events :: "ReviewRunPlan \<Rightarrow> nat" where
  "reserved_events plan = 1 + sum_list (map (\<lambda>t. 3 * td_maxAttempts t) (rp_tasks plan))"

lemma run_rank_initial:
  assumes "plan_wf H plan"
  shows "run_rank (initial_state plan) = 1 + reserved_events plan"
proof -
  have "sum_list (map (\<lambda>(k, r). runtime_rank r) (initial_tasks plan)) =
      sum_list (map (\<lambda>t. 3 * td_maxAttempts t) (rp_tasks plan))"
    unfolding initial_tasks_map [OF assms]
    by (simp add: comp_def runtime_rank_def phase_of_def)
  then show ?thesis by (simp add: run_rank_def initial_state_def reserved_events_def)
qed

lemma first_event_opens:
  "replayed H plan (e # es) s \<Longrightarrow> ev_kind e = RunEventOpened"
  by (auto simp: and_then_Inr_iff initial_state_def elim!: run_step_cases)

lemma replayed_rank:
  assumes ctx: "replay_context H plan" and es: "replayed H plan es s"
  shows "length (filter (\<lambda>e. \<not> renewal e) es) + run_rank s \<le> 1 + reserved_events plan"
    and "es \<noteq> [] \<Longrightarrow> run_rank s \<le> reserved_events plan"
proof -
  have wf: "plan_wf H plan" using ctx by (simp add: replay_context_def)
  show bound: "length (filter (\<lambda>e. \<not> renewal e) es) + run_rank s \<le> 1 + reserved_events plan"
    using replayed_bound [OF ctx state_inv_initial [OF wf] es] run_rank_initial [OF wf] by simp
  show "run_rank s \<le> reserved_events plan" if "es \<noteq> []"
  proof -
    from that obtain e es' where "es = e # es'" by (cases es) auto
    with first_event_opens [of H plan e es' s] es bound show ?thesis by (auto simp: renewal_def)
  qed
qed

text \<open>
  C15. Apart from lease renewals, a journal that replays has at most two events
  for the run and three per attempt of each task; for the largest plan that is 962.
\<close>

theorem run_length_bounded:
  assumes "sum256 H" and "plan_wf H plan" and "ReplayReviewRun H plan es = Inr s"
  shows "length (filter (\<lambda>e. ev_kind e \<noteq> RunEventTaskLeaseRenewed) es)
      \<le> 2 + sum_list (map (\<lambda>t. 3 * td_maxAttempts t) (rp_tasks plan))
    \<and> 2 + sum_list (map (\<lambda>t. 3 * td_maxAttempts t) (rp_tasks plan)) \<le> 962"
proof
  have ctx: "replay_context H plan" using assms by (simp add: replay_context_def)
  have "replayed H plan es s" using assms(3) by (simp add: replay_iff [OF ctx])
  from replayed_rank(1) [OF ctx this]
  show "length (filter (\<lambda>e. ev_kind e \<noteq> RunEventTaskLeaseRenewed) es)
      \<le> 2 + sum_list (map (\<lambda>t. 3 * td_maxAttempts t) (rp_tasks plan))"
    by (simp add: renewal_def reserved_events_def)
  have "sum_list (map (\<lambda>t. 3 * td_maxAttempts t) (rp_tasks plan)) \<le> sum_list (map (\<lambda>_. 15) (rp_tasks plan))"
    using plan_wf_task_ok [OF assms(2)] by (intro sum_list_mono) (auto simp: task_ok_def)
  also have "\<dots> \<le> 960" using assms(2) by (simp add: sum_list_triv plan_wf_def)
  finally show "2 + sum_list (map (\<lambda>t. 3 * td_maxAttempts t) (rp_tasks plan)) \<le> 962" by simp
qed


section \<open>The end of a run\<close>

text \<open>A task that blocks the run: it failed for good or was skipped.\<close>

definition blocked :: "TaskRuntimeState \<Rightarrow> bool" where
  "blocked r \<longleftrightarrow> rt_status r = TaskRuntimeSkipped
     \<or> rt_status r = TaskRuntimeFailed
       \<and> (\<not> RunFailure_Retryable (rt_failure r) \<or> td_maxAttempts (rt_definition r) \<le> rt_attempts r)"

text \<open>A failed task with attempts left whose retry lies after the last representable instant, in the year 9999.\<close>

definition parked :: "TaskRuntimeState \<Rightarrow> bool" where
  "parked r \<longleftrightarrow> rt_status r = TaskRuntimeFailed \<and> \<not> blocked r \<and> maxRunEventUnixMilliseconds < rt_retryAtMillis r"

text \<open>A task nothing more will happen to.\<close>

definition over :: "TaskRuntimeState \<Rightarrow> bool" where
  "over r \<longleftrightarrow> rt_status r \<in> {TaskRuntimeSucceeded, TaskRuntimeFailed, TaskRuntimeSkipped}"

lemma blocked_code: "blocked r \<longleftrightarrow> failedWithoutRetry r \<or> rt_status r = TaskRuntimeSkipped"
  by (auto simp: blocked_def failedWithoutRetry_def)

lemma select_failed_spec:
  assumes "select_failed s sel ts = res"
    and "\<forall>best. sel = Some best \<longrightarrow> blocked best"
  shows "case res of
      None \<Rightarrow> sel = None \<and> (\<forall>t\<in>set ts. td_required t \<longrightarrow> \<not> blocked (runtime_at s (td_key t)))
    | Some best \<Rightarrow> blocked best
        \<and> (sel = Some best \<or> (\<exists>t\<in>set ts. td_required t \<and> best = runtime_at s (td_key t)))
        \<and> (\<forall>b. sel = Some b \<longrightarrow> rt_lastEventRevision best \<le> rt_lastEventRevision b)
        \<and> (\<forall>t\<in>set ts. td_required t \<longrightarrow> blocked (runtime_at s (td_key t)) \<longrightarrow>
             rt_lastEventRevision best \<le> rt_lastEventRevision (runtime_at s (td_key t)))"
  using assms
proof (induction s sel ts arbitrary: res rule: select_failed.induct)
  case (1 s sel)
  then show ?case by (auto split: option.splits)
next
  case (2 s sel t ts)
  define r where "r = runtime_at s (td_key t)"
  show ?case
  proof (cases "td_required t \<and> blocked r")
    case False
    then have "select_failed s sel ts = res"
      using "2.prems"(1) by (auto simp: Let_def r_def blocked_code)
    from "2.IH"(1) [OF refl _ this "2.prems"(2)] False show ?thesis
      by (auto simp: r_def blocked_code split: option.splits)
  next
    case True
    show ?thesis
    proof (cases sel)
      case None
      then have eq: "select_failed s (Some r) ts = res"
        using "2.prems"(1) True by (auto simp: Let_def r_def blocked_code)
      have "\<not> (\<not> td_required t \<or> \<not> failedWithoutRetry r \<and> rt_status r \<noteq> TaskRuntimeSkipped)"
        using True by (auto simp: blocked_code)
      from "2.IH"(2) [OF r_def this None eq] True None show ?thesis
        by (auto simp: r_def split: option.splits)
    next
      case (Some b)
      have cond: "\<not> (\<not> td_required t \<or> \<not> failedWithoutRetry r \<and> rt_status r \<noteq> TaskRuntimeSkipped)"
        using True by (auto simp: blocked_code)
      let ?better = "rt_lastEventRevision r < rt_lastEventRevision b
          \<or> rt_lastEventRevision r = rt_lastEventRevision b \<and> td_key (rt_definition r) < td_key (rt_definition b)"
      show ?thesis
      proof (cases ?better)
        case better: True
        with True Some have eq: "select_failed s (Some r) ts = res"
          using "2.prems"(1) by (auto simp: Let_def r_def blocked_code)
        from "2.IH"(3) [OF r_def cond Some better eq] True Some better show ?thesis
          by (auto simp: r_def split: option.splits)
      next
        case worse: False
        with True Some have eq: "select_failed s sel ts = res"
          using "2.prems"(1) by (auto simp: Let_def r_def blocked_code)
        from "2.IH"(4) [OF r_def cond Some worse eq "2.prems"(2)] True Some worse show ?thesis
          by (auto simp: r_def split: option.splits)
      qed
    qed
  qed
qed

lemma blocked_or_parked:
  assumes "phase_ok r"
  shows "blocked r \<or> parked r \<longleftrightarrow>
    rt_status r = TaskRuntimeFailed \<and> \<not> RetryableAt r (time_of_millis maxRunEventUnixMilliseconds)
    \<or> rt_status r = TaskRuntimeSkipped"
  using assms by (auto simp: blocked_def parked_def RetryableAt_def failedWithoutRetry_def phase_ok_def)

lemma state_inv_all:
  assumes wf: "plan_wf H plan" and inv: "state_inv plan s"
  shows "(\<forall>(k, r)\<in>set (rs_tasks s). P r) \<longleftrightarrow> (\<forall>t\<in>set (rp_tasks plan). P (runtime_at s (td_key t)))"
proof
  assume "\<forall>(k, r)\<in>set (rs_tasks s). P r"
  then show "\<forall>t\<in>set (rp_tasks plan). P (runtime_at s (td_key t))"
    using map_of_SomeD [OF state_inv_definition(1) [OF wf inv]] by auto
next
  assume *: "\<forall>t\<in>set (rp_tasks plan). P (runtime_at s (td_key t))"
  show "\<forall>(k, r)\<in>set (rs_tasks s). P r"
  proof clarify
    fix k r assume "(k, r) \<in> set (rs_tasks s)"
    note m = state_inv_set [OF wf inv this]
    from state_inv_runtime(1,2) [OF inv m] * runtime_at_Some [OF m] show "P r" by auto
  qed
qed

lemma canFail_iff:
  assumes wf: "plan_wf H plan" and inv: "state_inv plan s"
  shows "canFail s \<longleftrightarrow> (\<exists>t\<in>set (rp_tasks plan). td_required t
    \<and> (blocked (runtime_at s (td_key t)) \<or> parked (runtime_at s (td_key t))))"
proof -
  have "\<not> canFail s \<longleftrightarrow> (\<forall>(k, r)\<in>set (rs_tasks s). \<not> (td_required (rt_definition r) \<and> (blocked r \<or> parked r)))"
    using blocked_or_parked [OF state_inv_runtime(3) [OF inv state_inv_set [OF wf inv]]]
    by (fastforce simp: canFail_def list_ex_iff)
  then show ?thesis
    unfolding state_inv_all [OF wf inv] using state_inv_definition(2) [OF wf inv] by auto
qed

lemma canSucceed_iff:
  assumes wf: "plan_wf H plan" and inv: "state_inv plan s"
  shows "canSucceed s \<longleftrightarrow> (\<forall>t\<in>set (rp_tasks plan).
    (td_required t \<longrightarrow> rt_status (runtime_at s (td_key t)) = TaskRuntimeSucceeded)
    \<and> rt_status (runtime_at s (td_key t)) \<in> {TaskRuntimeSucceeded, TaskRuntimeFailed, TaskRuntimeSkipped})"
proof -
  have "canSucceed s \<longleftrightarrow> (\<forall>(k, r)\<in>set (rs_tasks s).
      (td_required (rt_definition r) \<longrightarrow> rt_status r = TaskRuntimeSucceeded)
      \<and> rt_status r \<in> {TaskRuntimeSucceeded, TaskRuntimeFailed, TaskRuntimeSkipped})"
    by (fastforce simp: canSucceed_def list_all_iff)
  then show ?thesis
    unfolding state_inv_all [OF wf inv] using state_inv_definition(2) [OF wf inv] by auto
qed

lemma TerminalCompletion_fail:
  assumes wf: "plan_wf H plan" and inv: "state_inv plan s" and valid: "ReviewRunState_Validate H s = None"
    and active: "rs_status s = ReviewRunActive"
    and t0: "t0 \<in> set (rp_tasks plan)" "td_required t0" "blocked (runtime_at s (td_key t0))"
  shows "\<exists>c. \<exists>t\<in>set (rp_tasks plan). TerminalCompletion H s = Inr (Some c)
    \<and> tc_status c = TaskCompletionFailed \<and> td_required t \<and> blocked (runtime_at s (td_key t))
    \<and> (\<forall>t'\<in>set (rp_tasks plan). td_required t' \<longrightarrow> blocked (runtime_at s (td_key t')) \<longrightarrow>
         rt_lastEventRevision (runtime_at s (td_key t)) \<le> rt_lastEventRevision (runtime_at s (td_key t')))
    \<and> tc_failure c = (if rt_status (runtime_at s (td_key t)) = TaskRuntimeSkipped
         then RunFailureDependency else rt_failure (runtime_at s (td_key t)))"
proof -
  have plan: "rs_plan s = plan" using inv by (simp add: state_inv_def tasks_inv_def)
  note sel = select_failed_spec [where s = s and sel = None and ts = "rp_tasks plan", OF refl, simplified]
  have fail: "canFail s" using t0 canFail_iff [OF wf inv] by blast
  from sel t0 obtain best t where
    best: "select_failed s None (rp_tasks plan) = Some best" "blocked best"
      "t \<in> set (rp_tasks plan)" "td_required t" "best = runtime_at s (td_key t)"
      "\<forall>t'\<in>set (rp_tasks plan). td_required t' \<longrightarrow> blocked (runtime_at s (td_key t')) \<longrightarrow>
         rt_lastEventRevision best \<le> rt_lastEventRevision (runtime_at s (td_key t'))"
    by (auto split: option.splits)
  define failure where
    "failure = (if rt_status best = TaskRuntimeSkipped then RunFailureDependency else rt_failure best)"
  have "phase_ok best" using state_inv_definition(1) [OF wf inv best(3)] best(5)
    state_inv_runtime(3) [OF inv] by blast
  then have "RunFailure_String failure \<noteq> []"
    using best(2) by (auto simp: failure_def phase_ok_def blocked_def)
  then obtain c where c: "NewTaskFailure H failure = Inr c" by (auto simp: NewTaskFailure_def Let_def)
  then have "TerminalCompletion H s = Inr (Some c)"
    using valid active fail best(1) by (simp add: TerminalCompletion_def plan failure_def)
  moreover have "tc_status c = TaskCompletionFailed" "tc_failure c = failure"
    using c by (simp_all add: NewTaskFailure_Inr)
  ultimately show ?thesis using best by (auto simp: failure_def)
qed

lemma TerminalCompletion_parked:
  assumes wf: "plan_wf H plan" and inv: "state_inv plan s" and active: "rs_status s = ReviewRunActive"
    and "\<forall>t\<in>set (rp_tasks plan). td_required t \<longrightarrow> \<not> blocked (runtime_at s (td_key t))"
    and "t0 \<in> set (rp_tasks plan)" "td_required t0" "parked (runtime_at s (td_key t0))"
  shows "TerminalCompletion H s = Inl ErrInvalidReviewRunState"
proof -
  have plan: "rs_plan s = plan" using inv by (simp add: state_inv_def tasks_inv_def)
  have "canFail s" using assms(5-7) canFail_iff [OF wf inv] by blast
  moreover have "select_failed s None (rp_tasks plan) = None"
    using select_failed_spec [where s = s and sel = None and ts = "rp_tasks plan", OF refl] assms(4)
    by (auto split: option.splits)
  ultimately show ?thesis using active by (simp add: TerminalCompletion_def plan)
qed

lemma TerminalCompletion_succeed:
  assumes wf: "plan_wf H plan" and inv: "state_inv plan s" and valid: "ReviewRunState_Validate H s = None"
    and active: "rs_status s = ReviewRunActive" and fail: "\<not> canFail s" and ok: "canSucceed s"
  shows "\<exists>c t. TerminalCompletion H s = Inr (Some c) \<and> tc_status c = TaskCompletionSucceeded
    \<and> ReviewRunPlan_ResultTask H plan = Inr t \<and> t \<in> set (rp_tasks plan)
    \<and> tc_outputIdentity c = rt_outputIdentity (runtime_at s (td_key t))"
proof -
  have plan: "rs_plan s = plan" using inv by (simp add: state_inv_def tasks_inv_def)
  obtain t where t: "ReviewRunPlan_ResultTask H plan = Inr t" "t \<in> set (rp_tasks plan)" "td_required t"
    using ReviewRunPlan_ResultTask_ex [OF wf] by blast
  let ?r = "runtime_at s (td_key t)"
  note r = state_inv_definition(1) [OF wf inv t(2)]
  have st: "rt_status ?r = TaskRuntimeSucceeded" using ok t canSucceed_iff [OF wf inv] by blast
  with state_inv_runtime(3) [OF inv r] have "validControlPlaneDigest (rt_outputIdentity ?r)"
    by (simp add: phase_ok_def)
  then obtain c where c: "NewTaskSuccess H (rt_outputIdentity ?r) = Inr c"
    by (auto simp: NewTaskSuccess_def Let_def)
  then have "TerminalCompletion H s = Inr (Some c)"
    using valid active fail ok t r st by (simp add: TerminalCompletion_def plan ReviewRunState_Task_def)
  moreover have "tc_status c = TaskCompletionSucceeded" "tc_outputIdentity c = rt_outputIdentity ?r"
    using c by (simp_all add: NewTaskSuccess_Inr)
  ultimately show ?thesis using t by blast
qed

text \<open>
  C9. On an active replayed run, \<open>TerminalCompletion\<close> is determined by
  the tasks. If a required task is blocked, that is, skipped or failed with no attempt left, it is
  the failure of the one that blocked first, by revision. Otherwise, if a required task has a retry
  that lies after the year 9999, it is an error: the run counts as failed, but there is no task to
  blame. Otherwise, if every task is over and the required ones have succeeded, it is a success with
  the output of the plan's result task; and otherwise there is none yet.
\<close>

theorem terminal_completion_derived:
  assumes "sum256 H" and "plan_wf H plan" and "ReplayReviewRun H plan es = Inr s"
    and "rs_status s = ReviewRunActive"
  shows "if \<exists>t\<in>set (rp_tasks plan). td_required t \<and> blocked (runtime_at s (td_key t))
    then \<exists>c. \<exists>t\<in>set (rp_tasks plan). TerminalCompletion H s = Inr (Some c)
      \<and> tc_status c = TaskCompletionFailed \<and> td_required t \<and> blocked (runtime_at s (td_key t))
      \<and> (\<forall>t'\<in>set (rp_tasks plan). td_required t' \<longrightarrow> blocked (runtime_at s (td_key t')) \<longrightarrow>
           rt_lastEventRevision (runtime_at s (td_key t)) \<le> rt_lastEventRevision (runtime_at s (td_key t')))
      \<and> tc_failure c = (if rt_status (runtime_at s (td_key t)) = TaskRuntimeSkipped
           then RunFailureDependency else rt_failure (runtime_at s (td_key t)))
    else if \<exists>t\<in>set (rp_tasks plan). td_required t \<and> parked (runtime_at s (td_key t))
    then TerminalCompletion H s = Inl ErrInvalidReviewRunState
    else if \<forall>t\<in>set (rp_tasks plan). over (runtime_at s (td_key t))
      \<and> (td_required t \<longrightarrow> rt_status (runtime_at s (td_key t)) = TaskRuntimeSucceeded)
    then \<exists>c t. TerminalCompletion H s = Inr (Some c) \<and> tc_status c = TaskCompletionSucceeded
      \<and> ReviewRunPlan_ResultTask H plan = Inr t \<and> t \<in> set (rp_tasks plan)
      \<and> tc_outputIdentity c = rt_outputIdentity (runtime_at s (td_key t))
    else TerminalCompletion H s = Inr None"
    (is "if ?blocked then _ else if ?parked then _ else if ?over then _ else _")
proof -
  have ctx: "replay_context H plan" using assms by (simp add: replay_context_def)
  note inv = replay_inv [OF ctx assms(3)]
  have valid: "ReviewRunState_Validate H s = None" using assms(3) by (simp add: ReplayReviewRun_Inr)
  have fail: "canFail s \<longleftrightarrow> ?blocked \<or> ?parked" using canFail_iff [OF assms(2) inv] by blast
  have succeed: "canSucceed s \<longleftrightarrow> ?over" using canSucceed_iff [OF assms(2) inv] by (auto simp: over_def)
  consider ?blocked | "\<not> ?blocked" ?parked | "\<not> ?blocked" "\<not> ?parked" ?over
    | "\<not> ?blocked" "\<not> ?parked" "\<not> ?over" by blast
  then show ?thesis
  proof cases
    case 1
    then obtain t0 where "t0 \<in> set (rp_tasks plan)" "td_required t0" "blocked (runtime_at s (td_key t0))" by blast
    from TerminalCompletion_fail [OF assms(2) inv valid assms(4) this] show ?thesis unfolding if_P [OF 1] .
  next
    case 2
    then have "TerminalCompletion H s = Inl ErrInvalidReviewRunState"
      using TerminalCompletion_parked [OF assms(2) inv assms(4)] by blast
    with 2 show ?thesis by (simp only: if_True if_False)
  next
    case 3
    have "\<not> canFail s" "canSucceed s" using 3 fail succeed by blast+
    from TerminalCompletion_succeed [OF assms(2) inv valid assms(4) this] show ?thesis
      unfolding if_not_P [OF 3(1)] if_not_P [OF 3(2)] if_P [OF 3(3)] .
  next
    case 4
    have "\<not> canFail s" "\<not> canSucceed s" using 4 fail succeed by blast+
    then have "TerminalCompletion H s = Inr None"
      using valid assms(4) by (simp add: TerminalCompletion_def)
    with 4 show ?thesis by (simp only: if_False)
  qed
qed


section \<open>No run is stuck\<close>

lemma finite_dep_rel: "finite (dep_rel tasks)"
proof -
  have "dep_rel tasks \<subseteq> (SIGMA k : td_key ` set tasks. set (deps_of tasks k))"
    using deps_of_outside by (fastforce simp: dep_rel_def)
  then show ?thesis by (rule finite_subset) auto
qed

text \<open>Nothing is left to schedule: no task is ready, skippable, available or leased.\<close>

definition quiescent :: "ReviewRunState \<Rightarrow> gotime \<Rightarrow> bool" where
  "quiescent s now \<longleftrightarrow>
     ReadyTasks s now = [] \<and> SkippableTasks s = []
     \<and> list_all (\<lambda>(k, r). rt_status r \<noteq> TaskRuntimeAvailable \<and> rt_status r \<noteq> TaskRuntimeLeased
          \<and> rt_retryAtMillis r \<le> UnixMilli now) (rs_tasks s)"

lemma quiescent_settled:
  assumes wf: "plan_wf H plan" and inv: "state_inv plan s" and active: "rs_status s = ReviewRunActive"
    and q: "quiescent s now" and t: "t \<in> set (rp_tasks plan)"
  shows "phase_of (runtime_at s (td_key t)) \<in> final_phases \<union> {Pending}"
proof -
  have plan: "rs_plan s = plan" using inv by (simp add: state_inv_def tasks_inv_def)
  let ?r = "runtime_at s (td_key t)"
  note r = state_inv_definition(1) [OF wf inv t]
  have "(td_key t, ?r) \<in> set (rs_tasks s)" using map_of_SomeD [OF r] .
  with q have st: "rt_status ?r \<noteq> TaskRuntimeAvailable" "rt_status ?r \<noteq> TaskRuntimeLeased"
      "rt_retryAtMillis ?r \<le> UnixMilli now" by (auto simp: quiescent_def list_all_iff)
  have "\<not> RetryableAt ?r now"
    using q t active plan by (auto simp: quiescent_def ReadyTasks_def filter_empty_conv Let_def)
  with st state_inv_runtime(3) [OF inv r] show ?thesis
    by (cases "rt_status ?r") (auto simp: phase_of_def phase_ok_def RetryableAt_def failedWithoutRetry_def)
qed

lemma quiescent_no_pending:
  assumes wf: "plan_wf H plan" and inv: "state_inv plan s" and active: "rs_status s = ReviewRunActive"
    and q: "quiescent s now"
  shows "t \<in> set (rp_tasks plan) \<Longrightarrow> phase_of (runtime_at s (td_key t)) \<noteq> Pending"
proof -
  have plan: "rs_plan s = plan" using inv by (simp add: state_inv_def tasks_inv_def)
  have "wf ((dep_rel (rp_tasks plan))\<inverse>)"
    using finite_acyclic_wf_converse [OF finite_dep_rel plan_wf_graph(2) [OF wf]] .
  then have "\<forall>t\<in>set (rp_tasks plan). td_key t = k \<longrightarrow> phase_of (runtime_at s (td_key t)) \<noteq> Pending" for k
  proof (induction k rule: wf_induct_rule)
    case (less k)
    show ?case
    proof (intro ballI impI notI)
      fix t assume t: "t \<in> set (rp_tasks plan)" "td_key t = k"
        and pending: "phase_of (runtime_at s (td_key t)) = Pending"
      have final: "phase_of (runtime_at s d) \<in> final_phases" if d: "d \<in> set (td_dependencies t)" for d
      proof -
        obtain u where u: "u \<in> set (rp_tasks plan)" "td_key u = d"
          using plan_wf_graph(1) [OF wf] t(1) d unfolding deps_present_def by blast
        have "(d, k) \<in> (dep_rel (rp_tasks plan))\<inverse>"
          using plan_wf_deps_of [OF wf t(1)] t(2) d by simp
        from less [OF this] u quiescent_settled [OF wf inv active q u(1)] show ?thesis by auto
      qed
      have "\<not> dependenciesSatisfied s t" "\<not> hasFailedDependency s t"
        using q t pending active plan
        by (auto simp: quiescent_def ReadyTasks_def SkippableTasks_def filter_empty_conv Let_def
            phase_of_iff)
      with final show False unfolding dependenciesSatisfied_iff hasFailedDependency_iff by blast
    qed
  qed
  then show "t \<in> set (rp_tasks plan) \<Longrightarrow> phase_of (runtime_at s (td_key t)) \<noteq> Pending" by blast
qed

text \<open>
  C4. An active run with nothing left to schedule can be closed: when no task is ready,
  skippable, available or leased and every retry time has passed, \<open>TerminalCompletion\<close> returns a
  completion. Skipping and the dependency rules can therefore never leave a run hanging.
\<close>

theorem no_deadlock:
  assumes "sum256 H" and "plan_wf H plan" and "ReplayReviewRun H plan es = Inr s"
    and "rs_status s = ReviewRunActive" and "quiescent s now" and "validRunMillis (UnixMilli now)"
  shows "\<exists>c. TerminalCompletion H s = Inr (Some c)"
proof -
  have ctx: "replay_context H plan" using assms by (simp add: replay_context_def)
  note inv = replay_inv [OF ctx assms(3)]
  have valid: "ReviewRunState_Validate H s = None" using assms(3) by (simp add: ReplayReviewRun_Inr)
  have final: "phase_of (runtime_at s (td_key t)) \<in> final_phases" if "t \<in> set (rp_tasks plan)" for t
    using quiescent_settled [OF assms(2) inv assms(4,5) that]
      quiescent_no_pending [OF assms(2) inv assms(4,5) that] by blast
  show ?thesis
  proof (cases "canSucceed s")
    case False
    then obtain t where t: "t \<in> set (rp_tasks plan)" "td_required t"
        "rt_status (runtime_at s (td_key t)) \<noteq> TaskRuntimeSucceeded"
      using canSucceed_iff [OF assms(2) inv] final by (fastforce simp: phase_of_iff failedWithoutRetry_def)
    with final [OF t(1)] have "blocked (runtime_at s (td_key t))"
      by (auto simp: blocked_code phase_of_iff)
    with TerminalCompletion_fail [OF assms(2) inv valid assms(4) t(1,2)] show ?thesis by blast
  next
    case True
    then have "\<not> canFail s"
      using canSucceed_iff [OF assms(2) inv] canFail_iff [OF assms(2) inv] by (auto simp: blocked_def parked_def)
    with True TerminalCompletion_succeed [OF assms(2) inv valid assms(4)] show ?thesis by blast
  qed
qed

end
