(* ===== verification/Coordinator_Steps.thy ===== *)
theory Coordinator_Steps
  imports Coordinator Run_State_Properties
begin

text \<open>
  Every event the coordinator builds from a replayed state is accepted by the replay: the
  conditions it checks before appending imply those of \<open>applyTaskEvent\<close> and \<open>apply\<close>. The one
  exception is a renewal below the resolution of the journal, whose expiry in milliseconds is the one
  that is already recorded.
\<close>


section \<open>From a built event to a step\<close>

lemma timeToRunMillis_pos: "0 < UnixMilli t \<Longrightarrow> timeToRunMillis t = UnixMilli t"
  using pos_millis_not_zero_time [of t] by (simp add: timeToRunMillis_def)

lemma allowed_time:
  "transitionTimeAllowed st now \<Longrightarrow>
     0 < UnixMilli now \<and> timeToRunMillis now = UnixMilli now \<and> rs_lastOccurredAtMillis st \<le> UnixMilli now"
  by (auto simp: transitionTimeAllowed_def validRunMillis_def timeToRunMillis_pos)

lemma next_event_fields:
  "next_event H plan st k t a tok w x out f r now = Inr e \<Longrightarrow>
     event_fields plan (rs_revision st + 1) (rs_headIdentity st) k t a tok w x out f r now e"
  unfolding next_event_def by (rule NewRunEvent_InrD(1))

lemma next_event_replays:
  assumes ctx: "replay_context H plan" and es: "ReplayReviewRun H plan es = Inr st"
    and active: "rs_status st = ReviewRunActive" and time: "transitionTimeAllowed st now"
    and e: "next_event H plan st k t a tok w x out f r now = Inr e"
    and s1: "apply_event st e = Inr s1"
  shows "ReplayReviewRun H plan (es @ [e]) = Inr (set_head e s1)"
proof -
  have st: "replayed H plan es st" using es by (simp add: replay_iff [OF ctx])
  note fields = next_event_fields [OF e]
  have "RunEvent_Validate H e = None"
    using NewRunEvent_valid ctx e by (auto simp: next_event_def replay_context_def)
  with fields active s1 allowed_time [OF time] have "run_step H plan st e = Inr (set_head e s1)"
    by (auto simp: run_step_def replay_step_Inr event_fields_def)
  with st show ?thesis by (auto simp: replay_iff [OF ctx] fold_err_snoc)
qed

lemma task_identity_nonempty:
  "sum256 H \<Longrightarrow> plan_wf H plan \<Longrightarrow> t \<in> set (rp_tasks plan) \<Longrightarrow> td_identity t \<noteq> []"
  using task_ok_identity [of H t] plan_wf_task_ok [of H plan t] by (auto simp del: not_None_eq)

lemma task_event_replays:
  assumes ctx: "replay_context H plan" and es: "ReplayReviewRun H plan es = Inr st"
    and active: "rs_status st = ReviewRunActive" and time: "transitionTimeAllowed st now"
    and t: "t \<in> set (rp_tasks plan)"
    and e: "next_event H plan st k t a tok w x out f r now = Inr e" and k: "k \<noteq> RunEventOpened"
    and r': "applyTaskEvent st e (runtime_at st (td_key t)) = Inr r'"
  shows "\<exists>st'. ReplayReviewRun H plan (es @ [e]) = Inr st'"
proof -
  have hyps: "sum256 H" "plan_wf H plan" using ctx by (simp_all add: replay_context_def)
  note inv = replay_inv [OF ctx es]
  note fields = next_event_fields [OF e]
  note rt = state_inv_definition [OF hyps(2) inv t]
  have key: "td_key t \<noteq> []" using task_ok_key [OF plan_wf_task_ok [OF hyps(2) t]] .
  have "apply_event st e = Inr (st\<lparr>rs_tasks := AList.update (ev_taskKey e) (stamp e r') (rs_tasks st)\<rparr>)"
    using fields active k rt r' key task_identity_nonempty [OF hyps t]
    by (simp add: apply_event_def event_fields_def stamp_def)
  from next_event_replays [OF ctx es active time e this] show ?thesis by blast
qed

lemma event_at_now:
  "event_fields plan n prev k t a tok w x out f r now e \<Longrightarrow> transitionTimeAllowed st now \<Longrightarrow>
     ev_occurredAtMillis e = UnixMilli now \<and> UnixMilli (runMillisToTime (ev_occurredAtMillis e)) = UnixMilli now"
  using allowed_time [of st now] by (auto simp: event_fields_def runMillisToTime_def)


section \<open>The events of each operation\<close>

lemma exhausted_task_Some:
  assumes "exhausted_task plan st now = Some r"
  shows "\<exists>t\<in>set (rp_tasks plan). r = runtime_at st (td_key t) \<and> rt_status r = TaskRuntimeLeased
    \<and> rt_attempts r = td_maxAttempts t \<and> rt_leaseExpiresAtMillis r \<le> UnixMilli now"
  using assms by (auto simp: exhausted_task_def find_Some_iff Let_def dest!: nth_mem)

lemma RetryableAt_cong: "UnixMilli t = UnixMilli t' \<Longrightarrow> RetryableAt r t = RetryableAt r t'"
  by (simp add: RetryableAt_def)

lemma advance_accepted:
  assumes ctx: "replay_context H plan" and es: "ReplayReviewRun H plan es = Inr st"
    and active: "rs_status st = ReviewRunActive" and time: "transitionTimeAllowed st now"
    and e: "advance_event H plan st now = Some (Inr e)"
  shows "\<exists>st'. ReplayReviewRun H plan (es @ [e]) = Inr st'"
proof -
  have wf: "plan_wf H plan" using ctx by (simp add: replay_context_def)
  note inv = replay_inv [OF ctx es]
  have plan: "rs_plan st = plan" using inv by (simp add: state_inv_def tasks_inv_def)
  note accept = task_event_replays [OF ctx es active time]
  show ?thesis
  proof (cases "exhausted_task plan st now")
    case (Some r)
    from exhausted_task_Some [OF this] obtain t where t: "t \<in> set (rp_tasks plan)"
        "r = runtime_at st (td_key t)" "rt_status r = TaskRuntimeLeased"
        "rt_attempts r = td_maxAttempts t" "rt_leaseExpiresAtMillis r \<le> UnixMilli now" by blast
    have def_t: "rt_definition r = t" using state_inv_definition(2) [OF wf inv t(1)] t(2) by simp
    from e Some have built: "next_event H plan st RunEventTaskFailed t (rt_attempts r)
        (rt_leaseTokenIdentity r) [] zero_time [] RunFailureResourceLimit zero_time now = Inr e"
      by (simp add: advance_event_def def_t)
    note fields = next_event_fields [OF built]
    have "\<exists>r'. applyTaskEvent st e (runtime_at st (td_key t)) = Inr r'"
      using fields event_at_now [OF fields time] t def_t
      by (auto simp: applyTaskEvent_def event_fields_def Let_def)
    with accept [OF t(1) built] show ?thesis by auto
  next
    case None
    show ?thesis
    proof (cases "ReadyTasks st now")
      case (Cons t ts)
      then have "t \<in> set (ReadyTasks st now)" by simp
      then have t: "t \<in> set (rp_tasks plan)" and ready:
        "rt_status (runtime_at st (td_key t)) = TaskRuntimePending \<and> dependenciesSatisfied st t
          \<or> RetryableAt (runtime_at st (td_key t)) now"
        by (auto simp: ReadyTasks_def plan Let_def split: if_splits)
      from e None Cons have built: "next_event H plan st RunEventTaskAvailable t 0 [] [] zero_time []
          NoRunFailure zero_time now = Inr e" by (simp add: advance_event_def)
      note fields = next_event_fields [OF built]
      have "\<exists>r'. applyTaskEvent st e (runtime_at st (td_key t)) = Inr r'"
        using fields event_at_now [OF fields time] ready state_inv_definition(2) [OF wf inv t]
          RetryableAt_cong [of "runMillisToTime (ev_occurredAtMillis e)" now]
        by (auto simp: applyTaskEvent_def event_fields_def Let_def)
      with accept [OF t built] show ?thesis by auto
    next
      case Nil
      with e None obtain t ts where sk: "SkippableTasks st = t # ts"
        by (auto simp: advance_event_def split: list.splits)
      then have "t \<in> set (SkippableTasks st)" by simp
      then have t: "t \<in> set (rp_tasks plan)" and skip:
        "rt_status (runtime_at st (td_key t)) = TaskRuntimePending" "hasFailedDependency st t"
        by (auto simp: SkippableTasks_def plan split: if_splits)
      from e None Nil sk have built: "next_event H plan st RunEventTaskSkipped t 0 [] [] zero_time []
          RunFailureDependency zero_time now = Inr e" by (simp add: advance_event_def)
      have "\<exists>r'. applyTaskEvent st e (runtime_at st (td_key t)) = Inr r'"
        using next_event_fields [OF built] skip state_inv_definition(2) [OF wf inv t]
        by (auto simp: applyTaskEvent_def event_fields_def)
      with accept [OF t built] show ?thesis by auto
    qed
  qed
qed

text \<open>A task whose runtime has a status of the life cycle is a task of the plan.\<close>

lemma runtime_in_plan:
  assumes "state_inv plan st" and "map_of (rs_tasks st) k = Some r"
  shows "rt_definition r \<in> set (rp_tasks plan)" and "runtime_at st (td_key (rt_definition r)) = r"
proof -
  note inv = state_inv_runtime(1,2) [OF assms]
  from inv show "rt_definition r \<in> set (rp_tasks plan)" by simp
  show "runtime_at st (td_key (rt_definition r)) = r"
    unfolding inv(2) by (rule runtime_at_Some [OF assms(2)])
qed

lemma claim_accepted:
  assumes ctx: "replay_context H plan" and es: "ReplayReviewRun H plan es = Inr st"
    and e: "claim_decide H plan key w random now n st = Try (Inr e)"
  shows "\<exists>st'. ReplayReviewRun H plan (es @ [e]) = Inr st'"
proof -
  note inv = replay_inv [OF ctx es]
  let ?r = "runtime_at st key"
  from e obtain tok tokid where time: "transitionTimeAllowed st now" and active: "rs_status st = ReviewRunActive"
    and st: "rt_status ?r = TaskRuntimeAvailable \<or>
      rt_status ?r = TaskRuntimeLeased \<and> rt_leaseExpiresAtMillis ?r \<le> UnixMilli now"
    and at_most: "u8_succ (rt_attempts ?r) \<le> td_maxAttempts (rt_definition ?r)"
    and built: "next_event H plan st RunEventTaskLeased (rt_definition ?r) (u8_succ (rt_attempts ?r))
      tokid w (add_millis now (td_leaseDurationMillis (rt_definition ?r))) [] NoRunFailure zero_time now
      = Inr e"
    by (auto simp: claim_decide_def Let_def not_less split: if_splits sum.splits prod.splits)
  have "phase_of ?r \<noteq> NoPhase" using st by (auto simp: phase_of_def)
  note r = runtime_in_plan [OF inv runtime_at_phase [OF this]]
  note fields = next_event_fields [OF built]
  have "\<exists>r'. applyTaskEvent st e (runtime_at st (td_key (rt_definition ?r))) = Inr r'"
    using fields event_at_now [OF fields time] st at_most r(2)
    by (auto simp: applyTaskEvent_def event_fields_def Let_def)
  with task_event_replays [OF ctx es active time r(1) built] show ?thesis by auto
qed

definition whole_millis :: "gotime \<Rightarrow> bool" where
  "whole_millis t \<longleftrightarrow> t mod 1000000 = 0"

lemma whole_millis_less:
  "whole_millis t \<Longrightarrow> time_of_millis x < add_millis t d \<Longrightarrow> x < UnixMilli t + int d"
proof -
  assume "whole_millis t" and less: "time_of_millis x < add_millis t d"
  then have "t = (t div 1000000) * 1000000"
    using div_mult_mod_eq [of t 1000000] by (simp add: whole_millis_def)
  with less have "x * 1000000 < (t div 1000000) * 1000000 + int d * 1000000"
    by (simp add: time_of_millis_def add_millis_def)
  then show "x < UnixMilli t + int d" by (simp add: UnixMilli_def)
qed

lemma millis_le: "time_of_millis x < add_millis t d \<Longrightarrow> x \<le> UnixMilli t + int d"
  unfolding time_of_millis_def add_millis_def UnixMilli_def by (simp add: zdiv_mono1 [of "x * 1000000" _ 1000000, simplified])

lemma renew_decide_Try:
  assumes "renew_decide H plan lease now n st = Try built"
  shows "transitionTimeAllowed st now" and "rs_status st = ReviewRunActive"
    and "\<exists>r. map_of (rs_tasks st) (tl_taskKey lease) = Some r \<and> rt_status r = TaskRuntimeLeased
      \<and> UnixMilli now \<le> rt_leaseExpiresAtMillis r
      \<and> runMillisToTime (rt_leaseExpiresAtMillis r)
          < add_millis now (td_leaseDurationMillis (rt_definition r))
      \<and> rs_revision st + 1 + renew_reserved plan \<le> maxRunJournalStreamEvents
      \<and> built = next_event H plan st RunEventTaskLeaseRenewed (rt_definition r) (rt_attempts r)
          (rt_leaseTokenIdentity r) (rt_workerIdentity r)
          (add_millis now (td_leaseDurationMillis (rt_definition r))) [] NoRunFailure zero_time now"
  using assms
  by (auto simp: renew_decide_def ReviewRunState_Task_def runtimeMatchesLease_def Let_def not_less
      split: if_splits option.splits)

text \<open>A renewal that makes the recorded expiry later is accepted; otherwise the expiry is the recorded one.\<close>

lemma renew_fields:
  assumes "renew_decide H plan lease now n st = Try (Inr e)"
  shows "ev_kind e = RunEventTaskLeaseRenewed" and "ev_occurredAtMillis e = UnixMilli now"
    and "ev_leaseExpiresAtMillis e = UnixMilli now
      + int (td_leaseDurationMillis (rt_definition (runtime_at st (tl_taskKey lease))))"
    and "rt_leaseExpiresAtMillis (runtime_at st (tl_taskKey lease)) \<le> ev_leaseExpiresAtMillis e"
    and "rt_status (runtime_at st (tl_taskKey lease)) = TaskRuntimeLeased"
proof -
  note d = renew_decide_Try [OF assms]
  from d(3) obtain r where r: "map_of (rs_tasks st) (tl_taskKey lease) = Some r"
      "rt_status r = TaskRuntimeLeased" "UnixMilli now \<le> rt_leaseExpiresAtMillis r"
      "runMillisToTime (rt_leaseExpiresAtMillis r)
        < add_millis now (td_leaseDurationMillis (rt_definition r))"
    and built: "next_event H plan st RunEventTaskLeaseRenewed (rt_definition r) (rt_attempts r)
          (rt_leaseTokenIdentity r) (rt_workerIdentity r)
          (add_millis now (td_leaseDurationMillis (rt_definition r))) [] NoRunFailure zero_time now = Inr e"
    by auto
  note fields = next_event_fields [OF built]
  note time = allowed_time [OF d(1)]
  show "ev_kind e = RunEventTaskLeaseRenewed" "ev_occurredAtMillis e = UnixMilli now"
    using fields event_at_now [OF fields d(1)] by (simp_all add: event_fields_def)
  show x: "ev_leaseExpiresAtMillis e = UnixMilli now
      + int (td_leaseDurationMillis (rt_definition (runtime_at st (tl_taskKey lease))))"
    using fields time timeToRunMillis_pos [of "add_millis now (td_leaseDurationMillis (rt_definition r))"]
    by (simp add: event_fields_def runtime_at_Some [OF r(1)])
  show "rt_leaseExpiresAtMillis (runtime_at st (tl_taskKey lease)) \<le> ev_leaseExpiresAtMillis e"
    using r(3,4) time millis_le by (auto simp: x runtime_at_Some [OF r(1)] runMillisToTime_def split: if_splits)
  show "rt_status (runtime_at st (tl_taskKey lease)) = TaskRuntimeLeased"
    using r by (simp add: runtime_at_Some)
qed

lemma renew_later_accepted:
  assumes ctx: "replay_context H plan" and es: "ReplayReviewRun H plan es = Inr st"
    and e: "renew_decide H plan lease now n st = Try (Inr e)"
    and later: "rt_leaseExpiresAtMillis (runtime_at st (tl_taskKey lease)) \<noteq> ev_leaseExpiresAtMillis e"
  shows "\<exists>st'. ReplayReviewRun H plan (es @ [e]) = Inr st'"
proof -
  note inv = replay_inv [OF ctx es]
  note d = renew_decide_Try [OF e]
  from d(3) obtain r where r: "map_of (rs_tasks st) (tl_taskKey lease) = Some r"
      "rt_status r = TaskRuntimeLeased" "UnixMilli now \<le> rt_leaseExpiresAtMillis r"
    and built: "next_event H plan st RunEventTaskLeaseRenewed (rt_definition r) (rt_attempts r)
          (rt_leaseTokenIdentity r) (rt_workerIdentity r)
          (add_millis now (td_leaseDurationMillis (rt_definition r))) [] NoRunFailure zero_time now = Inr e"
    by auto
  note def_r = runtime_in_plan [OF inv r(1)]
  note fields = next_event_fields [OF built]
  have "rt_leaseExpiresAtMillis r < ev_leaseExpiresAtMillis e"
    using renew_fields(4) [OF e] later by (simp add: runtime_at_Some [OF r(1)])
  then have "\<exists>r'. applyTaskEvent st e (runtime_at st (td_key (rt_definition r))) = Inr r'"
    using fields event_at_now [OF fields d(1)] r(2,3) def_r(2)
    by (auto simp: applyTaskEvent_def event_fields_def Let_def)
  with task_event_replays [OF ctx es d(2,1) def_r(1) built] show ?thesis by auto
qed

lemma renew_accepted:
  assumes ctx: "replay_context H plan" and es: "ReplayReviewRun H plan es = Inr st"
    and e: "renew_decide H plan lease now n st = Try (Inr e)" and whole: "whole_millis now"
  shows "\<exists>st'. ReplayReviewRun H plan (es @ [e]) = Inr st'"
proof (rule renew_later_accepted [OF ctx es e])
  from renew_decide_Try [OF e] have "UnixMilli now \<le> rt_leaseExpiresAtMillis (runtime_at st (tl_taskKey lease))"
    "runMillisToTime (rt_leaseExpiresAtMillis (runtime_at st (tl_taskKey lease)))
      < add_millis now (td_leaseDurationMillis (rt_definition (runtime_at st (tl_taskKey lease))))"
    by (auto simp: runtime_at_Some)
  with allowed_time [OF renew_decide_Try(1) [OF e]]
  show "rt_leaseExpiresAtMillis (runtime_at st (tl_taskKey lease)) \<noteq> ev_leaseExpiresAtMillis e"
    by (auto simp: renew_fields(3) [OF e] runMillisToTime_def split: if_splits dest!: whole_millis_less [OF whole])
qed

lemma complete_accepted:
  assumes ctx: "replay_context H plan" and es: "ReplayReviewRun H plan es = Inr st"
    and e: "complete_decide H plan lease c now n st = Try (Inr e)"
  shows "\<exists>st'. ReplayReviewRun H plan (es @ [e]) = Inr st'"
proof -
  note inv = replay_inv [OF ctx es]
  define retry where "retry r = (if RunFailure_Retryable (tc_failure c) \<and>
      rt_attempts r < td_maxAttempts (rt_definition r)
      then add_millis now (td_retryDelayMillis (rt_definition r)) else zero_time)" for r :: TaskRuntimeState
  from e obtain r where r: "map_of (rs_tasks st) (tl_taskKey lease) = Some r"
      "rt_status r = TaskRuntimeLeased" "UnixMilli now \<le> rt_leaseExpiresAtMillis r"
    and time: "transitionTimeAllowed st now" and active: "rs_status st = ReviewRunActive"
    and built: "if tc_status c = TaskCompletionFailed
      then next_event H plan st RunEventTaskFailed (rt_definition r) (rt_attempts r)
             (rt_leaseTokenIdentity r) [] zero_time [] (tc_failure c) (retry r) now = Inr e
      else next_event H plan st RunEventTaskSucceeded (rt_definition r) (rt_attempts r)
             (rt_leaseTokenIdentity r) [] zero_time (tc_outputIdentity c) NoRunFailure zero_time now = Inr e"
    by (auto simp: complete_decide_def ReviewRunState_Task_def runtimeMatchesLease_def retry_def Let_def
        not_less split: if_splits option.splits)
  note def_r = runtime_in_plan [OF inv r(1)]
  note accept = task_event_replays [OF ctx es active time def_r(1)]
  show ?thesis
  proof (cases "tc_status c = TaskCompletionFailed")
    case True
    with built have b: "next_event H plan st RunEventTaskFailed (rt_definition r) (rt_attempts r)
        (rt_leaseTokenIdentity r) [] zero_time [] (tc_failure c) (retry r) now = Inr e" by simp
    note fields = next_event_fields [OF b]
    have "timeToRunMillis (retry r) \<noteq> 0 \<longleftrightarrow> RunFailure_Retryable (tc_failure c)
        \<and> rt_attempts r < td_maxAttempts (rt_definition r)"
      using allowed_time [OF time] by (auto simp: retry_def timeToRunMillis_pos)
    with fields event_at_now [OF fields time] r(2,3) def_r(2)
    have "\<exists>r'. applyTaskEvent st e (runtime_at st (td_key (rt_definition r))) = Inr r'"
      by (auto simp: applyTaskEvent_def event_fields_def matchesLeaseResult_def Let_def)
    with accept [OF b] show ?thesis by auto
  next
    case False
    with built have b: "next_event H plan st RunEventTaskSucceeded (rt_definition r) (rt_attempts r)
        (rt_leaseTokenIdentity r) [] zero_time (tc_outputIdentity c) NoRunFailure zero_time now = Inr e"
      by simp
    note fields = next_event_fields [OF b]
    have "\<exists>r'. applyTaskEvent st e (runtime_at st (td_key (rt_definition r))) = Inr r'"
      using fields event_at_now [OF fields time] r(2,3) def_r(2)
      by (auto simp: applyTaskEvent_def event_fields_def matchesLeaseResult_def)
    with accept [OF b] show ?thesis by auto
  qed
qed

text \<open>The terminal events concern no task.\<close>

lemma run_event_replays:
  assumes ctx: "replay_context H plan" and es: "ReplayReviewRun H plan es = Inr st"
    and active: "rs_status st = ReviewRunActive" and time: "transitionTimeAllowed st now"
    and e: "next_event H plan st k zeroTaskDefinition 0 [] [] zero_time out f zero_time now = Inr e"
    and k: "k = RunEventSucceeded \<and> canSucceed st \<or> k = RunEventFailed \<and> canFail st \<or> k = RunEventCanceled"
  shows "\<exists>st'. ReplayReviewRun H plan (es @ [e]) = Inr st'"
proof -
  have "\<exists>s1. apply_event st e = Inr s1"
    using next_event_fields [OF e] active k
    by (auto simp: apply_event_def event_fields_def zeroTaskDefinition_def)
  with next_event_replays [OF ctx es active time e] show ?thesis by blast
qed

lemma succeed_accepted:
  assumes "replay_context H plan" and "ReplayReviewRun H plan es = Inr st"
    and "succeed_decide H plan out now n st = Try (Inr e)"
  shows "\<exists>st'. ReplayReviewRun H plan (es @ [e]) = Inr st'"
  using assms(3) run_event_replays [OF assms(1,2), of now RunEventSucceeded out NoRunFailure e]
  by (auto simp: succeed_decide_def split: if_splits sum.splits option.splits)

lemma fail_accepted:
  assumes "replay_context H plan" and "ReplayReviewRun H plan es = Inr st"
    and "fail_decide H plan f now n st = Try (Inr e)"
  shows "\<exists>st'. ReplayReviewRun H plan (es @ [e]) = Inr st'"
  using assms(3) run_event_replays [OF assms(1,2), of now RunEventFailed "[]" f e]
  by (auto simp: fail_decide_def split: if_splits sum.splits option.splits)

lemma cancel_accepted:
  assumes "replay_context H plan" and "ReplayReviewRun H plan es = Inr st"
    and "cancel_decide H plan now n st = Try (Inr e)"
  shows "\<exists>st'. ReplayReviewRun H plan (es @ [e]) = Inr st'"
  using assms(3) run_event_replays [OF assms(1,2), of now RunEventCanceled "[]" RunFailureCanceled e]
  by (auto simp: cancel_decide_def split: if_splits)

end
