(* ===== verification/Event_Range.thy ===== *)
theory Event_Range
  imports Coordinator_Steps
begin

text \<open>
  The events the coordinator builds stay in the range of their integer types, and their worker
  names are the one of the claim or one that the stream already has.
\<close>


section \<open>Integers\<close>

lemma accepted_attempt:
  assumes ctx: "replay_context H plan" and inv: "state_inv plan s" and step: "run_step H plan s e = Inr s'"
  shows "ev_attempt e < 2 ^ 8"
proof -
  have v: "validateFields e = None" using run_step_valid [OF step] by simp
  from step show ?thesis
  proof (cases rule: run_step_cases)
    case (task r r')
    have "rt_definition r \<in> set (rp_tasks plan)" using runtime_in_plan(1) [OF inv task(3)] .
    then have m: "td_maxAttempts (rt_definition r) \<le> 5"
      using ctx plan_wf_task_ok by (fastforce simp: replay_context_def task_ok_def)
    have a: "rt_attempts r \<le> td_maxAttempts (rt_definition r)"
      using state_inv_runtime(3) [OF inv task(3)] by (simp add: phase_ok_def)
    from task(5) show ?thesis
      using m a v
      by (cases rule: applyTaskEvent_cases)
        (auto simp: matchesLeaseResult_def validateFields_def hasAttemptFields_def event_hasTask_def split: if_splits)
  next
    case run
    with v show ?thesis
      by (cases "ev_kind e") (auto simp: validateFields_def hasAttemptFields_def task_event_def split: if_splits)
  qed
qed

lemma accepted_ints:
  assumes ctx: "replay_context H plan" and e: "ReplayReviewRun H plan (es @ [e]) = Inr st'"
    and "length es \<le> maxRunJournalStreamEvents"
    and "int64 (ev_leaseExpiresAtMillis e)" "int64 (ev_retryAtMillis e)"
  shows "event_ints e"
proof -
  from e obtain st where st: "replayed H plan es st" "run_step H plan st e = Inr st'"
    by (auto simp: replay_iff [OF ctx] fold_err_snoc)
  with run_step_valid [OF st(2)] replayed_revision [OF st(1)] assms(3)
    accepted_attempt [OF ctx replayed_inv [OF ctx st(1)] st(2)] assms(4,5)
  show ?thesis by (simp add: event_ints_def maxRunJournalStreamEvents_def)
qed

text \<open>A time the coordinator writes: none, or now and at most an hour.\<close>

definition near :: "gotime \<Rightarrow> gotime \<Rightarrow> bool" where
  "near now t \<longleftrightarrow> t = zero_time \<or> (\<exists>d\<le>3600000. t = add_millis now d)"

lemma near_int64:
  assumes "validRunMillis (UnixMilli now)" and "near now t"
  shows "int64 (timeToRunMillis t)"
  using assms
  by (auto simp: near_def timeToRunMillis_def validRunMillis_def maxRunEventUnixMilliseconds_def int64_def)

lemma near_definition:
  assumes ctx: "replay_context H plan" and inv: "state_inv plan st"
  shows "near now (add_millis now (td_leaseDurationMillis (rt_definition (runtime_at st k))))"
    "near now (add_millis now (td_retryDelayMillis (rt_definition (runtime_at st k))))"
proof -
  have "td_leaseDurationMillis (rt_definition (runtime_at st k)) \<le> 3600000
    \<and> td_retryDelayMillis (rt_definition (runtime_at st k)) \<le> 3600000"
  proof (cases "map_of (rs_tasks st) k")
    case None
    then show ?thesis by (simp add: runtime_at_None zeroTaskRuntimeState_def zeroTaskDefinition_def)
  next
    case (Some r)
    with runtime_in_plan(1) [OF inv Some] ctx plan_wf_task_ok show ?thesis
      by (fastforce simp: runtime_at_Some replay_context_def task_ok_def)
  qed
  then show "near now (add_millis now (td_leaseDurationMillis (rt_definition (runtime_at st k))))"
    "near now (add_millis now (td_retryDelayMillis (rt_definition (runtime_at st k))))"
    by (auto simp: near_def)
qed

lemma near_zero [simp]: "near now zero_time"
  by (simp add: near_def)

lemma next_event_times:
  assumes "next_event H plan st k t a tok w x out f r now = Inr e" and "near now x" and "near now r"
  shows "int64 (ev_leaseExpiresAtMillis e)" "int64 (ev_retryAtMillis e)" "ev_workerIdentity e = w"
proof -
  note f = next_event_fields [OF assms(1)]
  have "validateFields e = None" using assms(1) NewRunEvent_InrD(6) unfolding next_event_def by blast
  then have "validRunMillis (timeToRunMillis now)" using validateFields_time [of e] f by (simp add: event_fields_def)
  then have "validRunMillis (UnixMilli now)" by (auto simp: timeToRunMillis_def validRunMillis_def split: if_splits)
  with f near_int64 [OF this] assms(2,3)
  show "int64 (ev_leaseExpiresAtMillis e)" "int64 (ev_retryAtMillis e)" "ev_workerIdentity e = w"
    by (simp_all add: event_fields_def)
qed

text \<open>What the coordinator builds on a state, and the worker it names.\<close>

definition in_range :: "string \<Rightarrow> RunEvent \<Rightarrow> bool" where
  "in_range w e \<longleftrightarrow> int64 (ev_leaseExpiresAtMillis e) \<and> int64 (ev_retryAtMillis e) \<and> ev_workerIdentity e = w"

lemma next_event_range:
  "next_event H plan st k t a tok w x out f r now = Inr e \<Longrightarrow> near now x \<Longrightarrow> near now r \<Longrightarrow> in_range w e"
  using next_event_times by (simp add: in_range_def)

lemma decide_range:
  assumes ctx: "replay_context H plan" and inv: "state_inv plan st"
  shows "claim_decide H plan key w random now n st = Try (Inr e) \<Longrightarrow> in_range w e"
    and "renew_decide H plan lease now n st = Try (Inr e) \<Longrightarrow>
      in_range (rt_workerIdentity (runtime_at st (tl_taskKey lease))) e"
    and "complete_decide H plan lease c now n st = Try (Inr e) \<Longrightarrow> in_range [] e"
    and "succeed_decide H plan out now n st = Try (Inr e) \<Longrightarrow> in_range [] e"
    and "fail_decide H plan fl now n st = Try (Inr e) \<Longrightarrow> in_range [] e"
    and "cancel_decide H plan now n st = Try (Inr e) \<Longrightarrow> in_range [] e"
    and "advance_event H plan st now = Some (Inr e) \<Longrightarrow> in_range [] e"
proof -
  note near = near_definition [OF ctx inv]
  show "in_range w e" if "claim_decide H plan key w random now n st = Try (Inr e)"
    using that near(1) [of now key]
    by (auto simp: claim_decide_def Let_def intro: next_event_range split: if_splits sum.splits prod.splits)
  show "in_range (rt_workerIdentity (runtime_at st (tl_taskKey lease))) e"
    if "renew_decide H plan lease now n st = Try (Inr e)"
    using that near(1) [of now "tl_taskKey lease"]
    by (auto simp: renew_decide_def ReviewRunState_Task_def runtime_at_Some Let_def intro: next_event_range
        split: if_splits option.splits)
  show "in_range [] e" if "complete_decide H plan lease c now n st = Try (Inr e)"
    using that near(2) [of now "tl_taskKey lease"]
    by (auto simp: complete_decide_def ReviewRunState_Task_def runtime_at_Some Let_def intro: next_event_range
        split: if_splits option.splits)
  show "in_range [] e" if "succeed_decide H plan out now n st = Try (Inr e)"
    using that by (auto simp: succeed_decide_def intro: next_event_range split: if_splits sum.splits option.splits)
  show "in_range [] e" if "fail_decide H plan fl now n st = Try (Inr e)"
    using that by (auto simp: fail_decide_def intro: next_event_range split: if_splits sum.splits option.splits)
  show "in_range [] e" if "cancel_decide H plan now n st = Try (Inr e)"
    using that by (auto simp: cancel_decide_def intro: next_event_range split: if_splits)
  show "in_range [] e" if "advance_event H plan st now = Some (Inr e)"
    using that by (auto simp: advance_event_def intro: next_event_range split: option.splits list.splits)
qed


section \<open>Worker names\<close>

lemma runtime_worker:
  assumes wf: "plan_wf H plan"
  shows "replayed H plan es st \<Longrightarrow> map_of (rs_tasks st) k = Some r \<Longrightarrow>
     rt_workerIdentity r = [] \<or> (\<exists>e\<in>set es. ev_workerIdentity e = rt_workerIdentity r)"
proof (induction es arbitrary: st k r rule: rev_induct)
  case Nil
  then show ?case by (auto simp: initial_state_def initial_tasks_map [OF wf] newTaskRuntimeState_def dest!: map_of_initial)
next
  case (snoc e es)
  then obtain s where s: "replayed H plan es s" "run_step H plan s e = Inr st" by (auto simp: fold_err_snoc)
  from s(2) show ?case
  proof (cases rule: run_step_cases)
    case (task r0 r1)
    note IH = snoc.IH [OF s(1) task(3)]
    have "rt_workerIdentity r1 = [] \<or> (\<exists>x\<in>set (es @ [e]). ev_workerIdentity x = rt_workerIdentity r1)"
      using task(5) IH by (cases rule: applyTaskEvent_cases) auto
    with snoc.prems(2) task(6) snoc.IH [OF s(1)] show ?thesis
      by (auto simp: update_conv' split: if_splits)
  next
    case run
    with snoc.IH [OF s(1)] snoc.prems(2) show ?thesis by auto
  qed
qed

end
