(* ===== verification/Journal_Contract.thy ===== *)
theory Journal_Contract
  imports Event_Range "HOL-Library.Sublist"
begin

text \<open>
  What the coordinator relies on from a journal, as a locale, and what it guarantees in return,
  proved once inside it: whatever other clients append in between, every operation only extends the
  stream of the plan and keeps what is promised of it (\<open>good\<close>). The promise of every operation but
  \<open>RenewTaskLease\<close> can be that the stream replays; the promise of all of them is that it replays unless
  its last event is a renewal that records no later expiry. A journal may restrict the worker names
  it can keep (\<open>worker_ok\<close>). The locale is interpreted on the memory journal shared with other clients,
  for both promises, and on the file journal.
\<close>


section \<open>The contract\<close>

definition replayable :: "sha \<Rightarrow> ReviewRunPlan \<Rightarrow> RunEvent list \<Rightarrow> bool" where
  "replayable H plan es \<longleftrightarrow> es = [] \<or> (\<exists>st. ReplayReviewRun H plan es = Inr st)"

definition head_of :: "RunEvent list \<Rightarrow> string" where
  "head_of es = (if es = [] then [] else ev_identity (last es))"

text \<open>
  The stream ends with a renewal that leaves the recorded expiry of a lease as it is, after events
  that replay. Its time is later than the recorded one by a fraction of a millisecond, which the
  event does not keep.
\<close>

definition stalled :: "sha \<Rightarrow> ReviewRunPlan \<Rightarrow> RunEvent list \<Rightarrow> bool" where
  "stalled H plan es \<longleftrightarrow> es \<noteq> [] \<and>
     (case ReplayReviewRun H plan (butlast es) of
        Inl _ \<Rightarrow> False
      | Inr st \<Rightarrow>
          ev_kind (last es) = RunEventTaskLeaseRenewed
          \<and> ev_sequence (last es) = length es
          \<and> rs_lastOccurredAtMillis st \<le> ev_occurredAtMillis (last es)
          \<and> rt_status (runtime_at st (ev_taskKey (last es))) = TaskRuntimeLeased
          \<and> ev_leaseExpiresAtMillis (last es) = rt_leaseExpiresAtMillis (runtime_at st (ev_taskKey (last es))))"

definition replays_or_stalled :: "sha \<Rightarrow> ReviewRunPlan \<Rightarrow> RunEvent list \<Rightarrow> bool" where
  "replays_or_stalled H plan es \<longleftrightarrow> replayable H plan es \<or> stalled H plan es"

lemma stalledE:
  assumes "stalled H plan es"
  obtains xs e st where "es = xs @ [e]" "ReplayReviewRun H plan xs = Inr st"
    "ev_kind e = RunEventTaskLeaseRenewed" "ev_sequence e = Suc (length xs)"
    "rs_lastOccurredAtMillis st \<le> ev_occurredAtMillis e"
  using assms by (cases es rule: rev_cases) (auto simp: stalled_def split: sum.splits)

lemma renew_outcome:
  assumes ctx: "replay_context H plan" and es: "ReplayReviewRun H plan es = Inr st"
    and e: "renew_decide H plan lease now n st = Try (Inr e)"
  shows "(\<exists>st'. ReplayReviewRun H plan (es @ [e]) = Inr st') \<or> stalled H plan (es @ [e])"
proof (cases "rt_leaseExpiresAtMillis (runtime_at st (tl_taskKey lease)) = ev_leaseExpiresAtMillis e")
  case False
  with renew_later_accepted [OF ctx es e] show ?thesis by blast
next
  case True
  from renew_decide_Try(3) [OF e] obtain r where r: "map_of (rs_tasks st) (tl_taskKey lease) = Some r"
    and built: "next_event H plan st RunEventTaskLeaseRenewed (rt_definition r) (rt_attempts r)
          (rt_leaseTokenIdentity r) (rt_workerIdentity r)
          (add_millis now (td_leaseDurationMillis (rt_definition r))) [] NoRunFailure zero_time now = Inr e"
    by auto
  note inv = replay_inv [OF ctx es]
  have "ev_taskKey e = tl_taskKey lease" "ev_sequence e = Suc (rs_revision st)"
    using next_event_fields [OF built] runtime_in_plan [OF inv r] state_inv_runtime(2) [OF inv r] ctx
      task_identity_nonempty
    by (auto simp: event_fields_def replay_context_def)
  moreover have "rs_revision st = length es"
    using es replayed_revision by (auto simp: replay_iff [OF ctx])
  ultimately show ?thesis
    using True es renew_fields [OF e] allowed_time [OF renew_decide_Try(1) [OF e]] by (simp add: stalled_def)
qed

text \<open>The event fits after every stream it can be appended to under the given head.\<close>

definition fits ::
    "(RunEvent list \<Rightarrow> bool) \<Rightarrow> ReviewRunPlan \<Rightarrow> RunEvent list \<Rightarrow> string \<Rightarrow> RunEvent \<Rightarrow> bool" where
  "fits good plan es0 h e \<longleftrightarrow>
     ev_scope e = rp_scope plan \<and>
     (\<forall>es. prefix es0 es \<longrightarrow> good es \<longrightarrow> head_of es = h \<longrightarrow> ev_sequence e = Suc (length es) \<longrightarrow>
        good (es @ [e]))"

text \<open>The event continues a loaded state.\<close>

definition built_on :: "ReviewRunPlan \<Rightarrow> ReviewRunState \<Rightarrow> RunEvent \<Rightarrow> bool" where
  "built_on plan st e \<longleftrightarrow> ev_scope e = rp_scope plan \<and> ev_sequence e = Suc (rs_revision st)"

lemma next_event_built:
  "next_event H plan st k t a tok w x out f r now = Inr e \<Longrightarrow> built_on plan st e"
  by (auto simp: built_on_def event_fields_def dest!: next_event_fields)

lemma decide_built:
  "claim_decide H plan key w random now n st = Try (Inr e) \<Longrightarrow> built_on plan st e"
  "renew_decide H plan lease now n st = Try (Inr e) \<Longrightarrow> built_on plan st e"
  "complete_decide H plan lease c now n st = Try (Inr e) \<Longrightarrow> built_on plan st e"
  "succeed_decide H plan out now n st = Try (Inr e) \<Longrightarrow> built_on plan st e"
  "fail_decide H plan fl now n st = Try (Inr e) \<Longrightarrow> built_on plan st e"
  "cancel_decide H plan now n st = Try (Inr e) \<Longrightarrow> built_on plan st e"
  "advance_event H plan st now = Some (Inr e) \<Longrightarrow> built_on plan st e"
  by (auto simp: claim_decide_def renew_decide_def complete_decide_def succeed_decide_def
      fail_decide_def cancel_decide_def advance_event_def Let_def dest: next_event_built
      split: if_splits sum.splits prod.splits option.splits list.splits)

text \<open>The event continues a loaded stream, and can be written.\<close>

definition extends :: "sha \<Rightarrow> ReviewRunPlan \<Rightarrow> RunEvent list \<Rightarrow> ReviewRunState \<Rightarrow> RunEvent \<Rightarrow> bool" where
  "extends H plan es st e \<longleftrightarrow>
     (\<exists>st'. ReplayReviewRun H plan (es @ [e]) = Inr st') \<and> built_on plan st e \<and> event_ints e"

definition continues ::
    "(RunEvent list \<Rightarrow> bool) \<Rightarrow> ReviewRunPlan \<Rightarrow> RunEvent list \<Rightarrow> ReviewRunState \<Rightarrow> RunEvent \<Rightarrow> bool" where
  "continues good plan es st e \<longleftrightarrow> good (es @ [e]) \<and> built_on plan st e \<and> event_ints e"

lemma extendsI:
  assumes "replay_context H plan" and "length es \<le> maxRunJournalStreamEvents"
    and "\<exists>st'. ReplayReviewRun H plan (es @ [e]) = Inr st'" and "built_on plan st e" and "in_range w e"
  shows "extends H plan es st e" "ev_workerIdentity e = w"
  using assms accepted_ints by (auto simp: extends_def in_range_def)

text \<open>A renewal carries the attempt of its lease, whether or not it is accepted.\<close>

lemma renew_ints:
  assumes ctx: "replay_context H plan" and es: "ReplayReviewRun H plan es = Inr st"
    and len: "length es \<le> maxRunJournalStreamEvents"
    and e: "renew_decide H plan lease now n st = Try (Inr e)"
  shows "event_ints e"
proof -
  note inv = replay_inv [OF ctx es]
  from renew_decide_Try(3) [OF e] obtain r where r: "map_of (rs_tasks st) (tl_taskKey lease) = Some r"
    and built: "next_event H plan st RunEventTaskLeaseRenewed (rt_definition r) (rt_attempts r)
          (rt_leaseTokenIdentity r) (rt_workerIdentity r)
          (add_millis now (td_leaseDurationMillis (rt_definition r))) [] NoRunFailure zero_time now = Inr e"
    by auto
  have "rt_definition r \<in> set (rp_tasks plan)" using runtime_in_plan(1) [OF inv r] .
  then have "td_maxAttempts (rt_definition r) \<le> 5"
    using ctx plan_wf_task_ok by (fastforce simp: replay_context_def task_ok_def)
  moreover have "rt_attempts r \<le> td_maxAttempts (rt_definition r)"
    using state_inv_runtime(3) [OF inv r] by (simp add: phase_ok_def)
  moreover have "rs_revision st = length es" using es replayed_revision by (auto simp: replay_iff [OF ctx])
  moreover have "RunEvent_Validate H e = None"
    using NewRunEvent_valid ctx built by (auto simp: next_event_def replay_context_def)
  ultimately show ?thesis
    using next_event_fields [OF built] decide_range(2) [OF ctx inv e] len
    by (simp add: event_ints_def event_fields_def in_range_def maxRunJournalStreamEvents_def)
qed

lemma decide_extends:
  assumes ctx: "replay_context H plan" and es: "ReplayReviewRun H plan es = Inr st"
    and len: "length es \<le> maxRunJournalStreamEvents"
  shows "claim_decide H plan key w random now n st = Try (Inr e) \<Longrightarrow> extends H plan es st e \<and> ev_workerIdentity e = w"
    and "renew_decide H plan lease now n st = Try (Inr e) \<Longrightarrow>
      continues (replays_or_stalled H plan) plan es st e
      \<and> (ev_workerIdentity e = [] \<or> (\<exists>x\<in>set es. ev_workerIdentity x = ev_workerIdentity e))"
    and "complete_decide H plan lease c now n st = Try (Inr e) \<Longrightarrow> extends H plan es st e \<and> ev_workerIdentity e = []"
    and "succeed_decide H plan out now n st = Try (Inr e) \<Longrightarrow> extends H plan es st e \<and> ev_workerIdentity e = []"
    and "fail_decide H plan fl now n st = Try (Inr e) \<Longrightarrow> extends H plan es st e \<and> ev_workerIdentity e = []"
    and "cancel_decide H plan now n st = Try (Inr e) \<Longrightarrow> extends H plan es st e \<and> ev_workerIdentity e = []"
    and "rs_status st = ReviewRunActive \<Longrightarrow> transitionTimeAllowed st now \<Longrightarrow>
      advance_event H plan st now = Some (Inr e) \<Longrightarrow> extends H plan es st e \<and> ev_workerIdentity e = []"
proof -
  note I = extendsI [OF ctx len] and range = decide_range [OF ctx replay_inv [OF ctx es]]
  show "extends H plan es st e \<and> ev_workerIdentity e = w" if "claim_decide H plan key w random now n st = Try (Inr e)"
    using I [OF claim_accepted [OF ctx es that] decide_built(1) [OF that] range(1) [OF that]] by simp
  show "continues (replays_or_stalled H plan) plan es st e
      \<and> (ev_workerIdentity e = [] \<or> (\<exists>x\<in>set es. ev_workerIdentity x = ev_workerIdentity e))"
    if e: "renew_decide H plan lease now n st = Try (Inr e)"
  proof -
    from renew_decide_Try(3) [OF e] obtain r where r: "map_of (rs_tasks st) (tl_taskKey lease) = Some r" by blast
    have "replayed H plan es st" "plan_wf H plan" using es ctx by (simp_all add: replay_iff replay_context_def)
    from runtime_worker [OF this(2,1) r] renew_outcome [OF ctx es e] decide_built(2) [OF e] range(2) [OF e]
      renew_ints [OF ctx es len e]
    show ?thesis
      by (auto simp: runtime_at_Some [OF r] continues_def in_range_def replays_or_stalled_def replayable_def)
  qed
  show "extends H plan es st e \<and> ev_workerIdentity e = []" if "complete_decide H plan lease c now n st = Try (Inr e)"
    using I [OF complete_accepted [OF ctx es that] decide_built(3) [OF that] range(3) [OF that]] by simp
  show "extends H plan es st e \<and> ev_workerIdentity e = []" if "succeed_decide H plan out now n st = Try (Inr e)"
    using I [OF succeed_accepted [OF ctx es that] decide_built(4) [OF that] range(4) [OF that]] by simp
  show "extends H plan es st e \<and> ev_workerIdentity e = []" if "fail_decide H plan fl now n st = Try (Inr e)"
    using I [OF fail_accepted [OF ctx es that] decide_built(5) [OF that] range(5) [OF that]] by simp
  show "extends H plan es st e \<and> ev_workerIdentity e = []" if "cancel_decide H plan now n st = Try (Inr e)"
    using I [OF cancel_accepted [OF ctx es that] decide_built(6) [OF that] range(6) [OF that]] by simp
  show "extends H plan es st e \<and> ev_workerIdentity e = []"
    if "rs_status st = ReviewRunActive" "transitionTimeAllowed st now" "advance_event H plan st now = Some (Inr e)"
    using I [OF advance_accepted [OF ctx es that] decide_built(7) [OF that(3)] range(7) [OF that(3)]] by simp
qed

lemma read_pages_bounded:
  "read_pages J c scope events after s = (Inr es, s') \<Longrightarrow> length events \<le> maxRunJournalStreamEvents \<Longrightarrow>
     length es \<le> maxRunJournalStreamEvents"
proof (induction J c scope events after s rule: read_pages.induct)
  case (1 J c scope events after s)
  then show ?case
    by (subst (asm) (2) read_pages.simps) (auto simp: Let_def split: prod.splits sum.splits if_splits)
qed

text \<open>One call of a coordinator operation on a journal, whatever it returns; \<open>W\<close> are the names workers may have.\<close>

inductive coordinator_step ::
    "sha \<Rightarrow> 's RunJournal \<Rightarrow> (string \<Rightarrow> bool) \<Rightarrow> ReviewRunPlan \<Rightarrow> 's \<Rightarrow> 's \<Rightarrow> bool" for H J W plan where
  open_run: "Coordinator_Open H J c plan now w = (res, w') \<Longrightarrow> coordinator_step H J W plan w w'"
| advance: "Coordinator_Advance H J c plan now w = (res, w') \<Longrightarrow> coordinator_step H J W plan w w'"
| claim: "W worker \<Longrightarrow> Coordinator_ClaimTask H J random c plan key handler worker now w = (claimed, w') \<Longrightarrow>
     coordinator_step H J W plan w w'"
| renew: "Coordinator_RenewTaskLease H J c plan lease now w = (renewed, w') \<Longrightarrow>
     coordinator_step H J W plan w w'"
| complete: "Coordinator_CompleteTask H J c plan lease completion now w = (res, w') \<Longrightarrow>
     coordinator_step H J W plan w w'"
| succeed: "Coordinator_SucceedRun H J c plan out now w = (res, w') \<Longrightarrow> coordinator_step H J W plan w w'"
| fail: "Coordinator_FailRun H J c plan failure now w = (res, w') \<Longrightarrow> coordinator_step H J W plan w w'"
| cancel: "Coordinator_CancelRun H J c plan now w = (res, w') \<Longrightarrow> coordinator_step H J W plan w w'"

text \<open>
  A promise about the stream of the plan: it covers every stream that replays, and the events of a
  stream it covers are numbered and in the order of time.
\<close>

locale stream_promise =
  fixes H :: sha and plan :: ReviewRunPlan and good :: "RunEvent list \<Rightarrow> bool"
  assumes replayable_good: "replayable H plan es \<Longrightarrow> good es"
    and good_sequence: "replay_context H plan \<Longrightarrow> good es \<Longrightarrow> i < length es \<Longrightarrow> ev_sequence (es ! i) = Suc i"
    and good_order: "replay_context H plan \<Longrightarrow> good (es @ [e]) \<Longrightarrow> es \<noteq> [] \<Longrightarrow>
      ev_occurredAtMillis (last es) \<le> ev_occurredAtMillis e"
begin

lemma extends_continues: "extends H plan es st e \<Longrightarrow> continues good plan es st e"
  using replayable_good [of "es @ [e]"] by (auto simp: extends_def continues_def replayable_def)

text \<open>An event built from the state of the stream that was read fits.\<close>

lemma built_fits:
  assumes ctx: "replay_context H plan" and st: "ReplayReviewRun H plan es0 = Inr st"
    and e: "continues good plan es0 st e"
  shows "fits good plan es0 h e"
  unfolding fits_def
proof (intro conjI allI impI)
  show "ev_scope e = rp_scope plan" using e by (simp add: continues_def built_on_def)
  fix es assume "prefix es0 es" "ev_sequence e = Suc (length es)"
  moreover have "rs_revision st = length es0"
    using st replayed_revision by (auto simp: replay_iff [OF ctx])
  ultimately have "es = es0" using e by (simp add: continues_def built_on_def prefix_length_eq [symmetric])
  with e show "good (es @ [e])" by (simp add: continues_def)
qed

end

lemma replayable_sequence:
  assumes "replay_context H plan" and "replayable H plan es" and "i < length es"
  shows "ev_sequence (es ! i) = Suc i"
proof -
  from assms obtain st where "replayed H plan es st"
    by (auto simp: replayable_def replay_iff)
  then have "replayed H plan (take i es @ es ! i # drop (Suc i) es) st"
    using assms(3) by (simp add: id_take_nth_drop [symmetric])
  then obtain s1 s2 where s1: "replayed H plan (take i es) s1" and s2: "run_step H plan s1 (es ! i) = Inr s2"
    by (auto simp: fold_err_append and_then_Inr_iff)
  from run_step_valid [OF s2] replayed_revision [OF s1] assms(3) show ?thesis by simp
qed

lemma replayed_last_time:
  assumes ctx: "replay_context H plan" and "ReplayReviewRun H plan es = Inr st" and "es \<noteq> []"
  shows "rs_lastOccurredAtMillis st = ev_occurredAtMillis (last es)"
proof -
  obtain es0 e0 where es: "es = es0 @ [e0]" using assms(3) by (cases es rule: rev_cases) auto
  with assms(2) obtain s0 where "run_step H plan s0 e0 = Inr st"
    by (auto simp: replay_iff [OF ctx] fold_err_snoc)
  with es show ?thesis using run_step_head by auto
qed

interpretation replaying: stream_promise H plan "replayable H plan" for H plan
proof (unfold_locales, goal_cases)
  case (2 es i)
  then show ?case by (rule replayable_sequence)
next
  case (3 es e)
  then obtain s s' where s: "ReplayReviewRun H plan es = Inr s" "run_step H plan s e = Inr s'"
    by (auto simp: replayable_def replay_iff fold_err_snoc)
  have "rs_revision s = length es" using s(1) replayed_revision by (auto simp: replay_iff [OF 3(1)])
  with run_step_valid [OF s(2)] replayed_last_time [OF 3(1) s(1) 3(3)] 3(3) show ?case by simp
qed simp

interpretation promised: stream_promise H plan "replays_or_stalled H plan" for H plan
proof (unfold_locales, goal_cases)
  case (1 es)
  then show ?case by (simp add: replays_or_stalled_def)
next
  case (2 es i)
  show ?case
  proof (cases "replayable H plan es")
    case False
    with 2(2) obtain xs e st where xs: "es = xs @ [e]" "ReplayReviewRun H plan xs = Inr st" "ev_sequence e = Suc (length xs)"
      by (auto simp: replays_or_stalled_def elim: stalledE)
    have "replayable H plan xs" using xs(2) by (simp add: replayable_def)
    with replayable_sequence [OF 2(1) this, of i] 2(3) xs show ?thesis by (auto simp: nth_append less_Suc_eq)
  qed (rule replayable_sequence [OF 2(1) _ 2(3)])
next
  case (3 es e)
  show ?case
  proof (cases "replayable H plan (es @ [e])")
    case False
    with 3(2) obtain st where "ReplayReviewRun H plan es = Inr st" "rs_lastOccurredAtMillis st \<le> ev_occurredAtMillis e"
      by (auto simp: replays_or_stalled_def elim: stalledE)
    with replayed_last_time [OF 3(1) _ 3(3)] show ?thesis by simp
  qed (rule replaying.good_order [OF 3(1) _ 3(3)])
qed

locale run_journal = stream_promise H plan good
  for H :: sha and plan :: ReviewRunPlan and good :: "RunEvent list \<Rightarrow> bool" +
  fixes J :: "'s RunJournal"
    and stream :: "'s \<Rightarrow> RunEvent list" and ok :: "'s \<Rightarrow> bool" and worker_ok :: "string \<Rightarrow> bool"
  assumes ok_good: "ok s \<Longrightarrow> good (stream s)"
    and ok_workers: "ok s \<Longrightarrow> e \<in> set (stream s) \<Longrightarrow> worker_ok (ev_workerIdentity e)"
    and worker_none: "worker_ok []"
    and read_law: "ok s \<Longrightarrow> rj_Read J ctx (rp_scope plan) after limit s = (res, s') \<Longrightarrow>
      ok s' \<and> prefix (stream s) (stream s') \<and>
      (\<forall>page. res = Inr page \<longrightarrow> page = take (nat limit) (drop after (stream s')))"
    and append_law: "ok s \<Longrightarrow> fits good plan (stream s) h e \<Longrightarrow> event_ints e \<Longrightarrow>
      worker_ok (ev_workerIdentity e) \<Longrightarrow> rj_Append J ctx h e s = (err, s') \<Longrightarrow>
      ok s' \<and> prefix (stream s) (stream s') \<and>
      (err = None \<longrightarrow> stream s' \<noteq> [] \<and> ev_identity (last (stream s')) = ev_identity e)"
    and save_law: "ok s \<Longrightarrow> plan_wf H plan \<Longrightarrow> rj_SavePlan J ctx plan s = (err, s') \<Longrightarrow>
      ok s' \<and> prefix (stream s) (stream s')"
begin

text \<open>A journal transition the coordinator may make.\<close>

definition moves :: "'s \<Rightarrow> 's \<Rightarrow> bool" where
  "moves s s' \<longleftrightarrow> ok s' \<and> prefix (stream s) (stream s')"

lemma moves_trans: "moves s s1 \<Longrightarrow> moves s1 s2 \<Longrightarrow> moves s s2"
  by (auto simp: moves_def)

lemma moves_refl: "ok s \<Longrightarrow> moves s s"
  by (simp add: moves_def)

lemma moves_ok: "moves s s' \<Longrightarrow> ok s'"
  by (simp add: moves_def)

text \<open>Reading page by page gives the whole stream, although it may grow while it is read.\<close>

lemma read_pages_stream:
  assumes ctx: "replay_context H plan"
  shows "read_pages J c (rp_scope plan) events after s = (res, s') \<Longrightarrow> ok s \<Longrightarrow>
    events = take after (stream s) \<Longrightarrow> after \<le> length (stream s) \<Longrightarrow>
    moves s s' \<and> (\<forall>es. res = Inr es \<longrightarrow> es = stream s')"
proof (induction "maxRunJournalStreamEvents - length events" arbitrary: events after s rule: less_induct)
  case less
  obtain pres s1 where rd: "rj_Read J c (rp_scope plan) after (int maxRunJournalReadLimit) s = (pres, s1)"
    by (cases "rj_Read J c (rp_scope plan) after (int maxRunJournalReadLimit) s")
  note law = read_law [OF less.prems(2) rd]
  then have m1: "moves s s1" by (simp add: moves_def)
  show ?case
  proof (cases pres)
    case (Inl err)
    with rd less.prems(1) m1 show ?thesis by (auto simp: read_pages.simps)
  next
    case (Inr page)
    with law have page: "page = take maxRunJournalReadLimit (drop after (stream s1))"
      and pre: "prefix (stream s) (stream s1)" by auto
    from pre less.prems(3,4) have ev: "events = take after (stream s1)" by (auto simp: prefix_def)
    have all: "events @ page = take (after + maxRunJournalReadLimit) (stream s1)"
      unfolding ev page by (simp add: take_add)
    let ?big = "length page > maxRunJournalStreamEvents - length events"
    consider ?big | "\<not> ?big" "length page < maxRunJournalReadLimit"
      | "\<not> ?big" "\<not> length page < maxRunJournalReadLimit" by blast
    then show ?thesis
    proof cases
      case 1
      with rd Inr less.prems(1) m1 show ?thesis by (auto simp: read_pages.simps)
    next
      case 2
      then have "length (stream s1) \<le> after + maxRunJournalReadLimit" unfolding page by auto
      with all have "events @ page = stream s1" by simp
      with 2 rd Inr less.prems(1) m1 show ?thesis by (auto simp: read_pages.simps)
    next
      case 3
      have len: "length page = maxRunJournalReadLimit" using 3(2) unfolding page by auto
      then have le: "after + maxRunJournalReadLimit \<le> length (stream s1)"
        unfolding page by (auto simp: maxRunJournalReadLimit_def)
      have "last page = stream s1 ! (after + maxRunJournalReadLimit - 1)"
        using len le by (simp add: page last_conv_nth maxRunJournalReadLimit_def add.commute)
      then have seq: "ev_sequence (last page) = after + maxRunJournalReadLimit"
        using good_sequence [OF ctx ok_good [OF moves_ok [OF m1]]] le
        by (simp add: maxRunJournalReadLimit_def)
      then have rec: "read_pages J c (rp_scope plan) (events @ page) (after + maxRunJournalReadLimit) s1 = (res, s')"
        using less.prems(1) [unfolded read_pages.simps [of J c "rp_scope plan" events after s]] 3 rd Inr
        by (simp add: maxRunJournalReadLimit_def)
      have dec: "maxRunJournalStreamEvents - length (events @ page) < maxRunJournalStreamEvents - length events"
        using 3 len by (auto simp: maxRunJournalReadLimit_def)
      from less.hyps [OF dec rec moves_ok [OF m1] all le] m1 show ?thesis
        by (auto intro: moves_trans)
    qed
  qed
qed

lemma readAll_stream:
  assumes "replay_context H plan" and "readAllRunEvents J c (rp_scope plan) s = (res, s')" and "ok s"
  shows "moves s s'" and "res = Inr es \<Longrightarrow> es = stream s'"
proof -
  from assms(2) have "read_pages J c (rp_scope plan) [] 0 s = (res, s')"
    by (simp add: readAllRunEvents_def)
  note stream = read_pages_stream [OF assms(1) this assms(3)]
  from stream show "moves s s'" by simp
  from stream show "res = Inr es \<Longrightarrow> es = stream s'" by simp
qed

lemma load_state:
  assumes ctx: "replay_context H plan" and "Coordinator_load H J c plan s = (res, s')" and "ok s"
  shows "moves s s'" and "res = Inr st \<Longrightarrow> ReplayReviewRun H plan (stream s') = Inr st"
    and "res = Inr st \<Longrightarrow> length (stream s') \<le> maxRunJournalStreamEvents"
proof -
  obtain rres s1 where rd: "readAllRunEvents J c (rp_scope plan) s = (rres, s1)"
    by (cases "readAllRunEvents J c (rp_scope plan) s")
  note all = readAll_stream [OF ctx rd assms(3)]
  have s': "s' = s1" using assms(2) rd
    by (auto simp: Coordinator_load_def split: sum.splits if_splits)
  with all(1) show "moves s s'" by simp
  show "ReplayReviewRun H plan (stream s') = Inr st" if "res = Inr st"
    using assms(2) rd all(2) that s'
    by (auto simp: Coordinator_load_def split: sum.splits if_splits)
  show "length (stream s') \<le> maxRunJournalStreamEvents" if "res = Inr st"
    using assms(2) rd all(2) that s' read_pages_bounded [of J c "rp_scope plan" "[]" 0 s]
    by (auto simp: Coordinator_load_def readAllRunEvents_def split: sum.splits if_splits)
qed

lemma first_event_fits:
  assumes ctx: "replay_context H plan"
    and e: "NewRunEvent H plan 1 [] RunEventOpened zeroTaskDefinition 0 [] [] zero_time []
      NoRunFailure zero_time now = Inr e"
  shows "fits good plan [] [] e \<and> event_ints e \<and> worker_ok (ev_workerIdentity e)"
proof -
  note f = NewRunEvent_InrD(1) [OF e]
  have "RunEvent_Validate H e = None" using NewRunEvent_valid ctx e by (auto simp: replay_context_def)
  with f have "\<exists>st. run_step H plan (initial_state plan) e = Inr st"
    by (auto simp: run_step_def replay_step_Inr event_fields_def initial_state_def apply_event_def)
  then have "\<exists>st. ReplayReviewRun H plan [e] = Inr st" by (auto simp: replay_iff [OF ctx])
  moreover from this have "event_ints e"
    using accepted_ints [OF ctx, of "[]" e] f by (auto simp: event_fields_def int64_def)
  ultimately show ?thesis
    using f worker_none replayable_good [of "[e]"] by (auto simp: fits_def event_fields_def replayable_def)
qed

lemma append_moves:
  assumes "append_event J c h built s = (res, s')" and "ok s"
    and "\<And>e. built = Inr e \<Longrightarrow> fits good plan (stream s) h e \<and> event_ints e \<and> worker_ok (ev_workerIdentity e)"
  shows "moves s s'"
    and "res = Appended e \<Longrightarrow> built = Inr e \<and> stream s' \<noteq> [] \<and> ev_identity (last (stream s')) = ev_identity e"
  using assms append_law [OF assms(2)] moves_refl [OF assms(2)]
  by (auto simp: append_event_def moves_def split: sum.splits prod.splits option.splits if_splits)

text \<open>
  The conflict loop: if every event the decision can build from a replayed state is accepted,
  then the loop keeps the contract, and each result it returns was decided or finished on a
  stream between the start and the end.
\<close>

lemma retry_loop_moves:
  assumes ctx: "replay_context H plan"
    and acc: "\<And>n es st e. ReplayReviewRun H plan es = Inr st \<Longrightarrow> length es \<le> maxRunJournalStreamEvents \<Longrightarrow>
      (\<forall>x\<in>set es. worker_ok (ev_workerIdentity x)) \<Longrightarrow> decide n st = Try (Inr e) \<Longrightarrow>
      continues good plan es st e \<and> worker_ok (ev_workerIdentity e)"
    and fin: "\<And>n e s res s'. finish n e s = (res, s') \<Longrightarrow> ok s \<Longrightarrow> moves s s'"
  shows "retry_loop n H J c plan decide finish s = (res, s') \<Longrightarrow> ok s \<Longrightarrow> moves s s'"
proof (induction n arbitrary: s)
  case 0
  then show ?case by (simp add: moves_refl)
next
  case (Suc n)
  obtain lres s1 where ld: "Coordinator_load H J c plan s = (lres, s1)"
    by (cases "Coordinator_load H J c plan s")
  note m1 = load_state(1) [OF ctx ld Suc.prems(2)]
  show ?case
  proof (cases lres)
    case (Inl err)
    with ld Suc.prems(1) m1 show ?thesis by simp
  next
    case (Inr st)
    note st = load_state(2,3) [OF ctx ld Suc.prems(2) Inr]
    show ?thesis
    proof (cases "decide n st")
      case (Return r)
      with ld Inr Suc.prems(1) m1 show ?thesis by simp
    next
      case (Try built)
      obtain ares s2 where ap: "append_event J c (rs_headIdentity st) built s1 = (ares, s2)"
        by (cases "append_event J c (rs_headIdentity st) built s1")
      have "fits good plan (stream s1) (rs_headIdentity st) e \<and> event_ints e \<and> worker_ok (ev_workerIdentity e)"
        if "built = Inr e" for e
        using acc [OF st] Try that built_fits [OF ctx st(1)] ok_workers [OF moves_ok [OF m1]]
        unfolding continues_def by blast
      note m2 = append_moves(1) [OF ap moves_ok [OF m1] this]
      have "moves s2 s'"
      proof (cases ares)
        case (Appended e)
        with ld Inr Try ap Suc.prems(1) fin moves_ok [OF m2] show ?thesis by auto
      next
        case Conflict
        with ld Inr Try ap Suc.prems(1) Suc.IH moves_ok [OF m2] show ?thesis by simp
      next
        case (Refused err)
        with ld Inr Try ap Suc.prems(1) moves_refl moves_ok [OF m2] show ?thesis by simp
      qed
      with m1 m2 show ?thesis by (blast intro: moves_trans)
    qed
  qed
qed

lemma open_loop_moves:
  assumes ctx: "replay_context H plan"
  shows "open_loop n H J c plan now s = (res, s') \<Longrightarrow> ok s \<Longrightarrow> moves s s'"
proof (induction n arbitrary: s)
  case 0
  then show ?case by (simp add: moves_refl)
next
  case (Suc n)
  obtain rres s1 where rd: "readAllRunEvents J c (rp_scope plan) s = (rres, s1)"
    by (cases "readAllRunEvents J c (rp_scope plan) s")
  note all = readAll_stream [OF ctx rd Suc.prems(2)]
  let ?built = "NewRunEvent H plan 1 [] RunEventOpened zeroTaskDefinition 0 [] [] zero_time []
      NoRunFailure zero_time now"
  obtain ares s2 where ap: "append_event J c [] ?built s1 = (ares, s2)"
    by (cases "append_event J c [] ?built s1")
  show ?case
  proof (cases "rres = Inr []")
    case False
    with Suc.prems(1) rd all(1) show ?thesis by (auto split: sum.splits)
  next
    case True
    have "fits good plan (stream s1) [] e \<and> event_ints e \<and> worker_ok (ev_workerIdentity e)" if "?built = Inr e" for e
      using all(2) [OF True] first_event_fits [OF ctx that] by simp
    note m2 = append_moves(1) [OF ap moves_ok [OF all(1)] this]
    have "moves s2 s'"
      using True Suc.IH [OF _ moves_ok [OF m2]] Suc.prems(1) rd ap moves_refl [OF moves_ok [OF m2]]
      by (auto split: appended.splits)
    with all(1) m2 show ?thesis by (blast intro: moves_trans)
  qed
qed

lemma advance_loop_moves:
  assumes ctx: "replay_context H plan"
  shows "advance_loop n H J c plan now s = (res, s') \<Longrightarrow> ok s \<Longrightarrow> moves s s'"
proof (induction n arbitrary: s)
  case 0
  then show ?case by (simp add: moves_refl)
next
  case (Suc n)
  obtain lres s1 where ld: "Coordinator_load H J c plan s = (lres, s1)"
    by (cases "Coordinator_load H J c plan s")
  note m1 = load_state(1) [OF ctx ld Suc.prems(2)]
  show ?case
  proof (cases "\<exists>st built. lres = Inr st \<and> transitionTimeAllowed st now \<and> rs_status st = ReviewRunActive
      \<and> advance_event H plan st now = Some built")
    case False
    with Suc.prems(1) ld m1 show ?thesis by (auto split: sum.splits option.splits if_splits)
  next
    case True
    then obtain st built where st: "lres = Inr st" "transitionTimeAllowed st now"
      "rs_status st = ReviewRunActive" "advance_event H plan st now = Some built" by blast
    note replay = load_state(2,3) [OF ctx ld Suc.prems(2) st(1)]
    obtain ares s2 where ap: "append_event J c (rs_headIdentity st) built s1 = (ares, s2)"
      by (cases "append_event J c (rs_headIdentity st) built s1")
    have "fits good plan (stream s1) (rs_headIdentity st) e \<and> event_ints e \<and> worker_ok (ev_workerIdentity e)"
      if "built = Inr e" for e
      using decide_extends(7) [OF ctx replay st(3,2)] that st(4) built_fits [OF ctx replay(1) extends_continues] worker_none
      by (auto simp: extends_def)
    note m2 = append_moves(1) [OF ap moves_ok [OF m1] this]
    have "moves s2 s'"
      using Suc.IH [OF _ moves_ok [OF m2]] Suc.prems(1) st ld ap moves_refl [OF moves_ok [OF m2]]
      by (auto split: appended.splits)
    with m1 m2 show ?thesis by (blast intro: moves_trans)
  qed
qed

text \<open>The operations.\<close>

lemma Open_moves:
  assumes ctx: "replay_context H plan" and "Coordinator_Open H J c plan now s = (res, s')" and "ok s"
  shows "moves s s'"
proof -
  obtain err s1 where sv: "rj_SavePlan J c plan s = (err, s1)" by (cases "rj_SavePlan J c plan s")
  have m1: "moves s s1" using save_law [OF assms(3) _ sv] ctx by (simp add: moves_def replay_context_def)
  have "moves s1 s'" if "open_loop maxCoordinatorConflicts H J c plan now s1 = (res, s')"
    using open_loop_moves [OF ctx that moves_ok [OF m1]] .
  with assms sv m1 moves_trans [OF m1] show ?thesis
    by (auto simp: Coordinator_Open_def moves_refl split: option.splits)
qed

lemma Advance_moves:
  assumes "replay_context H plan" and "Coordinator_Advance H J c plan now s = (res, s')" and "ok s"
  shows "moves s s'"
  using assms(2) advance_loop_moves [OF assms(1) _ assms(3)] moves_refl [OF assms(3)]
  by (auto simp: Coordinator_Advance_def split: option.splits)

lemma finish_load_moves:
  "replay_context H plan \<Longrightarrow> finish_load H J c plan n e s = (res, s') \<Longrightarrow> ok s \<Longrightarrow> moves s s'"
  unfolding finish_load_def by (rule load_state(1))

lemma loop_moves:
  assumes ctx: "replay_context H plan" and ok: "ok s"
    and acc: "\<And>n es st e. ReplayReviewRun H plan es = Inr st \<Longrightarrow> length es \<le> maxRunJournalStreamEvents \<Longrightarrow>
      decide n st = Try (Inr e) \<Longrightarrow> extends H plan es st e \<and> ev_workerIdentity e = []"
    and "retry_loop n H J c plan decide (finish_load H J c plan) s = (res, s')"
  shows "moves s s'"
  by (rule retry_loop_moves [OF ctx _ finish_load_moves [OF ctx] assms(4) ok]) (use acc worker_none extends_continues in metis)

lemma Claim_moves:
  assumes ctx: "replay_context H plan" and ok: "ok s" and worker: "worker_ok worker"
    and res: "Coordinator_ClaimTask H J random c plan key handler worker now s = (res, s')"
  shows "moves s s'"
proof -
  obtain ares s1 where ad: "Coordinator_Advance H J c plan now s = (ares, s1)"
    by (cases "Coordinator_Advance H J c plan now s")
  note m1 = Advance_moves [OF ctx ad ok]
  have fin: "moves s s'" if "claim_finish H plan random n e s = (r, s')" "ok s" for n e s r s'
    using that moves_refl by (auto simp: claim_finish_def split: sum.splits)
  have "moves s1 s'" if "retry_loop maxCoordinatorConflicts H J c plan
      (claim_decide H plan key worker random now) (claim_finish H plan random) s1 = (res, s')"
    by (rule retry_loop_moves [OF ctx _ fin that moves_ok [OF m1]])
      (use decide_extends(1) [OF ctx] worker extends_continues in metis)
  with res ad moves_trans [OF m1] m1 moves_refl [OF ok] show ?thesis
    by (auto simp: Coordinator_ClaimTask_def split: option.splits sum.splits if_splits)
qed

lemma Complete_moves:
  assumes ctx: "replay_context H plan" and ok: "ok s"
    and res: "Coordinator_CompleteTask H J c plan lease completion now s = (res, s')"
  shows "moves s s'"
proof -
  have "moves s s'" if "retry_loop maxCoordinatorConflicts H J c plan
      (complete_decide H plan lease completion now) (finish_load H J c plan) s = (res, s')"
    by (rule loop_moves [OF ctx ok _ that]) (rule decide_extends(3) [OF ctx])
  with res moves_refl [OF ok] show ?thesis
    by (auto simp: Coordinator_CompleteTask_def split: option.splits)
qed

lemma Succeed_moves:
  assumes ctx: "replay_context H plan" and ok: "ok s"
    and res: "Coordinator_SucceedRun H J c plan out now s = (res, s')"
  shows "moves s s'"
proof -
  have "moves s s'" if "retry_loop maxCoordinatorConflicts H J c plan
      (succeed_decide H plan out now) (finish_load H J c plan) s = (res, s')"
    by (rule loop_moves [OF ctx ok _ that]) (rule decide_extends(4) [OF ctx])
  with res moves_refl [OF ok] show ?thesis
    by (auto simp: Coordinator_SucceedRun_def split: option.splits if_splits)
qed

lemma Fail_moves:
  assumes ctx: "replay_context H plan" and ok: "ok s"
    and res: "Coordinator_FailRun H J c plan failure now s = (res, s')"
  shows "moves s s'"
proof -
  obtain ares s1 where ad: "Coordinator_Advance H J c plan now s = (ares, s1)"
    by (cases "Coordinator_Advance H J c plan now s")
  note m1 = Advance_moves [OF ctx ad ok]
  have "moves s1 s'" if "retry_loop maxCoordinatorConflicts H J c plan
      (fail_decide H plan failure now) (finish_load H J c plan) s1 = (res, s')"
    by (rule loop_moves [OF ctx moves_ok [OF m1] _ that]) (rule decide_extends(5) [OF ctx])
  with res ad m1 moves_trans [OF m1] moves_refl [OF ok] show ?thesis
    by (auto simp: Coordinator_FailRun_def split: option.splits sum.splits if_splits)
qed

lemma Cancel_moves:
  assumes ctx: "replay_context H plan" and ok: "ok s"
    and res: "Coordinator_CancelRun H J c plan now s = (res, s')"
  shows "moves s s'"
proof -
  have "moves s s'" if "retry_loop maxCoordinatorConflicts H J c plan
      (cancel_decide H plan now) (finish_load H J c plan) s = (res, s')"
    by (rule loop_moves [OF ctx ok _ that]) (rule decide_extends(6) [OF ctx])
  with res moves_refl [OF ok] show ?thesis
    by (auto simp: Coordinator_CancelRun_def split: option.splits)
qed

text \<open>
  A state that \<open>Advance\<close> returns is the replay of the stream as it was last read, and nothing is
  left to do on it.
\<close>

lemma advance_loop_result:
  assumes ctx: "replay_context H plan"
  shows "advance_loop n H J c plan now s = (Inr st, s') \<Longrightarrow> ok s \<Longrightarrow>
    ReplayReviewRun H plan (stream s') = Inr st \<and> (rs_status st = ReviewRunActive \<longrightarrow> advance_event H plan st now = None)"
proof (induction n arbitrary: s)
  case 0
  then show ?case by simp
next
  case (Suc n)
  obtain lres s1 where ld: "Coordinator_load H J c plan s = (lres, s1)"
    by (cases "Coordinator_load H J c plan s")
  note m1 = load_state(1) [OF ctx ld Suc.prems(2)]
  from Suc.prems(1) ld obtain st1 where st1: "lres = Inr st1" by (cases lres) auto
  note replay = load_state(2,3) [OF ctx ld Suc.prems(2) st1]
  show ?case
  proof (cases "transitionTimeAllowed st1 now \<and> rs_status st1 = ReviewRunActive
      \<and> (\<exists>built. advance_event H plan st1 now = Some built)")
    case False
    with Suc.prems(1) ld st1 replay show ?thesis by (auto split: option.splits if_splits)
  next
    case True
    then obtain built where st: "transitionTimeAllowed st1 now" "rs_status st1 = ReviewRunActive"
      "advance_event H plan st1 now = Some built" by blast
    obtain ares s2 where ap: "append_event J c (rs_headIdentity st1) built s1 = (ares, s2)"
      by (cases "append_event J c (rs_headIdentity st1) built s1")
    have "fits good plan (stream s1) (rs_headIdentity st1) e \<and> event_ints e \<and> worker_ok (ev_workerIdentity e)"
      if "built = Inr e" for e
      using decide_extends(7) [OF ctx replay st(2,1)] that st(3) built_fits [OF ctx replay(1) extends_continues] worker_none
      by (auto simp: extends_def)
    note m2 = append_moves(1) [OF ap moves_ok [OF m1] this]
    from Suc.IH [OF _ moves_ok [OF m2]] Suc.prems(1) ld st1 st ap show ?thesis
      by (auto split: appended.splits)
  qed
qed

lemma Advance_result:
  assumes "replay_context H plan" and "Coordinator_Advance H J c plan now s = (Inr st, s')" and "ok s"
  shows "ReplayReviewRun H plan (stream s') = Inr st"
    and "rs_status st = ReviewRunActive \<Longrightarrow> advance_event H plan st now = None"
  using assms(2) advance_loop_result [OF assms(1) _ assms(3)]
  by (auto simp: Coordinator_Advance_def split: option.splits)

end

text \<open>
  A promise that \<open>RenewTaskLease\<close> keeps as well; then every call keeps it.
\<close>

locale renewing_journal = run_journal +
  assumes renew_good: "replay_context H plan \<Longrightarrow> ReplayReviewRun H plan es = Inr st \<Longrightarrow>
      renew_decide H plan lease now n st = Try (Inr e) \<Longrightarrow> good (es @ [e])"
begin

lemma Renew_moves:
  assumes ctx: "replay_context H plan" and ok: "ok s"
    and res: "Coordinator_RenewTaskLease H J c plan lease now s = (res, s')"
  shows "moves s s'"
proof -
  have fin: "moves s s'" if "renew_finish H J c plan lease n e s = (r, s')" "ok s" for n e s r s'
  proof -
    obtain lres s1 where ld: "Coordinator_load H J c plan s = (lres, s1)"
      by (cases "Coordinator_load H J c plan s")
    with that load_state(1) [OF ctx ld that(2)] moves_refl show ?thesis
      by (auto simp: renew_finish_def split: sum.splits)
  qed
  have "moves s s'" if "retry_loop maxCoordinatorConflicts H J c plan (renew_decide H plan lease now)
      (renew_finish H J c plan lease) s = (res, s')"
    by (rule retry_loop_moves [OF ctx _ fin that ok])
      (use decide_extends(2) [OF ctx] renew_good [OF ctx] worker_none in \<open>auto simp: continues_def; metis\<close>)
  with res moves_refl [OF ok] show ?thesis
    by (auto simp: Coordinator_RenewTaskLease_def split: option.splits)
qed

text \<open>Sequences of calls.\<close>

lemma step_moves:
  assumes ctx: "replay_context H plan"
  shows "coordinator_step H J worker_ok plan s s' \<Longrightarrow> ok s \<Longrightarrow> moves s s'"
proof (induction rule: coordinator_step.induct)
  case open_run
  then show ?case using Open_moves [OF ctx] by blast
next
  case advance
  then show ?case using Advance_moves [OF ctx] by blast
next
  case claim
  then show ?case using Claim_moves [OF ctx] by blast
next
  case renew
  then show ?case using Renew_moves [OF ctx] by blast
next
  case complete
  then show ?case using Complete_moves [OF ctx] by blast
next
  case succeed
  then show ?case using Succeed_moves [OF ctx] by blast
next
  case fail
  then show ?case using Fail_moves [OF ctx] by blast
next
  case cancel
  then show ?case using Cancel_moves [OF ctx] by blast
qed

lemma steps_move:
  assumes ctx: "replay_context H plan"
  shows "(coordinator_step H J worker_ok plan)\<^sup>*\<^sup>* s s' \<Longrightarrow> ok s \<Longrightarrow> moves s s'"
proof (induction rule: rtranclp_induct)
  case (step y z)
  with step_moves [OF ctx step.hyps(2)] moves_ok moves_trans show ?case by blast
qed (rule moves_refl)

end

end
