(* ===== verification/Shared_Journal.thy ===== *)
theory Shared_Journal
  imports Journal_Contract
begin

text \<open>
  The memory journal under concurrent clients satisfies the contract of \<open>run_journal\<close>, and the
  safety of the coordinator follows from the lemmas of the locale.
\<close>


section \<open>The memory journal\<close>

definition plan_stream :: "ReviewRunPlan \<Rightarrow> MemoryRunJournal \<Rightarrow> RunEvent list" where
  "plan_stream plan j = mj_stream j (sc_identity (rp_scope plan))"

lemma mj_stream_update:
  "mj_stream (j\<lparr>mj_streams := AList.update k es (mj_streams j)\<rparr>) k' = (if k' = k then es else mj_stream j k')"
  by (simp add: mj_stream_def map_get_update)

lemma mj_stream_plans [simp]: "mj_stream (j\<lparr>mj_plans := ps\<rparr>) k = mj_stream j k"
  by (simp add: mj_stream_def)

text \<open>The two outcomes of an append: the stream as it was, or one event longer.\<close>

lemma Append_cases [consumes 1, case_names same grown]:
  assumes "MemoryRunJournal_Append H c h e j = (err, j')"
  obtains "j' = j"
      "err = None \<longrightarrow> mj_stream j (sc_identity (ev_scope e)) \<noteq> []
        \<and> ev_identity (last (mj_stream j (sc_identity (ev_scope e)))) = ev_identity e"
  | "err = None" "RunEvent_Validate H e = None"
      "head_of (mj_stream j (sc_identity (ev_scope e))) = h"
      "ev_previousIdentity e = h"
      "ev_sequence e = Suc (length (mj_stream j (sc_identity (ev_scope e))))"
      "length (mj_stream j (sc_identity (ev_scope e))) < maxRunJournalStreamEvents"
      "j' = j\<lparr>mj_streams := AList.update (sc_identity (ev_scope e))
         (mj_stream j (sc_identity (ev_scope e)) @ [e]) (mj_streams j)\<rparr>"
proof -
  let ?es = "mj_stream j (sc_identity (ev_scope e))"
  have "j' = j \<and> (err = None \<longrightarrow> ?es \<noteq> [] \<and> ev_identity (last ?es) = ev_identity e)
    \<or> err = None \<and> RunEvent_Validate H e = None \<and> head_of ?es = h \<and> ev_previousIdentity e = h
      \<and> ev_sequence e = Suc (length ?es) \<and> length ?es < maxRunJournalStreamEvents
      \<and> j' = j\<lparr>mj_streams := AList.update (sc_identity (ev_scope e)) (?es @ [e]) (mj_streams j)\<rparr>"
    using assms
    by (auto simp: MemoryRunJournal_Append_def head_of_def Let_def split: option.splits if_splits)
  then show ?thesis
  proof (elim disjE conjE)
    assume "j' = j" "err = None \<longrightarrow> ?es \<noteq> [] \<and> ev_identity (last ?es) = ev_identity e"
    then show ?thesis by (rule that(1))
  next
    assume "err = None" "RunEvent_Validate H e = None" "head_of ?es = h" "ev_previousIdentity e = h"
      "ev_sequence e = Suc (length ?es)" "length ?es < maxRunJournalStreamEvents"
      "j' = j\<lparr>mj_streams := AList.update (sc_identity (ev_scope e)) (?es @ [e]) (mj_streams j)\<rparr>"
    then show ?thesis by (rule that(2))
  qed
qed

text \<open>The plans a listing selects, and the key it sorts them by.\<close>

definition selected :: "string \<Rightarrow> string \<Rightarrow> string \<Rightarrow> ReviewRunPlan \<Rightarrow> bool" where
  "selected tenant repository after plan \<longleftrightarrow>
     sc_tenantID (rp_scope plan) = tenant \<and> sc_repositoryID (rp_scope plan) = repository
     \<and> sc_reviewRunID (rp_scope plan) > after"

abbreviation run_of :: "ReviewRunPlan \<Rightarrow> string" where
  "run_of plan \<equiv> sc_reviewRunID (rp_scope plan)"

lemma ListPlans_page:
  assumes "MemoryRunJournal_ListPlans c tenant repository after limit j = (res, j')"
  shows "j' = j" and "res = Inr page \<Longrightarrow>
    page = take (nat limit) (sort_key run_of (filter (selected tenant repository after) (map snd (mj_plans j))))"
  using assms
  by (auto simp: MemoryRunJournal_ListPlans_def selected_def [abs_def] Let_def split: option.splits if_splits)

lemma SavePlan_stream: "MemoryRunJournal_SavePlan H c p j = (err, j') \<Longrightarrow> mj_stream j' k = mj_stream j k"
  by (auto simp: MemoryRunJournal_SavePlan_def Let_def split: option.splits if_splits)

lemma Read_page:
  assumes "MemoryRunJournal_Read H c scope after limit j = (res, j')"
  shows "j' = j" and "res = Inr page \<Longrightarrow> page = take (nat limit) (drop after (mj_stream j (sc_identity scope)))"
proof -
  show "j' = j" using assms
    by (auto simp: MemoryRunJournal_Read_def Let_def split: option.splits if_splits)
  show "page = take (nat limit) (drop after (mj_stream j (sc_identity scope)))" if "res = Inr page"
    using assms that
    by (auto simp: MemoryRunJournal_Read_def Let_def take_drop min_def add.commute
        split: option.splits if_splits)
qed


section \<open>Legal schedules\<close>

text \<open>
  The others may do anything to the journal that keeps the promise about the stream of the plan and
  only extends it, given that it has not shrunk since they last looked.
\<close>

fun legal_for :: 
    "(RunEvent list \<Rightarrow> bool) \<Rightarrow> ReviewRunPlan \<Rightarrow> RunEvent list \<Rightarrow> MemoryRunJournal schedule \<Rightarrow> bool" where
  "legal_for good plan es [] = True"
| "legal_for good plan es (f # fs) =
     (\<forall>j. good (plan_stream plan j) \<longrightarrow> prefix es (plan_stream plan j) \<longrightarrow>
        good (plan_stream plan (f j)) \<and> prefix (plan_stream plan j) (plan_stream plan (f j))
        \<and> legal_for good plan (plan_stream plan (f j)) fs)"

lemma legal_mono: "legal_for good plan es fs \<Longrightarrow> prefix es es' \<Longrightarrow> legal_for good plan es' fs"
  by (cases fs) (auto intro: prefix_order.trans)

definition shared_for :: "(RunEvent list \<Rightarrow> bool) \<Rightarrow> ReviewRunPlan \<Rightarrow> MemoryRunJournal \<times> MemoryRunJournal schedule \<Rightarrow> bool" where
  "shared_for good plan w \<longleftrightarrow>
     good (plan_stream plan (fst w)) \<and> legal_for good plan (plan_stream plan (fst w)) (snd w)"

abbreviation legal :: "sha \<Rightarrow> ReviewRunPlan \<Rightarrow> RunEvent list \<Rightarrow> MemoryRunJournal schedule \<Rightarrow> bool" where
  "legal H plan \<equiv> legal_for (replayable H plan) plan"

abbreviation shared_ok :: "sha \<Rightarrow> ReviewRunPlan \<Rightarrow> MemoryRunJournal \<times> MemoryRunJournal schedule \<Rightarrow> bool" where
  "shared_ok H plan \<equiv> shared_for (replayable H plan) plan"

lemma others_ok:
  assumes "shared_for good plan w"
  shows "shared_for good plan (others w)" and "prefix (plan_stream plan (fst w)) (plan_stream plan (fst (others w)))"
proof -
  obtain j fs where w: "w = (j, fs)" by (cases w)
  from assms show "shared_for good plan (others w)"
    by (cases fs) (auto simp: w shared_for_def others_def)
  from assms show "prefix (plan_stream plan (fst w)) (plan_stream plan (fst (others w)))"
    by (cases fs) (auto simp: w shared_for_def others_def)
qed

lemma after_others_eq:
  "after_others f w = (x, w') \<longleftrightarrow> (\<exists>j'. f (fst (others w)) = (x, j') \<and> w' = (j', snd (others w)))"
  by (auto simp: after_others_def split: prod.splits)

text \<open>A pending append of another coordinator is a legal step from the stream it was built on.\<close>

lemma append_legal:
  assumes "fits good plan es h e"
  shows "legal_for good plan es [\<lambda>j. snd (MemoryRunJournal_Append H c h e j)]"
proof -
  have "good (plan_stream plan j') \<and> prefix (plan_stream plan j) (plan_stream plan j')"
    if j: "good (plan_stream plan j)" "prefix es (plan_stream plan j)"
      and j': "MemoryRunJournal_Append H c h e j = (err, j')" for j j' err
    using j'
  proof (cases rule: Append_cases)
    case same
    with j show ?thesis by simp
  next
    case grown
    with j assms show ?thesis by (auto simp: fits_def plan_stream_def mj_stream_update)
  qed
  then show ?thesis by (simp add: prod_eq_iff)
qed

lemma shared_run_journal:
  assumes "stream_promise H plan good"
  shows "run_journal H plan good (sharedJournal (memoryJournal H)) (\<lambda>w. plan_stream plan (fst w))
    (shared_for good plan) (\<lambda>_. True)"
proof (rule run_journal.intro [OF assms], unfold_locales)
  fix w assume "shared_for good plan w"
  then show "good (plan_stream plan (fst w))" by (simp add: shared_for_def)
next
  fix w c after limit res w'
  assume ok: "shared_for good plan w"
    and rd: "rj_Read (sharedJournal (memoryJournal H)) c (rp_scope plan) after limit w = (res, w')"
  from rd obtain j' where j': "MemoryRunJournal_Read H c (rp_scope plan) after limit (fst (others w)) = (res, j')"
    and w': "w' = (j', snd (others w))"
    by (auto simp: sharedJournal_def memoryJournal_def after_others_eq)
  from Read_page(1) [OF j'] w' have eq: "w' = others w" by simp
  from Read_page(2) [OF j'] others_ok [OF ok] show "shared_for good plan w'
      \<and> prefix (plan_stream plan (fst w)) (plan_stream plan (fst w'))
      \<and> (\<forall>page. res = Inr page \<longrightarrow> page = take (nat limit) (drop after (plan_stream plan (fst w'))))"
    by (simp add: eq plan_stream_def)
next
  fix w h e c err w'
  assume ok: "shared_for good plan w" and fit: "fits good plan (plan_stream plan (fst w)) h e"
    and ap: "rj_Append (sharedJournal (memoryJournal H)) c h e w = (err, w')"
  from ap obtain j' where j': "MemoryRunJournal_Append H c h e (fst (others w)) = (err, j')"
    and w': "w' = (j', snd (others w))"
    by (auto simp: sharedJournal_def memoryJournal_def after_others_eq)
  note ok1 = others_ok [OF ok]
  have scope: "ev_scope e = rp_scope plan" using fit by (simp add: fits_def)
  from j' show "shared_for good plan w' \<and> prefix (plan_stream plan (fst w)) (plan_stream plan (fst w'))
      \<and> (err = None \<longrightarrow> plan_stream plan (fst w') \<noteq> []
          \<and> ev_identity (last (plan_stream plan (fst w'))) = ev_identity e)"
  proof (cases rule: Append_cases)
    case same
    with ok1 w' scope show ?thesis by (simp add: plan_stream_def)
  next
    case grown
    let ?es = "plan_stream plan (fst (others w))"
    have es': "plan_stream plan j' = ?es @ [e]"
      using grown(7) scope by (simp add: plan_stream_def mj_stream_update)
    have "good (?es @ [e])"
      using fit ok1 grown(3,5) scope unfolding fits_def by (auto simp: shared_for_def plan_stream_def)
    moreover have "legal_for good plan (?es @ [e]) (snd (others w))"
      using ok1(1) by (auto simp: shared_for_def intro: legal_mono)
    ultimately show ?thesis using ok1(2) es' w' by (auto simp: shared_for_def)
  qed
next
  fix w c p err w'
  assume ok: "shared_for good plan w"
    and sv: "rj_SavePlan (sharedJournal (memoryJournal H)) c p w = (err, w')"
  from sv obtain j' where j': "MemoryRunJournal_SavePlan H c p (fst (others w)) = (err, j')"
    and w': "w' = (j', snd (others w))"
    by (auto simp: sharedJournal_def memoryJournal_def after_others_eq)
  have "plan_stream plan j' = plan_stream plan (fst (others w))"
    using SavePlan_stream [OF j'] by (simp add: plan_stream_def)
  with others_ok [OF ok] w' show "shared_for good plan w' \<and> prefix (plan_stream plan (fst w)) (plan_stream plan (fst w'))"
    by (simp add: shared_for_def)
qed simp_all

interpretation shared: run_journal H plan "replayable H plan" "sharedJournal (memoryJournal H)"
  "\<lambda>w. plan_stream plan (fst w)" "shared_ok H plan" "\<lambda>_. True" for H plan
  by (rule shared_run_journal [OF replaying.stream_promise_axioms])

interpretation renewed: renewing_journal H plan "replays_or_stalled H plan" "sharedJournal (memoryJournal H)"
  "\<lambda>w. plan_stream plan (fst w)" "shared_for (replays_or_stalled H plan) plan" "\<lambda>_. True" for H plan
proof (rule renewing_journal.intro [OF shared_run_journal [OF promised.stream_promise_axioms]], unfold_locales)
  fix es st lease now n e
  assume "replay_context H plan" "ReplayReviewRun H plan es = Inr st"
    "renew_decide H plan lease now n st = Try (Inr e)"
  from renew_outcome [OF this] show "replays_or_stalled H plan (es @ [e])"
    by (auto simp: replays_or_stalled_def replayable_def)
qed


section \<open>Safety of the coordinator\<close>

text \<open>
  C1. Whatever sequence of coordinator calls is made on a shared journal, with
  whatever arguments and outcomes, and whatever legal steps other clients take between any two
  journal accesses of a call, the stream of the plan is only ever extended: what was recorded stays,
  in place. It replays, with one exception: its last event may be a renewal that leaves the recorded
  expiry of a lease as it is, because the new expiry is later by less than a millisecond. Even then
  everything before that event replays. The steps of the others are legal when they keep the same
  promise; a pending append of another coordinator is one (\<open>append_legal\<close>).
\<close>

theorem coordinator_safety:
  assumes "sum256 H" and "plan_wf H plan"
    and "(coordinator_step H (sharedJournal (memoryJournal H)) (\<lambda>_. True) plan)\<^sup>*\<^sup>* (j, fs) (j', fs')"
    and "replays_or_stalled H plan (mj_stream j (sc_identity (rp_scope plan)))"
    and "legal_for (replays_or_stalled H plan) plan (mj_stream j (sc_identity (rp_scope plan))) fs"
  shows "prefix (mj_stream j (sc_identity (rp_scope plan))) (mj_stream j' (sc_identity (rp_scope plan)))
    \<and> (replayable H plan (mj_stream j' (sc_identity (rp_scope plan)))
       \<or> stalled H plan (mj_stream j' (sc_identity (rp_scope plan))))"
proof -
  have ctx: "replay_context H plan" using assms by (simp add: replay_context_def)
  have "shared_for (replays_or_stalled H plan) plan (j, fs)"
    using assms(4,5) by (simp add: shared_for_def plan_stream_def)
  from renewed.steps_move [OF ctx assms(3) this]
  have "prefix (plan_stream plan j) (plan_stream plan j') \<and> replays_or_stalled H plan (plan_stream plan j')"
    by (simp add: renewed.moves_def shared_for_def)
  then show ?thesis by (simp add: plan_stream_def replays_or_stalled_def)
qed

end
