(* ===== verification/Coordinator_Properties.thy ===== *)
theory Coordinator_Properties
  imports Shared_Journal
begin

text \<open>
  Properties of single operations of the coordinator: what \<open>Advance\<close> leaves to do, what a repeated
  or an outdated completion is answered with, and that renewals keep room for the rest of the run.
\<close>

lemma advance_event_None:
  assumes "advance_event H plan st now = None"
  shows "ReadyTasks st now = [] \<and> SkippableTasks st = []
    \<and> (\<forall>t\<in>set (rp_tasks plan). \<not> (rt_status (runtime_at st (td_key t)) = TaskRuntimeLeased
         \<and> rt_attempts (runtime_at st (td_key t)) = td_maxAttempts t
         \<and> rt_leaseExpiresAtMillis (runtime_at st (td_key t)) \<le> UnixMilli now))"
  using assms
  by (auto simp: advance_event_def exhausted_task_def find_None_iff Let_def
      split: option.splits list.splits)

text \<open>
  C18. When \<open>Advance\<close> returns a state, under any legal interference, it is the
  replay of the stream as last read; and if the run is still active, no task is ready or
  skippable and no exhausted lease has expired at that time.
\<close>

theorem advance_leaves_nothing:
  assumes "sum256 H" and "plan_wf H plan"
    and "replayable H plan (mj_stream j (sc_identity (rp_scope plan)))"
    and "legal H plan (mj_stream j (sc_identity (rp_scope plan))) fs"
    and "Coordinator_Advance H (sharedJournal (memoryJournal H)) c plan now (j, fs) = (Inr st, (j', fs'))"
  shows "ReplayReviewRun H plan (mj_stream j' (sc_identity (rp_scope plan))) = Inr st
    \<and> (rs_status st = ReviewRunActive \<longrightarrow> ReadyTasks st now = [] \<and> SkippableTasks st = []
        \<and> (\<forall>t\<in>set (rp_tasks plan). \<not> (rt_status (runtime_at st (td_key t)) = TaskRuntimeLeased
             \<and> rt_attempts (runtime_at st (td_key t)) = td_maxAttempts t
             \<and> rt_leaseExpiresAtMillis (runtime_at st (td_key t)) \<le> UnixMilli now)))"
proof -
  have ctx: "replay_context H plan" using assms by (simp add: replay_context_def)
  have ok: "shared_ok H plan (j, fs)" using assms(3,4) by (simp add: shared_for_def plan_stream_def)
  from shared.Advance_result [OF ctx assms(5) ok] advance_event_None show ?thesis
    by (auto simp: plan_stream_def)
qed

lemma renew_reserved_eq: "renew_reserved plan = reserved_events plan"
proof -
  have "foldl (\<lambda>n t. n + 3 * td_maxAttempts t) m ts = m + sum_list (map (\<lambda>t. 3 * td_maxAttempts t) ts)" for m ts
    by (induction ts arbitrary: m) auto
  then show ?thesis unfolding renew_reserved_def reserved_events_def by blast
qed

text \<open>
  C21. A renewal is appended only while the stream has room for everything
  that can still follow it: whatever events other than renewals come after it, the stream stays
  within the limit of the journal.
\<close>

theorem renewal_keeps_capacity:
  assumes "sum256 H" and "plan_wf H plan" and "ReplayReviewRun H plan es = Inr st"
    and "renew_decide H plan lease now n st = Try (Inr e)"
    and "ReplayReviewRun H plan (es @ e # rest) = Inr st'"
    and "\<forall>x\<in>set rest. ev_kind x \<noteq> RunEventTaskLeaseRenewed"
  shows "length (es @ e # rest) \<le> maxRunJournalStreamEvents"
proof -
  have ctx: "replay_context H plan" using assms by (simp add: replay_context_def)
  have es: "replayed H plan es st" using assms(3) by (simp add: replay_iff [OF ctx])
  have "replayed H plan ((es @ [e]) @ rest) st'" using assms(5) by (simp add: replay_iff [OF ctx])
  from fold_err_prefix [OF this] obtain s1 where s1: "replayed H plan (es @ [e]) s1"
    "fold_err (run_step H plan) s1 rest = Inr st'" by blast
  have "length rest \<le> run_rank s1"
    using replayed_bound [OF ctx replayed_inv [OF ctx s1(1)] s1(2)] assms(6)
    by (simp add: renewal_def)
  also have "\<dots> \<le> renew_reserved plan"
    using replayed_rank(2) [OF ctx s1(1)] by (simp add: renew_reserved_eq)
  finally show ?thesis
    using renew_decide_Try(3) [OF assms(4)] replayed_revision [OF es] by auto
qed

text \<open>
  C19. Once a task has been leased again, the older lease can neither
  renew nor complete it: both calls return an error and write nothing, whatever token or worker
  the lease carries.
\<close>

theorem outdated_lease_powerless:
  assumes "sum256 H" and "plan_wf H plan" and "ReplayReviewRun H plan es = Inr st"
    and "tl_attempt lease < length (lease_events (tl_taskKey lease) es)"
  shows "(\<exists>err. complete_decide H plan lease completion now n st = Return (Inl err))
    \<and> (\<exists>err. renew_decide H plan lease now n st = Return (Inl err))"
proof -
  have ctx: "replay_context H plan" using assms by (simp add: replay_context_def)
  have es: "replayed H plan es st" using assms(3) by (simp add: replay_iff [OF ctx])
  have "rt_attempts r \<noteq> tl_attempt lease" if "map_of (rs_tasks st) (tl_taskKey lease) = Some r" for r
    using replayed_lease_inv [OF ctx es that] assms(4) by (auto simp: lease_inv_def)
  then show ?thesis
    by (auto simp: complete_decide_def renew_decide_def ReviewRunState_Task_def runtimeMatchesLease_def
        completedTaskMatches_def Let_def split: option.splits)
qed

text \<open>What a completion leaves of its task once it is recorded.\<close>

lemma completion_recorded:
  assumes ctx: "replay_context H plan" and es: "ReplayReviewRun H plan es = Inr st"
    and valid: "TaskCompletion_Validate H completion = None"
    and tried: "complete_decide H plan lease completion now n st = Try (Inr e)"
    and step: "run_step H plan st e = Inr st1"
  shows "\<exists>r. map_of (rs_tasks st1) (tl_taskKey lease) = Some r \<and> completedTaskMatches r lease completion
    \<and> (tc_status completion \<noteq> TaskCompletionFailed \<longrightarrow> rt_status r = TaskRuntimeSucceeded)
    \<and> (tc_status completion = TaskCompletionFailed \<longrightarrow> rt_status r = TaskRuntimeFailed)"
proof -
  note inv = replay_inv [OF ctx es]
  from tried obtain r where r: "map_of (rs_tasks st) (tl_taskKey lease) = Some r"
      "runtimeMatchesLease r lease"
    by (auto simp: complete_decide_def ReviewRunState_Task_def Let_def split: if_splits option.splits)
  define k where "k = (if tc_status completion = TaskCompletionFailed then RunEventTaskFailed
    else RunEventTaskSucceeded)"
  have fields: "ev_kind e = k" "ev_taskKey e = tl_taskKey lease"
    "tc_status completion = TaskCompletionFailed \<Longrightarrow> ev_failure e = tc_failure completion"
    "tc_status completion \<noteq> TaskCompletionFailed \<Longrightarrow> ev_outputIdentity e = tc_outputIdentity completion"
    using tried r runtime_in_plan [OF inv r(1)] state_inv_runtime(2) [OF inv r(1)] ctx task_identity_nonempty
    by (auto simp: complete_decide_def ReviewRunState_Task_def k_def Let_def event_fields_def replay_context_def
        split: if_splits dest!: next_event_fields)
  from step show ?thesis
  proof (cases rule: run_step_cases)
    case (task r0 r')
    have r0: "r0 = r" using task(3) r(1) fields(2) by simp
    have st': "map_of (rs_tasks st1) (tl_taskKey lease) = Some (stamp e r')"
      using task(6) fields(2) by (simp add: update_conv')
    have shape: "tc_status completion = TaskCompletionSucceeded \<or> tc_status completion = TaskCompletionFailed"
      using valid by (auto simp: TaskCompletion_Validate_def Let_def split: if_splits)
    have "rt_definition r' = rt_definition r \<and> rt_attempts r' = rt_attempts r
      \<and> rt_leaseTokenIdentity r' = rt_leaseTokenIdentity r \<and>
      (if tc_status completion = TaskCompletionFailed
       then rt_status r' = TaskRuntimeFailed \<and> rt_failure r' = tc_failure completion
       else rt_status r' = TaskRuntimeSucceeded \<and> rt_outputIdentity r' = tc_outputIdentity completion)"
      using task(5) [unfolded r0] fields
      by (cases rule: applyTaskEvent_cases) (auto simp: k_def split: if_splits)
    then show ?thesis
      using st' r(2) shape by (auto simp: completedTaskMatches_def runtimeMatchesLease_def split: if_splits)
  next
    case run
    with fields(1) show ?thesis by (simp add: task_event_def k_def split: if_splits)
  qed
qed

text \<open>
  C20. A worker that repeats a completion which is already recorded, at any time and with
  whatever events recorded after it, is answered with the current state and nothing is appended, as
  long as the run is active; once the run has ended it is answered with \<open>ErrRunAlreadyTerminal\<close>. For
  a recorded failure this is so until the next event of the task, that is, until a retry begins;
  after a recorded success there is no such event.
\<close>

theorem completion_retry:
  assumes "sum256 H" and "plan_wf H plan" and "ReplayReviewRun H plan es = Inr st"
    and "TaskCompletion_Validate H completion = None"
    and "complete_decide H plan lease completion now n st = Try (Inr e)"
    and "ReplayReviewRun H plan (es @ e # ys) = Inr st'"
    and "tc_status completion = TaskCompletionFailed \<longrightarrow>
      (\<forall>y\<in>set ys. \<not> (task_event (ev_kind y) \<and> ev_taskKey y = tl_taskKey lease))"
  shows "complete_decide H plan lease completion now' n' st' =
    (if rs_status st' = ReviewRunActive then Return (Inr st') else Return (Inl ErrRunAlreadyTerminal))"
proof -
  have ctx: "replay_context H plan" using assms by (simp add: replay_context_def)
  have "replayed H plan (es @ e # ys) st'" "replayed H plan es st"
    using assms(3,6) by (simp_all add: replay_iff [OF ctx])
  then obtain st1 where step: "run_step H plan st e = Inr st1" and ys: "fold_err (run_step H plan) st1 ys = Inr st'"
    by (auto simp: fold_err_append and_then_Inr_iff)
  from completion_recorded [OF ctx assms(3-5) step] obtain r where
      r: "map_of (rs_tasks st1) (tl_taskKey lease) = Some r" "completedTaskMatches r lease completion"
      "tc_status completion \<noteq> TaskCompletionFailed \<Longrightarrow> rt_status r = TaskRuntimeSucceeded"
      "tc_status completion = TaskCompletionFailed \<Longrightarrow> rt_status r = TaskRuntimeFailed" by blast
  have "replayed H plan (es @ [e]) st1" using step assms(3) by (auto simp: replay_iff [OF ctx] fold_err_snoc)
  note inv = replayed_inv [OF ctx this]
  have "\<forall>y\<in>set ys. \<not> (task_event (ev_kind y) \<and> ev_taskKey y = tl_taskKey lease)"
  proof (cases "tc_status completion = TaskCompletionFailed")
    case False
    with r(3) have "phase_of r = Succeeded" by (simp add: phase_of_iff)
    with ys inv r(1) show ?thesis by (auto dest: final_task_no_events [OF ctx])
  qed (use assms(7) in simp)
  from runtime_kept [OF ys this] r show ?thesis
    by (cases "tc_status completion = TaskCompletionFailed")
      (auto simp: complete_decide_def ReviewRunState_Task_def)
qed

text \<open>
  C22. A renewal is decided on times in nanoseconds but recorded in
  milliseconds. When the new expiry is later than the recorded one only by a fraction of a
  millisecond, the decision is to append, and the appended event makes every later replay of the
  run fail.
\<close>

theorem submillisecond_renewal_breaks_replay:
  assumes "sum256 H" and "plan_wf H plan" and "ReplayReviewRun H plan es = Inr st"
    and "renew_decide H plan lease now n st = Try (Inr e)"
    and "rt_leaseExpiresAtMillis (runtime_at st (tl_taskKey lease)) = UnixMilli now
      + int (td_leaseDurationMillis (rt_definition (runtime_at st (tl_taskKey lease))))"
  shows "ReplayReviewRun H plan (es @ e # rest) = Inl ErrRunTransitionLeaseMismatch"
proof -
  have ctx: "replay_context H plan" using assms by (simp add: replay_context_def)
  have es: "replayed H plan es st" using assms(3) by (simp add: replay_iff [OF ctx])
  note inv = replayed_inv [OF ctx es]
  note d = renew_decide_Try [OF assms(4)]
  from d(3) obtain r where r: "map_of (rs_tasks st) (tl_taskKey lease) = Some r"
    and built: "next_event H plan st RunEventTaskLeaseRenewed (rt_definition r) (rt_attempts r)
          (rt_leaseTokenIdentity r) (rt_workerIdentity r)
          (add_millis now (td_leaseDurationMillis (rt_definition r))) [] NoRunFailure zero_time now = Inr e"
    by auto
  note f = next_event_fields [OF built]
  note def_r = runtime_in_plan [OF inv r] state_inv_runtime(2) [OF inv r]
  note time = allowed_time [OF d(1)]
  have "ev_leaseExpiresAtMillis e = UnixMilli now + int (td_leaseDurationMillis (rt_definition r))"
    using f time timeToRunMillis_pos [of "add_millis now (td_leaseDurationMillis (rt_definition r))"]
    by (simp add: event_fields_def)
  with assms(5) r f have "applyTaskEvent st e r = Inl ErrRunTransitionLeaseMismatch"
    by (simp add: applyTaskEvent_def event_fields_def runtime_at_Some Let_def)
  moreover have "td_identity (rt_definition r) \<noteq> []" "tl_taskKey lease \<noteq> []"
    using task_identity_nonempty [OF assms(1,2) def_r(1)] def_r(3)
      task_ok_key [OF plan_wf_task_ok [OF assms(2) def_r(1)]] by auto
  ultimately have "apply_event st e = Inl ErrRunTransitionLeaseMismatch"
    using f d(2) r def_r(3) by (simp add: apply_event_def event_fields_def)
  moreover have "RunEvent_Validate H e = None"
    using NewRunEvent_valid assms(1) built by (auto simp: next_event_def)
  ultimately have "run_step H plan st e = Inl ErrRunTransitionLeaseMismatch"
    using f d(2) time by (simp add: run_step_def replay_step_def event_fields_def)
  with es have "fold_err (run_step H plan) (initial_state plan) (es @ e # rest) = Inl ErrRunTransitionLeaseMismatch"
    by (simp add: fold_err_append)
  then show ?thesis
    using ReviewRunPlan_Validate_wf [OF assms(2)] by (simp add: ReplayReviewRun_def replay_initial)
qed

end
