(* ===== verification/Examples.thy ===== *)
theory Examples
  imports Coordinator_Properties
begin

text \<open>
  Concrete inputs at which the hypotheses of the theorems hold. Most of them use the constant
  function \<open>flat_hash\<close> for the hash: every identity is \<open>flat_digest\<close>, which keeps evaluation cheap and
  is a legal instance of the parameter, since the theorems do not assume that two identities differ.
  A journal takes an event with the identity of its head for recorded already, so where a witness
  needs an event to be appended the hash is \<open>late_hash\<close>, which gives the events dated 4000 another
  identity than the rest.
\<close>

definition flat_hash :: sha where
  "flat_hash s = replicate 32 (CHR ''a'')"

definition flat_digest :: string where
  "flat_digest = hex_EncodeToString (replicate 32 (CHR ''a''))"

lemma hash_flat [simp]: "hashControlPlaneValue flat_hash v = flat_digest"
  by (simp add: hashControlPlaneValue_def flat_hash_def flat_digest_def)

lemma sum256_flat [simp]: "sum256 flat_hash"
  by (simp add: sum256_def flat_hash_def)

lemma flat_digest_valid [simp]: "validControlPlaneDigest flat_digest"
  using hash_valid [OF sum256_flat] by simp

lemma flat_digest_nonempty [simp]: "flat_digest \<noteq> []"
  using flat_digest_valid validControlPlaneDigest_nonempty by metis

definition example_scope :: ReviewScope where
  "example_scope = \<lparr>sc_identity = flat_digest, sc_tenantID = ''tenant'', sc_repositoryID = ''repo'',
     sc_reviewRunID = ''run-1''\<rparr>"

text \<open>A hash under which scopes, tasks and plans have the identity \<open>flat_digest\<close>.\<close>

definition plain_ids :: "sha \<Rightarrow> bool" where
  "plain_ids H \<longleftrightarrow> sum256 H \<and> (\<forall>scope. deriveReviewScopeIdentity H scope = flat_digest)
     \<and> (\<forall>task. deriveTaskDefinitionIdentity H task = flat_digest)
     \<and> (\<forall>plan. deriveReviewRunPlanIdentity H plan = flat_digest)"

lemma plain_flat [simp]: "plain_ids flat_hash"
  by (simp add: plain_ids_def deriveReviewScopeIdentity_def deriveTaskDefinitionIdentity_def
      deriveReviewRunPlanIdentity_def)

lemma plain_scope_valid: "plain_ids H \<Longrightarrow> ReviewScope_Validate H example_scope = None"
proof -
  have "list_all validAuditScopeIdentifier [''tenant'', ''repo'', ''run-1'']" by code_simp
  then show "plain_ids H \<Longrightarrow> ReviewScope_Validate H example_scope = None"
    by (simp add: ReviewScope_Validate_def example_scope_def plain_ids_def)
qed

lemma example_scope_valid [simp]: "ReviewScope_Validate flat_hash example_scope = None"
  by (simp add: plain_scope_valid)

definition example_task :: "string \<Rightarrow> TaskKind \<Rightarrow> string list \<Rightarrow> nat \<Rightarrow> bool \<Rightarrow> TaskDefinition" where
  "example_task key kind deps attempts required =
     \<lparr>td_identity = flat_digest, td_key = key, td_kind = kind, td_inputIdentity = flat_digest,
      td_handlerIdentity = flat_digest, td_dependencies = deps, td_maxAttempts = attempts,
      td_retryDelayMillis = 1000, td_leaseDurationMillis = 30000, td_required = required\<rparr>"

lemma example_task_sel [simp]:
  "td_key (example_task key kind deps attempts required) = key"
  "td_kind (example_task key kind deps attempts required) = kind"
  "td_dependencies (example_task key kind deps attempts required) = deps"
  "td_maxAttempts (example_task key kind deps attempts required) = attempts"
  "td_required (example_task key kind deps attempts required) = required"
  "td_identity (example_task key kind deps attempts required) = flat_digest"
  "td_handlerIdentity (example_task key kind deps attempts required) = flat_digest"
  "td_inputIdentity (example_task key kind deps attempts required) = flat_digest"
  "td_retryDelayMillis (example_task key kind deps attempts required) = 1000"
  "td_leaseDurationMillis (example_task key kind deps attempts required) = 30000"
  by (simp_all add: example_task_def)

lemma plain_task_ok:
  "plain_ids H \<Longrightarrow> validReviewTaskKey key \<Longrightarrow> TaskKind_Validate kind = None \<Longrightarrow> 1 \<le> attempts \<Longrightarrow> attempts \<le> 5 \<Longrightarrow>
     dependencies_ok key deps \<Longrightarrow> task_ok H (example_task key kind deps attempts required)"
  by (simp add: task_ok_def plain_ids_def)

lemmas example_task_ok = plain_task_ok [OF plain_flat]

definition example_tasks :: "TaskDefinition list" where
  "example_tasks = [example_task ''acquire'' TaskAcquireSource [] 2 True,
                    example_task ''build'' TaskBuildChange [''acquire''] 1 True]"

definition example_plan :: ReviewRunPlan where
  "example_plan = \<lparr>rp_identity = flat_digest, rp_scope = example_scope,
     rp_requestIdentity = flat_digest, rp_policyIdentity = flat_digest, rp_mode = ReviewRunLocal,
     rp_tasks = example_tasks\<rparr>"

lemma example_keys_valid: "validReviewTaskKey ''acquire'' \<and> validReviewTaskKey ''build''"
  by code_simp

lemma example_tasks_ok: "plain_ids H \<Longrightarrow> t \<in> set example_tasks \<Longrightarrow> task_ok H t"
  using example_keys_valid
  by (auto simp: example_tasks_def dependencies_ok_def TaskKind_Validate_None intro!: plain_task_ok)

lemma example_deps [simp]:
  "deps_of example_tasks ''acquire'' = []" "deps_of example_tasks ''build'' = [''acquire'']"
  "by_key example_tasks ''acquire'' = Some (example_task ''acquire'' TaskAcquireSource [] 2 True)"
  by (simp_all add: example_tasks_def deps_of_def by_key_def)

lemma example_graph:
  assumes plain: "plain_ids H"
  shows "validateReviewRunGraph H ReviewRunLocal example_tasks = None"
proof -
  have visit: "visit_all example_tasks (map td_key example_tasks) {} {} = Inr {''acquire'', ''build''}"
  proof -
    have "map td_key example_tasks = [''acquire'', ''build'']" by (simp add: example_tasks_def)
    then show ?thesis by (simp add: visit.simps insert_commute)
  qed
  have anc: "fst (taskHasAncestorKind example_tasks TaskAcquireSource [''acquire''] {})"
    by (simp add: parent_of_def)
  have "check_task_safety example_tasks t = None" if "t \<in> set example_tasks" for t
    using that anc by (auto simp: example_tasks_def check_task_safety_def)
  then have safe: "first_err (check_task_safety example_tasks) example_tasks = None"
    by (simp add: first_err_None_iff)
  have "TaskDefinition_Validate H (example_task ''build'' TaskBuildChange [''acquire''] 1 True) = None"
    by (simp add: TaskDefinition_Validate_None example_tasks_ok [OF plain] example_tasks_def)
  then have "resultTaskFromDefinitions H example_tasks =
      Inr (example_task ''build'' TaskBuildChange [''acquire''] 1 True)"
    by (simp add: resultTaskFromDefinitions_def example_tasks_def)
  with safe have "validateReviewRunSafety H ReviewRunLocal example_tasks = None"
    by (simp add: validateReviewRunSafety_def kind_count_def) (simp add: example_tasks_def)
  moreover have "deps_present example_tasks" by (simp add: deps_present_def example_tasks_def)
  ultimately show ?thesis using visit unfolding validateReviewRunGraph_def deps_present_check by simp
qed

lemma plain_plan_wf:
  assumes plain: "plain_ids H"
  shows "plan_wf H example_plan"
proof -
  have "sorted_wrt (<) (map td_key example_tasks)" by (simp add: example_tasks_def)
  then show ?thesis
    using example_graph [OF plain] example_tasks_ok [OF plain] plain_scope_valid [OF plain] plain
    by (simp add: plan_wf_def example_plan_def plain_ids_def ReviewRunMode_Validate_def) (simp add: example_tasks_def)
qed

lemma example_plan_wf [simp]: "plan_wf flat_hash example_plan"
  by (simp add: plain_plan_wf)

section \<open>A run of the example plan\<close>

text \<open>An event of the example plan; under the flat hash every identity is the same.\<close>

definition example_event ::
    "nat \<Rightarrow> RunEventKind \<Rightarrow> string \<Rightarrow> nat \<Rightarrow> string \<Rightarrow> string \<Rightarrow> int \<Rightarrow> string \<Rightarrow> RunFailure \<Rightarrow> int \<Rightarrow> int
      \<Rightarrow> RunEvent" where
  "example_event n kind key attempt token worker expires output failure retry occurred =
     \<lparr>ev_identity = flat_digest, ev_planIdentity = flat_digest, ev_scope = example_scope,
      ev_sequence = n, ev_previousIdentity = (if n = 1 then [] else flat_digest), ev_kind = kind,
      ev_taskKey = key, ev_taskIdentity = (if key = [] then [] else flat_digest),
      ev_attempt = attempt, ev_leaseTokenIdentity = token, ev_workerIdentity = worker,
      ev_leaseExpiresAtMillis = expires, ev_outputIdentity = output, ev_failure = failure,
      ev_retryAtMillis = retry, ev_occurredAtMillis = occurred\<rparr>"

definition opened_event :: RunEvent where
  "opened_event = example_event 1 RunEventOpened [] 0 [] [] 0 [] NoRunFailure 0 1000"

definition available_event :: "nat \<Rightarrow> string \<Rightarrow> int \<Rightarrow> RunEvent" where
  "available_event n key occurred =
     example_event n RunEventTaskAvailable key 0 [] [] 0 [] NoRunFailure 0 occurred"

definition leased_event :: "nat \<Rightarrow> string \<Rightarrow> nat \<Rightarrow> int \<Rightarrow> RunEvent" where
  "leased_event n key attempt occurred =
     example_event n RunEventTaskLeased key attempt flat_digest ''w'' (occurred + 30000) []
       NoRunFailure 0 occurred"

definition succeeded_event :: "nat \<Rightarrow> string \<Rightarrow> nat \<Rightarrow> int \<Rightarrow> RunEvent" where
  "succeeded_event n key attempt occurred =
     example_event n RunEventTaskSucceeded key attempt flat_digest [] 0 flat_digest NoRunFailure 0 occurred"

definition failed_event :: "nat \<Rightarrow> string \<Rightarrow> nat \<Rightarrow> RunFailure \<Rightarrow> int \<Rightarrow> int \<Rightarrow> RunEvent" where
  "failed_event n key attempt failure retry occurred =
     example_event n RunEventTaskFailed key attempt flat_digest [] 0 [] failure retry occurred"

definition run_succeeded_event :: "nat \<Rightarrow> int \<Rightarrow> RunEvent" where
  "run_succeeded_event n occurred =
     example_event n RunEventSucceeded [] 0 [] [] 0 flat_digest NoRunFailure 0 occurred"

definition example_events :: "RunEvent list" where
  "example_events =
     [opened_event, available_event 2 ''acquire'' 1000, leased_event 3 ''acquire'' 1 1000,
      succeeded_event 4 ''acquire'' 1 2000, available_event 5 ''build'' 2000,
      leased_event 6 ''build'' 1 2000, succeeded_event 7 ''build'' 1 3000]"

lemmas example_event_defs = opened_event_def available_event_def leased_event_def
  succeeded_event_def failed_event_def run_succeeded_event_def example_event_def

lemma worker_w [simp]: "validWorkerIdentity ''w''"
  by (simp add: validWorkerIdentity_bytes)

lemma deriveRunEventIdentity_flat [simp]: "deriveRunEventIdentity flat_hash e = flat_digest"
  by (simp add: deriveRunEventIdentity_def)

lemma example_times [simp]: "validRunMillis 1000" "validRunMillis 2000" "validRunMillis 3000"
  by (simp_all add: validRunMillis_def maxRunEventUnixMilliseconds_def)

lemma RunEvent_Validate_flat:
  "validateFields e = None \<Longrightarrow> ev_scope e = example_scope \<Longrightarrow> ev_planIdentity e = flat_digest \<Longrightarrow>
     1 \<le> ev_sequence e \<Longrightarrow> ev_previousIdentity e = (if ev_sequence e = 1 then [] else flat_digest) \<Longrightarrow>
     ev_identity e = flat_digest \<Longrightarrow> RunEventKind_Validate (ev_kind e) = None \<Longrightarrow>
     RunEvent_Validate flat_hash e = None"
  by (simp add: RunEvent_Validate_None)

lemma example_event_sel [simp]:
  "ev_identity (example_event n k key a tok w x out f r t) = flat_digest"
  "ev_planIdentity (example_event n k key a tok w x out f r t) = flat_digest"
  "ev_scope (example_event n k key a tok w x out f r t) = example_scope"
  "ev_sequence (example_event n k key a tok w x out f r t) = n"
  "ev_previousIdentity (example_event n k key a tok w x out f r t) = (if n = 1 then [] else flat_digest)"
  "ev_kind (example_event n k key a tok w x out f r t) = k"
  "ev_taskKey (example_event n k key a tok w x out f r t) = key"
  "ev_taskIdentity (example_event n k key a tok w x out f r t) = (if key = [] then [] else flat_digest)"
  "ev_attempt (example_event n k key a tok w x out f r t) = a"
  "ev_leaseTokenIdentity (example_event n k key a tok w x out f r t) = tok"
  "ev_workerIdentity (example_event n k key a tok w x out f r t) = w"
  "ev_leaseExpiresAtMillis (example_event n k key a tok w x out f r t) = x"
  "ev_outputIdentity (example_event n k key a tok w x out f r t) = out"
  "ev_failure (example_event n k key a tok w x out f r t) = f"
  "ev_retryAtMillis (example_event n k key a tok w x out f r t) = r"
  "ev_occurredAtMillis (example_event n k key a tok w x out f r t) = t"
  by (simp_all add: example_event_def)

lemmas event_shape_defs = opened_event_def available_event_def leased_event_def
  succeeded_event_def failed_event_def run_succeeded_event_def

lemma example_events_valid:
  "validRunMillis t \<Longrightarrow> RunEvent_Validate flat_hash
     (example_event (Suc 0) RunEventOpened [] 0 [] [] 0 [] NoRunFailure 0 t) = None"
  "validReviewTaskKey key \<Longrightarrow> validRunMillis t \<Longrightarrow> 0 < n \<Longrightarrow> RunEvent_Validate flat_hash
     (example_event n RunEventTaskAvailable key 0 [] [] 0 [] NoRunFailure 0 t) = None"
  "validReviewTaskKey key \<Longrightarrow> validRunMillis t \<Longrightarrow> 0 < n \<Longrightarrow> 0 < a \<Longrightarrow> t < x \<Longrightarrow> RunEvent_Validate flat_hash
     (example_event n RunEventTaskLeased key a flat_digest ''w'' x [] NoRunFailure 0 t) = None"
  "validReviewTaskKey key \<Longrightarrow> validRunMillis t \<Longrightarrow> 0 < n \<Longrightarrow> 0 < a \<Longrightarrow> t < x \<Longrightarrow> RunEvent_Validate flat_hash
     (example_event n RunEventTaskLeaseRenewed key a flat_digest ''w'' x [] NoRunFailure 0 t) = None"
  "validReviewTaskKey key \<Longrightarrow> validRunMillis t \<Longrightarrow> 0 < n \<Longrightarrow> 0 < a \<Longrightarrow> RunEvent_Validate flat_hash
     (example_event n RunEventTaskSucceeded key a flat_digest [] 0 flat_digest NoRunFailure 0 t) = None"
  "validReviewTaskKey key \<Longrightarrow> validRunMillis t \<Longrightarrow> 0 < n \<Longrightarrow> 0 < a \<Longrightarrow> RunFailure_String f \<noteq> [] \<Longrightarrow>
     RunEvent_Validate flat_hash
     (example_event n RunEventTaskFailed key a flat_digest [] 0 [] f 0 t) = None"
  "validReviewTaskKey key \<Longrightarrow> validRunMillis t \<Longrightarrow> 0 < n \<Longrightarrow> RunEvent_Validate flat_hash
     (example_event n RunEventTaskSkipped key 0 [] [] 0 [] RunFailureDependency 0 t) = None"
  "validRunMillis t \<Longrightarrow> 0 < n \<Longrightarrow> RunEvent_Validate flat_hash
     (example_event n RunEventSucceeded [] 0 [] [] 0 flat_digest NoRunFailure 0 t) = None"
  by (auto simp: RunEventKind_Validate_def validateFields_def validateLeaseFields_def
      event_hasTask_def hasAttemptFields_def intro!: RunEvent_Validate_flat)

lemmas example_run_simps = run_step_def replay_step_def example_events_valid initial_state_def
  apply_event_def applyTaskEvent_def event_shape_defs dependenciesSatisfied_def
  hasFailedDependency_def failedWithoutRetry_def
  matchesLeaseResult_def runtime_at_def map_get_def u8_succ_def newTaskRuntimeState_def

lemma example_plan_sel [simp]:
  "rp_identity example_plan = flat_digest" "rp_scope example_plan = example_scope"
  "rp_tasks example_plan = example_tasks"
  by (simp_all add: example_plan_def)

lemma example_initial_tasks:
  "initial_tasks example_plan =
     [(''acquire'', newTaskRuntimeState (example_task ''acquire'' TaskAcquireSource [] 2 True) TaskRuntimePending),
      (''build'', newTaskRuntimeState (example_task ''build'' TaskBuildChange [''acquire''] 1 True) TaskRuntimePending)]"
  by (simp add: initial_tasks_def example_plan_def example_tasks_def)

definition example_state :: "RunEvent list \<Rightarrow> ReviewRunState" where
  "example_state es = (case ReplayReviewRun flat_hash example_plan es of
     Inr s \<Rightarrow> s | Inl _ \<Rightarrow> initial_state example_plan)"

lemma example_state_replay:
  assumes "replayed flat_hash example_plan es s" and "es \<noteq> []"
  shows "ReplayReviewRun flat_hash example_plan es = Inr (example_state es)" and "example_state es = s"
proof -
  have "replay_context flat_hash example_plan" by (simp add: replay_context_def)
  from replay_iff [OF this] assms have "ReplayReviewRun flat_hash example_plan es = Inr s" by blast
  then show "ReplayReviewRun flat_hash example_plan es = Inr (example_state es)" and "example_state es = s"
    by (simp_all add: example_state_def)
qed

lemmas example_run_eval = example_events_def example_run_simps example_initial_tasks

lemma example_replayed:
  "\<exists>s. replayed flat_hash example_plan example_events s \<and> rs_status s = ReviewRunActive
     \<and> rt_status (runtime_at s ''acquire'') = TaskRuntimeSucceeded
     \<and> rt_status (runtime_at s ''build'') = TaskRuntimeSucceeded
     \<and> rt_outputIdentity (runtime_at s ''acquire'') = flat_digest
     \<and> rt_outputIdentity (runtime_at s ''build'') = flat_digest
     \<and> quiescent s (time_of_millis 3000)"
  using example_keys_valid
  by (simp add: example_run_eval quiescent_def ReadyTasks_def
      SkippableTasks_def maxRunEventUnixMilliseconds_def) (simp add: example_tasks_def RetryableAt_def)

lemma example_events_nonempty [simp]: "example_events \<noteq> []"
  by (simp add: example_events_def)

lemma example_facts:
  shows "ReplayReviewRun flat_hash example_plan example_events = Inr (example_state example_events)"
    and "rs_status (example_state example_events) = ReviewRunActive"
    and "rt_status (runtime_at (example_state example_events) ''build'') = TaskRuntimeSucceeded"
    and "quiescent (example_state example_events) (time_of_millis 3000)"
    and "rt_status (runtime_at (example_state example_events) ''acquire'') = TaskRuntimeSucceeded"
    and "rt_outputIdentity (runtime_at (example_state example_events) ''acquire'') = flat_digest"
    and "rt_outputIdentity (runtime_at (example_state example_events) ''build'') = flat_digest"
  using example_replayed example_state_replay [where es = example_events] by auto

text \<open>The same run closed by its success, and a run whose first lease was taken over.\<close>

definition closed_events :: "RunEvent list" where
  "closed_events = example_events @ [run_succeeded_event 8 3000]"

definition leased_events :: "RunEvent list" where
  "leased_events = [opened_event, available_event 2 ''acquire'' 1000, leased_event 3 ''acquire'' 1 1000]"

definition taken_over_events :: "RunEvent list" where
  "taken_over_events = leased_events @ [leased_event 4 ''acquire'' 2 31000]"

lemma example_later_time [simp]: "validRunMillis 31000" "validRunMillis 61000"
  by (simp_all add: validRunMillis_def maxRunEventUnixMilliseconds_def)

lemma closed_replayed:
  "\<exists>s. replayed flat_hash example_plan closed_events s \<and> rs_status s = ReviewRunSucceeded
     \<and> rs_lastOccurredAtMillis s = 3000"
  using example_keys_valid
  by (simp add: closed_events_def example_run_eval canSucceed_def)

definition leased_runtime :: TaskRuntimeState where
  "leased_runtime = \<lparr>rt_definition = example_task ''acquire'' TaskAcquireSource [] 2 True,
     rt_status = TaskRuntimeLeased, rt_attempts = 1, rt_leaseTokenIdentity = flat_digest,
     rt_workerIdentity = ''w'', rt_leaseExpiresAtMillis = 31000, rt_outputIdentity = [],
     rt_failure = NoRunFailure, rt_retryAtMillis = 0, rt_lastEventRevision = 3,
     rt_lastEventIdentity = flat_digest, rt_lastEventAtMillis = 1000\<rparr>"

lemma leased_replayed:
  "\<exists>s. replayed flat_hash example_plan leased_events s \<and> rs_status s = ReviewRunActive
     \<and> rs_revision s = 3 \<and> rs_lastOccurredAtMillis s = 1000 \<and> rs_headIdentity s = flat_digest
     \<and> map_of (rs_tasks s) ''acquire'' = Some leased_runtime"
  using example_keys_valid
  by (simp add: leased_events_def example_run_eval leased_runtime_def)

lemma example_lists_nonempty [simp]:
  "closed_events \<noteq> []" "leased_events \<noteq> []" "taken_over_events \<noteq> []"
  by (simp_all add: closed_events_def leased_events_def taken_over_events_def)

lemma taken_over_replayed: "\<exists>s. replayed flat_hash example_plan taken_over_events s"
  using example_keys_valid
  by (simp add: taken_over_events_def leased_events_def example_run_eval)


section \<open>A second hash\<close>

definition late_digest :: string where
  "late_digest = hex_EncodeToString (replicate 32 (CHR ''b''))"

definition late_hash :: sha where
  "late_hash s = (if take 5 (rev s) = rev ''4000}'' then replicate 32 (CHR ''b'') else replicate 32 (CHR ''a''))"

lemma late_digest_other [simp]: "late_digest \<noteq> flat_digest" "flat_digest \<noteq> late_digest"
proof -
  have "take 2 late_digest \<noteq> take 2 flat_digest" by code_simp
  then show "late_digest \<noteq> flat_digest" "flat_digest \<noteq> late_digest" by metis+
qed

lemma sum256_late [simp]: "sum256 late_hash"
  by (simp add: sum256_def late_hash_def)

lemma plain_late [simp]: "plain_ids late_hash"
  by (simp add: plain_ids_def deriveReviewScopeIdentity_def deriveTaskDefinitionIdentity_def
      deriveReviewRunPlanIdentity_def reviewScopePreimage_def taskDefinitionPreimage_def reviewRunPlanPreimage_def
      hashControlPlaneValue_def late_hash_def flat_digest_def json_string_def json_strings_def)

lemma late_plan_wf [simp]: "plan_wf late_hash example_plan"
  by (simp add: plain_plan_wf)

lemma json_commas_snoc: "\<exists>front. json_commas (xs @ [x]) = front @ x"
  by (induction xs rule: json_commas.induct) auto

lemma json_object_end: "\<exists>front. json_Marshal (JObj (fs @ [(k, v)])) = front @ json_Marshal v @ ''}''"
proof -
  obtain front where "json_commas (map (\<lambda>(k, v). json_string k @ CHR '':'' # json_Marshal v) fs
      @ [json_string k @ CHR '':'' # json_Marshal v]) = front @ json_string k @ CHR '':'' # json_Marshal v"
    using json_commas_snoc by blast
  then show ?thesis by (intro exI [of _ "CHR ''{'' # front @ json_string k @ '':''"]) simp
qed

lemma late_identity:
  assumes "dec_int (ev_occurredAtMillis e) = ds @ [a, b, c, d]"
  shows "deriveRunEventIdentity late_hash e = (if [a, b, c, d] = ''4000'' then late_digest else flat_digest)"
proof -
  have "runEventPreimage e = JObj (butlast (case runEventPreimage e of JObj fs \<Rightarrow> fs)
      @ [(''occurred_at'', JInt (ev_occurredAtMillis e))])"
    by (simp add: runEventPreimage_def)
  then obtain front where "json_Marshal (runEventPreimage e) = front @ ds @ [a, b, c, d] @ ''}''"
    using json_object_end assms by (metis append_assoc json_Marshal.simps(2))
  then have "take 5 (rev (json_Marshal (runEventPreimage e))) = [CHR ''}'', d, c, b, a]" by simp
  then show ?thesis
    by (auto simp: deriveRunEventIdentity_def hashControlPlaneValue_def late_hash_def flat_digest_def late_digest_def)
qed

lemma dec_times: "dec_int 1000 = ''1000''" "dec_int 2000 = ''2000''" "dec_int 3000 = ''3000''" "dec_int 4000 = ''4000''"
  by (simp_all add: dec_int_def dec_digits.simps char_of_def bit_0)

text \<open>What replays under the constant hash replays under the second one, as long as nothing is dated 4000.\<close>

lemma late_valid:
  assumes "RunEvent_Validate flat_hash e = None" and "ev_scope e = example_scope"
    and "deriveRunEventIdentity late_hash e = ev_identity e"
  shows "RunEvent_Validate late_hash e = None"
  using assms by (simp add: RunEvent_Validate_None plain_scope_valid)

lemma late_replayed:
  "replayed flat_hash example_plan es s \<Longrightarrow>
     \<forall>e\<in>set es. ev_scope e = example_scope \<and> deriveRunEventIdentity late_hash e = ev_identity e \<Longrightarrow>
     replayed late_hash example_plan es s"
proof (induction es arbitrary: s rule: rev_induct)
  case (snoc e es)
  then obtain s1 where s1: "replayed flat_hash example_plan es s1" "run_step flat_hash example_plan s1 e = Inr s"
    by (auto simp: fold_err_snoc)
  have "RunEvent_Validate late_hash e = None"
    using run_step_valid [OF s1(2)] snoc.prems(2) s1(2) by (intro late_valid) (auto simp: run_step_def replay_step_Inr)
  with s1(2) have "run_step late_hash example_plan s1 e = Inr s" by (auto simp: run_step_def replay_step_Inr)
  with snoc.IH [OF s1(1)] snoc.prems(2) show ?case by (auto simp: fold_err_snoc)
qed simp

lemma late_times:
  "ev_occurredAtMillis e \<in> {1000, 2000, 3000} \<Longrightarrow> deriveRunEventIdentity late_hash e = flat_digest"
  "ev_occurredAtMillis e = 4000 \<Longrightarrow> deriveRunEventIdentity late_hash e = late_digest"
  using late_identity [of e "[]"] dec_times by auto

lemma late_example:
  "ReplayReviewRun late_hash example_plan example_events = Inr (example_state example_events)"
proof -
  obtain s where s: "replayed flat_hash example_plan example_events s" using example_replayed by blast
  note st = example_state_replay [OF s example_events_nonempty]
  have "replayed late_hash example_plan example_events s"
    by (rule late_replayed [OF s]) (auto simp: example_events_def event_shape_defs late_times)
  moreover have "replay_context late_hash example_plan" by (simp add: replay_context_def)
  ultimately show ?thesis using st(2) replay_iff example_events_nonempty by blast
qed

end
