(* ===== verification/Run_Witnesses.thy ===== *)
theory Run_Witnesses
  imports Examples
begin

text \<open>
  The theorems on replay applied to the example runs, where their hypotheses hold.
\<close>

lemma example_split: "example_events =
    take 3 example_events @ succeeded_event 4 ''acquire'' 1 2000 # drop 4 example_events"
  by (simp add: example_events_def)

theorem replay_validation_redundant_witness:
  "ReplayReviewRun flat_hash example_plan example_events
     = replay_events flat_hash example_plan 0 [] (initial_state example_plan) example_events"
  using replay_validation_redundant [of flat_hash example_plan example_events] by simp

theorem terminal_run_outcome_witness:
  "rt_status (runtime_at (example_state closed_events) ''build'') = TaskRuntimeSucceeded
   \<and> (\<exists>err. ReplayReviewRun flat_hash example_plan (closed_events @ [run_succeeded_event 9 3000]) = Inl err)"
proof -
  obtain s where s: "replayed flat_hash example_plan closed_events s" "rs_status s = ReviewRunSucceeded"
    using closed_replayed by blast
  note r = example_state_replay [OF s(1) example_lists_nonempty(1)]
  show ?thesis
    using terminal_run_outcome [of flat_hash example_plan closed_events "example_state closed_events"
      "run_succeeded_event 9 3000" "[]"] r s(2)
    by (auto simp: example_tasks_def)
qed

theorem dependencies_before_work_witness:
  "rt_status (runtime_at (example_state example_events) ''acquire'') = TaskRuntimeSucceeded"
  using dependencies_before_work [of flat_hash example_plan example_events "example_state example_events"
      "example_task ''build'' TaskBuildChange [''acquire''] 1 True"
      "example_task ''acquire'' TaskAcquireSource [] 2 True"] example_facts
  by (simp add: example_tasks_def)

theorem attempts_bounded_witness:
  "length (lease_events ''acquire'' taken_over_events) \<le> 2"
proof -
  obtain s where s: "replayed flat_hash example_plan taken_over_events s"
    using taken_over_replayed by blast
  note r = example_state_replay [OF s example_lists_nonempty(3)]
  show ?thesis
    using attempts_bounded [of flat_hash example_plan taken_over_events "example_state taken_over_events"
        "example_task ''acquire'' TaskAcquireSource [] 2 True"] r
    by (simp add: example_tasks_def)
qed

theorem lease_fencing_witness:
  "\<exists>l\<in>set (take 3 example_events). ev_kind l = RunEventTaskLeased \<and> ev_attempt l = 1
     \<and> ev_leaseTokenIdentity l = flat_digest"
proof -
  have "take 3 example_events @ [succeeded_event 4 ''acquire'' 1 2000] = take 4 example_events"
    by (simp add: example_events_def)
  moreover obtain s where "replayed flat_hash example_plan (take 4 example_events) s"
    using fold_err_prefix [of "run_step flat_hash example_plan" "initial_state example_plan"
        "take 4 example_events" "drop 4 example_events"] example_replayed by fastforce
  then obtain s where "ReplayReviewRun flat_hash example_plan (take 4 example_events) = Inr s"
    using example_state_replay by (metis example_events_nonempty take_eq_Nil zero_neq_numeral)
  ultimately have s: "ReplayReviewRun flat_hash example_plan
      (take 3 example_events @ [succeeded_event 4 ''acquire'' 1 2000]) = Inr s" by simp
  from lease_fencing [OF sum256_flat example_plan_wf s] obtain l where
    l: "l \<in> set (take 3 example_events)" "last (lease_events ''acquire'' (take 3 example_events)) = l"
      "lease_events ''acquire'' (take 3 example_events) \<noteq> []" "ev_attempt l = 1"
      "ev_leaseTokenIdentity l = flat_digest"
    by (auto simp: event_shape_defs)
  from l(2,3) last_in_set have "l \<in> set (lease_events ''acquire'' (take 3 example_events))" by blast
  with l show ?thesis by (auto simp: lease_events_def)
qed

theorem one_result_per_task_witness:
  "filter (\<lambda>y. task_event (ev_kind y) \<and> ev_taskKey y = ''acquire'') (drop 4 example_events) = []"
  using one_result_per_task [of flat_hash example_plan "take 3 example_events"
      "succeeded_event 4 ''acquire'' 1 2000" "drop 4 example_events" "example_state example_events"]
    example_facts(1)
  unfolding example_split [symmetric] by (auto simp: succeeded_event_def filter_empty_conv)

theorem run_length_bounded_witness:
  "length (filter (\<lambda>e. ev_kind e \<noteq> RunEventTaskLeaseRenewed) example_events) \<le> 11"
  using run_length_bounded [of flat_hash example_plan example_events] example_facts(1)
  by (simp add: example_tasks_def)

theorem terminal_completion_derived_witness:
  "\<exists>c. TerminalCompletion flat_hash (example_state example_events) = Inr (Some c)
     \<and> tc_status c = TaskCompletionSucceeded"
proof -
  have "\<forall>t\<in>set (rp_tasks example_plan).
      rt_status (runtime_at (example_state example_events) (td_key t)) = TaskRuntimeSucceeded"
    using example_facts by (simp add: example_tasks_def)
  then have no: "\<not> (\<exists>t\<in>set (rp_tasks example_plan). td_required t \<and> blocked (runtime_at (example_state example_events) (td_key t)))"
      "\<not> (\<exists>t\<in>set (rp_tasks example_plan). td_required t \<and> parked (runtime_at (example_state example_events) (td_key t)))"
      "\<forall>t\<in>set (rp_tasks example_plan). over (runtime_at (example_state example_events) (td_key t))
        \<and> (td_required t \<longrightarrow> rt_status (runtime_at (example_state example_events) (td_key t)) = TaskRuntimeSucceeded)"
    by (auto simp: blocked_def parked_def over_def)
  from terminal_completion_derived [OF sum256_flat example_plan_wf example_facts(1,2)] show ?thesis
    unfolding if_not_P [OF no(1)] if_not_P [OF no(2)] if_P [OF no(3)] by blast
qed

theorem no_deadlock_witness:
  "\<exists>c. TerminalCompletion flat_hash (example_state example_events) = Inr (Some c)"
  using no_deadlock [of flat_hash example_plan example_events "example_state example_events"
      "time_of_millis 3000"] example_facts by simp

end
