(* ===== verification/Coordinator_Witnesses.thy ===== *)
theory Coordinator_Witnesses
  imports Examples
begin

text \<open>
  The theorems on the coordinator applied to the example runs. The calls of a coordinator are made
  on a memory journal used by one client.
\<close>

definition example_shared :: "(MemoryRunJournal \<times> MemoryRunJournal schedule) RunJournal" where
  "example_shared = sharedJournal (memoryJournal flat_hash)"

definition journal_with :: "RunEvent list \<Rightarrow> MemoryRunJournal" where
  "journal_with es = \<lparr>mj_streams = [(flat_digest, es)], mj_plans = [(flat_digest, example_plan)]\<rparr>"

lemma journal_with_stream [simp]: "mj_stream (journal_with es) flat_digest = es"
  by (simp add: mj_stream_def journal_with_def map_get_def)

lemma example_scope_id [simp]: "sc_identity example_scope = flat_digest"
  by (simp add: example_scope_def)

text \<open>The worker of the first task renews its lease in the middle of a millisecond; then the run is canceled.\<close>

definition example_lease :: TaskLease where
  "example_lease = \<lparr>tl_identity = flat_digest, tl_planIdentity = flat_digest, tl_taskKey = ''acquire'',
     tl_taskIdentity = flat_digest, tl_handlerIdentity = flat_digest, tl_workerIdentity = ''w'',
     tl_token = flat_digest, tl_tokenIdentity = flat_digest, tl_eventIdentity = flat_digest,
     tl_attempt = 1, tl_expiresAtMillis = 31000\<rparr>"

definition after_renewal :: "MemoryRunJournal \<times> MemoryRunJournal schedule" where
  "after_renewal = snd (Coordinator_RenewTaskLease flat_hash (sharedJournal (memoryJournal flat_hash)) LiveContext
     example_plan example_lease 1000500000 (journal_with leased_events, []))"

definition after_cancel :: "MemoryRunJournal \<times> MemoryRunJournal schedule" where
  "after_cancel = snd (Coordinator_CancelRun flat_hash (sharedJournal (memoryJournal flat_hash)) LiveContext
     example_plan (time_of_millis 4000) after_renewal)"

theorem coordinator_safety_witness:
  "prefix leased_events (mj_stream (fst after_cancel) flat_digest)
   \<and> (replayable flat_hash example_plan (mj_stream (fst after_cancel) flat_digest)
      \<or> stalled flat_hash example_plan (mj_stream (fst after_cancel) flat_digest))"
proof -
  let ?step = "coordinator_step flat_hash (sharedJournal (memoryJournal flat_hash)) (\<lambda>_. True) example_plan"
  have "?step (journal_with leased_events, []) after_renewal"
    unfolding after_renewal_def by (rule coordinator_step.renew) (rule prod.collapse [symmetric])
  moreover have "?step after_renewal after_cancel"
    unfolding after_cancel_def by (rule coordinator_step.cancel) (rule prod.collapse [symmetric])
  ultimately have steps: "?step\<^sup>*\<^sup>* (journal_with leased_events, []) (fst after_cancel, snd after_cancel)" by simp
  obtain s where s: "replayed flat_hash example_plan leased_events s" using leased_replayed by blast
  from coordinator_safety [OF _ _ steps] example_state_replay(1) [OF s] show ?thesis
    by (simp add: replays_or_stalled_def replayable_def)
qed

lemma read_example:
  "length es < 1000 \<Longrightarrow> readAllRunEvents (sharedJournal (memoryJournal flat_hash)) LiveContext example_scope
     (journal_with es, []) = (Inr es, (journal_with es, []))"
  by (cases es) (simp_all add: readAllRunEvents_def read_pages.simps sharedJournal_def memoryJournal_def
      after_others_def others_def MemoryRunJournal_Read_def validateRunJournalOperation_def
      maxRunJournalReadLimit_def maxRunJournalStreamEvents_def Let_def)

text \<open>The tasks of the example run are over, and the run is still active: nothing is left to do for \<open>Advance\<close>.\<close>

lemma advance_event_quiescent:
  assumes "state_inv plan st" and "rs_status st = ReviewRunActive" and "plan_wf H plan" and "quiescent st now"
  shows "advance_event H plan st now = None"
proof -
  have "rt_status (runtime_at st (td_key t)) \<noteq> TaskRuntimeLeased" if "t \<in> set (rp_tasks plan)" for t
    using quiescent_settled [OF assms(3,1,2,4) that] by (auto simp: phase_of_iff failedWithoutRetry_def)
  moreover have "ReadyTasks st now = []" "SkippableTasks st = []" using assms(4) by (simp_all add: quiescent_def)
  moreover from calculation(1) have "exhausted_task plan st now = None"
    by (auto simp: exhausted_task_def find_None_iff Let_def)
  ultimately show ?thesis by (simp add: advance_event_def)
qed

lemma advance_example:
  "Coordinator_Advance flat_hash (sharedJournal (memoryJournal flat_hash)) LiveContext example_plan
     (time_of_millis 3000) (journal_with example_events, [])
   = (Inr (example_state example_events), (journal_with example_events, []))"
proof -
  have ctx: "replay_context flat_hash example_plan" by (simp add: replay_context_def)
  have last: "rs_lastOccurredAtMillis (example_state example_events) = 3000"
    using replayed_last_time [OF ctx example_facts(1) example_events_nonempty]
    by (simp add: example_events_def event_shape_defs)
  have none: "advance_event flat_hash example_plan (example_state example_events) (time_of_millis 3000) = None"
    by (rule advance_event_quiescent [OF replay_inv [OF ctx example_facts(1)] example_facts(2) example_plan_wf example_facts(4)])
  have "length example_events < 1000" by (simp add: example_events_def)
  then have "advance_loop (Suc n) flat_hash (sharedJournal (memoryJournal flat_hash)) LiveContext example_plan
      (time_of_millis 3000) (journal_with example_events, [])
      = (Inr (example_state example_events), (journal_with example_events, []))" for n
    using example_facts(1,2) none last pos_millis_not_zero_time [of "time_of_millis 3000"]
    by (simp add: Coordinator_load_def read_example transitionTimeAllowed_def)
  then show ?thesis
    by (simp add: Coordinator_Advance_def Coordinator_validate_def ReviewRunPlan_Validate_wf
        maxReviewRunTasks_def maxCoordinatorConflicts_def eval_nat_numeral)
qed

theorem advance_leaves_nothing_witness:
  "rs_status (example_state example_events) = ReviewRunActive
   \<and> ReadyTasks (example_state example_events) (time_of_millis 3000) = []
   \<and> SkippableTasks (example_state example_events) = []"
proof -
  have "replayable flat_hash example_plan example_events" using example_facts(1) by (simp add: replayable_def)
  with advance_leaves_nothing [OF _ _ _ _ advance_example] example_facts(2) show ?thesis by simp
qed

lemma example_acquire [simp]: "ReviewRunPlan_Task example_plan ''acquire'' =
    Some (example_task ''acquire'' TaskAcquireSource [] 2 True)"
  using ReviewRunPlan_Task_iff [OF example_plan_wf] by (simp add: example_tasks_def)

lemma leased_facts:
  obtains st where "ReplayReviewRun flat_hash example_plan leased_events = Inr st"
    "rs_status st = ReviewRunActive" "rs_revision st = 3" "rs_lastOccurredAtMillis st = 1000"
    "rs_headIdentity st = flat_digest" "map_of (rs_tasks st) ''acquire'' = Some leased_runtime"
  using leased_replayed example_state_replay [where es = leased_events] by auto

lemmas next_example = next_event_def NewRunEvent_def ReviewRunPlan_Validate_wf attach_event_task_def
  new_event_fields_def check_def RunEventKind_Validate_def validateFields_def validateLeaseFields_def
  event_hasTask_def hasAttemptFields_def timeToRunMillis_def

lemma example_foldl [simp]: "foldl (\<lambda>n t. n + 3 * td_maxAttempts t) m example_tasks = m + 9"
  by (simp add: example_tasks_def)

lemmas decide_example = transitionTimeAllowed_def ReviewRunState_Task_def example_lease_def
  leased_runtime_def runtimeMatchesLease_def UnixMilli_def add_millis_def runMillisToTime_def
  zero_time_def next_example renew_reserved_def maxRunJournalStreamEvents_def validRunMillis_def
  maxRunEventUnixMilliseconds_def time_of_millis_def

theorem submillisecond_renewal_breaks_replay_witness:
  "\<exists>e st. renew_decide flat_hash example_plan example_lease 1000500000 0 st = Try (Inr e)
     \<and> ReplayReviewRun flat_hash example_plan leased_events = Inr st
     \<and> ReplayReviewRun flat_hash example_plan (leased_events @ [e]) = Inl ErrRunTransitionLeaseMismatch"
proof -
  obtain st where st: "ReplayReviewRun flat_hash example_plan leased_events = Inr st"
    "rs_status st = ReviewRunActive" "rs_revision st = 3" "rs_lastOccurredAtMillis st = 1000"
    "rs_headIdentity st = flat_digest"
    "map_of (rs_tasks st) ''acquire'' = Some leased_runtime" by (rule leased_facts)
  obtain e where e: "renew_decide flat_hash example_plan example_lease 1000500000 0 st = Try (Inr e)"
    using st example_keys_valid
    by (simp add: decide_example renew_decide_def)
  from submillisecond_renewal_breaks_replay [OF sum256_flat example_plan_wf st(1) e] st(6)
  have "ReplayReviewRun flat_hash example_plan (leased_events @ [e]) = Inl ErrRunTransitionLeaseMismatch"
    by (simp add: example_lease_def runtime_at_def map_get_def leased_runtime_def UnixMilli_def)
  with st(1) e show ?thesis by blast
qed

lemma example_context: "replay_context flat_hash example_plan"
  by (simp add: replay_context_def)

theorem renewal_keeps_capacity_witness:
  "\<exists>e st. renew_decide flat_hash example_plan example_lease (time_of_millis 2000) 0 st = Try (Inr e)
     \<and> length (leased_events @ e # []) \<le> maxRunJournalStreamEvents"
proof -
  obtain st where st: "ReplayReviewRun flat_hash example_plan leased_events = Inr st"
    "rs_status st = ReviewRunActive" "rs_revision st = 3" "rs_lastOccurredAtMillis st = 1000"
    "rs_headIdentity st = flat_digest"
    "map_of (rs_tasks st) ''acquire'' = Some leased_runtime" by (rule leased_facts)
  obtain e where e: "renew_decide flat_hash example_plan example_lease (time_of_millis 2000) 0 st = Try (Inr e)"
    using st example_keys_valid by (simp add: decide_example renew_decide_def)
  from renew_accepted [OF example_context st(1) e] obtain st' where
    "ReplayReviewRun flat_hash example_plan (leased_events @ e # []) = Inr st'"
    by (auto simp: whole_millis_def time_of_millis_def)
  from renewal_keeps_capacity [OF sum256_flat example_plan_wf st(1) e this] e show ?thesis by auto
qed

theorem outdated_lease_powerless_witness:
  "\<exists>err. renew_decide flat_hash example_plan example_lease (time_of_millis 32000) 0
     (example_state taken_over_events) = Return (Inl err)"
proof -
  obtain s where s: "replayed flat_hash example_plan taken_over_events s"
    using taken_over_replayed by blast
  note r = example_state_replay [OF s example_lists_nonempty(3)]
  have "length (lease_events ''acquire'' taken_over_events) = 2"
    by (simp add: lease_events_def taken_over_events_def leased_events_def event_shape_defs)
  then have "tl_attempt example_lease < length (lease_events (tl_taskKey example_lease) taken_over_events)"
    by (simp add: example_lease_def)
  from outdated_lease_powerless [OF sum256_flat example_plan_wf r(1) this] show ?thesis by blast
qed

definition example_completion :: TaskCompletion where
  "example_completion = \<lparr>tc_identity = flat_digest, tc_status = TaskCompletionSucceeded,
     tc_outputIdentity = flat_digest, tc_failure = NoRunFailure\<rparr>"

text \<open>The completion of the first task is repeated when the run has gone on, and when it has ended.\<close>

lemma example_completed:
  obtains st e where "ReplayReviewRun flat_hash example_plan leased_events = Inr st"
    "complete_decide flat_hash example_plan example_lease example_completion (time_of_millis 2000) 0 st = Try (Inr e)"
    "example_events = leased_events @ e # drop 4 example_events"
proof -
  obtain st where st: "ReplayReviewRun flat_hash example_plan leased_events = Inr st"
    "rs_status st = ReviewRunActive" "rs_revision st = 3" "rs_lastOccurredAtMillis st = 1000"
    "rs_headIdentity st = flat_digest"
    "map_of (rs_tasks st) ''acquire'' = Some leased_runtime" by (rule leased_facts)
  have "complete_decide flat_hash example_plan example_lease example_completion
      (time_of_millis 2000) 0 st = Try (Inr (succeeded_event 4 ''acquire'' 1 2000))"
    using st example_keys_valid
    by (simp add: decide_example complete_decide_def example_completion_def Let_def event_shape_defs example_event_def)
  moreover have "example_events = leased_events @ succeeded_event 4 ''acquire'' 1 2000 # drop 4 example_events"
    by (simp add: example_events_def leased_events_def)
  ultimately show ?thesis using st(1) that by blast
qed

theorem completion_retry_witness:
  "complete_decide flat_hash example_plan example_lease example_completion (time_of_millis 90000) 0
     (example_state example_events) = Return (Inr (example_state example_events))
   \<and> complete_decide flat_hash example_plan example_lease example_completion (time_of_millis 90000) 0
     (example_state closed_events) = Return (Inl ErrRunAlreadyTerminal)"
proof -
  obtain st e where st: "ReplayReviewRun flat_hash example_plan leased_events = Inr st"
      and e: "complete_decide flat_hash example_plan example_lease example_completion (time_of_millis 2000) 0 st = Try (Inr e)"
      and split: "example_events = leased_events @ e # drop 4 example_events" by (rule example_completed)
  have valid: "TaskCompletion_Validate flat_hash example_completion = None"
      "tc_status example_completion \<noteq> TaskCompletionFailed"
    by (simp_all add: TaskCompletion_Validate_def example_completion_def deriveTaskCompletionIdentity_def)
  note retry = completion_retry [OF sum256_flat example_plan_wf st valid(1) e]
  have "closed_events = leased_events @ e # drop 4 example_events @ [run_succeeded_event 8 3000]"
    unfolding closed_events_def by (subst split) simp
  moreover obtain s where s: "replayed flat_hash example_plan closed_events s" "rs_status s = ReviewRunSucceeded"
    using closed_replayed by blast
  moreover note closed = example_state_replay [OF s(1) example_lists_nonempty(1)]
  ultimately have "complete_decide flat_hash example_plan example_lease example_completion (time_of_millis 90000) 0
      (example_state closed_events) = Return (Inl ErrRunAlreadyTerminal)"
    using retry [of "drop 4 example_events @ [run_succeeded_event 8 3000]" "example_state closed_events" "time_of_millis 90000" 0]
      valid(2) by simp
  moreover have "complete_decide flat_hash example_plan example_lease example_completion (time_of_millis 90000) 0
      (example_state example_events) = Return (Inr (example_state example_events))"
    using retry [of "drop 4 example_events" "example_state example_events" "time_of_millis 90000" 0]
      split example_facts(1,2) valid(2) by simp
  ultimately show ?thesis by blast
qed

end
