(* ===== verification/Json_Decode.thy ===== *)
theory Json_Decode
  imports Go_Encoding
begin

text \<open>
  Reading JSON back. Every parser of the control plane decodes its input with \<open>encoding/json\<close>,
  marshals the decoded record again and refuses the input, with the same error, unless the
  result is the input byte for byte. What a parser accepts is therefore decided on marshalled
  text alone, and the reader here is the decoder restricted to such text: no white space, no
  alternative spelling of a number. On anything else it may fail where the decoder succeeds and
  the comparison afterwards fails. The comparison itself is part of every parser's model.

  The result of the theory: the reader inverts \<open>json_Marshal\<close> on values whose strings are
  valid UTF-8, and the strings the marshaller replaces are exactly the others.
\<close>


section \<open>Strings\<close>

definition unhex :: "char \<Rightarrow> nat option" where
  "unhex c =
     (let b = byte_of c
      in if 48 \<le> b \<and> b \<le> 57 then Some (b - 48)
         else if 97 \<le> b \<and> b \<le> 102 then Some (b - 87)
         else if 65 \<le> b \<and> b \<le> 70 then Some (b - 55)
         else None)"

definition unhex4 :: "char \<Rightarrow> char \<Rightarrow> char \<Rightarrow> char \<Rightarrow> nat option" where
  "unhex4 a b c d =
     (case (unhex a, unhex b, unhex c, unhex d) of
        (Some i, Some j, Some k, Some l) \<Rightarrow> Some (((i * 16 + j) * 16 + k) * 16 + l)
      | _ \<Rightarrow> None)"

text \<open>The UTF-8 bytes of a rune of the basic plane.\<close>

definition utf8_rune :: "nat \<Rightarrow> string" where
  "utf8_rune r =
     (if r < 128 then [char_of r]
      else if r < 2048 then [char_of (192 + r div 64), char_of (128 + r mod 64)]
      else [char_of (224 + r div 4096), char_of (128 + r div 64 mod 64), char_of (128 + r mod 64)])"

definition unescape :: "char \<Rightarrow> char option" where
  "unescape e =
     (if e = CHR 34 \<or> e = CHR 92 \<or> e = CHR ''/'' then Some e
      else if e = CHR ''b'' then Some (char_of (8 :: nat))
      else if e = CHR ''f'' then Some (char_of (12 :: nat))
      else if e = CHR ''n'' then Some (char_of (10 :: nat))
      else if e = CHR ''r'' then Some (char_of (13 :: nat))
      else if e = CHR ''t'' then Some (char_of (9 :: nat))
      else None)"

definition prepend :: "string \<Rightarrow> (string \<times> string) option \<Rightarrow> (string \<times> string) option" where
  "prepend xs = map_option (\<lambda>(s, rest). (xs @ s, rest))"

text \<open>The characters of a string literal up to its closing quote, and what follows it.\<close>

fun read_chars :: "string \<Rightarrow> (string \<times> string) option" where
  "read_chars [] = None"
| "read_chars (c # r) =
     (if c = CHR 34 then Some ([], r)
      else if c = CHR 92
      then (case r of
              [] \<Rightarrow> None
            | e # r1 \<Rightarrow>
                if e = CHR ''u''
                then (case r1 of
                        x # y # z # w # r2 \<Rightarrow>
                          (case unhex4 x y z w of
                             None \<Rightarrow> None
                           | Some n \<Rightarrow> prepend (utf8_rune n) (read_chars r2))
                      | _ \<Rightarrow> None)
                else (case unescape e of None \<Rightarrow> None | Some x \<Rightarrow> prepend [x] (read_chars r1)))
      else if byte_of c < 32 then None
      else prepend [c] (read_chars r))"

declare read_chars.simps(2) [simp del]

text \<open>\<open>utf8.ValidString\<close> on the bytes of a string.\<close>

function utf8_ok :: "nat list \<Rightarrow> bool" where
  "utf8_ok bs =
     (if bs = [] then True
      else utf8_first bs \<noteq> (65533, 1) \<and> utf8_ok (drop (snd (utf8_first bs)) bs))"
  by pat_completeness auto
termination
  by (relation "measure length") (auto simp: utf8_first_width)

declare utf8_ok.simps [simp del]

definition utf8_ValidString :: "string \<Rightarrow> bool" where
  "utf8_ValidString s = utf8_ok (map of_char s)"

text \<open>What is left of a string once written and read: invalid bytes become \<open>U+FFFD\<close>.\<close>

function utf8_fix :: "nat list \<Rightarrow> nat list" where
  "utf8_fix bs =
     (if bs = [] then []
      else (if utf8_first bs = (65533, 1) then [239, 191, 189] else take (snd (utf8_first bs)) bs)
           @ utf8_fix (drop (snd (utf8_first bs)) bs))"
  by pat_completeness auto
termination
  by (relation "measure length") (auto simp: utf8_first_width)

declare utf8_fix.simps [simp del]

definition string_fix :: "string \<Rightarrow> string" where
  "string_fix s = map char_of (utf8_fix (map of_char s))"

lemma prepend_Some [simp]: "prepend xs (Some (s, rest)) = Some (xs @ s, rest)"
  by (simp add: prepend_def)

lemma prepend_prepend [simp]: "prepend xs (prepend ys p) = prepend (xs @ ys) p"
  by (cases p) (auto simp: prepend_def)

lemma prepend_Nil [simp]: "prepend [] p = p"
  by (cases p) (auto simp: prepend_def)

lemma read_quote [simp]: "read_chars (CHR 34 # r) = Some ([], r)"
  by (simp add: read_chars.simps)

lemma char_of_eq_iff_small:
  "(b :: nat) < 256 \<Longrightarrow> (char_of b = (c :: char)) = (b = byte_of c)"
  by (metis char_of_char of_char_of mod_less)

lemma read_raw:
  assumes "(b :: nat) < 256" "32 \<le> b" "b \<noteq> 34" "b \<noteq> 92"
  shows "read_chars (char_of b # r) = prepend [char_of b] (read_chars r)"
  using assms by (simp add: read_chars.simps char_of_eq_iff_small)

lemma read_high:
  "\<forall>b\<in>set bs. 128 \<le> b \<and> (b :: nat) < 256 \<Longrightarrow>
     read_chars (map char_of bs @ r) = prepend (map char_of bs) (read_chars r)"
  by (induction bs) (auto simp: read_raw)

lemma read_unicode:
  assumes "unhex4 x y z w = Some n"
  shows "read_chars (CHR 92 # CHR ''u'' # x # y # z # w # r) = prepend (utf8_rune n) (read_chars r)"
  using assms by (simp add: read_chars.simps)

lemma read_escape:
  assumes "unescape e = Some x" and "e \<noteq> CHR ''u''"
  shows "read_chars (CHR 92 # e # r) = prepend [x] (read_chars r)"
  using assms by (simp add: read_chars.simps)

lemma unhex_table: "list_all (\<lambda>n. unhex (hexdigit n) = Some n) [0..<16]"
  by code_simp

lemma unhex_hexdigit: "unhex (hexdigit n) = Some (n mod 16)"
proof -
  have "n mod 16 \<in> set [0..<16]" by simp
  with unhex_table have "unhex (hexdigit (n mod 16)) = Some (n mod 16)" unfolding list_all_iff by blast
  then show ?thesis by (simp only: hexdigit_mod)
qed

lemma unhex4_ascii:
  assumes "b < 128"
  shows "unhex4 (CHR ''0'') (CHR ''0'') (hexdigit (b div 16)) (hexdigit b) = Some b"
proof -
  have "unhex (CHR ''0'') = Some 0" by (simp add: unhex_def)
  then have "unhex4 (CHR ''0'') (CHR ''0'') (hexdigit (b div 16)) (hexdigit b)
      = Some (b div 16 mod 16 * 16 + b mod 16)"
    by (simp only: unhex4_def unhex_hexdigit prod.case option.case mult_zero_left add_0)
  moreover have "b div 16 < 16" using assms by (simp add: less_mult_imp_div_less)
  ultimately show ?thesis by simp
qed

lemma char_of_quotes: "char_of (34 :: nat) = CHR 34" "char_of (92 :: nat) = CHR 92"
  by (simp_all add: char_of_eq_iff_small)

lemma read_ascii:
  assumes "b < 128"
  shows "read_chars (json_ascii b @ r) = prepend [char_of b] (read_chars r)"
proof -
  have "read_chars (CHR 92 # ''u00'' @ [hexdigit (b div 16), hexdigit b] @ r)
      = prepend [char_of b] (read_chars r)"
    using read_unicode [OF unhex4_ascii [OF assms]] assms by (simp add: utf8_rune_def)
  with assms show ?thesis
    by (auto simp: json_ascii_def read_escape unescape_def read_raw char_of_quotes)
qed

text \<open>The separators that are escaped have one encoding each.\<close>

lemma rune_separators:
  assumes "\<forall>b\<in>set bs. b < 256" and "bs \<noteq> []" and "fst (utf8_first bs) = r" and "r = 8232 \<or> r = 8233"
  shows "take (snd (utf8_first bs)) bs = [226, 128, r - 8064]"
proof -
  have two: "lead2 b0 b1 \<Longrightarrow> rune2 b0 b1 < 2048" for b0 b1
    unfolding lead2_def rune2_def cont_byte_def by linarith
  have four: "lead4 b0 b1 b2 b3 \<Longrightarrow> 65536 \<le> rune4 b0 b1 b2 b3" for b0 b1 b2 b3
    unfolding lead4_def rune4_def cont_byte_def by linarith
  have three: "b0 = 226 \<and> b1 = 128 \<and> b2 = r - 8064" if "lead3 b0 b1 b2" "rune3 b0 b1 b2 = r" for b0 b1 b2
  proof -
    have b: "224 \<le> b0" "128 \<le> b1" "b1 \<le> 191" "128 \<le> b2" "b2 \<le> 191"
      using that(1) unfolding lead3_def cont_byte_def by auto
    obtain x y z where xyz: "b0 = 224 + x" "b1 = 128 + y" "b2 = 128 + z" "y < 64" "z < 64"
    proof
      show "b0 = 224 + (b0 - 224)" "b1 = 128 + (b1 - 128)" "b2 = 128 + (b2 - 128)" using b by simp_all
      show "b1 - 128 < 64" "b2 - 128 < 64" using b by linarith+
    qed
    have sum: "x * 4096 + y * 64 + z = r" using that(2) xyz by (simp add: rune3_def)
    then have "x = 2" using assms(4) xyz(4,5) by linarith
    with sum assms(4) have "y = 0" by linarith
    with sum \<open>x = 2\<close> xyz assms(4) show ?thesis by auto
  qed
  show ?thesis
    using assms(2-) two four three
    by (fastforce simp: utf8_first_def numeral_3_eq_3 numeral_2_eq_2 split: list.splits if_splits)
qed

lemma utf8_first_high:
  "bs \<noteq> [] \<Longrightarrow> 128 \<le> hd bs \<Longrightarrow> b \<in> set (take (snd (utf8_first bs)) bs) \<Longrightarrow> 128 \<le> b"
  using utf8_first_high_rest [of "hd bs" b "tl bs"] utf8_first_width [of bs]
  by (cases bs; cases "snd (utf8_first bs)") auto

lemma read_separators:
  "read_chars (CHR 92 # ''u2028'' @ r) = prepend (map char_of [226, 128, 168 :: nat]) (read_chars r)"
  "read_chars (CHR 92 # ''u2029'' @ r) = prepend (map char_of [226, 128, 169 :: nat]) (read_chars r)"
proof -
  have "unhex4 (CHR ''2'') (CHR ''0'') (CHR ''2'') (CHR ''8'') = Some 8232"
    "unhex4 (CHR ''2'') (CHR ''0'') (CHR ''2'') (CHR ''9'') = Some 8233"
    by (simp_all add: unhex4_def unhex_def)
  then show "read_chars (CHR 92 # ''u2028'' @ r) = prepend (map char_of [226, 128, 168 :: nat]) (read_chars r)"
    "read_chars (CHR 92 # ''u2029'' @ r) = prepend (map char_of [226, 128, 169 :: nat]) (read_chars r)"
    by (simp_all add: read_unicode utf8_rune_def)
qed

lemma read_replacement:
  "read_chars (CHR 92 # ''ufffd'' @ r) = prepend (map char_of [239, 191, 189 :: nat]) (read_chars r)"
proof -
  have "unhex4 (CHR ''f'') (CHR ''f'') (CHR ''f'') (CHR ''d'') = Some 65533"
    by (simp add: unhex4_def unhex_def)
  then show ?thesis by (simp add: read_unicode utf8_rune_def)
qed

text \<open>One character of the written string, and what reading it gives.\<close>

definition json_chunk :: "nat list \<Rightarrow> string" where
  "json_chunk bs =
     (let (u, w) = utf8_first bs
      in if hd bs < 128 then json_ascii (hd bs)
         else if u = 65533 \<and> w = 1 then CHR 92 # ''ufffd''
         else if u = 8232 then CHR 92 # ''u2028''
         else if u = 8233 then CHR 92 # ''u2029''
         else map char_of (take w bs))"

definition fixed_chunk :: "nat list \<Rightarrow> nat list" where
  "fixed_chunk bs =
     (if utf8_first bs = (65533, 1) then [239, 191, 189] else take (snd (utf8_first bs)) bs)"

lemma json_bytes_chunk:
  "bs \<noteq> [] \<Longrightarrow> json_bytes bs = json_chunk bs @ json_bytes (drop (snd (utf8_first bs)) bs)"
  by (subst json_bytes.simps) (simp add: json_chunk_def split: prod.split)

lemma utf8_fix_chunk:
  "bs \<noteq> [] \<Longrightarrow> utf8_fix bs = fixed_chunk bs @ utf8_fix (drop (snd (utf8_first bs)) bs)"
  by (subst utf8_fix.simps) (simp add: fixed_chunk_def)

lemma read_chunk:
  assumes "\<forall>b\<in>set bs. b < 256" and ne: "bs \<noteq> []"
  shows "read_chars (json_chunk bs @ r) = prepend (map char_of (fixed_chunk bs)) (read_chars r)"
proof (cases "hd bs < 128")
  case True
  then have "utf8_first bs = (hd bs, 1)" using ne by (cases bs) auto
  with True ne show ?thesis by (cases bs) (auto simp: json_chunk_def fixed_chunk_def read_ascii)
next
  case high: False
  obtain u w where uw: "utf8_first bs = (u, w)" by (cases "utf8_first bs")
  have "128 \<le> b \<and> b < 256" if "b \<in> set (take w bs)" for b
    using that utf8_first_high [OF ne, of b] high uw assms(1) by (auto dest: in_set_takeD)
  then have raw: "read_chars (map char_of (take w bs) @ r)
      = prepend (map char_of (take w bs)) (read_chars r)" by (intro read_high) auto
  note sep = rune_separators [OF assms, of u]
  show ?thesis
    using high raw sep uw read_separators [of r] read_replacement [of r]
    by (auto simp: json_chunk_def fixed_chunk_def)
qed

lemma read_json_bytes:
  "\<forall>b\<in>set bs. b < 256 \<Longrightarrow>
     read_chars (json_bytes bs @ CHR 34 # r) = Some (map char_of (utf8_fix bs), r)"
proof (induction bs rule: utf8_fix.induct)
  case (1 bs)
  show ?case
  proof (cases "bs = []")
    case True
    then show ?thesis by (simp add: json_bytes.simps utf8_fix.simps)
  next
    case False
    with 1 have "read_chars (json_bytes (drop (snd (utf8_first bs)) bs) @ CHR 34 # r)
        = Some (map char_of (utf8_fix (drop (snd (utf8_first bs)) bs)), r)"
      by (auto dest: in_set_dropD)
    with read_chunk [OF "1.prems" False] show ?thesis
      by (simp add: json_bytes_chunk [OF False] utf8_fix_chunk [OF False])
  qed
qed

lemma read_json_string: "read_chars (tl (json_string s) @ r) = Some (string_fix s, r)"
proof -
  have "\<forall>b\<in>set (map byte_of s). b < 256" by simp
  from read_json_bytes [OF this, of r] show ?thesis
    by (simp add: json_string_def string_fix_def)
qed

lemma utf8_fix_ok: "utf8_ok bs \<Longrightarrow> utf8_fix bs = bs"
proof (induction bs rule: utf8_fix.induct)
  case (1 bs)
  then show ?case by (cases "bs = []") (auto simp: utf8_ok.simps [of bs] utf8_fix.simps)
qed

lemma string_fix_valid [simp]: "utf8_ValidString s \<Longrightarrow> string_fix s = s"
  by (simp add: string_fix_def utf8_ValidString_def utf8_fix_ok comp_def)

lemma utf8_ok_ascii: "\<forall>b\<in>set bs. b < 128 \<Longrightarrow> utf8_ok bs"
  by (induction bs) (simp_all add: utf8_ok.simps)

lemma utf8_ascii: "\<forall>c\<in>set s. byte_of c < 128 \<Longrightarrow> utf8_ValidString s"
  by (simp add: utf8_ValidString_def utf8_ok_ascii)

lemma utf8_literal: "list_all (\<lambda>c. byte_of c < 128) s \<Longrightarrow> utf8_ValidString s"
  by (simp add: utf8_ascii list_all_iff)

text \<open>
  A string that is not valid UTF-8 is shorter once read and written again, so no reader that
  compares the two accepts it.
\<close>

lemma utf8_first_take:
  assumes "bs \<noteq> []" and "utf8_first bs \<noteq> (65533, 1)"
  shows "utf8_first (take (snd (utf8_first bs)) bs @ r) = utf8_first bs"
proof -
  from assms(1) obtain b0 r0 where bs: "bs = b0 # r0" by (cases bs) auto
  show ?thesis
    using assms(2) unfolding bs utf8_first_def
    by (auto simp: numeral_2_eq_2 numeral_3_eq_3 split: list.splits if_splits)
qed

lemma json_bytes_fixed:
  assumes "bs \<noteq> []"
  shows "json_bytes (fixed_chunk bs @ r) =
    (if utf8_first bs = (65533, 1) then map char_of [239, 191, 189 :: nat] else json_chunk bs) @ json_bytes r"
proof (cases "utf8_first bs = (65533, 1)")
  case True
  have "lead3 239 191 189" and "rune3 239 191 189 = 65533" and "\<not> lead2 239 191"
    by (simp_all add: lead3_def rune3_def lead2_def cont_byte_def)
  then have first: "utf8_first (239 # 191 # 189 # r) = (65533, 3)" by (simp add: utf8_first_def)
  have "json_bytes (239 # 191 # 189 # r) = json_chunk (239 # 191 # 189 # r) @ json_bytes r"
    using json_bytes_chunk [of "239 # 191 # 189 # r"] first by simp
  with True first show ?thesis by (simp add: fixed_chunk_def json_chunk_def)
next
  case False
  let ?w = "snd (utf8_first bs)" and ?bs = "take (snd (utf8_first bs)) bs @ r"
  have w: "0 < ?w" "?bs \<noteq> []" "hd ?bs = hd bs" using utf8_first_width [OF assms] assms by (auto simp: hd_append)
  have le: "?w \<le> length bs"
    using False by (auto simp: utf8_first_def split: list.splits if_splits)
  have "json_bytes ?bs = json_chunk ?bs @ json_bytes r"
    using json_bytes_chunk [OF w(2)] utf8_first_take [OF assms False] le by simp
  moreover have "json_chunk ?bs = json_chunk bs"
  proof -
    obtain u v where uv: "utf8_first bs = (u, v)" by (cases "utf8_first bs")
    with utf8_first_take [OF assms False] have "utf8_first (take v bs @ r) = (u, v)" by simp
    with uv w(3) le show ?thesis by (simp add: json_chunk_def)
  qed
  ultimately show ?thesis using False by (simp add: fixed_chunk_def)
qed

lemma json_bytes_utf8_fix:
  "length (json_bytes (utf8_fix bs)) \<le> length (json_bytes bs)
     \<and> (\<not> utf8_ok bs \<longrightarrow> length (json_bytes (utf8_fix bs)) < length (json_bytes bs))"
proof (induction bs rule: utf8_fix.induct)
  case (1 bs)
  show ?case
  proof (cases "bs = []")
    case True
    then show ?thesis by (simp add: utf8_fix.simps utf8_ok.simps)
  next
    case False
    have "hd bs \<ge> 128" if "utf8_first bs = (65533, 1)"
      using that False by (cases bs) (auto simp: not_less [symmetric])
    then have "length (json_chunk bs) = 6" if "utf8_first bs = (65533, 1)"
      using that by (simp add: json_chunk_def not_less)
    with 1 [OF False] json_bytes_fixed [OF False] show ?thesis
      by (auto simp: json_bytes_chunk [OF False] utf8_fix_chunk [OF False] utf8_ok.simps [of bs] False)
  qed
qed

lemma json_string_fix:
  "length (json_string (string_fix s)) \<le> length (json_string s)"
  "\<not> utf8_ValidString s \<Longrightarrow> length (json_string (string_fix s)) < length (json_string s)"
proof -
  have "map of_char (string_fix s) = map (\<lambda>b. b mod 256) (utf8_fix (map byte_of s))"
    by (simp add: string_fix_def)
  moreover have fixed: "\<forall>b\<in>set bs. b < 256 \<Longrightarrow> \<forall>b\<in>set (utf8_fix bs). b < 256" for bs
  proof (induction bs rule: utf8_fix.induct)
    case (1 bs)
    show ?case
    proof (cases "bs = []")
      case False
      from 1 False have "\<forall>b\<in>set (utf8_fix (drop (snd (utf8_first bs)) bs)). b < 256"
        by (meson in_set_dropD)
      with 1 False show ?thesis
        by (auto simp: utf8_fix_chunk fixed_chunk_def dest: in_set_takeD split: if_splits)
    qed (simp add: utf8_fix.simps)
  qed
  have "map (\<lambda>b. b mod 256) (utf8_fix (map byte_of s)) = utf8_fix (map byte_of s)"
    using fixed [of "map byte_of s"] by (intro map_idI) auto
  ultimately have "map of_char (string_fix s) = utf8_fix (map byte_of s)" by simp
  then show "length (json_string (string_fix s)) \<le> length (json_string s)"
    and "\<not> utf8_ValidString s \<Longrightarrow> length (json_string (string_fix s)) < length (json_string s)"
    using json_bytes_utf8_fix [of "map byte_of s"] by (simp_all add: json_string_def utf8_ValidString_def)
qed

section \<open>Integers\<close>

definition dec_digit :: "char \<Rightarrow> bool" where
  "dec_digit c \<longleftrightarrow> 48 \<le> byte_of c \<and> byte_of c \<le> 57"

definition dec_value :: "string \<Rightarrow> nat" where
  "dec_value s = foldl (\<lambda>n c. 10 * n + (byte_of c - 48)) 0 s"

definition read_int :: "string \<Rightarrow> (int \<times> string) option" where
  "read_int s =
     (let negative = s \<noteq> [] \<and> hd s = CHR ''-'';
          body = (if negative then tl s else s);
          digits = takeWhile dec_digit body
      in if digits = [] then None
         else Some (if negative then - int (dec_value digits) else int (dec_value digits),
                    dropWhile dec_digit body))"

text \<open>What may follow a number.\<close>

definition stops :: "string \<Rightarrow> bool" where
  "stops r \<longleftrightarrow> r = [] \<or> \<not> dec_digit (hd r)"

lemma dec_value_snoc: "dec_value (s @ [c]) = 10 * dec_value s + (byte_of c - 48)"
  by (simp add: dec_value_def)

lemma dec_digits_facts:
  "dec_value (dec_digits n) = n \<and> dec_digits n \<noteq> [] \<and> (\<forall>c\<in>set (dec_digits n). dec_digit c)"
proof (induction n rule: dec_digits.induct)
  case (1 n)
  have d: "dec_digit (char_of (48 + k))" "byte_of (char_of (48 + k)) - 48 = k" if "k < 10" for k :: nat
    using that by (auto simp: dec_digit_def)
  show ?case
  proof (cases "n < 10")
    case True
    then show ?thesis
      using d [of n] dec_value_snoc [of "[]"] by (simp add: dec_digits.simps [of n] dec_value_def)
  next
    case False
    with 1 d [of "n mod 10"] show ?thesis
      by (auto simp: dec_digits.simps [of n] dec_value_snoc)
  qed
qed

lemma digits_then_stop:
  assumes "\<forall>c\<in>set ds. dec_digit c" and "stops r"
  shows "takeWhile dec_digit (ds @ r) = ds" and "dropWhile dec_digit (ds @ r) = r"
proof -
  have "takeWhile dec_digit r = []" "dropWhile dec_digit r = r"
    using assms(2) by (cases r; simp add: stops_def)+
  with assms(1) show "takeWhile dec_digit (ds @ r) = ds" "dropWhile dec_digit (ds @ r) = r" by auto
qed

lemma read_dec_int:
  assumes "stops r"
  shows "read_int (dec_int i @ r) = Some (i, r)"
proof -
  note f = dec_digits_facts and s = digits_then_stop [OF _ assms]
  have minus: "hd (dec_digits n @ r) \<noteq> CHR ''-''" for n
    using f [of n] by (cases "dec_digits n") (auto simp: dec_digit_def)
  show ?thesis
    using f [of "nat i"] f [of "nat (- i)"] minus [of "nat i"] s(1) [of "dec_digits (nat i)"]
      s(2) [of "dec_digits (nat i)"] s(1) [of "dec_digits (nat (- i))"] s(2) [of "dec_digits (nat (- i))"]
    by (auto simp: read_int_def dec_int_def Let_def)
qed

lemma dec_int_hd: "dec_int i \<noteq> [] \<and> (hd (dec_int i) = CHR ''-'' \<or> dec_digit (hd (dec_int i)))"
  using dec_digits_facts [of "nat i"] by (cases "dec_digits (nat i)") (auto simp: dec_int_def)


section \<open>Values\<close>

text \<open>
  The first argument bounds the nesting; the length of the input is always enough
  (\<open>json_need_length\<close>).
\<close>

fun json_value :: "nat \<Rightarrow> string \<Rightarrow> (json \<times> string) option"
and json_items :: "nat \<Rightarrow> string \<Rightarrow> (json list \<times> string) option"
and json_fields :: "nat \<Rightarrow> string \<Rightarrow> ((string \<times> json) list \<times> string) option" where
  "json_value 0 s = None"
| "json_value (Suc n) s =
     (case s of
        [] \<Rightarrow> None
      | c # r \<Rightarrow>
          if c = CHR 34 then map_option (\<lambda>(t, r1). (JStr t, r1)) (read_chars r)
          else if c = CHR ''['' then
            (if r \<noteq> [] \<and> hd r = CHR '']'' then Some (JArr [], tl r)
             else map_option (\<lambda>(xs, r1). (JArr xs, r1)) (json_items n r))
          else if c = CHR ''{'' then
            (if r \<noteq> [] \<and> hd r = CHR ''}'' then Some (JObj [], tl r)
             else map_option (\<lambda>(fs, r1). (JObj fs, r1)) (json_fields n r))
          else if c = CHR ''-'' \<or> dec_digit c then map_option (\<lambda>(i, r1). (JInt i, r1)) (read_int s)
          else if take 4 s = ''true'' then Some (JBool True, drop 4 s)
          else if take 5 s = ''false'' then Some (JBool False, drop 5 s)
          else if take 4 s = ''null'' then Some (JNull, drop 4 s)
          else None)"
| "json_items 0 s = None"
| "json_items (Suc n) s =
     (case json_value n s of
        Some (x, c # r) \<Rightarrow>
          if c = CHR '','' then map_option (\<lambda>(xs, r1). (x # xs, r1)) (json_items n r)
          else if c = CHR '']'' then Some ([x], r)
          else None
      | _ \<Rightarrow> None)"
| "json_fields 0 s = None"
| "json_fields (Suc n) s =
     (if s = [] \<or> hd s \<noteq> CHR 34 then None
      else (case read_chars (tl s) of
              Some (k, d # r) \<Rightarrow>
                if d \<noteq> CHR '':'' then None
                else (case json_value n r of
                        Some (v, c # r1) \<Rightarrow>
                          if c = CHR '','' then map_option (\<lambda>(fs, r2). ((k, v) # fs, r2)) (json_fields n r1)
                          else if c = CHR ''}'' then Some ([(k, v)], r1)
                          else None
                      | _ \<Rightarrow> None)
            | _ \<Rightarrow> None))"

declare json_value.simps(2) [simp del] json_items.simps(2) [simp del] json_fields.simps(2) [simp del]

text \<open>\<open>Decode\<close> followed by the end of input.\<close>

definition json_Decode :: "string \<Rightarrow> json option" where
  "json_Decode s = (case json_value (length s) s of Some (j, []) \<Rightarrow> Some j | _ \<Rightarrow> None)"

text \<open>All strings of a value are valid UTF-8.\<close>

fun json_clean :: "json \<Rightarrow> bool" where
  "json_clean (JStr s) = utf8_ValidString s"
| "json_clean (JInt i) = True"
| "json_clean (JBool b) = True"
| "json_clean JNull = True"
| "json_clean (JArr xs) = list_all json_clean xs"
| "json_clean (JObj fs) = list_all (\<lambda>(k, v). utf8_ValidString k \<and> json_clean v) fs"

fun json_fix :: "json \<Rightarrow> json" where
  "json_fix (JStr s) = JStr (string_fix s)"
| "json_fix (JArr xs) = JArr (map json_fix xs)"
| "json_fix (JObj fs) = JObj (map (\<lambda>(k, v). (string_fix k, json_fix v)) fs)"
| "json_fix j = j"

fun json_need :: "json \<Rightarrow> nat" where
  "json_need (JArr xs) = Suc (foldr (\<lambda>n m. Suc (max n m)) (map json_need xs) 0)"
| "json_need (JObj fs) = Suc (foldr (\<lambda>n m. Suc (max n m)) (map (\<lambda>(k, v). json_need v) fs) 0)"
| "json_need _ = 1"

lemma Marshal_hd: "json_Marshal j \<noteq> [] \<and> hd (json_Marshal j) \<noteq> CHR '']'' \<and> hd (json_Marshal j) \<noteq> CHR ''}''"
proof (cases j)
  case (JInt i)
  with dec_int_hd [of i] show ?thesis by (auto simp: dec_digit_def)
qed (auto simp: json_string_def)

lemma json_string_reads:
  obtains q where "json_string s = CHR 34 # q" and "\<And>r. read_chars (q @ r) = Some (string_fix s, r)"
  using that [of "tl (json_string s)"] read_json_string by (simp add: json_string_def)

lemma stops_punct [simp]:
  "stops (CHR '','' # r)" "stops (CHR '']'' # r)" "stops (CHR ''}'' # r)" "stops []"
  by (simp_all add: stops_def dec_digit_def)

definition reads :: "json \<Rightarrow> bool" where
  "reads j \<longleftrightarrow> (\<forall>n r. json_need j \<le> n \<longrightarrow> stops r \<longrightarrow> json_value n (json_Marshal j @ r) = Some (json_fix j, r))"

lemma json_items_Marshal:
  "list_all reads xs \<Longrightarrow> xs \<noteq> [] \<Longrightarrow> foldr (\<lambda>n m. Suc (max n m)) (map json_need xs) 0 \<le> n \<Longrightarrow>
     json_items n (json_commas (map json_Marshal xs) @ CHR '']'' # r) = Some (map json_fix xs, r)"
proof (induction xs arbitrary: n)
  case (Cons x xs)
  then obtain m where m: "n = Suc m" by (cases n) auto
  have x: "json_value m (json_Marshal x @ CHR '','' # r1) = Some (json_fix x, CHR '','' # r1)"
      "json_value m (json_Marshal x @ CHR '']'' # r1) = Some (json_fix x, CHR '']'' # r1)" for r1
    using Cons.prems m by (simp_all add: reads_def)
  show ?case
  proof (cases xs)
    case Nil
    with x m show ?thesis by (simp add: json_items.simps)
  next
    case (Cons y ys)
    with x m Cons.IH [of m] Cons.prems show ?thesis by (simp add: json_items.simps)
  qed
qed simp

lemma json_fields_Marshal:
  "list_all (\<lambda>(k, v). reads v) fs \<Longrightarrow> fs \<noteq> [] \<Longrightarrow>
     foldr (\<lambda>n m. Suc (max n m)) (map (\<lambda>(k, v). json_need v) fs) 0 \<le> n \<Longrightarrow>
     json_fields n (json_commas (map (\<lambda>(k, v). json_string k @ CHR '':'' # json_Marshal v) fs) @ CHR ''}'' # r)
       = Some (map (\<lambda>(k, v). (string_fix k, json_fix v)) fs, r)"
proof (induction fs arbitrary: n)
  case (Cons f fs)
  obtain k v where f: "f = (k, v)" by (cases f)
  from Cons obtain m where m: "n = Suc m" by (cases n) (auto simp: f)
  have v: "json_value m (json_Marshal v @ CHR '','' # r1) = Some (json_fix v, CHR '','' # r1)"
      "json_value m (json_Marshal v @ CHR ''}'' # r1) = Some (json_fix v, CHR ''}'' # r1)" for r1
    using Cons.prems m f by (simp_all add: reads_def)
  obtain q where k: "json_string k = CHR 34 # q" "\<And>r. read_chars (q @ r) = Some (string_fix k, r)"
    using json_string_reads [of k] by blast
  have step: "json_fields n (json_string k @ CHR '':'' # json_Marshal v @ c # r1) =
      (if c = CHR '','' then map_option (\<lambda>(fs, r2). ((string_fix k, json_fix v) # fs, r2)) (json_fields m r1)
       else if c = CHR ''}'' then Some ([(string_fix k, json_fix v)], r1) else None)" if "c = CHR '','' \<or> c = CHR ''}''" for c r1
    using that k v m by (auto simp: json_fields.simps)
  show ?case
  proof (cases fs)
    case Nil
    with step [of "CHR ''}''" r] f show ?thesis by simp
  next
    case (Cons g gs)
    with step [of "CHR '',''"] Cons.IH [of m] Cons.prems f m show ?thesis by simp
  qed
qed simp

lemma Marshal_reads: "reads j"
proof (induction j)
  case (JStr s)
  obtain q where "json_string s = CHR 34 # q" "\<And>r. read_chars (q @ r) = Some (string_fix s, r)"
    using json_string_reads [of s] by blast
  then show ?case
    unfolding reads_def by (auto simp: json_value.simps gr0_conv_Suc Suc_le_eq)
next
  case (JInt i)
  show ?case unfolding reads_def
  proof (intro allI impI)
    fix n r
    assume "json_need (JInt i) \<le> n" "stops r"
    moreover from dec_int_hd [of i] obtain c d where "dec_int i = c # d" "c = CHR ''-'' \<or> dec_digit c"
      by (cases "dec_int i") auto
    ultimately show "json_value n (json_Marshal (JInt i) @ r) = Some (json_fix (JInt i), r)"
      using read_dec_int [of r i] by (cases n) (auto simp: json_value.simps dec_digit_def)
  qed
next
  case (JBool b)
  show ?case unfolding reads_def by (auto simp: json_value.simps dec_digit_def gr0_conv_Suc Suc_le_eq)
next
  case JNull
  show ?case unfolding reads_def by (auto simp: json_value.simps dec_digit_def gr0_conv_Suc Suc_le_eq)
next
  case (JArr xs)
  then have xs: "list_all reads xs" by (auto simp: list_all_iff)
  show ?case unfolding reads_def
  proof (intro allI impI)
    fix n r
    assume n: "json_need (JArr xs) \<le> n"
    then obtain m where m: "n = Suc m" by (cases n) auto
    show "json_value n (json_Marshal (JArr xs) @ r) = Some (json_fix (JArr xs), r)"
    proof (cases xs)
      case Nil
      with m show ?thesis by (simp add: json_value.simps)
    next
      case (Cons y ys)
      have "hd (json_commas (map json_Marshal xs) @ CHR '']'' # r) \<noteq> CHR '']''"
        using Marshal_hd [of y] Cons by (cases ys) auto
      with json_items_Marshal [OF xs, of m r] n m Cons show ?thesis by (simp add: json_value.simps)
    qed
  qed
next
  case (JObj fs)
  then have fs: "list_all (\<lambda>(k, v). reads v) fs" by (fastforce simp: list_all_iff)
  show ?case unfolding reads_def
  proof (intro allI impI)
    fix n r
    assume n: "json_need (JObj fs) \<le> n"
    then obtain m where m: "n = Suc m" by (cases n) auto
    show "json_value n (json_Marshal (JObj fs) @ r) = Some (json_fix (JObj fs), r)"
    proof (cases fs)
      case Nil
      with m show ?thesis by (simp add: json_value.simps)
    next
      case (Cons y ys)
      have "hd (json_commas (map (\<lambda>(k, v). json_string k @ CHR '':'' # json_Marshal v) fs) @ CHR ''}'' # r)
          \<noteq> CHR ''}''"
        using Cons by (cases ys; cases y) (auto simp: json_string_def)
      with json_fields_Marshal [OF fs, of m r] n m Cons show ?thesis by (simp add: json_value.simps)
    qed
  qed
qed

lemma foldr_need_bound:
  "\<forall>x\<in>set xs. need x \<le> length (text x) \<Longrightarrow> xs \<noteq> [] \<Longrightarrow>
     foldr (\<lambda>n m. Suc (max n m)) (map need xs) 0 \<le> Suc (length (json_commas (map text xs)))"
proof (induction xs)
  case (Cons x xs)
  then show ?case by (cases xs) auto
qed simp

lemma json_need_length: "json_need j \<le> length (json_Marshal j)"
proof (induction j)
  case (JInt i)
  then show ?case using dec_int_hd [of i] by (cases "dec_int i") auto
next
  case (JArr xs)
  then show ?case using foldr_need_bound [of xs json_need json_Marshal] by (cases "xs = []") auto
next
  case (JObj fs)
  have "(\<lambda>(k, v). json_need v) f \<le> length ((\<lambda>(k, v). json_string k @ CHR '':'' # json_Marshal v) f)"
    if "f \<in> set fs" for f
  proof -
    obtain k v where f: "f = (k, v)" by (cases f)
    then have "json_need v \<le> length (json_Marshal v)" using JObj [OF that, of v] by simp
    with f show ?thesis by simp
  qed
  then show ?case
    using foldr_need_bound [of fs "\<lambda>(k, v). json_need v" "\<lambda>(k, v). json_string k @ CHR '':'' # json_Marshal v"]
    by (cases "fs = []") auto
qed (auto simp: json_string_def)

lemma json_fix_clean [simp]: "json_clean j \<Longrightarrow> json_fix j = j"
proof (induction j)
  case (JArr xs)
  then show ?case by (auto simp: list_all_iff intro!: map_idI)
next
  case (JObj fs)
  then show ?case by (fastforce simp: list_all_iff intro!: map_idI)
qed auto

lemma json_Decode_fix: "json_Decode (json_Marshal j) = Some (json_fix j)"
  using Marshal_reads [of j] json_need_length [of j] unfolding reads_def
  by (metis append_Nil2 json_Decode_def list.case(1) option.case(2) prod.case stops_punct(4))

lemma json_Decode_Marshal: "json_clean j \<Longrightarrow> json_Decode (json_Marshal j) = Some j"
  by (simp add: json_Decode_fix)

lemma json_Marshal_inject:
  "json_clean j \<Longrightarrow> json_clean j' \<Longrightarrow> json_Marshal j = json_Marshal j' \<longleftrightarrow> j = j'"
  by (metis json_Decode_Marshal option.inject)


section \<open>Fields of an object\<close>

text \<open>
  Decoding into a struct: a missing field keeps its zero value, a field of the wrong type or out
  of the range of its integer type is an error. A field that appears twice or is unknown is not
  reported here; the marshalled record then differs from the input.
\<close>

definition json_object :: "json \<Rightarrow> (string \<times> json) list option" where
  "json_object j = (case j of JObj fs \<Rightarrow> Some fs | _ \<Rightarrow> None)"

definition field_str :: "(string \<times> json) list \<Rightarrow> string \<Rightarrow> string option" where
  "field_str fs k = (case map_of fs k of None \<Rightarrow> Some [] | Some (JStr s) \<Rightarrow> Some s | _ \<Rightarrow> None)"

definition field_int :: "(string \<times> json) list \<Rightarrow> string \<Rightarrow> int option" where
  "field_int fs k =
     (case map_of fs k of
        None \<Rightarrow> Some 0
      | Some (JInt i) \<Rightarrow> if - (2 ^ 63) \<le> i \<and> i < 2 ^ 63 then Some i else None
      | _ \<Rightarrow> None)"

definition field_uint :: "nat \<Rightarrow> (string \<times> json) list \<Rightarrow> string \<Rightarrow> nat option" where
  "field_uint w fs k =
     (case map_of fs k of
        None \<Rightarrow> Some 0
      | Some (JInt i) \<Rightarrow> if 0 \<le> i \<and> i < 2 ^ w then Some (nat i) else None
      | _ \<Rightarrow> None)"

definition field_bool :: "(string \<times> json) list \<Rightarrow> string \<Rightarrow> bool option" where
  "field_bool fs k = (case map_of fs k of None \<Rightarrow> Some False | Some (JBool b) \<Rightarrow> Some b | _ \<Rightarrow> None)"

text \<open>A slice: \<open>None\<close> for nil, which is marshalled as \<open>null\<close>.\<close>

definition field_list :: "(json \<Rightarrow> 'a option) \<Rightarrow> (string \<times> json) list \<Rightarrow> string \<Rightarrow> 'a list option option" where
  "field_list item fs k =
     (case map_of fs k of
        None \<Rightarrow> Some None
      | Some JNull \<Rightarrow> Some None
      | Some (JArr xs) \<Rightarrow> map_option Some (those (map item xs))
      | _ \<Rightarrow> None)"

definition json_list :: "('a \<Rightarrow> json) \<Rightarrow> 'a list option \<Rightarrow> json" where
  "json_list item xs = (case xs of None \<Rightarrow> JNull | Some ys \<Rightarrow> JArr (map item ys))"

definition item_str :: "json \<Rightarrow> string option" where
  "item_str j = (case j of JStr s \<Rightarrow> Some s | JNull \<Rightarrow> Some [] | _ \<Rightarrow> None)"

lemma field_simps [simp]:
  "map_of fs k = Some (JStr s) \<Longrightarrow> field_str fs k = Some s"
  "map_of fs k = Some (JInt i) \<Longrightarrow> int64 i \<Longrightarrow> field_int fs k = Some i"
  "map_of fs k = Some (JInt (int n)) \<Longrightarrow> n < 2 ^ w \<Longrightarrow> field_uint w fs k = Some n"
  "map_of fs k = Some (JBool b) \<Longrightarrow> field_bool fs k = Some b"
  by (simp_all add: field_str_def field_int_def field_uint_def field_bool_def int64_def)

lemma those_map_inverse: "\<forall>x\<in>set xs. f (g x) = Some x \<Longrightarrow> those (map f (map g xs)) = Some xs"
  by (induction xs) auto

lemma field_list_json_list:
  assumes "map_of fs k = Some (json_list g xs)" and "\<forall>ys. xs = Some ys \<longrightarrow> (\<forall>y\<in>set ys. f (g y) = Some y)"
  shows "field_list f fs k = Some xs"
  using assms those_map_inverse [of _ f g]
  by (cases xs) (simp_all add: field_list_def json_list_def)

lemma json_clean_list [simp]:
  "json_clean (json_list g xs) \<longleftrightarrow> (case xs of None \<Rightarrow> True | Some ys \<Rightarrow> list_all (\<lambda>y. json_clean (g y)) ys)"
  by (simp add: json_list_def list_all_iff split: option.split)

section \<open>Size\<close>

lemma length_json_ascii: "length (json_ascii b) \<le> 6"
  by (simp add: json_ascii_def)

lemma length_json_bytes: "length (json_bytes bs) \<le> 6 * length bs"
proof (induction bs rule: json_bytes.induct)
  case (1 bs)
  show ?case
  proof (cases "bs = []")
    case True
    then show ?thesis by (simp add: json_bytes.simps)
  next
    case False
    define u w where "u = fst (utf8_first bs)" and "w = snd (utf8_first bs)"
    have uw: "utf8_first bs = (u, w)" and w: "0 < w"
      using utf8_first_width [OF False] by (simp_all add: u_def w_def)
    have IH: "length (json_bytes (drop w bs)) \<le> 6 * (length bs - w)"
      using 1 [OF False uw [symmetric] refl] uw by simp
    define k where "k = length (if hd bs < 128 then json_ascii (hd bs)
      else if u = 65533 \<and> w = 1 then CHR 92 # ''ufffd'' else if u = 8232 then CHR 92 # ''u2028''
      else if u = 8233 then CHR 92 # ''u2029'' else map char_of (take w bs))"
    have "length (json_bytes bs) = k + length (json_bytes (drop w bs))"
      unfolding k_def by (subst json_bytes.simps) (simp add: False uw)
    moreover have "k \<le> 6 * min w (length bs)"
      unfolding k_def using length_json_ascii [of "hd bs"] w False
      by (cases "length bs") (auto simp: min_def)
    ultimately show ?thesis using IH by (auto simp: min_def split: if_splits)
  qed
qed

lemma length_json_string: "length (json_string s) \<le> 6 * length s + 2"
  using length_json_bytes [of "map of_char s"] by (simp add: json_string_def)

lemma length_dec_digits: "n < 10 ^ k \<Longrightarrow> 0 < k \<Longrightarrow> length (dec_digits n) \<le> k"
proof (induction n arbitrary: k rule: dec_digits.induct)
  case (1 n)
  show ?case
  proof (cases "n < 10")
    case False
    then obtain m where m: "k = Suc m" "0 < m" using "1.prems" by (cases k; cases "k - 1") auto
    then have "n div 10 < 10 ^ m" using "1.prems" by (simp add: less_mult_imp_div_less mult.commute)
    with 1 False m show ?thesis by (simp add: dec_digits.simps [of n])
  qed (use 1 in \<open>simp add: dec_digits.simps [of n]\<close>)
qed

lemma length_dec_int:
  assumes "- (10 ^ 20) < i" and "i < 10 ^ 20"
  shows "length (dec_int i) \<le> 21"
proof -
  have "nat i < 10 ^ 20" "nat (- i) < 10 ^ 20" using assms by simp_all
  then show ?thesis
    using length_dec_digits [of "nat i" 20] length_dec_digits [of "nat (- i)" 20] by (simp add: dec_int_def)
qed

text \<open>A bound on the marshalled length that does not look at the characters.\<close>

fun json_bound :: "json \<Rightarrow> nat" where
  "json_bound (JStr s) = 6 * length s + 2"
| "json_bound (JInt i) = length (dec_int i)"
| "json_bound (JBool b) = 5"
| "json_bound JNull = 4"
| "json_bound (JArr xs) = 2 + sum_list (map (\<lambda>x. json_bound x + 1) xs)"
| "json_bound (JObj fs) = 2 + sum_list (map (\<lambda>(k, v). 6 * length k + json_bound v + 4) fs)"

lemma length_json_commas: "length (json_commas xs) \<le> sum_list (map (\<lambda>x. length x + 1) xs)"
  by (induction xs rule: json_commas.induct) auto

lemma length_json_Marshal: "length (json_Marshal j) \<le> json_bound j"
proof (induction j)
  case (JStr s)
  then show ?case using length_json_string [of s] by simp
next
  case (JArr xs)
  have "sum_list (map (\<lambda>x. length x + 1) (map json_Marshal xs)) \<le> sum_list (map (\<lambda>x. json_bound x + 1) xs)"
    using JArr by (auto simp: comp_def intro!: sum_list_mono)
  then show ?case using length_json_commas [of "map json_Marshal xs"] by simp
next
  case (JObj fs)
  let ?text = "\<lambda>(k, v). json_string k @ CHR '':'' # json_Marshal v"
  have "length (?text f) + 1 \<le> (\<lambda>(k, v). 6 * length k + json_bound v + 4) f" if "f \<in> set fs" for f
  proof -
    obtain k v where f: "f = (k, v)" by (cases f)
    then have "length (json_Marshal v) \<le> json_bound v" using JObj [OF that, of v] by simp
    with f length_json_string [of k] show ?thesis by simp
  qed
  then have "sum_list (map (\<lambda>x. length x + 1) (map ?text fs))
      \<le> sum_list (map (\<lambda>(k, v). 6 * length k + json_bound v + 4) fs)"
    by (auto simp: comp_def intro!: sum_list_mono)
  then show ?case using length_json_commas [of "map ?text fs"] by simp
qed auto

text \<open>A tighter bound for values whose strings need no escape.\<close>

definition json_plain_char :: "char \<Rightarrow> bool" where
  "json_plain_char c \<longleftrightarrow> 32 \<le> byte_of c \<and> byte_of c < 128 \<and> byte_of c \<notin> {34, 38, 60, 62, 92}"

fun json_plain :: "json \<Rightarrow> bool" where
  "json_plain (JStr s) = list_all json_plain_char s"
| "json_plain (JArr xs) = list_all json_plain xs"
| "json_plain (JObj fs) = list_all (\<lambda>(k, v). list_all json_plain_char k \<and> json_plain v) fs"
| "json_plain _ = True"

fun json_plain_bound :: "json \<Rightarrow> nat" where
  "json_plain_bound (JStr s) = length s + 2"
| "json_plain_bound (JInt i) = length (dec_int i)"
| "json_plain_bound (JBool b) = 5"
| "json_plain_bound JNull = 4"
| "json_plain_bound (JArr xs) = 2 + sum_list (map (\<lambda>x. json_plain_bound x + 1) xs)"
| "json_plain_bound (JObj fs) = 2 + sum_list (map (\<lambda>(k, v). length k + json_plain_bound v + 4) fs)"

lemma length_json_string_plain: "list_all json_plain_char s \<Longrightarrow> length (json_string s) = length s + 2"
proof -
  assume "list_all json_plain_char s"
  then have "length (json_bytes (map of_char s)) = length s"
  proof (induction s)
    case Nil
    then show ?case by (simp add: json_bytes.simps)
  next
    case (Cons c s)
    then have "byte_of c < 128" "length (json_ascii (byte_of c)) = 1"
      by (auto simp: json_plain_char_def json_ascii_def)
    with Cons show ?case by (subst json_bytes.simps) simp
  qed
  then show ?thesis by (simp add: json_string_def)
qed

lemma length_json_plain: "json_plain j \<Longrightarrow> length (json_Marshal j) \<le> json_plain_bound j"
proof (induction j)
  case (JStr s)
  then show ?case by (simp add: length_json_string_plain)
next
  case (JArr xs)
  have "sum_list (map (\<lambda>x. length x + 1) (map json_Marshal xs)) \<le> sum_list (map (\<lambda>x. json_plain_bound x + 1) xs)"
    using JArr by (auto simp: comp_def list_all_iff intro!: sum_list_mono)
  then show ?case using length_json_commas [of "map json_Marshal xs"] by simp
next
  case (JObj fs)
  let ?text = "\<lambda>(k, v). json_string k @ CHR '':'' # json_Marshal v"
  have "length (?text f) + 1 \<le> (\<lambda>(k, v). length k + json_plain_bound v + 4) f" if "f \<in> set fs" for f
  proof -
    obtain k v where f: "f = (k, v)" by (cases f)
    with that JObj.prems have "json_plain v" "list_all json_plain_char k" by (auto simp: list_all_iff)
    with f JObj.IH [OF that, of v] show ?thesis by (simp add: length_json_string_plain)
  qed
  then have "sum_list (map (\<lambda>x. length x + 1) (map ?text fs))
      \<le> sum_list (map (\<lambda>(k, v). length k + json_plain_bound v + 4) fs)"
    by (auto simp: comp_def intro!: sum_list_mono)
  then show ?case using length_json_commas [of "map ?text fs"] by simp
qed auto

lemma sum_list_le: "(\<forall>x\<in>set xs. f x \<le> b) \<Longrightarrow> sum_list (map f xs) \<le> length xs * (b :: nat)"
  by (induction xs) auto

end
