(* ===== verification/Canonical_Codec.thy ===== *)
theory Canonical_Codec
  imports Json_Decode Cp_Errors "HOL-Library.Monad_Syntax"
begin

text \<open>
  What the parsers of the control plane have in common. Each checks the size of its input, decodes
  it into a record with unknown fields disallowed, checks for the end of the input, marshals the
  record and compares: \<open>parse_canonical\<close>. The locale \<open>canonical_codec\<close> is the contract between a
  record's JSON form and its decoder; its lemmas are that parsing inverts marshalling and that
  nothing but the marshalled form is accepted.
\<close>

definition parse_canonical ::
    "nat \<Rightarrow> error \<Rightarrow> (json \<Rightarrow> 'r option) \<Rightarrow> ('r \<Rightarrow> json) \<Rightarrow> string \<Rightarrow> error + 'r" where
  "parse_canonical limit err of_json to_json encoded =
     (if length encoded = 0 \<or> length encoded > limit then Inl err
      else (case Option.bind (json_Decode encoded) of_json of
              None \<Rightarrow> Inl err
            | Some record \<Rightarrow>
                if json_Marshal (to_json record) \<noteq> encoded then Inl err else Inr record))"

definition encode_bounded :: "nat \<Rightarrow> error \<Rightarrow> json \<Rightarrow> error + string" where
  "encode_bounded limit err j =
     (let encoded = json_Marshal j in if length encoded > limit then Inl err else Inr encoded)"

lemma encode_bounded_Inr:
  "encode_bounded limit err j = Inr s \<longleftrightarrow> s = json_Marshal j \<and> length s \<le> limit"
  by (auto simp: encode_bounded_def Let_def)

lemma parse_canonical_InrD:
  "parse_canonical limit err of_json to_json s = Inr r \<Longrightarrow>
     json_Marshal (to_json r) = s \<and> 0 < length s \<and> length s \<le> limit"
  by (auto simp: parse_canonical_def split: if_splits option.splits)

locale canonical_codec =
  fixes to_json :: "'r \<Rightarrow> json" and of_json :: "json \<Rightarrow> 'r option" and ok :: "'r \<Rightarrow> bool"
  assumes inverse: "ok r \<Longrightarrow> of_json (to_json r) = Some r"
    and clean: "ok r \<Longrightarrow> json_clean (to_json r)"
begin

lemma parse_Marshal:
  assumes "ok r" and "length (json_Marshal (to_json r)) \<le> limit"
  shows "parse_canonical limit err of_json to_json (json_Marshal (to_json r)) = Inr r"
  using assms Marshal_hd [of "to_json r"] json_Decode_Marshal [OF clean [OF assms(1)]] inverse [OF assms(1)]
  by (simp add: parse_canonical_def)

lemma Marshal_inject:
  assumes "ok r" and "ok r'" and "json_Marshal (to_json r) = json_Marshal (to_json r')"
  shows "r = r'"
  using assms json_Marshal_inject [OF clean clean] inverse by (metis option.inject)

end

text \<open>A loop over the named values of an enumeration, as every \<open>parse...Kind\<close> has one.\<close>

definition parse_named :: "'k list \<Rightarrow> ('k \<Rightarrow> string) \<Rightarrow> error \<Rightarrow> string \<Rightarrow> error + 'k" where
  "parse_named kinds name err value =
     (case find (\<lambda>k. name k = value) kinds of Some k \<Rightarrow> Inr k | None \<Rightarrow> Inl err)"

lemma parse_named_Inr:
  assumes "parse_named kinds name err value = Inr k"
  shows "k \<in> set kinds" and "name k = value"
  using assms by (auto simp: parse_named_def find_Some_iff split: option.splits)

lemma parse_named_name:
  assumes "k \<in> set kinds" and "inj_on name (set kinds)"
  shows "parse_named kinds name err (name k) = Inr k"
proof -
  have "find (\<lambda>k'. name k' = name k) kinds \<noteq> None" using assms(1) by (auto simp: find_None_iff)
  then obtain k' where k': "find (\<lambda>k'. name k' = name k) kinds = Some k'" by blast
  then have "name k' = name k" "k' \<in> set kinds" by (auto simp: find_Some_iff)
  with assms have "k' = k" by (simp add: inj_on_def)
  with k' show ?thesis by (simp add: parse_named_def)
qed

text \<open>
  What each codec comes to: the value has an encoding, and that text is the only one the parser
  accepts for it.
\<close>

lemma exact_codecI:
  assumes "\<exists>s. enc = Inr s" and "\<And>s. enc = Inr s \<Longrightarrow> parse s = Inr x" and "\<And>s. parse s = Inr x \<Longrightarrow> enc = Inr s"
  shows "\<exists>s. enc = Inr s \<and> (\<forall>s'. parse s' = Inr x \<longleftrightarrow> s' = s)"
  using assms by (metis sum.inject(2))

end
