(* ===== verification/Valid_Strings.thy ===== *)
theory Valid_Strings
  imports Canonical_Codec Run_Event
begin

text \<open>
  The strings the validators admit are short and, worker names apart, ASCII, so JSON keeps them.
\<close>

definition ascii :: "string \<Rightarrow> bool" where
  "ascii s \<longleftrightarrow> (\<forall>c\<in>set s. byte_of c < 128)"

lemma ascii_utf8: "ascii s \<Longrightarrow> utf8_ValidString s"
  by (simp add: ascii_def utf8_ascii)

lemma ascii_Nil [simp]: "ascii []"
  by (simp add: ascii_def)

lemma ascii_digest: "validControlPlaneDigest s \<Longrightarrow> ascii s \<and> length s = 64"
  by (auto simp: validControlPlaneDigest_iff ascii_def lower_hex_def dest!: bspec)

lemma char_le_byte: "(c :: char) \<le> d \<Longrightarrow> byte_of c \<le> byte_of d"
  by (simp add: less_eq_char_def)

lemma ascii_scope_id: "validAuditScopeIdentifier s \<Longrightarrow> ascii s \<and> length s \<le> 128"
proof -
  have z: "byte_of c < 128" if "c \<le> CHR ''z'' \<or> c \<le> CHR ''9''" for c
    using that char_le_byte [of c "CHR ''z''"] char_le_byte [of c "CHR ''9''"] by auto
  assume "validAuditScopeIdentifier s"
  with z show ?thesis
    by (auto simp: validAuditScopeIdentifier_def ascii_def list_all_iff split: if_splits dest!: bspec)
qed

lemma task_key_chars: "validReviewTaskKey s \<Longrightarrow> c \<in> set s \<Longrightarrow> key_letter_or_digit c \<or> key_separator c"
proof -
  assume v: "validReviewTaskKey s" and "c \<in> set s"
  then obtain i where "i < length s" "s ! i = c" by (auto simp: in_set_conv_nth)
  then have "(i, c) \<in> set (zip [0..<length s] s)" by (auto simp: in_set_zip intro!: exI [of _ i])
  with v show ?thesis by (auto simp: validReviewTaskKey_def list_all_iff split: if_splits)
qed

lemma ascii_task_key: "validReviewTaskKey s \<Longrightarrow> ascii s \<and> length s \<le> 64"
proof -
  assume v: "validReviewTaskKey s"
  have "byte_of c < 128" if "key_letter_or_digit c \<or> key_separator c" for c
    using that char_le_byte [of c "CHR ''z''"] char_le_byte [of c "CHR ''9''"]
    by (auto simp: key_letter_or_digit_def key_separator_def)
  with v task_key_chars [OF v] show ?thesis by (auto simp: validReviewTaskKey_def ascii_def split: if_splits)
qed

lemma worker_length: "validWorkerIdentity s \<Longrightarrow> length s \<le> 128"
  by (simp add: validWorkerIdentity_def split: if_splits)

lemma scope_strings:
  assumes "ReviewScope_Validate H s = None"
  shows "ascii (sc_tenantID s)" "ascii (sc_repositoryID s)" "ascii (sc_reviewRunID s)"
    "length (sc_tenantID s) \<le> 128" "length (sc_repositoryID s) \<le> 128" "length (sc_reviewRunID s) \<le> 128"
    "NewReviewScope H (sc_tenantID s) (sc_repositoryID s) (sc_reviewRunID s) = Inr s"
  using assms ascii_scope_id
  by (auto simp: ReviewScope_Validate_def NewReviewScope_def deriveReviewScopeIdentity_def Let_def
      split: if_splits)

text \<open>Events: every string but the worker name, and the failure is absent or has a name.\<close>

definition digest_or_empty :: "string \<Rightarrow> bool" where
  "digest_or_empty s \<longleftrightarrow> s = [] \<or> validControlPlaneDigest s"

lemma digest_or_empty_string: "digest_or_empty s \<Longrightarrow> ascii s \<and> length s \<le> 64"
  using ascii_digest by (auto simp: digest_or_empty_def)

lemma validateFields_strings:
  assumes "validateFields e = None" and "RunEventKind_Validate (ev_kind e) = None"
  shows "ev_taskKey e = [] \<or> validReviewTaskKey (ev_taskKey e)"
    and "digest_or_empty (ev_taskIdentity e)" and "digest_or_empty (ev_leaseTokenIdentity e)"
    and "digest_or_empty (ev_outputIdentity e)"
    and "ev_workerIdentity e = [] \<or> validWorkerIdentity (ev_workerIdentity e)"
    and "ev_failure e = NoRunFailure \<or> RunFailure_String (ev_failure e) \<noteq> []"
  using assms
  by (cases "ev_kind e"; auto simp: validateFields_def validateLeaseFields_def event_hasTask_def
      hasAttemptFields_def digest_or_empty_def RunEventKind_Validate_def Let_def split: if_splits)+

lemma event_strings:
  assumes "RunEvent_Validate H e = None" and "sum256 H"
  shows "list_all (\<lambda>s. ascii s \<and> length s \<le> 64)
    [ev_identity e, ev_planIdentity e, ev_previousIdentity e, ev_taskKey e, ev_taskIdentity e,
     ev_leaseTokenIdentity e, ev_outputIdentity e]"
  using assms validateFields_strings [of e] hash_valid [OF assms(2), of "runEventPreimage e"]
    ascii_digest ascii_task_key digest_or_empty_string
  by (auto simp: RunEvent_Validate_None deriveRunEventIdentity_def split: if_splits)

lemma event_worker_length: "RunEvent_Validate H e = None \<Longrightarrow> length (ev_workerIdentity e) \<le> 128"
  using validateFields_strings(5) [of e] worker_length by (auto simp: RunEvent_Validate_None)

text \<open>Digests, scope identifiers and task keys need no escape in JSON.\<close>

lemma plain_hex: "lower_hex c \<Longrightarrow> json_plain_char c"
  by (auto simp: lower_hex_def json_plain_char_def)

lemma plain_digest: "validControlPlaneDigest s \<Longrightarrow> list_all json_plain_char s"
  by (auto simp: validControlPlaneDigest_iff list_all_iff plain_hex)

lemma plain_range:
  assumes "CHR ''a'' \<le> c \<and> c \<le> CHR ''z'' \<or> CHR ''0'' \<le> c \<and> c \<le> CHR ''9''
    \<or> c = CHR ''-'' \<or> c = CHR ''_'' \<or> c = CHR ''.'' \<or> c = CHR '':''"
  shows "json_plain_char c"
  using assms char_le_byte [of "CHR ''a''" c] char_le_byte [of c "CHR ''z''"]
    char_le_byte [of "CHR ''0''" c] char_le_byte [of c "CHR ''9''"]
  by (auto simp: json_plain_char_def)

lemma plain_scope_id:
  assumes "validAuditScopeIdentifier s"
  shows "list_all json_plain_char s"
  unfolding list_all_iff
proof
  fix c
  assume "c \<in> set s"
  with assms show "json_plain_char c"
    by (intro plain_range) (simp add: validAuditScopeIdentifier_def list_all_iff split: if_splits)
qed

lemma plain_task_key:
  assumes "validReviewTaskKey s"
  shows "list_all json_plain_char s"
  unfolding list_all_iff
proof
  fix c
  assume "c \<in> set s"
  from task_key_chars [OF assms this] show "json_plain_char c"
    by (intro plain_range) (auto simp: key_letter_or_digit_def key_separator_def)
qed

text \<open>Two plans of one tenant, repository and run have the same scope.\<close>

lemma scope_determined:
  assumes "plan_wf H p" and "plan_wf H q" and "sc_tenantID (rp_scope p) = sc_tenantID (rp_scope q)"
    and "sc_repositoryID (rp_scope p) = sc_repositoryID (rp_scope q)"
    and "sc_reviewRunID (rp_scope p) = sc_reviewRunID (rp_scope q)"
  shows "sc_identity (rp_scope p) = sc_identity (rp_scope q)"
proof -
  have "NewReviewScope H (sc_tenantID (rp_scope x)) (sc_repositoryID (rp_scope x)) (sc_reviewRunID (rp_scope x))
      = Inr (rp_scope x)" if "plan_wf H x" for x
    using scope_strings(7) plan_scope_valid ReviewRunPlan_Validate_wf [OF that] by blast
  with assms show ?thesis by (metis sum.inject(2))
qed

end
