(* ===== verification/Run_Event_Encoding.thy ===== *)
theory Run_Event_Encoding
  imports Valid_Strings
begin

text \<open>
  The canonical JSON of a journal event (controlplane/run\_event\_encoding.go).
\<close>

definition maxEncodedRunEventBytes :: nat where
  "maxEncodedRunEventBytes = 16384"

record runEventRecord =
  er_Contract :: string
  er_SchemaVersion :: int
  er_Identity :: string
  er_PlanIdentity :: string
  er_TenantID :: string
  er_RepositoryID :: string
  er_ReviewRunID :: string
  er_Sequence :: nat
  er_PreviousIdentity :: string
  er_Kind :: string
  er_TaskKey :: string
  er_TaskIdentity :: string
  er_Attempt :: nat
  er_LeaseTokenIdentity :: string
  er_WorkerIdentity :: string
  er_LeaseExpiresAtMilliseconds :: int
  er_OutputIdentity :: string
  er_Failure :: string
  er_RetryAtMilliseconds :: int
  er_OccurredAtMilliseconds :: int

definition runEventRecord_json :: "runEventRecord \<Rightarrow> json" where
  "runEventRecord_json r =
     JObj [(''contract'', JStr (er_Contract r)), (''schema_version'', JInt (er_SchemaVersion r)),
           (''identity'', JStr (er_Identity r)), (''plan_identity'', JStr (er_PlanIdentity r)),
           (''tenant_id'', JStr (er_TenantID r)), (''repository_id'', JStr (er_RepositoryID r)),
           (''review_run_id'', JStr (er_ReviewRunID r)), (''sequence'', JInt (int (er_Sequence r))),
           (''previous_identity'', JStr (er_PreviousIdentity r)), (''kind'', JStr (er_Kind r)),
           (''task_key'', JStr (er_TaskKey r)), (''task_identity'', JStr (er_TaskIdentity r)),
           (''attempt'', JInt (int (er_Attempt r))),
           (''lease_token_identity'', JStr (er_LeaseTokenIdentity r)),
           (''worker_identity'', JStr (er_WorkerIdentity r)),
           (''lease_expires_at_milliseconds'', JInt (er_LeaseExpiresAtMilliseconds r)),
           (''output_identity'', JStr (er_OutputIdentity r)), (''failure'', JStr (er_Failure r)),
           (''retry_at_milliseconds'', JInt (er_RetryAtMilliseconds r)),
           (''occurred_at_milliseconds'', JInt (er_OccurredAtMilliseconds r))]"

definition runEventRecord_decode :: "json \<Rightarrow> runEventRecord option" where
  "runEventRecord_decode j = do {
     fs \<leftarrow> json_object j;
     contract \<leftarrow> field_str fs ''contract'';
     version \<leftarrow> field_int fs ''schema_version'';
     identity \<leftarrow> field_str fs ''identity'';
     plan \<leftarrow> field_str fs ''plan_identity'';
     tenant \<leftarrow> field_str fs ''tenant_id'';
     repository \<leftarrow> field_str fs ''repository_id'';
     run \<leftarrow> field_str fs ''review_run_id'';
     sequence \<leftarrow> field_uint 64 fs ''sequence'';
     previous \<leftarrow> field_str fs ''previous_identity'';
     kind \<leftarrow> field_str fs ''kind'';
     key \<leftarrow> field_str fs ''task_key'';
     task \<leftarrow> field_str fs ''task_identity'';
     attempt \<leftarrow> field_uint 8 fs ''attempt'';
     token \<leftarrow> field_str fs ''lease_token_identity'';
     worker \<leftarrow> field_str fs ''worker_identity'';
     expires \<leftarrow> field_int fs ''lease_expires_at_milliseconds'';
     output \<leftarrow> field_str fs ''output_identity'';
     failure \<leftarrow> field_str fs ''failure'';
     retry \<leftarrow> field_int fs ''retry_at_milliseconds'';
     occurred \<leftarrow> field_int fs ''occurred_at_milliseconds'';
     Some \<lparr>er_Contract = contract, er_SchemaVersion = version, er_Identity = identity,
       er_PlanIdentity = plan, er_TenantID = tenant, er_RepositoryID = repository,
       er_ReviewRunID = run, er_Sequence = sequence, er_PreviousIdentity = previous,
       er_Kind = kind, er_TaskKey = key, er_TaskIdentity = task, er_Attempt = attempt,
       er_LeaseTokenIdentity = token, er_WorkerIdentity = worker,
       er_LeaseExpiresAtMilliseconds = expires, er_OutputIdentity = output, er_Failure = failure,
       er_RetryAtMilliseconds = retry, er_OccurredAtMilliseconds = occurred\<rparr>
   }"

definition runEventToRecord :: "RunEvent \<Rightarrow> runEventRecord" where
  "runEventToRecord e =
     \<lparr>er_Contract = ''open-trestle/review-run-event-record'', er_SchemaVersion = 1,
      er_Identity = ev_identity e, er_PlanIdentity = ev_planIdentity e,
      er_TenantID = sc_tenantID (ev_scope e), er_RepositoryID = sc_repositoryID (ev_scope e),
      er_ReviewRunID = sc_reviewRunID (ev_scope e), er_Sequence = ev_sequence e,
      er_PreviousIdentity = ev_previousIdentity e, er_Kind = RunEventKind_String (ev_kind e),
      er_TaskKey = ev_taskKey e, er_TaskIdentity = ev_taskIdentity e, er_Attempt = ev_attempt e,
      er_LeaseTokenIdentity = ev_leaseTokenIdentity e, er_WorkerIdentity = ev_workerIdentity e,
      er_LeaseExpiresAtMilliseconds = ev_leaseExpiresAtMillis e,
      er_OutputIdentity = ev_outputIdentity e, er_Failure = RunFailure_String (ev_failure e),
      er_RetryAtMilliseconds = ev_retryAtMillis e, er_OccurredAtMilliseconds = ev_occurredAtMillis e\<rparr>"

definition runEventKinds :: "RunEventKind list" where
  "runEventKinds = [RunEventOpened, RunEventTaskAvailable, RunEventTaskLeased, RunEventTaskLeaseRenewed,
     RunEventTaskSucceeded, RunEventTaskFailed, RunEventTaskSkipped, RunEventSucceeded, RunEventFailed,
     RunEventCanceled]"

definition parseRunEventKind :: "string \<Rightarrow> error + RunEventKind" where
  "parseRunEventKind value = parse_named runEventKinds RunEventKind_String ErrInvalidRunEventKind value"

definition runFailures :: "RunFailure list" where
  "runFailures = [RunFailureTransient, RunFailureResourceLimit, RunFailurePolicy, RunFailureInvalidInput,
     RunFailureCanceled, RunFailureDependency, RunFailureInternal]"

definition parseRunFailure :: "string \<Rightarrow> error + RunFailure" where
  "parseRunFailure value =
     (if value = [] then Inr NoRunFailure
      else parse_named runFailures RunFailure_String ErrInvalidRunEventFailure value)"

definition EncodeRunEvent :: "sha \<Rightarrow> RunEvent \<Rightarrow> error + string" where
  "EncodeRunEvent H event =
     check (RunEvent_Validate H event)
       (encode_bounded maxEncodedRunEventBytes ErrInvalidRunEventEncoding
          (runEventRecord_json (runEventToRecord event)))"

definition runEventFromRecord :: "sha \<Rightarrow> runEventRecord \<Rightarrow> error + RunEvent" where
  "runEventFromRecord H record =
     (if er_Contract record \<noteq> ''open-trestle/review-run-event-record'' \<or> er_SchemaVersion record \<noteq> 1
      then Inl ErrInvalidRunEventEncoding
      else (case NewReviewScope H (er_TenantID record) (er_RepositoryID record) (er_ReviewRunID record) of
              Inl _ \<Rightarrow> Inl ErrInvalidRunEventEncoding
            | Inr scope \<Rightarrow>
                and_then (parseRunEventKind (er_Kind record)) (\<lambda>kind.
                and_then (parseRunFailure (er_Failure record)) (\<lambda>failure.
                (let event =
                   \<lparr>ev_identity = er_Identity record, ev_planIdentity = er_PlanIdentity record,
                    ev_scope = scope, ev_sequence = er_Sequence record,
                    ev_previousIdentity = er_PreviousIdentity record, ev_kind = kind,
                    ev_taskKey = er_TaskKey record, ev_taskIdentity = er_TaskIdentity record,
                    ev_attempt = er_Attempt record, ev_leaseTokenIdentity = er_LeaseTokenIdentity record,
                    ev_workerIdentity = er_WorkerIdentity record,
                    ev_leaseExpiresAtMillis = er_LeaseExpiresAtMilliseconds record,
                    ev_outputIdentity = er_OutputIdentity record, ev_failure = failure,
                    ev_retryAtMillis = er_RetryAtMilliseconds record,
                    ev_occurredAtMillis = er_OccurredAtMilliseconds record\<rparr>
                 in check (RunEvent_Validate H event) (Inr event))))))"

definition ParseRunEvent :: "sha \<Rightarrow> string \<Rightarrow> error + RunEvent" where
  "ParseRunEvent H encoded =
     and_then (parse_canonical maxEncodedRunEventBytes ErrInvalidRunEventEncoding
                 runEventRecord_decode runEventRecord_json encoded)
       (runEventFromRecord H)"


section \<open>The record and its JSON\<close>

text \<open>Integers in the range of their Go types and strings that JSON keeps.\<close>

definition event_record_ok :: "runEventRecord \<Rightarrow> bool" where
  "event_record_ok r \<longleftrightarrow>
     int64 (er_SchemaVersion r) \<and> er_Sequence r < 2 ^ 64 \<and> er_Attempt r < 2 ^ 8
     \<and> int64 (er_LeaseExpiresAtMilliseconds r) \<and> int64 (er_RetryAtMilliseconds r)
     \<and> int64 (er_OccurredAtMilliseconds r)
     \<and> list_all utf8_ValidString
         [er_Contract r, er_Identity r, er_PlanIdentity r, er_TenantID r, er_RepositoryID r,
          er_ReviewRunID r, er_PreviousIdentity r, er_Kind r, er_TaskKey r, er_TaskIdentity r,
          er_LeaseTokenIdentity r, er_WorkerIdentity r, er_OutputIdentity r, er_Failure r]"

interpretation event_codec: canonical_codec runEventRecord_json runEventRecord_decode event_record_ok
proof
  fix r
  assume ok: "event_record_ok r"
  then show "runEventRecord_decode (runEventRecord_json r) = Some r"
    by (simp add: event_record_ok_def runEventRecord_decode_def runEventRecord_json_def json_object_def)
  show "json_clean (runEventRecord_json r)"
    using ok by (simp add: event_record_ok_def runEventRecord_json_def utf8_literal)
qed

section \<open>Round trips\<close>

lemma kind_string_utf8 [simp]: "utf8_ValidString (RunEventKind_String k)"
  by (cases k) (simp_all add: utf8_literal)

lemma failure_string_utf8 [simp]: "utf8_ValidString (RunFailure_String f)"
  by (cases f) (simp_all add: utf8_literal)

lemma kind_string_inj: "inj_on RunEventKind_String (set runEventKinds)"
  by (simp add: runEventKinds_def)

lemma failure_string_inj: "inj_on RunFailure_String (set runFailures)"
  by (simp add: runFailures_def)

lemma parseRunEventKind_String:
  "RunEventKind_Validate k = None \<Longrightarrow> parseRunEventKind (RunEventKind_String k) = Inr k"
  unfolding parseRunEventKind_def
  by (rule parse_named_name [OF _ kind_string_inj]) (cases k; simp add: runEventKinds_def RunEventKind_Validate_def)

lemma parseRunFailure_String:
  assumes "f = NoRunFailure \<or> RunFailure_String f \<noteq> []"
  shows "parseRunFailure (RunFailure_String f) = Inr f"
proof (cases "f = NoRunFailure")
  case False
  with assms have "f \<in> set runFailures" by (cases f) (simp_all add: runFailures_def)
  from parse_named_name [OF this failure_string_inj] assms False show ?thesis
    by (auto simp: parseRunFailure_def)
qed (simp add: parseRunFailure_def)

lemma parseRunFailure_Inr: "parseRunFailure v = Inr f \<Longrightarrow> RunFailure_String f = v"
  by (auto simp: parseRunFailure_def dest: parse_named_Inr split: if_splits)

lemma parseRunEventKind_Inr: "parseRunEventKind v = Inr k \<Longrightarrow> RunEventKind_String k = v"
  unfolding parseRunEventKind_def by (rule parse_named_Inr)

lemma event_record_ok_of:
  assumes "sum256 H" and "RunEvent_Validate H e = None" and "event_ints e"
    and "utf8_ValidString (ev_workerIdentity e)"
  shows "event_record_ok (runEventToRecord e)"
proof -
  have "validRunMillis (ev_occurredAtMillis e)" "ReviewScope_Validate H (ev_scope e) = None"
    using assms(2) validateFields_time by (auto simp: RunEvent_Validate_None)
  then show ?thesis
    using event_strings [OF assms(2,1)] scope_strings [of H "ev_scope e"] assms(3,4)
    by (simp add: event_record_ok_def runEventToRecord_def event_ints_def ascii_utf8 int64_millis utf8_literal)
      (simp add: int64_def)
qed

lemma runEventFromRecord_ToRecord:
  assumes "RunEvent_Validate H e = None"
  shows "runEventFromRecord H (runEventToRecord e) = Inr e"
proof -
  have v: "ReviewScope_Validate H (ev_scope e) = None" "RunEventKind_Validate (ev_kind e) = None"
      "validateFields e = None"
    using assms by (auto simp: RunEvent_Validate_None)
  note parse = parseRunEventKind_String [OF v(2)]
    parseRunFailure_String [OF validateFields_strings(6) [OF v(3,2)]]
  show ?thesis
    using assms parse scope_strings(7) [OF v(1)]
    by (cases e) (simp add: runEventFromRecord_def runEventToRecord_def check_def)
qed

lemma runEventToRecord_FromRecord:
  assumes "runEventFromRecord H r = Inr e"
  shows "runEventToRecord e = r" and "RunEvent_Validate H e = None"
proof -
  from assms obtain scope kind failure where p:
      "NewReviewScope H (er_TenantID r) (er_RepositoryID r) (er_ReviewRunID r) = Inr scope"
      "parseRunEventKind (er_Kind r) = Inr kind" "parseRunFailure (er_Failure r) = Inr failure"
      "er_Contract r = ''open-trestle/review-run-event-record''" "er_SchemaVersion r = 1"
    by (auto simp: runEventFromRecord_def and_then_Inr_iff split: if_splits sum.splits)
  with assms show "runEventToRecord e = r" "RunEvent_Validate H e = None"
    using parseRunEventKind_Inr [OF p(2)] parseRunFailure_Inr [OF p(3)]
    by (auto simp: runEventFromRecord_def runEventToRecord_def NewReviewScope_def Let_def check_def
        split: if_splits option.splits)
qed

text \<open>
  An event that was encoded is parsed back as it was, provided its worker name
  is valid UTF-8.
\<close>

lemma event_roundtrip:
  assumes "sum256 H" and "EncodeRunEvent H e = Inr s" and "event_ints e"
    and "utf8_ValidString (ev_workerIdentity e)"
  shows "ParseRunEvent H s = Inr e"
proof -
  have v: "RunEvent_Validate H e = None" and s: "s = json_Marshal (runEventRecord_json (runEventToRecord e))"
      "length s \<le> maxEncodedRunEventBytes"
    using assms(2) by (auto simp: EncodeRunEvent_def check_def encode_bounded_Inr split: option.splits)
  from event_codec.parse_Marshal [OF event_record_ok_of [OF assms(1) v assms(3,4)]] s
  show ?thesis by (simp add: ParseRunEvent_def runEventFromRecord_ToRecord [OF v])
qed

text \<open>
  The parser accepts one text per event: whatever it accepts is what the encoder
  writes for the event it returns.
\<close>

lemma event_canonical:
  assumes "ParseRunEvent H s = Inr e"
  shows "EncodeRunEvent H e = Inr s"
proof -
  from assms obtain r where r: "parse_canonical maxEncodedRunEventBytes ErrInvalidRunEventEncoding
      runEventRecord_decode runEventRecord_json s = Inr r" "runEventFromRecord H r = Inr e"
    by (auto simp: ParseRunEvent_def and_then_Inr_iff)
  from parse_canonical_InrD [OF r(1)] runEventToRecord_FromRecord [OF r(2)] show ?thesis
    by (auto simp: EncodeRunEvent_def check_def encode_bounded_Inr)
qed

lemma int64_length: "int64 i \<Longrightarrow> length (dec_int i) \<le> 21"
  by (rule length_dec_int) (auto simp: int64_def)

lemma uint_length: "n < 2 ^ 64 \<Longrightarrow> length (dec_int (int n)) \<le> 21"
  by (rule length_dec_int) auto

lemma kind_string_length: "length (RunEventKind_String k) \<le> 18"
  by (cases k) simp_all

lemma failure_string_length: "length (RunFailure_String f) \<le> 14"
  by (cases f) simp_all

text \<open>
  The size limit never stops a valid event: every event the validator accepts has
  an encoding, whatever its strings.
\<close>

lemma event_encodable:
  assumes "sum256 H" and "RunEvent_Validate H e = None" and "event_ints e"
  shows "\<exists>s. EncodeRunEvent H e = Inr s"
proof -
  have v: "ReviewScope_Validate H (ev_scope e) = None" "validRunMillis (ev_occurredAtMillis e)"
    using assms(2) validateFields_time by (auto simp: RunEvent_Validate_None)
  have one: "length (dec_int 1) \<le> 21" using length_dec_int [of 1] by simp
  have "ev_attempt e < 2 ^ 64" using assms(3) by (auto simp: event_ints_def)
  note ints = this uint_length [OF this] assms(3) [unfolded event_ints_def]
  have "json_bound (runEventRecord_json (runEventToRecord e)) \<le> maxEncodedRunEventBytes"
    using event_strings [OF assms(2,1)] event_worker_length [OF assms(2)] scope_strings(4-6) [OF v(1)]
      kind_string_length [of "ev_kind e"] failure_string_length [of "ev_failure e"] one ints(2)
      uint_length [of "ev_sequence e"] int64_length [of "ev_leaseExpiresAtMillis e"]
      int64_length [of "ev_retryAtMillis e"] int64_length [OF int64_millis [OF v(2)]] ints(3)
    by (simp add: runEventRecord_json_def runEventToRecord_def maxEncodedRunEventBytes_def)
  with length_json_Marshal [of "runEventRecord_json (runEventToRecord e)"] assms(2)
  show ?thesis by (auto simp: EncodeRunEvent_def check_def encode_bounded_def Let_def)
qed

text \<open>
  A worker name that is not valid UTF-8 passes every validator and is encoded, but
  what is written is refused by the parser: the event can be stored and never read back.
\<close>

lemma event_unreadable:
  assumes "sum256 H" and "EncodeRunEvent H e = Inr s" and "event_ints e"
    and "\<not> utf8_ValidString (ev_workerIdentity e)"
  shows "ParseRunEvent H s = Inl ErrInvalidRunEventEncoding"
proof -
  define r where "r = runEventToRecord e"
  define r' where "r' = r\<lparr>er_WorkerIdentity := string_fix (er_WorkerIdentity r)\<rparr>"
  have v: "RunEvent_Validate H e = None" and s: "s = json_Marshal (runEventRecord_json r)"
    using assms(2) by (auto simp: EncodeRunEvent_def check_def encode_bounded_Inr r_def split: option.splits)

  have w: "validRunMillis (ev_occurredAtMillis e)" "ReviewScope_Validate H (ev_scope e) = None"
    using v validateFields_time by (auto simp: RunEvent_Validate_None)
  have strings: "list_all utf8_ValidString
         [er_Contract r, er_Identity r, er_PlanIdentity r, er_TenantID r, er_RepositoryID r,
          er_ReviewRunID r, er_PreviousIdentity r, er_Kind r, er_TaskKey r, er_TaskIdentity r,
          er_LeaseTokenIdentity r, er_OutputIdentity r, er_Failure r]"
    using event_strings [OF v assms(1)] scope_strings [OF w(2)]
    by (simp add: r_def runEventToRecord_def ascii_utf8 utf8_literal)
  then have fix_json: "json_fix (runEventRecord_json r) = runEventRecord_json r'"
    by (simp add: runEventRecord_json_def r'_def utf8_literal)
  have decode: "runEventRecord_decode (runEventRecord_json r') = Some r'"
    using assms(3) int64_millis [OF w(1)]
    by (simp add: runEventRecord_decode_def runEventRecord_json_def json_object_def r'_def r_def
        runEventToRecord_def event_ints_def) (simp add: int64_def)
  have "length (json_Marshal (runEventRecord_json r')) < length s"
    using json_string_fix(2) [OF assms(4)]
    by (simp add: s runEventRecord_json_def r'_def r_def runEventToRecord_def)
  then have "parse_canonical maxEncodedRunEventBytes ErrInvalidRunEventEncoding
      runEventRecord_decode runEventRecord_json s = Inl ErrInvalidRunEventEncoding"
    using decode by (auto simp: parse_canonical_def s json_Decode_fix fix_json)
  then show ?thesis by (simp add: ParseRunEvent_def)
qed

text \<open>
  C29. Every valid event with a worker name in UTF-8 has an encoding within the size limit,
  and that text is the only one the parser accepts for it.
\<close>

theorem event_exact:
  assumes "sum256 H" and "RunEvent_Validate H e = None" and "event_ints e"
    and "utf8_ValidString (ev_workerIdentity e)"
  shows "\<exists>s. EncodeRunEvent H e = Inr s \<and> (\<forall>s'. ParseRunEvent H s' = Inr e \<longleftrightarrow> s' = s)"
  using event_encodable [OF assms(1-3)] event_roundtrip [OF assms(1) _ assms(3,4)] event_canonical
  by (rule exact_codecI)

end
