(* ===== verification/Task_Wire.thy ===== *)
theory Task_Wire
  imports Run_Event_Encoding Coordinator
begin

text \<open>
  The wire form of leases and completions (controlplane/task\_wire.go).
\<close>

definition maxEncodedTaskLeaseBytes :: nat where
  "maxEncodedTaskLeaseBytes = 8192"

definition maxEncodedTaskCompletionBytes :: nat where
  "maxEncodedTaskCompletionBytes = 2048"

section \<open>Leases\<close>

record taskLeaseRecord =
  lr_Contract :: string
  lr_SchemaVersion :: int
  lr_Identity :: string
  lr_PlanIdentity :: string
  lr_TaskKey :: string
  lr_TaskIdentity :: string
  lr_HandlerIdentity :: string
  lr_WorkerIdentity :: string
  lr_Attempt :: nat
  lr_Token :: string
  lr_TokenIdentity :: string
  lr_EventIdentity :: string
  lr_ExpiresAtMilliseconds :: int

definition taskLeaseRecord_json :: "taskLeaseRecord \<Rightarrow> json" where
  "taskLeaseRecord_json r =
     JObj [(''contract'', JStr (lr_Contract r)), (''schema_version'', JInt (lr_SchemaVersion r)),
           (''identity'', JStr (lr_Identity r)), (''plan_identity'', JStr (lr_PlanIdentity r)),
           (''task_key'', JStr (lr_TaskKey r)), (''task_identity'', JStr (lr_TaskIdentity r)),
           (''handler_identity'', JStr (lr_HandlerIdentity r)),
           (''worker_identity'', JStr (lr_WorkerIdentity r)), (''attempt'', JInt (int (lr_Attempt r))),
           (''token'', JStr (lr_Token r)), (''token_identity'', JStr (lr_TokenIdentity r)),
           (''event_identity'', JStr (lr_EventIdentity r)),
           (''expires_at_milliseconds'', JInt (lr_ExpiresAtMilliseconds r))]"

definition taskLeaseRecord_decode :: "json \<Rightarrow> taskLeaseRecord option" where
  "taskLeaseRecord_decode j = do {
     fs \<leftarrow> json_object j;
     contract \<leftarrow> field_str fs ''contract'';
     version \<leftarrow> field_int fs ''schema_version'';
     identity \<leftarrow> field_str fs ''identity'';
     plan \<leftarrow> field_str fs ''plan_identity'';
     key \<leftarrow> field_str fs ''task_key'';
     task \<leftarrow> field_str fs ''task_identity'';
     handler \<leftarrow> field_str fs ''handler_identity'';
     worker \<leftarrow> field_str fs ''worker_identity'';
     attempt \<leftarrow> field_uint 8 fs ''attempt'';
     token \<leftarrow> field_str fs ''token'';
     token_identity \<leftarrow> field_str fs ''token_identity'';
     event \<leftarrow> field_str fs ''event_identity'';
     expires \<leftarrow> field_int fs ''expires_at_milliseconds'';
     Some \<lparr>lr_Contract = contract, lr_SchemaVersion = version, lr_Identity = identity,
       lr_PlanIdentity = plan, lr_TaskKey = key, lr_TaskIdentity = task, lr_HandlerIdentity = handler,
       lr_WorkerIdentity = worker, lr_Attempt = attempt, lr_Token = token,
       lr_TokenIdentity = token_identity, lr_EventIdentity = event, lr_ExpiresAtMilliseconds = expires\<rparr>
   }"

definition taskLeaseToRecord :: "TaskLease \<Rightarrow> taskLeaseRecord" where
  "taskLeaseToRecord lease =
     \<lparr>lr_Contract = ''open-trestle/review-task-lease'', lr_SchemaVersion = 1,
      lr_Identity = tl_identity lease, lr_PlanIdentity = tl_planIdentity lease,
      lr_TaskKey = tl_taskKey lease, lr_TaskIdentity = tl_taskIdentity lease,
      lr_HandlerIdentity = tl_handlerIdentity lease, lr_WorkerIdentity = tl_workerIdentity lease,
      lr_Attempt = tl_attempt lease, lr_Token = tl_token lease,
      lr_TokenIdentity = tl_tokenIdentity lease, lr_EventIdentity = tl_eventIdentity lease,
      lr_ExpiresAtMilliseconds = tl_expiresAtMillis lease\<rparr>"

definition EncodeTaskLease :: "sha \<Rightarrow> TaskLease \<Rightarrow> error + string" where
  "EncodeTaskLease H lease =
     check (TaskLease_Validate H lease)
       (encode_bounded maxEncodedTaskLeaseBytes ErrInvalidTaskLeaseEncoding
          (taskLeaseRecord_json (taskLeaseToRecord lease)))"

definition taskLeaseFromRecord :: "sha \<Rightarrow> taskLeaseRecord \<Rightarrow> error + TaskLease" where
  "taskLeaseFromRecord H record =
     (if lr_Contract record \<noteq> ''open-trestle/review-task-lease'' \<or> lr_SchemaVersion record \<noteq> 1
      then Inl ErrInvalidTaskLeaseEncoding
      else (let lease =
              \<lparr>tl_identity = lr_Identity record, tl_planIdentity = lr_PlanIdentity record,
               tl_taskKey = lr_TaskKey record, tl_taskIdentity = lr_TaskIdentity record,
               tl_handlerIdentity = lr_HandlerIdentity record,
               tl_workerIdentity = lr_WorkerIdentity record, tl_token = lr_Token record,
               tl_tokenIdentity = lr_TokenIdentity record, tl_eventIdentity = lr_EventIdentity record,
               tl_attempt = lr_Attempt record, tl_expiresAtMillis = lr_ExpiresAtMilliseconds record\<rparr>
            in check (TaskLease_Validate H lease) (Inr lease)))"

definition ParseTaskLease :: "sha \<Rightarrow> string \<Rightarrow> error + TaskLease" where
  "ParseTaskLease H encoded =
     and_then (parse_canonical maxEncodedTaskLeaseBytes ErrInvalidTaskLeaseEncoding
                 taskLeaseRecord_decode taskLeaseRecord_json encoded)
       (taskLeaseFromRecord H)"

section \<open>Completions\<close>

record taskCompletionRecord =
  cr_Contract :: string
  cr_SchemaVersion :: int
  cr_Identity :: string
  cr_Status :: string
  cr_OutputIdentity :: string
  cr_Failure :: string

definition taskCompletionRecord_json :: "taskCompletionRecord \<Rightarrow> json" where
  "taskCompletionRecord_json r =
     JObj [(''contract'', JStr (cr_Contract r)), (''schema_version'', JInt (cr_SchemaVersion r)),
           (''identity'', JStr (cr_Identity r)), (''status'', JStr (cr_Status r)),
           (''output_identity'', JStr (cr_OutputIdentity r)), (''failure'', JStr (cr_Failure r))]"

definition taskCompletionRecord_decode :: "json \<Rightarrow> taskCompletionRecord option" where
  "taskCompletionRecord_decode j = do {
     fs \<leftarrow> json_object j;
     contract \<leftarrow> field_str fs ''contract'';
     version \<leftarrow> field_int fs ''schema_version'';
     identity \<leftarrow> field_str fs ''identity'';
     status \<leftarrow> field_str fs ''status'';
     output \<leftarrow> field_str fs ''output_identity'';
     failure \<leftarrow> field_str fs ''failure'';
     Some \<lparr>cr_Contract = contract, cr_SchemaVersion = version, cr_Identity = identity,
       cr_Status = status, cr_OutputIdentity = output, cr_Failure = failure\<rparr>
   }"

definition taskCompletionToRecord :: "TaskCompletion \<Rightarrow> taskCompletionRecord" where
  "taskCompletionToRecord completion =
     \<lparr>cr_Contract = ''open-trestle/review-task-completion'', cr_SchemaVersion = 1,
      cr_Identity = tc_identity completion, cr_Status = TaskCompletionStatus_String (tc_status completion),
      cr_OutputIdentity = tc_outputIdentity completion,
      cr_Failure = RunFailure_String (tc_failure completion)\<rparr>"

definition taskCompletionStatuses :: "TaskCompletionStatus list" where
  "taskCompletionStatuses = [TaskCompletionSucceeded, TaskCompletionFailed]"

definition parseTaskCompletionStatus :: "string \<Rightarrow> error + TaskCompletionStatus" where
  "parseTaskCompletionStatus value =
     parse_named taskCompletionStatuses TaskCompletionStatus_String ErrInvalidTaskCompletionEncoding value"

definition EncodeTaskCompletion :: "sha \<Rightarrow> TaskCompletion \<Rightarrow> error + string" where
  "EncodeTaskCompletion H completion =
     check (TaskCompletion_Validate H completion)
       (encode_bounded maxEncodedTaskCompletionBytes ErrInvalidTaskCompletionEncoding
          (taskCompletionRecord_json (taskCompletionToRecord completion)))"

definition taskCompletionFromRecord :: "sha \<Rightarrow> taskCompletionRecord \<Rightarrow> error + TaskCompletion" where
  "taskCompletionFromRecord H record =
     (if cr_Contract record \<noteq> ''open-trestle/review-task-completion'' \<or> cr_SchemaVersion record \<noteq> 1
      then Inl ErrInvalidTaskCompletionEncoding
      else and_then (parseTaskCompletionStatus (cr_Status record)) (\<lambda>status.
           and_then (parseRunFailure (cr_Failure record)) (\<lambda>failure.
             (let completion = \<lparr>tc_identity = cr_Identity record, tc_status = status,
                                tc_outputIdentity = cr_OutputIdentity record, tc_failure = failure\<rparr>
              in check (TaskCompletion_Validate H completion) (Inr completion)))))"

definition ParseTaskCompletion :: "sha \<Rightarrow> string \<Rightarrow> error + TaskCompletion" where
  "ParseTaskCompletion H encoded =
     and_then (parse_canonical maxEncodedTaskCompletionBytes ErrInvalidTaskCompletionEncoding
                 taskCompletionRecord_decode taskCompletionRecord_json encoded)
       (taskCompletionFromRecord H)"


section \<open>Round trips\<close>

definition lease_record_ok :: "taskLeaseRecord \<Rightarrow> bool" where
  "lease_record_ok r \<longleftrightarrow>
     int64 (lr_SchemaVersion r) \<and> lr_Attempt r < 2 ^ 8 \<and> int64 (lr_ExpiresAtMilliseconds r)
     \<and> list_all utf8_ValidString
         [lr_Contract r, lr_Identity r, lr_PlanIdentity r, lr_TaskKey r, lr_TaskIdentity r,
          lr_HandlerIdentity r, lr_WorkerIdentity r, lr_Token r, lr_TokenIdentity r, lr_EventIdentity r]"

interpretation lease_codec: canonical_codec taskLeaseRecord_json taskLeaseRecord_decode lease_record_ok
proof
  fix r
  assume "lease_record_ok r"
  then show "taskLeaseRecord_decode (taskLeaseRecord_json r) = Some r" "json_clean (taskLeaseRecord_json r)"
    by (simp_all add: lease_record_ok_def taskLeaseRecord_decode_def taskLeaseRecord_json_def
        json_object_def utf8_literal)
qed

definition completion_record_ok :: "taskCompletionRecord \<Rightarrow> bool" where
  "completion_record_ok r \<longleftrightarrow>
     int64 (cr_SchemaVersion r)
     \<and> list_all utf8_ValidString
         [cr_Contract r, cr_Identity r, cr_Status r, cr_OutputIdentity r, cr_Failure r]"

interpretation completion_codec:
  canonical_codec taskCompletionRecord_json taskCompletionRecord_decode completion_record_ok
proof
  fix r
  assume "completion_record_ok r"
  then show "taskCompletionRecord_decode (taskCompletionRecord_json r) = Some r"
      "json_clean (taskCompletionRecord_json r)"
    by (simp_all add: completion_record_ok_def taskCompletionRecord_decode_def
        taskCompletionRecord_json_def json_object_def utf8_literal)
qed

lemma validLeaseToken_digest: "validLeaseToken = validControlPlaneDigest"
  by (rule ext) (simp add: validLeaseToken_def validControlPlaneDigest_def)

lemma token_identity_digest: "sum256 H \<Longrightarrow> validControlPlaneDigest (deriveLeaseTokenIdentity H token)"
proof -
  assume "sum256 H"
  then have l: "length (H (leaseTokenPrefix @ token)) = 32" and "\<exists>c\<in>set (H (leaseTokenPrefix @ token)). byte_of c \<noteq> 0"
    by (auto simp: sum256_def)
  then show ?thesis
    unfolding validControlPlaneDigest_iff deriveLeaseTokenIdentity_def
    using hex_EncodeToString_zero [of "H (leaseTokenPrefix @ token)"] lower_hex_EncodeToString by fastforce
qed

lemma lease_strings:
  assumes "sum256 H" and "TaskLease_Validate H l = None"
  shows "list_all (\<lambda>s. ascii s \<and> length s \<le> 64)
      [tl_identity l, tl_planIdentity l, tl_taskKey l, tl_taskIdentity l, tl_handlerIdentity l,
       tl_token l, tl_tokenIdentity l, tl_eventIdentity l]"
    and "length (tl_workerIdentity l) \<le> 128" and "validRunMillis (tl_expiresAtMillis l)"
  using assms ascii_digest ascii_task_key worker_length hash_valid [OF assms(1)]
    token_identity_digest [OF assms(1), of "tl_token l"]
  by (auto simp: TaskLease_Validate_def Let_def validLeaseToken_digest deriveTaskLeaseIdentity_def
      split: if_splits)

text \<open>
  A lease that was encoded for a worker is parsed back as it was, secret token
  included, provided its worker name is valid UTF-8.
\<close>

lemma lease_roundtrip:
  assumes "sum256 H" and "EncodeTaskLease H l = Inr s" and "tl_attempt l < 256"
    and "utf8_ValidString (tl_workerIdentity l)"
  shows "ParseTaskLease H s = Inr l"
proof -
  have v: "TaskLease_Validate H l = None" and s: "s = json_Marshal (taskLeaseRecord_json (taskLeaseToRecord l))"
      "length s \<le> maxEncodedTaskLeaseBytes"
    using assms(2) by (auto simp: EncodeTaskLease_def check_def encode_bounded_Inr split: option.splits)
  have "lease_record_ok (taskLeaseToRecord l)"
    using lease_strings [OF assms(1) v] assms(3,4)
    by (simp add: lease_record_ok_def taskLeaseToRecord_def ascii_utf8 utf8_literal int64_millis)
      (simp add: int64_def)
  moreover have "taskLeaseFromRecord H (taskLeaseToRecord l) = Inr l"
    using v by (cases l) (simp add: taskLeaseFromRecord_def taskLeaseToRecord_def check_def)
  ultimately show ?thesis using lease_codec.parse_Marshal s by (simp add: ParseTaskLease_def)
qed

text \<open>
  A lease the coordinator issues always fits the wire limit.
\<close>

lemma lease_encodable:
  assumes "sum256 H" and "TaskLease_Validate H l = None" and "tl_attempt l < 256"
  shows "\<exists>s. EncodeTaskLease H l = Inr s"
proof -
  have one: "length (dec_int 1) \<le> 21" using length_dec_int [of 1] by simp
  have att: "length (dec_int (int (tl_attempt l))) \<le> 21" using assms(3) by (intro uint_length) simp
  have "json_bound (taskLeaseRecord_json (taskLeaseToRecord l)) \<le> maxEncodedTaskLeaseBytes"
    using lease_strings [OF assms(1,2)] one att int64_length [OF int64_millis, of "tl_expiresAtMillis l"]
    by (simp add: taskLeaseRecord_json_def taskLeaseToRecord_def maxEncodedTaskLeaseBytes_def)
  with length_json_Marshal [of "taskLeaseRecord_json (taskLeaseToRecord l)"] assms(2)
  show ?thesis by (auto simp: EncodeTaskLease_def check_def encode_bounded_def Let_def)
qed

lemma lease_canonical:
  assumes "ParseTaskLease H s = Inr l"
  shows "EncodeTaskLease H l = Inr s"
proof -
  from assms obtain r where r: "parse_canonical maxEncodedTaskLeaseBytes ErrInvalidTaskLeaseEncoding
      taskLeaseRecord_decode taskLeaseRecord_json s = Inr r" "taskLeaseFromRecord H r = Inr l"
    by (auto simp: ParseTaskLease_def and_then_Inr_iff)
  from r(2) have "r = taskLeaseToRecord l" "TaskLease_Validate H l = None"
    by (auto simp: taskLeaseFromRecord_def taskLeaseToRecord_def check_def Let_def split: if_splits option.splits)
  with parse_canonical_InrD [OF r(1)] show ?thesis
    by (auto simp: EncodeTaskLease_def check_def encode_bounded_Inr)
qed

lemma completion_strings:
  assumes "sum256 H" and "TaskCompletion_Validate H c = None"
  shows "list_all (\<lambda>s. ascii s \<and> length s \<le> 64) [tc_identity c, tc_outputIdentity c]"
    and "tc_status c \<in> set taskCompletionStatuses"
    and "tc_failure c = NoRunFailure \<or> RunFailure_String (tc_failure c) \<noteq> []"
  using assms ascii_digest hash_valid [OF assms(1)]
  by (auto simp: TaskCompletion_Validate_def Let_def deriveTaskCompletionIdentity_def
      taskCompletionStatuses_def split: if_splits)

lemma completion_exact:
  assumes "sum256 H" and "TaskCompletion_Validate H c = None"
  shows "\<exists>s. EncodeTaskCompletion H c = Inr s \<and> (\<forall>s'. ParseTaskCompletion H s' = Inr c \<longleftrightarrow> s' = s)"
proof -
  let ?j = "taskCompletionRecord_json (taskCompletionToRecord c)"
  have status: "list_all (\<lambda>c. byte_of c < 128) (TaskCompletionStatus_String (tc_status c))"
      "length (TaskCompletionStatus_String (tc_status c)) \<le> 9"
    by (cases "tc_status c"; simp)+
  have one: "length (dec_int 1) \<le> 21" using length_dec_int [of 1] by simp
  have "json_bound ?j \<le> maxEncodedTaskCompletionBytes"
    using completion_strings [OF assms] status(2) failure_string_length [of "tc_failure c"] one
    by (simp add: taskCompletionRecord_json_def taskCompletionToRecord_def maxEncodedTaskCompletionBytes_def)
  with length_json_Marshal [of ?j] have len: "length (json_Marshal ?j) \<le> maxEncodedTaskCompletionBytes"
    by linarith
  have enc: "EncodeTaskCompletion H c = Inr (json_Marshal ?j)"
    using len assms(2) by (simp add: EncodeTaskCompletion_def check_def encode_bounded_def Let_def)
  have ok: "completion_record_ok (taskCompletionToRecord c)"
    using completion_strings [OF assms] status(1)
    by (simp add: completion_record_ok_def taskCompletionToRecord_def ascii_utf8 utf8_literal int64_def)
  have "parseTaskCompletionStatus (TaskCompletionStatus_String (tc_status c)) = Inr (tc_status c)"
    unfolding parseTaskCompletionStatus_def
    by (rule parse_named_name [OF completion_strings(2) [OF assms]]) (simp add: taskCompletionStatuses_def)
  with parseRunFailure_String [OF completion_strings(3) [OF assms]] assms(2)
  have "taskCompletionFromRecord H (taskCompletionToRecord c) = Inr c"
    by (cases c) (simp add: taskCompletionFromRecord_def taskCompletionToRecord_def check_def)
  with completion_codec.parse_Marshal [OF ok len] have parse: "ParseTaskCompletion H (json_Marshal ?j) = Inr c"
    by (simp add: ParseTaskCompletion_def)
  have "s' = json_Marshal ?j" if "ParseTaskCompletion H s' = Inr c" for s'
  proof -
    from that obtain r where r: "parse_canonical maxEncodedTaskCompletionBytes ErrInvalidTaskCompletionEncoding
        taskCompletionRecord_decode taskCompletionRecord_json s' = Inr r" "taskCompletionFromRecord H r = Inr c"
      by (auto simp: ParseTaskCompletion_def and_then_Inr_iff)
    from r(2) have "r = taskCompletionToRecord c"
      by (auto simp: taskCompletionFromRecord_def taskCompletionToRecord_def and_then_Inr_iff check_def
          parseTaskCompletionStatus_def Let_def dest!: parse_named_Inr(2) parseRunFailure_Inr
          split: if_splits option.splits)
    with parse_canonical_InrD [OF r(1)] show ?thesis by simp
  qed
  with enc parse show ?thesis by blast
qed

text \<open>
  C39. Every valid lease with a worker name in UTF-8 and every valid completion has an
  encoding within the size limit, and that text is the only one the parser accepts for it; the
  secret token of a lease survives the transport.
\<close>

theorem wire_exact:
  assumes "sum256 H" and "TaskLease_Validate H l = None" and "tl_attempt l < 256"
    and "utf8_ValidString (tl_workerIdentity l)" and "TaskCompletion_Validate H c = None"
  shows "(\<exists>s. EncodeTaskLease H l = Inr s \<and> (\<forall>s'. ParseTaskLease H s' = Inr l \<longleftrightarrow> s' = s))
    \<and> (\<exists>s. EncodeTaskCompletion H c = Inr s \<and> (\<forall>s'. ParseTaskCompletion H s' = Inr c \<longleftrightarrow> s' = s))"
proof
  show "\<exists>s. EncodeTaskLease H l = Inr s \<and> (\<forall>s'. ParseTaskLease H s' = Inr l \<longleftrightarrow> s' = s)"
    using lease_encodable [OF assms(1-3)] lease_roundtrip [OF assms(1) _ assms(3,4)] lease_canonical
    by (rule exact_codecI)
qed (rule completion_exact [OF assms(1,5)])

end
