(* ===== verification/Run_Plan_Encoding.thy ===== *)
theory Run_Plan_Encoding
  imports Valid_Strings
begin

text \<open>
  The canonical JSON of a plan (controlplane/run\_plan\_encoding.go).
\<close>

definition maxEncodedReviewRunPlanBytes :: nat where
  "maxEncodedReviewRunPlanBytes = 131072"

text \<open>The dependencies are a slice, \<open>None\<close> for nil; a task without dependencies has a nil one.\<close>

record taskDefinitionRecord =
  tr_Identity :: string
  tr_Key :: string
  tr_Kind :: string
  tr_InputIdentity :: string
  tr_HandlerIdentity :: string
  tr_Dependencies :: "string list option"
  tr_MaxAttempts :: nat
  tr_RetryDelayMilliseconds :: nat
  tr_LeaseDurationMilliseconds :: nat
  tr_Required :: bool

record reviewRunPlanRecord =
  pr_Contract :: string
  pr_SchemaVersion :: int
  pr_Identity :: string
  pr_TenantID :: string
  pr_RepositoryID :: string
  pr_ReviewRunID :: string
  pr_RequestIdentity :: string
  pr_PolicyIdentity :: string
  pr_Mode :: string
  pr_Tasks :: "taskDefinitionRecord list option"

definition taskDefinitionRecord_json :: "taskDefinitionRecord \<Rightarrow> json" where
  "taskDefinitionRecord_json r =
     JObj [(''identity'', JStr (tr_Identity r)), (''key'', JStr (tr_Key r)), (''kind'', JStr (tr_Kind r)),
           (''input_identity'', JStr (tr_InputIdentity r)),
           (''handler_identity'', JStr (tr_HandlerIdentity r)),
           (''dependencies'', json_list JStr (tr_Dependencies r)),
           (''max_attempts'', JInt (int (tr_MaxAttempts r))),
           (''retry_delay_milliseconds'', JInt (int (tr_RetryDelayMilliseconds r))),
           (''lease_duration_milliseconds'', JInt (int (tr_LeaseDurationMilliseconds r))),
           (''required'', JBool (tr_Required r))]"

definition reviewRunPlanRecord_json :: "reviewRunPlanRecord \<Rightarrow> json" where
  "reviewRunPlanRecord_json r =
     JObj [(''contract'', JStr (pr_Contract r)), (''schema_version'', JInt (pr_SchemaVersion r)),
           (''identity'', JStr (pr_Identity r)), (''tenant_id'', JStr (pr_TenantID r)),
           (''repository_id'', JStr (pr_RepositoryID r)), (''review_run_id'', JStr (pr_ReviewRunID r)),
           (''request_identity'', JStr (pr_RequestIdentity r)),
           (''policy_identity'', JStr (pr_PolicyIdentity r)), (''mode'', JStr (pr_Mode r)),
           (''tasks'', json_list taskDefinitionRecord_json (pr_Tasks r))]"

definition taskDefinitionRecord_decode :: "json \<Rightarrow> taskDefinitionRecord option" where
  "taskDefinitionRecord_decode j = do {
     fs \<leftarrow> json_object j;
     identity \<leftarrow> field_str fs ''identity'';
     key \<leftarrow> field_str fs ''key'';
     kind \<leftarrow> field_str fs ''kind'';
     input \<leftarrow> field_str fs ''input_identity'';
     handler \<leftarrow> field_str fs ''handler_identity'';
     dependencies \<leftarrow> field_list item_str fs ''dependencies'';
     attempts \<leftarrow> field_uint 8 fs ''max_attempts'';
     retry \<leftarrow> field_uint 32 fs ''retry_delay_milliseconds'';
     lease \<leftarrow> field_uint 32 fs ''lease_duration_milliseconds'';
     required \<leftarrow> field_bool fs ''required'';
     Some \<lparr>tr_Identity = identity, tr_Key = key, tr_Kind = kind, tr_InputIdentity = input,
       tr_HandlerIdentity = handler, tr_Dependencies = dependencies, tr_MaxAttempts = attempts,
       tr_RetryDelayMilliseconds = retry, tr_LeaseDurationMilliseconds = lease, tr_Required = required\<rparr>
   }"

definition reviewRunPlanRecord_decode :: "json \<Rightarrow> reviewRunPlanRecord option" where
  "reviewRunPlanRecord_decode j = do {
     fs \<leftarrow> json_object j;
     contract \<leftarrow> field_str fs ''contract'';
     version \<leftarrow> field_int fs ''schema_version'';
     identity \<leftarrow> field_str fs ''identity'';
     tenant \<leftarrow> field_str fs ''tenant_id'';
     repository \<leftarrow> field_str fs ''repository_id'';
     run \<leftarrow> field_str fs ''review_run_id'';
     request \<leftarrow> field_str fs ''request_identity'';
     policy \<leftarrow> field_str fs ''policy_identity'';
     mode \<leftarrow> field_str fs ''mode'';
     tasks \<leftarrow> field_list taskDefinitionRecord_decode fs ''tasks'';
     Some \<lparr>pr_Contract = contract, pr_SchemaVersion = version, pr_Identity = identity,
       pr_TenantID = tenant, pr_RepositoryID = repository, pr_ReviewRunID = run,
       pr_RequestIdentity = request, pr_PolicyIdentity = policy, pr_Mode = mode, pr_Tasks = tasks\<rparr>
   }"

definition taskDefinitionToRecord :: "TaskDefinition \<Rightarrow> taskDefinitionRecord" where
  "taskDefinitionToRecord task =
     \<lparr>tr_Identity = td_identity task, tr_Key = td_key task, tr_Kind = TaskKind_String (td_kind task),
      tr_InputIdentity = td_inputIdentity task, tr_HandlerIdentity = td_handlerIdentity task,
      tr_Dependencies = (if td_dependencies task = [] then None else Some (td_dependencies task)),
      tr_MaxAttempts = td_maxAttempts task, tr_RetryDelayMilliseconds = td_retryDelayMillis task,
      tr_LeaseDurationMilliseconds = td_leaseDurationMillis task, tr_Required = td_required task\<rparr>"

definition reviewRunPlanToRecord :: "ReviewRunPlan \<Rightarrow> reviewRunPlanRecord" where
  "reviewRunPlanToRecord plan =
     \<lparr>pr_Contract = ''open-trestle/review-run-plan-record'', pr_SchemaVersion = 1,
      pr_Identity = rp_identity plan, pr_TenantID = sc_tenantID (rp_scope plan),
      pr_RepositoryID = sc_repositoryID (rp_scope plan), pr_ReviewRunID = sc_reviewRunID (rp_scope plan),
      pr_RequestIdentity = rp_requestIdentity plan, pr_PolicyIdentity = rp_policyIdentity plan,
      pr_Mode = ReviewRunMode_String (rp_mode plan),
      pr_Tasks = Some (map taskDefinitionToRecord (rp_tasks plan))\<rparr>"

definition reviewRunModes :: "ReviewRunMode list" where
  "reviewRunModes = [ReviewRunLocal, ReviewRunAdvisory, ReviewRunRequired]"

definition parseReviewRunMode :: "string \<Rightarrow> error + ReviewRunMode" where
  "parseReviewRunMode value = parse_named reviewRunModes ReviewRunMode_String ErrInvalidReviewRunMode value"

definition taskKinds :: "TaskKind list" where
  "taskKinds = [TaskAcquireSource, TaskBuildChange, TaskInspectDeterministic, TaskRetrieveContext,
     TaskAssembleContext, TaskGenerateCandidates, TaskVerifyCandidates, TaskEvaluatePublication,
     TaskPublishResult]"

definition parseTaskKind :: "string \<Rightarrow> error + TaskKind" where
  "parseTaskKind value = parse_named taskKinds TaskKind_String ErrInvalidReviewTaskKind value"

definition EncodeReviewRunPlan :: "sha \<Rightarrow> ReviewRunPlan \<Rightarrow> error + string" where
  "EncodeReviewRunPlan H plan =
     check (ReviewRunPlan_Validate H plan)
       (encode_bounded maxEncodedReviewRunPlanBytes ErrInvalidReviewRunPlanEncoding
          (reviewRunPlanRecord_json (reviewRunPlanToRecord plan)))"

text \<open>The loop over the task records.\<close>

definition taskFromRecord :: "sha \<Rightarrow> taskDefinitionRecord \<Rightarrow> error + TaskDefinition" where
  "taskFromRecord H r =
     and_then (parseTaskKind (tr_Kind r)) (\<lambda>kind.
       (case NewTaskDefinition H (tr_Key r) kind (tr_InputIdentity r) (tr_HandlerIdentity r)
               (case tr_Dependencies r of None \<Rightarrow> [] | Some ds \<Rightarrow> ds) (tr_MaxAttempts r)
               (tr_RetryDelayMilliseconds r) (tr_LeaseDurationMilliseconds r) (tr_Required r) of
          Inl _ \<Rightarrow> Inl ErrInvalidReviewRunPlanEncoding
        | Inr task \<Rightarrow>
            if td_identity task \<noteq> tr_Identity r then Inl ErrInvalidReviewRunPlanEncoding else Inr task))"

fun tasksFromRecords :: "sha \<Rightarrow> taskDefinitionRecord list \<Rightarrow> error + TaskDefinition list" where
  "tasksFromRecords H [] = Inr []"
| "tasksFromRecords H (r # rs) =
     and_then (taskFromRecord H r) (\<lambda>t. and_then (tasksFromRecords H rs) (\<lambda>ts. Inr (t # ts)))"

definition reviewRunPlanFromRecord :: "sha \<Rightarrow> reviewRunPlanRecord \<Rightarrow> error + ReviewRunPlan" where
  "reviewRunPlanFromRecord H record =
     (if pr_Contract record \<noteq> ''open-trestle/review-run-plan-record'' \<or> pr_SchemaVersion record \<noteq> 1
      then Inl ErrInvalidReviewRunPlanEncoding
      else (case NewReviewScope H (pr_TenantID record) (pr_RepositoryID record) (pr_ReviewRunID record) of
              Inl _ \<Rightarrow> Inl ErrInvalidReviewRunPlanEncoding
            | Inr scope \<Rightarrow>
                and_then (parseReviewRunMode (pr_Mode record)) (\<lambda>mode.
                and_then (tasksFromRecords H (case pr_Tasks record of None \<Rightarrow> [] | Some rs \<Rightarrow> rs)) (\<lambda>tasks.
                and_then (NewReviewRunPlan H scope (pr_RequestIdentity record) (pr_PolicyIdentity record)
                            mode tasks) (\<lambda>plan.
                  if rp_identity plan \<noteq> pr_Identity record then Inl ErrInvalidReviewRunIdentity
                  else Inr plan)))))"

definition ParseReviewRunPlan :: "sha \<Rightarrow> string \<Rightarrow> error + ReviewRunPlan" where
  "ParseReviewRunPlan H encoded =
     and_then (parse_canonical maxEncodedReviewRunPlanBytes ErrInvalidReviewRunPlanEncoding
                 reviewRunPlanRecord_decode reviewRunPlanRecord_json encoded) (\<lambda>record.
     and_then (reviewRunPlanFromRecord H record) (\<lambda>plan.
       if EncodeReviewRunPlan H plan \<noteq> Inr encoded then Inl ErrInvalidReviewRunPlanEncoding
       else Inr plan))"


section \<open>The records and their JSON\<close>

definition task_record_ok :: "taskDefinitionRecord \<Rightarrow> bool" where
  "task_record_ok r \<longleftrightarrow>
     tr_MaxAttempts r < 2 ^ 8 \<and> tr_RetryDelayMilliseconds r < 2 ^ 32
     \<and> tr_LeaseDurationMilliseconds r < 2 ^ 32
     \<and> list_all utf8_ValidString [tr_Identity r, tr_Key r, tr_Kind r, tr_InputIdentity r, tr_HandlerIdentity r]
     \<and> (case tr_Dependencies r of None \<Rightarrow> True | Some ds \<Rightarrow> list_all utf8_ValidString ds)"

interpretation task_codec: canonical_codec taskDefinitionRecord_json taskDefinitionRecord_decode task_record_ok
proof
  fix r
  assume ok: "task_record_ok r"
  have deps: "field_list item_str fs ''dependencies'' = Some (tr_Dependencies r)"
    if "map_of fs ''dependencies'' = Some (json_list JStr (tr_Dependencies r))" for fs
    using that by (rule field_list_json_list) (simp add: item_str_def)
  show "taskDefinitionRecord_decode (taskDefinitionRecord_json r) = Some r"
    using ok by (simp add: task_record_ok_def taskDefinitionRecord_decode_def taskDefinitionRecord_json_def
        json_object_def deps)
  show "json_clean (taskDefinitionRecord_json r)"
    using ok by (simp add: task_record_ok_def taskDefinitionRecord_json_def utf8_literal split: option.splits)
qed

definition plan_record_ok :: "reviewRunPlanRecord \<Rightarrow> bool" where
  "plan_record_ok r \<longleftrightarrow>
     int64 (pr_SchemaVersion r)
     \<and> list_all utf8_ValidString
         [pr_Contract r, pr_Identity r, pr_TenantID r, pr_RepositoryID r, pr_ReviewRunID r,
          pr_RequestIdentity r, pr_PolicyIdentity r, pr_Mode r]
     \<and> (case pr_Tasks r of None \<Rightarrow> True | Some ts \<Rightarrow> list_all task_record_ok ts)"

interpretation plan_codec: canonical_codec reviewRunPlanRecord_json reviewRunPlanRecord_decode plan_record_ok
proof
  fix r
  assume ok: "plan_record_ok r"
  have tasks: "field_list taskDefinitionRecord_decode fs ''tasks'' = Some (pr_Tasks r)"
    if "map_of fs ''tasks'' = Some (json_list taskDefinitionRecord_json (pr_Tasks r))" for fs
    using that ok
    by (intro field_list_json_list) (auto simp: plan_record_ok_def list_all_iff task_codec.inverse)
  show "reviewRunPlanRecord_decode (reviewRunPlanRecord_json r) = Some r"
    using ok by (simp add: plan_record_ok_def reviewRunPlanRecord_decode_def reviewRunPlanRecord_json_def
        json_object_def tasks)
  show "json_clean (reviewRunPlanRecord_json r)"
    using ok by (auto simp: plan_record_ok_def reviewRunPlanRecord_json_def utf8_literal list_all_iff
        task_codec.clean split: option.splits)
qed

section \<open>Round trips\<close>

lemma task_kind_utf8 [simp]: "utf8_ValidString (TaskKind_String k)"
  by (cases k) (simp_all add: utf8_literal)

lemma mode_utf8 [simp]: "utf8_ValidString (ReviewRunMode_String m)"
  by (cases m) (simp_all add: utf8_literal)

lemma parseTaskKind_String: "TaskKind_Validate k = None \<Longrightarrow> parseTaskKind (TaskKind_String k) = Inr k"
  unfolding parseTaskKind_def
  by (cases k; rule parse_named_name) (simp_all add: taskKinds_def TaskKind_Validate_def)

lemma parseReviewRunMode_String:
  "ReviewRunMode_Validate m = None \<Longrightarrow> parseReviewRunMode (ReviewRunMode_String m) = Inr m"
  unfolding parseReviewRunMode_def
  by (cases m; rule parse_named_name) (simp_all add: reviewRunModes_def ReviewRunMode_Validate_def)

lemma task_ok_strings:
  assumes "sum256 H" and "task_ok H t"
  shows "list_all (\<lambda>s. ascii s \<and> length s \<le> 64)
      [td_identity t, td_key t, td_inputIdentity t, td_handlerIdentity t]"
    and "list_all (\<lambda>s. ascii s \<and> length s \<le> 64) (td_dependencies t)"
  using assms ascii_digest ascii_task_key hash_valid [OF assms(1)]
  by (auto simp: task_ok_def deriveTaskDefinitionIdentity_def dependencies_ok_def list_all_iff)

lemma task_record_ok_of:
  assumes "sum256 H" and "task_ok H t"
  shows "task_record_ok (taskDefinitionToRecord t)"
proof -
  have "td_maxAttempts t < 2 ^ 8" "td_retryDelayMillis t < 2 ^ 32" "td_leaseDurationMillis t < 2 ^ 32"
    using assms(2) by (auto simp: task_ok_def)
  then show ?thesis
    using task_ok_strings [OF assms]
    by (auto simp: task_record_ok_def taskDefinitionToRecord_def ascii_utf8 list_all_iff)
qed

lemma plan_strings:
  assumes "sum256 H" and "plan_wf H p"
  shows "list_all (\<lambda>s. ascii s \<and> length s \<le> 128)
      [rp_identity p, rp_requestIdentity p, rp_policyIdentity p, sc_tenantID (rp_scope p),
       sc_repositoryID (rp_scope p), sc_reviewRunID (rp_scope p)]"
  using assms ascii_digest scope_strings [of H "rp_scope p"] hash_valid [OF assms(1)]
  by (simp add: plan_wf_def deriveReviewRunPlanIdentity_def)

lemma plan_record_ok_of:
  assumes "sum256 H" and "plan_wf H p"
  shows "plan_record_ok (reviewRunPlanToRecord p)"
  using plan_strings [OF assms] task_record_ok_of [OF assms(1)] plan_wf_task_ok [OF assms(2)]
  by (auto simp: plan_record_ok_def reviewRunPlanToRecord_def ascii_utf8 utf8_literal list_all_iff int64_def)

lemma taskFromRecord_ToRecord: "task_ok H t \<Longrightarrow> taskFromRecord H (taskDefinitionToRecord t) = Inr t"
proof -
  assume t: "task_ok H t"
  then have "sort (td_dependencies t) = td_dependencies t" "TaskKind_Validate (td_kind t) = None"
    by (simp_all add: task_ok_def dependencies_ok_def sort_sorted_id)
  moreover have "(case if td_dependencies t = [] then None else Some (td_dependencies t) of None \<Rightarrow> []
      | Some ds \<Rightarrow> ds) = td_dependencies t" by simp
  moreover from calculation t have "NewTaskDefinition H (td_key t) (td_kind t) (td_inputIdentity t)
      (td_handlerIdentity t) (td_dependencies t) (td_maxAttempts t) (td_retryDelayMillis t)
      (td_leaseDurationMillis t) (td_required t) = Inr t"
    by (simp add: NewTaskDefinition_Inr)
  ultimately show ?thesis
    by (simp add: taskFromRecord_def taskDefinitionToRecord_def parseTaskKind_String)
qed

lemma tasksFromRecords_ToRecords:
  "\<forall>t\<in>set ts. task_ok H t \<Longrightarrow> tasksFromRecords H (map taskDefinitionToRecord ts) = Inr ts"
  by (induction ts) (simp_all add: taskFromRecord_ToRecord)

lemma reviewRunPlanFromRecord_ToRecord:
  assumes "plan_wf H p"
  shows "reviewRunPlanFromRecord H (reviewRunPlanToRecord p) = Inr p"
proof -
  have v: "ReviewScope_Validate H (rp_scope p) = None" "ReviewRunMode_Validate (rp_mode p) = None"
    using assms by (simp_all add: plan_wf_def)
  have "tasksFromRecords H (map taskDefinitionToRecord (rp_tasks p)) = Inr (rp_tasks p)"
    using plan_wf_task_ok [OF assms] by (intro tasksFromRecords_ToRecords) blast
  with scope_strings(7) [OF v(1)] parseReviewRunMode_String [OF v(2)] plan_wf_new [OF assms] show ?thesis
    by (simp add: reviewRunPlanFromRecord_def reviewRunPlanToRecord_def)
qed

text \<open>
  A plan that was encoded is parsed back as it was.
\<close>

lemma plan_roundtrip:
  assumes "sum256 H" and "plan_wf H plan" and "EncodeReviewRunPlan H plan = Inr s"
  shows "ParseReviewRunPlan H s = Inr plan"
proof -
  have s: "s = json_Marshal (reviewRunPlanRecord_json (reviewRunPlanToRecord plan))"
      "length s \<le> maxEncodedReviewRunPlanBytes"
    using assms(3) by (auto simp: EncodeReviewRunPlan_def check_def encode_bounded_Inr split: option.splits)
  from plan_codec.parse_Marshal [OF plan_record_ok_of [OF assms(1,2)]] s assms(3)
  show ?thesis
    by (simp add: ParseReviewRunPlan_def reviewRunPlanFromRecord_ToRecord [OF assms(2)])
qed

text \<open>
  The parser of plans accepts one text per plan, and only plans that the
  constructor would build.
\<close>

lemma plan_canonical:
  assumes "ParseReviewRunPlan H s = Inr plan"
  shows "EncodeReviewRunPlan H plan = Inr s \<and> plan_wf H plan"
  using assms
  by (auto simp: ParseReviewRunPlan_def reviewRunPlanFromRecord_def and_then_Inr_iff NewReviewRunPlan_Inr
      split: if_splits sum.splits)

section \<open>The size limit\<close>

lemma dec_int_digits: "n < 10 ^ k \<Longrightarrow> 0 < k \<Longrightarrow> length (dec_int (int n)) \<le> k"
  using length_dec_digits [of n k] by (simp add: dec_int_def)

lemma task_json_bound:
  assumes "sum256 H" and t: "task_ok H t"
  shows "json_plain (taskDefinitionRecord_json (taskDefinitionToRecord t))
    \<and> json_plain_bound (taskDefinitionRecord_json (taskDefinitionToRecord t)) \<le> 1700"
proof -
  have plain: "list_all json_plain_char (td_identity t)" "list_all json_plain_char (td_key t)"
      "list_all json_plain_char (td_inputIdentity t)" "list_all json_plain_char (td_handlerIdentity t)"
      "\<forall>d\<in>set (td_dependencies t). list_all json_plain_char d"
    using t plain_digest plain_task_key hash_valid [OF assms(1)]
    by (auto simp: task_ok_def deriveTaskDefinitionIdentity_def dependencies_ok_def list_all_iff)
  have kind: "list_all json_plain_char (TaskKind_String (td_kind t))" "length (TaskKind_String (td_kind t)) \<le> 21"
    by (cases "td_kind t"; simp add: json_plain_char_def)+
  have deps: "sum_list (map (\<lambda>d. Suc (Suc (Suc (length d)))) (td_dependencies t)) \<le> 16 * 67"
  proof -
    have "sum_list (map (\<lambda>d. Suc (Suc (Suc (length d)))) (td_dependencies t)) \<le> length (td_dependencies t) * 67"
      using task_ok_strings(2) [OF assms] by (intro sum_list_le) (auto simp: list_all_iff)
    then show ?thesis using t by (simp add: task_ok_def dependencies_ok_def)
  qed
  have ints: "length (dec_int (int (td_maxAttempts t))) \<le> 1"
      "length (dec_int (int (td_retryDelayMillis t))) \<le> 7"
      "length (dec_int (int (td_leaseDurationMillis t))) \<le> 7"
    using t by (auto simp: task_ok_def intro!: dec_int_digits)
  have "json_plain (taskDefinitionRecord_json (taskDefinitionToRecord t))"
    using plain kind
    by (simp add: taskDefinitionRecord_json_def taskDefinitionToRecord_def json_list_def json_plain_char_def
        list_all_iff)
  moreover have "json_plain_bound (taskDefinitionRecord_json (taskDefinitionToRecord t)) \<le> 1700"
    using task_ok_strings(1) [OF assms] kind(2) deps ints
    by (simp add: taskDefinitionRecord_json_def taskDefinitionToRecord_def json_list_def comp_def)
  ultimately show ?thesis by blast
qed

text \<open>
  Every plan the constructor builds fits the size limit of the encoding, with the
  largest number of tasks, each with the largest number of dependencies.
\<close>

lemma plan_encodable:
  assumes "sum256 H" and wf: "plan_wf H plan"
  shows "\<exists>s. EncodeReviewRunPlan H plan = Inr s"
proof -
  let ?j = "reviewRunPlanRecord_json (reviewRunPlanToRecord plan)"
  have tasks: "sum_list (map (\<lambda>t. json_plain_bound (taskDefinitionRecord_json (taskDefinitionToRecord t)) + 1)
      (rp_tasks plan)) \<le> 64 * 1701"
  proof -
    have "sum_list (map (\<lambda>t. json_plain_bound (taskDefinitionRecord_json (taskDefinitionToRecord t)) + 1)
        (rp_tasks plan)) \<le> length (rp_tasks plan) * 1701"
      using task_json_bound [OF assms(1)] plan_wf_task_ok [OF wf] by (intro sum_list_le) auto
    then show ?thesis using wf by (simp add: plan_wf_def)
  qed
  have plain: "list_all (list_all json_plain_char) [rp_identity plan, rp_requestIdentity plan,
      rp_policyIdentity plan, sc_tenantID (rp_scope plan), sc_repositoryID (rp_scope plan),
      sc_reviewRunID (rp_scope plan)]"
    using wf plain_digest plain_scope_id hash_valid [OF assms(1)]
    by (auto simp: plan_wf_def deriveReviewRunPlanIdentity_def ReviewScope_Validate_def split: if_splits)
  have mode: "list_all json_plain_char (ReviewRunMode_String (rp_mode plan))"
      "length (ReviewRunMode_String (rp_mode plan)) \<le> 8"
    by (cases "rp_mode plan"; simp add: json_plain_char_def)+
  have "json_plain ?j"
    using plain mode task_json_bound [OF assms(1)] plan_wf_task_ok [OF wf]
    by (simp add: reviewRunPlanRecord_json_def reviewRunPlanToRecord_def json_list_def json_plain_char_def
        list_all_iff)
  moreover have "length (dec_int 1) \<le> 1" using dec_int_digits [of 1 1] by simp
  then have "json_plain_bound ?j \<le> maxEncodedReviewRunPlanBytes"
    using plan_strings [OF assms] mode(2) tasks
    by (simp add: reviewRunPlanRecord_json_def reviewRunPlanToRecord_def json_list_def comp_def
        maxEncodedReviewRunPlanBytes_def)
  ultimately have "length (json_Marshal ?j) \<le> maxEncodedReviewRunPlanBytes"
    using length_json_plain [of ?j] by linarith
  then show ?thesis
    using ReviewRunPlan_Validate_wf [OF wf]
    by (auto simp: EncodeReviewRunPlan_def check_def encode_bounded_def Let_def)
qed

text \<open>
  C30. Every plan the constructor builds has an encoding within the size limit, and that text
  is the only one the parser accepts for it.
\<close>

theorem plan_exact:
  assumes "sum256 H" and "plan_wf H plan"
  shows "\<exists>s. EncodeReviewRunPlan H plan = Inr s \<and> (\<forall>s'. ParseReviewRunPlan H s' = Inr plan \<longleftrightarrow> s' = s)"
  using plan_encodable [OF assms] plan_roundtrip [OF assms] plan_canonical [THEN conjunct1]
  by (rule exact_codecI)

end
