(* ===== verification/Run_Finalizer.thy ===== *)
theory Run_Finalizer
  imports Coordinator_Properties
begin

text \<open>
  The finalizer (controlplane/run\_finalizer.go), which closes a run with the completion its tasks
  determine, one run at a time or over the plans of a repository.

  It starts from the plan the journal holds, so it relies on more of the journal than the
  coordinator does: the locale \<open>planned_journal\<close> extends \<open>run_journal\<close> by the law of \<open>LoadPlan\<close>.
\<close>

section \<open>The operations\<close>

definition RunFinalizer_ReconcileRun ::
    "sha \<Rightarrow> 's RunJournal \<Rightarrow> gocontext \<Rightarrow> ReviewScope \<Rightarrow> gotime \<Rightarrow> 's
      \<Rightarrow> (error + ReviewRunState \<times> bool) \<times> 's" where
  "RunFinalizer_ReconcileRun H J ctx scope now s =
     (if ctx \<noteq> LiveContext \<or> ReviewScope_Validate H scope \<noteq> None then (Inl ErrInvalidRunFinalizer, s)
      else (case Coordinator_Resume H J ctx scope s of
              (Inl err, s1) \<Rightarrow> (Inl err, s1)
            | (Inr (plan, state), s1) \<Rightarrow>
                if rs_status state \<noteq> ReviewRunActive then (Inr (state, False), s1)
                else (case Coordinator_Advance H J ctx plan now s1 of
                        (Inl err, s2) \<Rightarrow> (Inl err, s2)
                      | (Inr state, s2) \<Rightarrow>
                          if rs_status state \<noteq> ReviewRunActive then (Inr (state, False), s2)
                          else (case TerminalCompletion H state of
                                  Inl err \<Rightarrow> (Inl err, s2)
                                | Inr None \<Rightarrow> (Inr (state, False), s2)
                                | Inr (Some completion) \<Rightarrow>
                                    (case (if tc_status completion = TaskCompletionSucceeded
                                           then Coordinator_SucceedRun H J ctx plan
                                                  (tc_outputIdentity completion) now s2
                                           else Coordinator_FailRun H J ctx plan
                                                  (tc_failure completion) now s2) of
                                       (Inl err, s3) \<Rightarrow> (Inl err, s3)
                                     | (Inr finalized, s3) \<Rightarrow>
                                         (Inr (finalized, rs_status finalized \<noteq> ReviewRunActive), s3))))))"

definition reconcilePageSize :: nat where
  "reconcilePageSize = 100"

definition maximumReconciledRuns :: nat where
  "maximumReconciledRuns = 10000"

text \<open>
  The loop over one page of plans: the counts so far, and the error that ended it if one did. The
  argument \<open>run\<close> is the work on one run and what it adds to the second count.
\<close>

fun reconcile_page ::
    "error \<Rightarrow> (ReviewScope \<Rightarrow> 's \<Rightarrow> (error + nat) \<times> 's) \<Rightarrow> ReviewRunPlan list \<Rightarrow> nat \<Rightarrow> nat \<Rightarrow> 's
      \<Rightarrow> (nat \<times> nat \<times> error option) \<times> 's" where
  "reconcile_page limit_error run [] runs changes s = ((runs, changes, None), s)"
| "reconcile_page limit_error run (plan # plans) runs changes s =
     (if runs \<ge> maximumReconciledRuns then ((runs, changes, Some limit_error), s)
      else (case run (rp_scope plan) s of
              (Inl err, s1) \<Rightarrow> ((runs, changes, Some err), s1)
            | (Inr n, s1) \<Rightarrow> reconcile_page limit_error run plans (runs + 1) (changes + n) s1))"

lemma reconcile_page_runs:
  "reconcile_page limit_error run plans runs changes s = ((runs', changes', None), s') \<Longrightarrow>
     runs' = runs + length plans \<and> (plans \<noteq> [] \<longrightarrow> runs' \<le> maximumReconciledRuns)"
proof (induction plans arbitrary: runs changes s)
  case (Cons plan plans)
  then obtain n s1 where lt: "runs < maximumReconciledRuns"
    and rec: "reconcile_page limit_error run plans (runs + 1) (changes + n) s1 = ((runs', changes', None), s')"
    by (auto split: if_splits prod.splits sum.splits)
  from Cons.IH [OF rec] lt show ?case by auto
qed simp

text \<open>
  The loop over the pages; \<open>page\<close> lists the plans of the repository after a run. It ends: a page
  that does not end it is full, and the number of runs is bounded.
\<close>

function reconcile_pages ::
    "error \<Rightarrow> (string \<Rightarrow> 's \<Rightarrow> (error + ReviewRunPlan list) \<times> 's) \<Rightarrow> (ReviewScope \<Rightarrow> 's \<Rightarrow> (error + nat) \<times> 's)
      \<Rightarrow> string \<Rightarrow> nat \<Rightarrow> nat \<Rightarrow> 's \<Rightarrow> (nat \<times> nat \<times> error option) \<times> 's" where
  "reconcile_pages limit_error page run after runs changes s =
     (case page after s of
        (Inl err, s1) \<Rightarrow> ((runs, changes, Some err), s1)
      | (Inr plans, s1) \<Rightarrow>
          (case reconcile_page limit_error run plans runs changes s1 of
             ((runs', changes', Some err), s2) \<Rightarrow> ((runs', changes', Some err), s2)
           | ((runs', changes', None), s2) \<Rightarrow>
               if length plans < reconcilePageSize then ((runs', changes', None), s2)
               else reconcile_pages limit_error page run
                      (sc_reviewRunID (rp_scope (last plans))) runs' changes' s2))"
  by pat_completeness auto
termination
  by (relation "measure (\<lambda>(limit_error, page, run, after, runs, changes, s).
      maximumReconciledRuns - runs)")
    (auto simp: reconcilePageSize_def dest!: reconcile_page_runs [OF sym])

declare reconcile_pages.simps [simp del]

definition RunFinalizer_ReconcileRepository ::
    "sha \<Rightarrow> 's RunJournal \<Rightarrow> gocontext \<Rightarrow> string \<Rightarrow> string \<Rightarrow> gotime \<Rightarrow> 's
      \<Rightarrow> (nat \<times> nat \<times> error option) \<times> 's" where
  "RunFinalizer_ReconcileRepository H J ctx tenantID repositoryID now s =
     (if ctx \<noteq> LiveContext \<or> \<not> validRunPlanQuery tenantID \<or> \<not> validRunPlanQuery repositoryID
         \<or> \<not> validRunMillis (UnixMilli now)
      then ((0, 0, Some ErrInvalidRunFinalizer), s)
      else reconcile_pages ErrInvalidRunFinalizer
             (\<lambda>after s. rj_ListPlans J ctx tenantID repositoryID after (int reconcilePageSize) s)
             (\<lambda>scope s. case RunFinalizer_ReconcileRun H J ctx scope now s of
                (Inl err, s1) \<Rightarrow> (Inl err, s1)
              | (Inr (_, changed), s1) \<Rightarrow> (Inr (if changed then 1 else 0), s1))
             [] 0 0 s)"


section \<open>The states the coordinator returns\<close>

context run_journal begin

lemma retry_loop_result:
  assumes ctx: "replay_context H plan"
    and acc: "\<And>n es st e. ReplayReviewRun H plan es = Inr st \<Longrightarrow> length es \<le> maxRunJournalStreamEvents \<Longrightarrow>
      decide n st = Try (Inr e) \<Longrightarrow> extends H plan es st e \<and> ev_workerIdentity e = []"
    and same: "\<And>n st st'. decide n st = Return (Inr st') \<Longrightarrow> st' = st"
  shows "retry_loop n H J c plan decide (finish_load H J c plan) s = (Inr st, s') \<Longrightarrow> ok s \<Longrightarrow>
    ReplayReviewRun H plan (stream s') = Inr st"
proof (induction n arbitrary: s)
  case (Suc n)
  obtain lres s1 where ld: "Coordinator_load H J c plan s = (lres, s1)"
    by (cases "Coordinator_load H J c plan s")
  note m1 = load_state(1) [OF ctx ld Suc.prems(2)]
  from Suc.prems(1) ld obtain st1 where st1: "lres = Inr st1" by (cases lres) auto
  note replay = load_state(2,3) [OF ctx ld Suc.prems(2) st1]
  show ?case
  proof (cases "decide n st1")
    case (Return r)
    with ld st1 Suc.prems(1) have "r = Inr st" "s1 = s'" by simp_all
    with same [of n st1 st] Return replay show ?thesis by simp
  next
    case (Try built)
    obtain ares s2 where ap: "append_event J c (rs_headIdentity st1) built s1 = (ares, s2)"
      by (cases "append_event J c (rs_headIdentity st1) built s1")
    have "fits good plan (stream s1) (rs_headIdentity st1) e \<and> event_ints e \<and> worker_ok (ev_workerIdentity e)"
      if "built = Inr e" for e
      using acc [OF replay] Try that built_fits [OF ctx replay(1) extends_continues] worker_none by (auto simp: extends_def)
    note m2 = append_moves(1) [OF ap moves_ok [OF m1] this]
    show ?thesis
    proof (cases ares)
      case (Appended e)
      with Suc.prems(1) ld st1 Try ap have "Coordinator_load H J c plan s2 = (Inr st, s')"
        by (simp add: finish_load_def)
      from load_state(2) [OF ctx this moves_ok [OF m2] refl] show ?thesis .
    next
      case Conflict
      with Suc ld st1 Try ap moves_ok [OF m2] show ?thesis by simp
    next
      case (Refused err)
      with Suc.prems(1) ld st1 Try ap show ?thesis by simp
    qed
  qed
qed simp

lemma Succeed_result:
  assumes ctx: "replay_context H plan" and "ok s"
    and "Coordinator_SucceedRun H J c plan out now s = (Inr st, s')"
  shows "ReplayReviewRun H plan (stream s') = Inr st"
proof -
  have "retry_loop maxCoordinatorConflicts H J c plan (succeed_decide H plan out now)
      (finish_load H J c plan) s = (Inr st, s')"
    using assms(3) by (auto simp: Coordinator_SucceedRun_def split: option.splits if_splits)
  from retry_loop_result [OF ctx _ _ this assms(2)] show ?thesis
    using decide_extends(4) [OF ctx]
    by (fastforce simp: succeed_decide_def split: if_splits sum.splits option.splits)
qed

lemma Fail_result:
  assumes ctx: "replay_context H plan" and "ok s"
    and res: "Coordinator_FailRun H J c plan failure now s = (Inr st, s')"
  shows "ReplayReviewRun H plan (stream s') = Inr st"
proof -
  obtain ares s1 where ad: "Coordinator_Advance H J c plan now s = (ares, s1)"
    by (cases "Coordinator_Advance H J c plan now s")
  note m1 = Advance_moves [OF ctx ad assms(2)]
  have "retry_loop maxCoordinatorConflicts H J c plan (fail_decide H plan failure now)
      (finish_load H J c plan) s1 = (Inr st, s')"
    using res ad by (auto simp: Coordinator_FailRun_def split: option.splits if_splits sum.splits)
  from retry_loop_result [OF ctx _ _ this moves_ok [OF m1]] show ?thesis
    using decide_extends(5) [OF ctx]
    by (fastforce simp: fail_decide_def split: if_splits sum.splits option.splits)
qed

end

section \<open>Journals that hold the plan\<close>

locale planned_journal = run_journal H plan "replayable H plan" J stream ok worker_ok
  for H :: sha and plan :: ReviewRunPlan and J :: "'s RunJournal"
    and stream :: "'s \<Rightarrow> RunEvent list" and ok :: "'s \<Rightarrow> bool" and worker_ok :: "string \<Rightarrow> bool" +
  assumes load_law: "ok s \<Longrightarrow> rj_LoadPlan J ctx (rp_scope plan) s = (res, s') \<Longrightarrow>
      ok s' \<and> prefix (stream s) (stream s') \<and> (\<forall>p. res = Inr (Some p) \<longrightarrow> p = plan)"
begin

lemma Resume_state:
  assumes ctx: "replay_context H plan" and "ok s"
    and res: "Coordinator_Resume H J c (rp_scope plan) s = (res, s')"
  shows "moves s s'"
    and "res = Inr (p, st) \<Longrightarrow> p = plan \<and> ReplayReviewRun H plan (stream s') = Inr st"
proof -
  obtain pres s1 where lp: "rj_LoadPlan J c (rp_scope plan) s = (pres, s1)"
    by (cases "rj_LoadPlan J c (rp_scope plan) s")
  note law = load_law [OF assms(2) lp]
  then have m1: "moves s s1" by (simp add: moves_def)
  obtain lres s2 where ld: "Coordinator_load H J c plan s1 = (lres, s2)"
    by (cases "Coordinator_load H J c plan s1")
  note l = load_state [OF ctx ld moves_ok [OF m1]]
  show "moves s s'"
    using res lp law ld m1 l(1) moves_refl [OF assms(2)] moves_trans [OF m1]
    by (auto simp: Coordinator_Resume_def split: option.splits sum.splits)
  show "p = plan \<and> ReplayReviewRun H plan (stream s') = Inr st" if "res = Inr (p, st)"
    using that res lp law ld l(2)
    by (auto simp: Coordinator_Resume_def split: option.splits sum.splits)
qed

lemma ReconcileRun_moves:
  assumes ctx: "replay_context H plan" and ok: "ok s"
    and res: "RunFinalizer_ReconcileRun H J c (rp_scope plan) now s = (res, s')"
  shows "moves s s' \<and> (\<forall>st changed. res = Inr (st, changed) \<longrightarrow>
    ReplayReviewRun H plan (stream s') = Inr st \<and> (changed \<longrightarrow> rs_status st \<noteq> ReviewRunActive))"
proof (cases "c \<noteq> LiveContext \<or> ReviewScope_Validate H (rp_scope plan) \<noteq> None")
  case True
  with res ok show ?thesis by (auto simp: RunFinalizer_ReconcileRun_def moves_refl)
next
  case live: False
  obtain r1 s1 where r1: "Coordinator_Resume H J c (rp_scope plan) s = (r1, s1)"
    by (cases "Coordinator_Resume H J c (rp_scope plan) s")
  note resume = Resume_state [OF ctx ok r1]
  show ?thesis
  proof (cases "\<exists>st. r1 = Inr (plan, st) \<and> rs_status st = ReviewRunActive")
    case False
    with res live r1 resume show ?thesis
      by (auto simp: RunFinalizer_ReconcileRun_def split: sum.splits if_splits)
  next
    case True
    obtain r2 s2 where r2: "Coordinator_Advance H J c plan now s1 = (r2, s2)"
      by (cases "Coordinator_Advance H J c plan now s1")
    note m2 = moves_trans [OF resume(1) Advance_moves [OF ctx r2 moves_ok [OF resume(1)]]]
    have adv: "ReplayReviewRun H plan (stream s2) = Inr st" if "r2 = Inr st" for st
      using Advance_result(1) [OF ctx _ moves_ok [OF resume(1)]] r2 that by blast
    show ?thesis
    proof (cases "\<exists>st completion. r2 = Inr st \<and> rs_status st = ReviewRunActive
        \<and> TerminalCompletion H st = Inr (Some completion)")
      case False
      with res live r1 True r2 adv m2 show ?thesis
        by (auto simp: RunFinalizer_ReconcileRun_def split: sum.splits if_splits option.splits)
    next
      case close: True
      then obtain st completion where st: "r2 = Inr st" "rs_status st = ReviewRunActive"
        "TerminalCompletion H st = Inr (Some completion)" by blast
      define fin where "fin = (if tc_status completion = TaskCompletionSucceeded
        then Coordinator_SucceedRun H J c plan (tc_outputIdentity completion) now s2
        else Coordinator_FailRun H J c plan (tc_failure completion) now s2)"
      obtain r3 s3 where r3: "fin = (r3, s3)" by (cases fin)
      note ok2 = moves_ok [OF m2]
      have "moves s2 s3"
        using r3 Succeed_moves [OF ctx ok2] Fail_moves [OF ctx ok2]
        by (auto simp: fin_def split: if_splits)
      moreover have "ReplayReviewRun H plan (stream s3) = Inr st'" if "r3 = Inr st'" for st'
        using r3 that Succeed_result [OF ctx ok2] Fail_result [OF ctx ok2]
        by (auto simp: fin_def split: if_splits)
      moreover have "RunFinalizer_ReconcileRun H J c (rp_scope plan) now s =
          (case fin of (Inl err, s3) \<Rightarrow> (Inl err, s3)
           | (Inr finalized, s3) \<Rightarrow> (Inr (finalized, rs_status finalized \<noteq> ReviewRunActive), s3))"
        using live r1 True r2 st by (auto simp: RunFinalizer_ReconcileRun_def fin_def)
      ultimately show ?thesis
        using res r3 moves_trans [OF m2] by (cases r3) auto
    qed
  qed
qed

end

section \<open>The memory journal holds the plan\<close>

text \<open>The plan is stored under its scope, and the other clients keep it there.\<close>

definition holds_plan :: "ReviewRunPlan \<Rightarrow> MemoryRunJournal \<Rightarrow> bool" where
  "holds_plan plan j \<longleftrightarrow> map_of (mj_plans j) (sc_identity (rp_scope plan)) = Some plan"

definition planned_ok :: "sha \<Rightarrow> ReviewRunPlan \<Rightarrow> MemoryRunJournal \<times> MemoryRunJournal schedule \<Rightarrow> bool" where
  "planned_ok H plan w \<longleftrightarrow>
     shared_ok H plan w \<and> holds_plan plan (fst w)
     \<and> (\<forall>f\<in>set (snd w). \<forall>j. holds_plan plan j \<longrightarrow> holds_plan plan (f j))"

lemma planned_others:
  assumes "planned_ok H plan w"
  shows "planned_ok H plan (others w)"
  using assms others_ok(1) [of "replayable H plan" plan w]
  by (cases w; cases "snd w") (auto simp: planned_ok_def others_def)

lemma memory_keeps_plan:
  assumes "holds_plan plan j"
  shows "MemoryRunJournal_Append H c h e j = (err, j1) \<Longrightarrow> holds_plan plan j1"
    and "MemoryRunJournal_SavePlan H c p j = (err, j2) \<Longrightarrow> holds_plan plan j2"
  using assms
  by (auto simp: MemoryRunJournal_Append_def MemoryRunJournal_SavePlan_def holds_plan_def Let_def
      update_conv' split: option.splits if_splits)

interpretation planned: planned_journal H plan "sharedJournal (memoryJournal H)"
  "\<lambda>w. plan_stream plan (fst w)" "planned_ok H plan" "\<lambda>_. True" for H plan
proof (unfold_locales, goal_cases)
  case (1 w)
  then show ?case by (simp add: planned_ok_def shared.ok_good)
next
  case (4 w c after limit res w')
  have "w' = others w"
    using 4(2) by (auto simp: sharedJournal_def memoryJournal_def after_others_eq dest!: Read_page(1))
  with 4 planned_others shared.read_law show ?case by (metis planned_ok_def)
next
  case (5 w h e c err w')
  note ok = planned_others [OF 5(1)]
  from 5(5) obtain j' where j': "MemoryRunJournal_Append H c h e (fst (others w)) = (err, j')"
    and w': "w' = (j', snd (others w))"
    by (auto simp: sharedJournal_def memoryJournal_def after_others_eq)
  have "holds_plan plan j'"
    using memory_keeps_plan(1) [OF _ j'] ok by (auto simp: planned_ok_def)
  with shared.append_law [OF _ 5(2-5)] 5(1) ok w' show ?case by (auto simp: planned_ok_def)
next
  case (6 w c err w')
  note ok = planned_others [OF 6(1)]
  from 6(3) obtain j' where j': "MemoryRunJournal_SavePlan H c plan (fst (others w)) = (err, j')"
    and w': "w' = (j', snd (others w))"
    by (auto simp: sharedJournal_def memoryJournal_def after_others_eq)
  have "holds_plan plan j'"
    using memory_keeps_plan(2) [OF _ j'] ok by (auto simp: planned_ok_def)
  with shared.save_law [OF _ 6(2,3)] 6(1) ok w' show ?case by (auto simp: planned_ok_def)
next
  case (7 w c res w')
  note ok = planned_others [OF 7(1)]
  from 7(2) obtain j' where j': "MemoryRunJournal_LoadPlan H c (rp_scope plan) (fst (others w)) = (res, j')"
    and "w' = (j', snd (others w))"
    by (auto simp: sharedJournal_def memoryJournal_def after_others_eq)
  moreover have "j' = fst (others w)" and "\<forall>p. res = Inr (Some p) \<longrightarrow> p = plan"
    using j' ok by (auto simp: MemoryRunJournal_LoadPlan_def planned_ok_def holds_plan_def split: option.splits)
  ultimately have "w' = others w" "\<forall>p. res = Inr (Some p) \<longrightarrow> p = plan" by simp_all
  with ok others_ok(2) [of "replayable H plan" plan w] 7(1) show ?case by (auto simp: planned_ok_def)
qed simp_all

text \<open>
  C23. A pass of the finalizer over a run, under any legal interference, keeps the
  stream replayable and only extends it; the state it returns is the replay of the stream, and
  it reports a change only when the run has ended.
\<close>

theorem finalizer_safety:
  assumes "sum256 H" and "plan_wf H plan" and "planned_ok H plan (j, fs)"
    and "RunFinalizer_ReconcileRun H (sharedJournal (memoryJournal H)) c (rp_scope plan) now (j, fs)
      = (res, (j', fs'))"
  shows "prefix (mj_stream j (sc_identity (rp_scope plan))) (mj_stream j' (sc_identity (rp_scope plan)))
    \<and> replayable H plan (mj_stream j' (sc_identity (rp_scope plan)))
    \<and> (\<forall>st changed. res = Inr (st, changed) \<longrightarrow>
        ReplayReviewRun H plan (mj_stream j' (sc_identity (rp_scope plan))) = Inr st
        \<and> (changed \<longrightarrow> rs_status st \<noteq> ReviewRunActive))"
proof -
  have ctx: "replay_context H plan" using assms by (simp add: replay_context_def)
  note moved = planned.ReconcileRun_moves [OF ctx assms(3,4)]
  then have ok: "planned_ok H plan (j', fs')" 
    and "prefix (plan_stream plan j) (plan_stream plan j')" by (simp_all add: planned.moves_def)
  with planned.ok_good [OF ok] moved show ?thesis
    by (simp add: plan_stream_def)
qed

lemma reconcile_page_counts:
  assumes "\<And>scope s n s'. run scope s = (Inr n, s') \<Longrightarrow> n \<le> 1"
  shows "reconcile_page err run plans runs changes s = ((runs', changes', e), s') \<Longrightarrow>
    runs \<le> maximumReconciledRuns \<Longrightarrow> changes \<le> runs \<Longrightarrow>
    runs' \<le> maximumReconciledRuns \<and> changes' \<le> runs'"
proof (induction plans arbitrary: runs changes s)
  case (Cons plan plans)
  obtain r s1 where r: "run (rp_scope plan) s = (r, s1)" by (cases "run (rp_scope plan) s")
  show ?case
  proof (cases r)
    case (Inl a)
    with Cons r show ?thesis by (auto split: if_splits)
  next
    case (Inr n)
    with assms r have "n \<le> 1" by blast
    with Cons r Inr show ?thesis by (auto split: if_splits)
  qed
qed simp

lemma reconcile_pages_counts:
  assumes one: "\<And>scope s n s'. run scope s = (Inr n, s') \<Longrightarrow> n \<le> 1"
  shows "reconcile_pages err page run after runs changes s = ((runs', changes', e), s') \<Longrightarrow>
    runs \<le> maximumReconciledRuns \<Longrightarrow> changes \<le> runs \<Longrightarrow>
    runs' \<le> maximumReconciledRuns \<and> changes' \<le> runs'"
proof (induction "maximumReconciledRuns - runs" arbitrary: after runs changes s rule: less_induct)
  case less
  obtain lres s1 where ls: "page after s = (lres, s1)" by (cases "page after s")
  show ?case
  proof (cases lres)
    case (Inl a)
    with ls less.prems show ?thesis by (simp add: reconcile_pages.simps [of err page run])
  next
    case (Inr plans)
    obtain r1 c1 e1 s2 where pg: "reconcile_page err run plans runs changes s1 = ((r1, c1, e1), s2)"
      by (metis prod.collapse)
    have counts: "r1 \<le> maximumReconciledRuns \<and> c1 \<le> r1"
      by (rule reconcile_page_counts [OF _ pg less.prems(2,3)]) (rule one)
    show ?thesis
    proof (cases "e1 = None \<and> \<not> length plans < reconcilePageSize")
      case False
      with ls Inr pg counts less.prems(1) show ?thesis
        by (auto simp: reconcile_pages.simps [of err page run] split: option.splits)
    next
      case True
      then have rec: "reconcile_pages err page run
          (sc_reviewRunID (rp_scope (last plans))) r1 c1 s2 = ((runs', changes', e), s')"
        using ls Inr pg less.prems(1) by (simp add: reconcile_pages.simps [of err page run after])
      have "maximumReconciledRuns - r1 < maximumReconciledRuns - runs"
        using reconcile_page_runs [of err run plans runs changes s1 r1 c1 s2] pg True counts
        by (auto simp: reconcilePageSize_def)
      from less.hyps [OF this rec] counts show ?thesis by blast
    qed
  qed
qed

text \<open>
  A pass of the finalizer over a repository ends on every journal, whatever the
  journal lists, and its counts stay within bounds: at most ten thousand runs, and no more changes
  than runs.
\<close>

lemma reconcile_counts:
  assumes "RunFinalizer_ReconcileRepository H J c tenant repository now s = ((runs, changes, err), s')"
  shows "runs \<le> 10000 \<and> changes \<le> runs"
proof -
  let ?run = "\<lambda>scope s. case RunFinalizer_ReconcileRun H J c scope now s of
      (Inl err, s1) \<Rightarrow> (Inl err, s1) | (Inr (_, changed), s1) \<Rightarrow> (Inr (if changed then 1 else 0), s1)"
  have one: "n \<le> 1" if "?run scope s = (Inr n, s')" for scope s s' and n :: nat
    using that by (auto split: prod.splits sum.splits if_splits)
  show ?thesis
  proof (cases "reconcile_pages ErrInvalidRunFinalizer
      (\<lambda>after s. rj_ListPlans J c tenant repository after (int reconcilePageSize) s) ?run [] 0 0 s
      = ((runs, changes, err), s')")
    case True
    have "runs \<le> maximumReconciledRuns \<and> changes \<le> runs"
      by (rule reconcile_pages_counts [OF _ True]) (rule one, simp_all)
    then show ?thesis by (simp add: maximumReconciledRuns_def)
  next
    case False
    with assms show ?thesis by (auto simp: RunFinalizer_ReconcileRepository_def split: if_splits)
  qed
qed

end
