(* ===== verification/Run_Receipt.thy ===== *)
theory Run_Receipt
  imports Run_Event_Encoding Run_Plan_Encoding Run_Finalizer
begin

text \<open>
  Receipts (controlplane/run\_receipt.go): the public state of a run, its content identity and its
  canonical JSON.
\<close>

definition maxEncodedReviewRunReceiptBytes :: nat where
  "maxEncodedReviewRunReceiptBytes = 262144"

definition maxReviewTaskAttempts :: nat where
  "maxReviewTaskAttempts = 5"

record ReviewTaskReceipt =
  tt_key :: string
  tt_taskIdentity :: string
  tt_inputIdentity :: string
  tt_handlerIdentity :: string
  tt_kind :: TaskKind
  tt_required :: bool
  tt_status :: TaskRuntimeStatus
  tt_attempts :: nat
  tt_maxAttempts :: nat
  tt_leaseExpiresAtMillis :: int
  tt_outputIdentity :: string
  tt_failure :: RunFailure
  tt_retryAtMillis :: int

record ReviewRunReceipt =
  rr_identity :: string
  rr_planIdentity :: string
  rr_scope :: ReviewScope
  rr_status :: ReviewRunStatus
  rr_revision :: nat
  rr_headIdentity :: string
  rr_lastOccurredAtMillis :: int
  rr_outputIdentity :: string
  rr_failure :: RunFailure
  rr_tasks :: "ReviewTaskReceipt list"

definition hasResultFields :: "ReviewTaskReceipt \<Rightarrow> bool" where
  "hasResultFields r \<longleftrightarrow>
     tt_leaseExpiresAtMillis r \<noteq> 0 \<or> tt_outputIdentity r \<noteq> [] \<or> tt_failure r \<noteq> NoRunFailure
     \<or> tt_retryAtMillis r \<noteq> 0"

text \<open>The switch on the status; a status without a name was refused before.\<close>

definition receipt_status_fields :: "ReviewTaskReceipt \<Rightarrow> bool" where
  "receipt_status_fields r =
     (case tt_status r of
        TaskRuntimePending \<Rightarrow> \<not> (tt_attempts r \<noteq> 0 \<or> hasResultFields r)
      | TaskRuntimeAvailable \<Rightarrow>
          \<not> (tt_leaseExpiresAtMillis r \<noteq> 0 \<or> tt_outputIdentity r \<noteq> [] \<or> tt_failure r \<noteq> NoRunFailure
             \<or> tt_retryAtMillis r \<noteq> 0)
      | TaskRuntimeLeased \<Rightarrow>
          \<not> (tt_attempts r = 0 \<or> \<not> validRunMillis (tt_leaseExpiresAtMillis r) \<or> tt_outputIdentity r \<noteq> []
             \<or> tt_failure r \<noteq> NoRunFailure \<or> tt_retryAtMillis r \<noteq> 0)
      | TaskRuntimeSucceeded \<Rightarrow>
          \<not> (tt_attempts r = 0 \<or> tt_leaseExpiresAtMillis r \<noteq> 0
             \<or> \<not> validControlPlaneDigest (tt_outputIdentity r) \<or> tt_failure r \<noteq> NoRunFailure
             \<or> tt_retryAtMillis r \<noteq> 0)
      | TaskRuntimeFailed \<Rightarrow>
          \<not> (tt_attempts r = 0 \<or> tt_leaseExpiresAtMillis r \<noteq> 0 \<or> tt_outputIdentity r \<noteq> []
             \<or> RunFailure_String (tt_failure r) = [])
          \<and> (let canRetry = RunFailure_Retryable (tt_failure r) \<and> tt_attempts r < tt_maxAttempts r;
                 hasRetryTime = tt_retryAtMillis r \<noteq> 0 \<and> validRunMillis (tt_retryAtMillis r)
             in canRetry = hasRetryTime)
      | TaskRuntimeSkipped \<Rightarrow>
          \<not> (tt_attempts r \<noteq> 0 \<or> tt_leaseExpiresAtMillis r \<noteq> 0 \<or> tt_outputIdentity r \<noteq> []
             \<or> (tt_failure r \<noteq> RunFailureDependency \<and> tt_failure r \<noteq> RunFailurePolicy)
             \<or> tt_retryAtMillis r \<noteq> 0)
      | TaskRuntimeStatusUnnamed _ \<Rightarrow> True)"

definition ReviewTaskReceipt_Validate :: "ReviewTaskReceipt \<Rightarrow> error option" where
  "ReviewTaskReceipt_Validate r =
     (let validKey = validReviewTaskKey (tt_key r);
          validIdentities = validControlPlaneDigest (tt_taskIdentity r)
            \<and> validControlPlaneDigest (tt_inputIdentity r) \<and> validControlPlaneDigest (tt_handlerIdentity r);
          validKinds = TaskKind_Validate (tt_kind r) = None \<and> TaskRuntimeStatus_String (tt_status r) \<noteq> [];
          validAttempts = tt_maxAttempts r > 0 \<and> tt_maxAttempts r \<le> maxReviewTaskAttempts
            \<and> tt_attempts r \<le> tt_maxAttempts r
      in if \<not> validKey \<or> \<not> validIdentities \<or> \<not> validKinds \<or> \<not> validAttempts
         then Some ErrInvalidReviewRunReceipt
         else if \<not> receipt_status_fields r then Some ErrInvalidReviewRunReceipt
         else None)"

definition ReviewRunReceipt_Task :: "ReviewRunReceipt \<Rightarrow> string \<Rightarrow> ReviewTaskReceipt option" where
  "ReviewRunReceipt_Task r key = search_by_key tt_key (rr_tasks r) key"


section \<open>The canonical JSON of a receipt\<close>

record reviewTaskReceiptRecord =
  rt_r_Key :: string
  rt_r_TaskIdentity :: string
  rt_r_InputIdentity :: string
  rt_r_HandlerIdentity :: string
  rt_r_Kind :: string
  rt_r_Required :: bool
  rt_r_Status :: string
  rt_r_Attempts :: nat
  rt_r_MaxAttempts :: nat
  rt_r_LeaseExpiresAtMilliseconds :: int
  rt_r_OutputIdentity :: string
  rt_r_Failure :: string
  rt_r_RetryAtMilliseconds :: int

record reviewRunReceiptRecord =
  rr_r_Contract :: string
  rr_r_SchemaVersion :: int
  rr_r_Identity :: string
  rr_r_PlanIdentity :: string
  rr_r_TenantID :: string
  rr_r_RepositoryID :: string
  rr_r_ReviewRunID :: string
  rr_r_Status :: string
  rr_r_Revision :: nat
  rr_r_HeadIdentity :: string
  rr_r_LastOccurredAtMilliseconds :: int
  rr_r_OutputIdentity :: string
  rr_r_Failure :: string
  rr_r_Tasks :: "reviewTaskReceiptRecord list option"

definition reviewTaskReceiptRecord_json :: "reviewTaskReceiptRecord \<Rightarrow> json" where
  "reviewTaskReceiptRecord_json r =
     JObj [(''key'', JStr (rt_r_Key r)), (''task_identity'', JStr (rt_r_TaskIdentity r)),
           (''input_identity'', JStr (rt_r_InputIdentity r)),
           (''handler_identity'', JStr (rt_r_HandlerIdentity r)), (''kind'', JStr (rt_r_Kind r)),
           (''required'', JBool (rt_r_Required r)), (''status'', JStr (rt_r_Status r)),
           (''attempts'', JInt (int (rt_r_Attempts r))), (''max_attempts'', JInt (int (rt_r_MaxAttempts r))),
           (''lease_expires_at_milliseconds'', JInt (rt_r_LeaseExpiresAtMilliseconds r)),
           (''output_identity'', JStr (rt_r_OutputIdentity r)), (''failure'', JStr (rt_r_Failure r)),
           (''retry_at_milliseconds'', JInt (rt_r_RetryAtMilliseconds r))]"

definition reviewRunReceiptRecord_json :: "reviewRunReceiptRecord \<Rightarrow> json" where
  "reviewRunReceiptRecord_json r =
     JObj [(''contract'', JStr (rr_r_Contract r)), (''schema_version'', JInt (rr_r_SchemaVersion r)),
           (''identity'', JStr (rr_r_Identity r)), (''plan_identity'', JStr (rr_r_PlanIdentity r)),
           (''tenant_id'', JStr (rr_r_TenantID r)), (''repository_id'', JStr (rr_r_RepositoryID r)),
           (''review_run_id'', JStr (rr_r_ReviewRunID r)), (''status'', JStr (rr_r_Status r)),
           (''revision'', JInt (int (rr_r_Revision r))), (''head_identity'', JStr (rr_r_HeadIdentity r)),
           (''last_occurred_at_milliseconds'', JInt (rr_r_LastOccurredAtMilliseconds r)),
           (''output_identity'', JStr (rr_r_OutputIdentity r)), (''failure'', JStr (rr_r_Failure r)),
           (''tasks'', json_list reviewTaskReceiptRecord_json (rr_r_Tasks r))]"

definition reviewTaskReceiptRecord_decode :: "json \<Rightarrow> reviewTaskReceiptRecord option" where
  "reviewTaskReceiptRecord_decode j = do {
     fs \<leftarrow> json_object j;
     key \<leftarrow> field_str fs ''key'';
     task \<leftarrow> field_str fs ''task_identity'';
     input \<leftarrow> field_str fs ''input_identity'';
     handler \<leftarrow> field_str fs ''handler_identity'';
     kind \<leftarrow> field_str fs ''kind'';
     required \<leftarrow> field_bool fs ''required'';
     status \<leftarrow> field_str fs ''status'';
     attempts \<leftarrow> field_uint 8 fs ''attempts'';
     max_attempts \<leftarrow> field_uint 8 fs ''max_attempts'';
     expires \<leftarrow> field_int fs ''lease_expires_at_milliseconds'';
     output \<leftarrow> field_str fs ''output_identity'';
     failure \<leftarrow> field_str fs ''failure'';
     retry \<leftarrow> field_int fs ''retry_at_milliseconds'';
     Some \<lparr>rt_r_Key = key, rt_r_TaskIdentity = task, rt_r_InputIdentity = input,
       rt_r_HandlerIdentity = handler, rt_r_Kind = kind, rt_r_Required = required, rt_r_Status = status,
       rt_r_Attempts = attempts, rt_r_MaxAttempts = max_attempts,
       rt_r_LeaseExpiresAtMilliseconds = expires, rt_r_OutputIdentity = output, rt_r_Failure = failure,
       rt_r_RetryAtMilliseconds = retry\<rparr>
   }"

definition reviewRunReceiptRecord_decode :: "json \<Rightarrow> reviewRunReceiptRecord option" where
  "reviewRunReceiptRecord_decode j = do {
     fs \<leftarrow> json_object j;
     contract \<leftarrow> field_str fs ''contract'';
     version \<leftarrow> field_int fs ''schema_version'';
     identity \<leftarrow> field_str fs ''identity'';
     plan \<leftarrow> field_str fs ''plan_identity'';
     tenant \<leftarrow> field_str fs ''tenant_id'';
     repository \<leftarrow> field_str fs ''repository_id'';
     run \<leftarrow> field_str fs ''review_run_id'';
     status \<leftarrow> field_str fs ''status'';
     revision \<leftarrow> field_uint 64 fs ''revision'';
     head \<leftarrow> field_str fs ''head_identity'';
     occurred \<leftarrow> field_int fs ''last_occurred_at_milliseconds'';
     output \<leftarrow> field_str fs ''output_identity'';
     failure \<leftarrow> field_str fs ''failure'';
     tasks \<leftarrow> field_list reviewTaskReceiptRecord_decode fs ''tasks'';
     Some \<lparr>rr_r_Contract = contract, rr_r_SchemaVersion = version, rr_r_Identity = identity,
       rr_r_PlanIdentity = plan, rr_r_TenantID = tenant, rr_r_RepositoryID = repository,
       rr_r_ReviewRunID = run, rr_r_Status = status, rr_r_Revision = revision, rr_r_HeadIdentity = head,
       rr_r_LastOccurredAtMilliseconds = occurred, rr_r_OutputIdentity = output, rr_r_Failure = failure,
       rr_r_Tasks = tasks\<rparr>
   }"

definition reviewTaskReceiptToRecord :: "ReviewTaskReceipt \<Rightarrow> reviewTaskReceiptRecord" where
  "reviewTaskReceiptToRecord task =
     \<lparr>rt_r_Key = tt_key task, rt_r_TaskIdentity = tt_taskIdentity task,
      rt_r_InputIdentity = tt_inputIdentity task, rt_r_HandlerIdentity = tt_handlerIdentity task,
      rt_r_Kind = TaskKind_String (tt_kind task), rt_r_Required = tt_required task,
      rt_r_Status = TaskRuntimeStatus_String (tt_status task), rt_r_Attempts = tt_attempts task,
      rt_r_MaxAttempts = tt_maxAttempts task,
      rt_r_LeaseExpiresAtMilliseconds = tt_leaseExpiresAtMillis task,
      rt_r_OutputIdentity = tt_outputIdentity task, rt_r_Failure = RunFailure_String (tt_failure task),
      rt_r_RetryAtMilliseconds = tt_retryAtMillis task\<rparr>"

definition reviewRunReceiptToRecord :: "ReviewRunReceipt \<Rightarrow> reviewRunReceiptRecord" where
  "reviewRunReceiptToRecord receipt =
     \<lparr>rr_r_Contract = ''open-trestle/review-run-receipt'', rr_r_SchemaVersion = 1,
      rr_r_Identity = rr_identity receipt, rr_r_PlanIdentity = rr_planIdentity receipt,
      rr_r_TenantID = sc_tenantID (rr_scope receipt), rr_r_RepositoryID = sc_repositoryID (rr_scope receipt),
      rr_r_ReviewRunID = sc_reviewRunID (rr_scope receipt),
      rr_r_Status = ReviewRunStatus_String (rr_status receipt), rr_r_Revision = rr_revision receipt,
      rr_r_HeadIdentity = rr_headIdentity receipt,
      rr_r_LastOccurredAtMilliseconds = rr_lastOccurredAtMillis receipt,
      rr_r_OutputIdentity = rr_outputIdentity receipt,
      rr_r_Failure = RunFailure_String (rr_failure receipt),
      rr_r_Tasks = Some (map reviewTaskReceiptToRecord (rr_tasks receipt))\<rparr>"

text \<open>
  The identity is the hash of the record without its identity. Marshalling the raw message again
  gives the same bytes.
\<close>

definition deriveReviewRunReceiptIdentity :: "sha \<Rightarrow> ReviewRunReceipt \<Rightarrow> string" where
  "deriveReviewRunReceiptIdentity H receipt =
     (let record = reviewRunReceiptToRecord receipt
      in hashControlPlaneValue H (reviewRunReceiptRecord_json (record\<lparr>rr_r_Identity := []\<rparr>)))"


section \<open>Validation and construction\<close>

text \<open>The loop over the tasks, with the previous key.\<close>

fun receipt_tasks_ok :: "string \<Rightarrow> ReviewTaskReceipt list \<Rightarrow> bool" where
  "receipt_tasks_ok previous [] = True"
| "receipt_tasks_ok previous (task # tasks) =
     (if ReviewTaskReceipt_Validate task \<noteq> None \<or> tt_key task \<le> previous then False
      else receipt_tasks_ok (tt_key task) tasks)"

definition receipt_run_fields :: "ReviewRunReceipt \<Rightarrow> bool" where
  "receipt_run_fields r =
     (case rr_status r of
        ReviewRunActive \<Rightarrow> \<not> (rr_outputIdentity r \<noteq> [] \<or> rr_failure r \<noteq> NoRunFailure)
      | ReviewRunSucceeded \<Rightarrow>
          \<not> (\<not> validControlPlaneDigest (rr_outputIdentity r) \<or> rr_failure r \<noteq> NoRunFailure)
      | ReviewRunFailed \<Rightarrow> \<not> (rr_outputIdentity r \<noteq> [] \<or> RunFailure_String (rr_failure r) = [])
      | ReviewRunCanceled \<Rightarrow> \<not> (rr_outputIdentity r \<noteq> [] \<or> rr_failure r \<noteq> RunFailureCanceled)
      | ReviewRunStatusUnnamed _ \<Rightarrow> True)"

definition ReviewRunReceipt_Validate :: "sha \<Rightarrow> ReviewRunReceipt \<Rightarrow> error option" where
  "ReviewRunReceipt_Validate H r =
     (let validHeader = validControlPlaneDigest (rr_planIdentity r)
            \<and> ReviewScope_Validate H (rr_scope r) = None \<and> ReviewRunStatus_String (rr_status r) \<noteq> [];
          validRevision = rr_revision r > 0 \<and> validControlPlaneDigest (rr_headIdentity r)
            \<and> validRunMillis (rr_lastOccurredAtMillis r);
          validTaskCount = length (rr_tasks r) > 0 \<and> length (rr_tasks r) \<le> maxReviewRunTasks
      in if \<not> validHeader \<or> \<not> validRevision \<or> \<not> validTaskCount then Some ErrInvalidReviewRunReceipt
         else if \<not> receipt_tasks_ok [] (rr_tasks r) then Some ErrInvalidReviewRunReceipt
         else if \<not> receipt_run_fields r then Some ErrInvalidReviewRunReceipt
         else if rr_identity r \<noteq> deriveReviewRunReceiptIdentity H r
         then Some ErrInvalidReviewRunReceiptIdentity
         else None)"

definition newTaskReceipt :: "ReviewRunState \<Rightarrow> TaskDefinition \<Rightarrow> ReviewTaskReceipt" where
  "newTaskReceipt state definition =
     (let runtime = runtime_at state (td_key definition)
      in \<lparr>tt_key = td_key definition, tt_taskIdentity = td_identity definition,
          tt_inputIdentity = td_inputIdentity definition, tt_handlerIdentity = td_handlerIdentity definition,
          tt_kind = td_kind definition, tt_required = td_required definition, tt_status = rt_status runtime,
          tt_attempts = rt_attempts runtime, tt_maxAttempts = td_maxAttempts definition,
          tt_leaseExpiresAtMillis = rt_leaseExpiresAtMillis runtime,
          tt_outputIdentity = rt_outputIdentity runtime, tt_failure = rt_failure runtime,
          tt_retryAtMillis = rt_retryAtMillis runtime\<rparr>)"

definition receipt_of_state :: "sha \<Rightarrow> ReviewRunState \<Rightarrow> ReviewRunReceipt" where
  "receipt_of_state H state =
     (let receipt =
        \<lparr>rr_identity = [], rr_planIdentity = rp_identity (rs_plan state), rr_scope = rp_scope (rs_plan state),
         rr_status = rs_status state, rr_revision = rs_revision state, rr_headIdentity = rs_headIdentity state,
         rr_lastOccurredAtMillis = rs_lastOccurredAtMillis state, rr_outputIdentity = rs_outputIdentity state,
         rr_failure = rs_failure state, rr_tasks = map (newTaskReceipt state) (rp_tasks (rs_plan state))\<rparr>
      in receipt\<lparr>rr_identity := deriveReviewRunReceiptIdentity H receipt\<rparr>)"

definition NewReviewRunReceipt :: "sha \<Rightarrow> ReviewRunState \<Rightarrow> error + ReviewRunReceipt" where
  "NewReviewRunReceipt H state =
     check (ReviewRunState_Validate H state)
       (let receipt = receipt_of_state H state
        in check (ReviewRunReceipt_Validate H receipt) (Inr receipt))"

definition Coordinator_Receipt ::
    "sha \<Rightarrow> 's RunJournal \<Rightarrow> gocontext \<Rightarrow> ReviewScope \<Rightarrow> 's \<Rightarrow> (error + ReviewRunReceipt) \<times> 's" where
  "Coordinator_Receipt H J ctx scope s =
     (case Coordinator_Resume H J ctx scope s of
        (Inl err, s') \<Rightarrow> (Inl err, s')
      | (Inr (_, state), s') \<Rightarrow> (NewReviewRunReceipt H state, s'))"


section \<open>Encoding and parsing\<close>

definition reviewRunStatuses :: "ReviewRunStatus list" where
  "reviewRunStatuses = [ReviewRunActive, ReviewRunSucceeded, ReviewRunFailed, ReviewRunCanceled]"

definition parseReviewRunStatus :: "string \<Rightarrow> error + ReviewRunStatus" where
  "parseReviewRunStatus value =
     parse_named reviewRunStatuses ReviewRunStatus_String ErrInvalidReviewRunReceipt value"

definition taskRuntimeStatuses :: "TaskRuntimeStatus list" where
  "taskRuntimeStatuses = [TaskRuntimePending, TaskRuntimeAvailable, TaskRuntimeLeased,
     TaskRuntimeSucceeded, TaskRuntimeFailed, TaskRuntimeSkipped]"

definition parseTaskRuntimeStatus :: "string \<Rightarrow> error + TaskRuntimeStatus" where
  "parseTaskRuntimeStatus value =
     parse_named taskRuntimeStatuses TaskRuntimeStatus_String ErrInvalidReviewRunReceipt value"

definition EncodeReviewRunReceipt :: "sha \<Rightarrow> ReviewRunReceipt \<Rightarrow> error + string" where
  "EncodeReviewRunReceipt H receipt =
     check (ReviewRunReceipt_Validate H receipt)
       (encode_bounded maxEncodedReviewRunReceiptBytes ErrInvalidReviewRunReceiptEncoding
          (reviewRunReceiptRecord_json (reviewRunReceiptToRecord receipt)))"

definition taskReceiptFromRecord :: "reviewTaskReceiptRecord \<Rightarrow> error + ReviewTaskReceipt" where
  "taskReceiptFromRecord r =
     and_then (parseTaskKind (rt_r_Kind r)) (\<lambda>kind.
     and_then (parseTaskRuntimeStatus (rt_r_Status r)) (\<lambda>taskStatus.
     and_then (parseRunFailure (rt_r_Failure r)) (\<lambda>taskFailure.
       Inr \<lparr>tt_key = rt_r_Key r, tt_taskIdentity = rt_r_TaskIdentity r,
            tt_inputIdentity = rt_r_InputIdentity r, tt_handlerIdentity = rt_r_HandlerIdentity r,
            tt_kind = kind, tt_required = rt_r_Required r, tt_status = taskStatus,
            tt_attempts = rt_r_Attempts r, tt_maxAttempts = rt_r_MaxAttempts r,
            tt_leaseExpiresAtMillis = rt_r_LeaseExpiresAtMilliseconds r,
            tt_outputIdentity = rt_r_OutputIdentity r, tt_failure = taskFailure,
            tt_retryAtMillis = rt_r_RetryAtMilliseconds r\<rparr>)))"

fun taskReceiptsFromRecords :: "reviewTaskReceiptRecord list \<Rightarrow> error + ReviewTaskReceipt list" where
  "taskReceiptsFromRecords [] = Inr []"
| "taskReceiptsFromRecords (r # rs) =
     and_then (taskReceiptFromRecord r) (\<lambda>t. and_then (taskReceiptsFromRecords rs) (\<lambda>ts. Inr (t # ts)))"

definition reviewRunReceiptFromRecord :: "sha \<Rightarrow> reviewRunReceiptRecord \<Rightarrow> error + ReviewRunReceipt" where
  "reviewRunReceiptFromRecord H record =
     (if rr_r_Contract record \<noteq> ''open-trestle/review-run-receipt'' \<or> rr_r_SchemaVersion record \<noteq> 1
      then Inl ErrInvalidReviewRunReceiptEncoding
      else (case NewReviewScope H (rr_r_TenantID record) (rr_r_RepositoryID record) (rr_r_ReviewRunID record) of
              Inl _ \<Rightarrow> Inl ErrInvalidReviewRunReceiptEncoding
            | Inr scope \<Rightarrow>
                and_then (parseReviewRunStatus (rr_r_Status record)) (\<lambda>status.
                and_then (parseRunFailure (rr_r_Failure record)) (\<lambda>failure.
                and_then (taskReceiptsFromRecords (case rr_r_Tasks record of None \<Rightarrow> [] | Some rs \<Rightarrow> rs)) (\<lambda>tasks.
                  let receipt =
                    \<lparr>rr_identity = rr_r_Identity record, rr_planIdentity = rr_r_PlanIdentity record,
                     rr_scope = scope, rr_status = status, rr_revision = rr_r_Revision record,
                     rr_headIdentity = rr_r_HeadIdentity record,
                     rr_lastOccurredAtMillis = rr_r_LastOccurredAtMilliseconds record,
                     rr_outputIdentity = rr_r_OutputIdentity record, rr_failure = failure,
                     rr_tasks = tasks\<rparr>
                  in check (ReviewRunReceipt_Validate H receipt) (Inr receipt))))))"

definition ParseReviewRunReceipt :: "sha \<Rightarrow> string \<Rightarrow> error + ReviewRunReceipt" where
  "ParseReviewRunReceipt H encoded =
     and_then (parse_canonical maxEncodedReviewRunReceiptBytes ErrInvalidReviewRunReceiptEncoding
                 reviewRunReceiptRecord_decode reviewRunReceiptRecord_json encoded) (\<lambda>record.
     and_then (reviewRunReceiptFromRecord H record) (\<lambda>receipt.
       if EncodeReviewRunReceipt H receipt \<noteq> Inr encoded then Inl ErrInvalidReviewRunReceiptEncoding
       else Inr receipt))"

section \<open>Receipts of replayed states\<close>

text \<open>
  The fields a replayed state carries beside its statuses: nothing is left over from an earlier
  status. This is what the checks of a receipt ask for.
\<close>

definition runtime_clean :: "TaskRuntimeState \<Rightarrow> bool" where
  "runtime_clean r =
     (let expires = rt_leaseExpiresAtMillis r = 0; output = rt_outputIdentity r = [];
          failure = rt_failure r = NoRunFailure; retry = rt_retryAtMillis r = 0
      in case rt_status r of
           TaskRuntimePending \<Rightarrow> expires \<and> output \<and> failure \<and> retry
         | TaskRuntimeAvailable \<Rightarrow> expires \<and> output \<and> failure \<and> retry
         | TaskRuntimeLeased \<Rightarrow> output \<and> failure \<and> retry
         | TaskRuntimeSucceeded \<Rightarrow> expires \<and> failure \<and> retry
         | TaskRuntimeFailed \<Rightarrow> expires \<and> output
         | TaskRuntimeSkipped \<Rightarrow> expires \<and> output \<and> retry
         | TaskRuntimeStatusUnnamed _ \<Rightarrow> True)"

definition run_clean :: "ReviewRunState \<Rightarrow> bool" where
  "run_clean s =
     (case rs_status s of
        ReviewRunSucceeded \<Rightarrow> rs_failure s = NoRunFailure
      | ReviewRunFailed \<Rightarrow> rs_outputIdentity s = []
      | ReviewRunCanceled \<Rightarrow> rs_outputIdentity s = [] \<and> rs_failure s = RunFailureCanceled
      | _ \<Rightarrow> rs_outputIdentity s = [] \<and> rs_failure s = NoRunFailure)"

definition state_clean :: "ReviewRunState \<Rightarrow> bool" where
  "state_clean s \<longleftrightarrow> run_clean s \<and> (\<forall>k r. map_of (rs_tasks s) k = Some r \<longrightarrow> runtime_clean r)"

lemma applyTaskEvent_clean:
  assumes "applyTaskEvent s e r = Inr r'" and "runtime_clean r" and "validateFields e = None"
  shows "runtime_clean r'"
  using assms(1)
proof (cases rule: applyTaskEvent_cases)
  case available
  with assms(2) show ?thesis by (auto simp: runtime_clean_def RetryableAt_def)
next
  case leased
  with assms(2) show ?thesis by (auto simp: runtime_clean_def)
next
  case renewed
  with assms(2) show ?thesis by (auto simp: runtime_clean_def)
next
  case succeeded
  with assms(2) show ?thesis by (auto simp: runtime_clean_def matchesLeaseResult_def)
next
  case failed
  with assms(2) show ?thesis by (auto simp: runtime_clean_def matchesLeaseResult_def)
next
  case skipped
  with assms(2) show ?thesis by (auto simp: runtime_clean_def)
qed

lemma stamp_clean [simp]: "runtime_clean (stamp e r) = runtime_clean r"
  by (simp add: runtime_clean_def)

lemma set_head_clean [simp]: "state_clean (set_head e s) = state_clean s"
  by (simp add: state_clean_def run_clean_def cong: ReviewRunStatus.case_cong)

lemma apply_event_clean:
  assumes "apply_event s e = Inr s'" and "state_clean s" and "validateFields e = None"
  shows "state_clean s'"
  using assms(1)
proof (cases rule: apply_event_cases)
  case (task r r')
  moreover from this assms have "runtime_clean (stamp e r')"
    by (auto simp: state_clean_def intro: applyTaskEvent_clean)
  ultimately show ?thesis
    using assms(2) by (auto simp: state_clean_def run_clean_def update_conv')
qed (use assms(2) in \<open>auto simp: state_clean_def run_clean_def\<close>)

interpretation clean: event_sourced "run_step H plan" "initial_state plan" state_clean for H plan
proof
  have "runtime_clean r" if "map_of (initial_tasks plan) k = Some r" for k r
  proof -
    have "\<forall>p\<in>set (foldl (\<lambda>m d. AList.update (td_key d) (newTaskRuntimeState d TaskRuntimePending) m) m ds).
        runtime_clean (snd p)" if "\<forall>p\<in>set m. runtime_clean (snd p)" for m ds
      using that
    proof (induction ds arbitrary: m)
      case (Cons d ds)
      have "set (AList.update k v m) \<subseteq> insert (k, v) (set m)" for k v and m :: "(string \<times> TaskRuntimeState) list"
        by (induction m) auto
      with Cons.prems have "\<forall>p\<in>set (AList.update (td_key d) (newTaskRuntimeState d TaskRuntimePending) m).
          runtime_clean (snd p)"
        by (fastforce simp: runtime_clean_def newTaskRuntimeState_def)
      then show ?case using Cons.IH by simp
    qed simp
    from this [of "[]" "rp_tasks plan"] map_of_SomeD [OF that] show ?thesis
      by (auto simp: initial_tasks_def)
  qed
  then show "state_clean (initial_state plan)"
    by (auto simp: state_clean_def run_clean_def initial_state_def)
next
  fix s e s'
  assume clean: "state_clean s" and step: "run_step H plan s e = Inr s'"
  then obtain s1 where "apply_event s e = Inr s1" and "s' = set_head e s1"
    by (auto simp: run_step_def replay_step_Inr)
  with apply_event_clean [OF _ clean] run_step_valid [OF step] show "state_clean s'" by simp
qed

text \<open>The times of a runtime state that a receipt can represent.\<close>

definition representable :: "TaskRuntimeState \<Rightarrow> bool" where
  "representable r \<longleftrightarrow>
     (rt_status r = TaskRuntimeLeased \<longrightarrow> validRunMillis (rt_leaseExpiresAtMillis r))
     \<and> (rt_retryAtMillis r \<noteq> 0 \<longrightarrow> validRunMillis (rt_retryAtMillis r))"

lemma receipt_status_fields_runtime:
  assumes "phase_ok r" and "runtime_clean r" and "td_maxAttempts (rt_definition r) = m"
    and "tt_status t = rt_status r" and "tt_attempts t = rt_attempts r" and "tt_maxAttempts t = m"
    and "tt_leaseExpiresAtMillis t = rt_leaseExpiresAtMillis r" and "tt_failure t = rt_failure r"
    and "tt_outputIdentity t = rt_outputIdentity r" and "tt_retryAtMillis t = rt_retryAtMillis r"
  shows "receipt_status_fields t \<longleftrightarrow> representable r"
  using assms
  by (cases "rt_status r")
    (auto simp: receipt_status_fields_def phase_ok_def runtime_clean_def representable_def hasResultFields_def
      failedWithoutRetry_def validControlPlaneDigest_nonempty)

lemma newTaskReceipt_valid:
  assumes "sum256 H" and wf: "plan_wf H plan" and inv: "state_inv plan s" and clean: "state_clean s"
    and d: "d \<in> set (rp_tasks plan)"
  shows "ReviewTaskReceipt_Validate (newTaskReceipt s d) = None \<longleftrightarrow> representable (runtime_at s (td_key d))"
proof -
  let ?r = "runtime_at s (td_key d)"
  have r: "map_of (rs_tasks s) (td_key d) = Some ?r" "rt_definition ?r = d"
    using state_inv_definition [OF wf inv d] by simp_all
  then have ok: "phase_ok ?r" "runtime_clean ?r"
    using inv clean by (auto simp: state_inv_def tasks_inv_def state_clean_def)
  have "receipt_status_fields (newTaskReceipt s d) \<longleftrightarrow> representable ?r"
    using ok r by (intro receipt_status_fields_runtime) (auto simp: newTaskReceipt_def Let_def)
  moreover have "TaskRuntimeStatus_String (rt_status ?r) \<noteq> []"
    using ok by (cases "rt_status ?r") (auto simp: phase_ok_def)
  moreover have "rt_attempts ?r \<le> td_maxAttempts d" using ok r by (simp add: phase_ok_def)
  ultimately show ?thesis
    using plan_wf_task_ok [OF wf d] task_ok_identity [OF assms(1)]
    by (auto simp: ReviewTaskReceipt_Validate_def newTaskReceipt_def Let_def task_ok_def maxReviewTaskAttempts_def)
qed

lemma receipt_tasks_ok_iff:
  "receipt_tasks_ok k ts \<longleftrightarrow> (\<forall>t\<in>set ts. ReviewTaskReceipt_Validate t = None) \<and> sorted_wrt (<) (k # map tt_key ts)"
proof (induction ts arbitrary: k)
  case (Cons t ts)
  then show ?case by (force simp: not_le)
qed simp

lemma deriveReviewRunReceiptIdentity_identity [simp]:
  "deriveReviewRunReceiptIdentity H (r\<lparr>rr_identity := i\<rparr>) = deriveReviewRunReceiptIdentity H r"
  by (simp add: deriveReviewRunReceiptIdentity_def reviewRunReceiptToRecord_def)

lemma receipt_of_state_identity:
  "rr_identity (receipt_of_state H s) = deriveReviewRunReceiptIdentity H (receipt_of_state H s)"
  by (simp add: receipt_of_state_def Let_def deriveReviewRunReceiptIdentity_def reviewRunReceiptToRecord_def)

lemma receipt_of_state_sel [simp]:
  "rr_planIdentity (receipt_of_state H s) = rp_identity (rs_plan s)"
  "rr_scope (receipt_of_state H s) = rp_scope (rs_plan s)" "rr_status (receipt_of_state H s) = rs_status s"
  "rr_revision (receipt_of_state H s) = rs_revision s"
  "rr_headIdentity (receipt_of_state H s) = rs_headIdentity s"
  "rr_lastOccurredAtMillis (receipt_of_state H s) = rs_lastOccurredAtMillis s"
  "rr_outputIdentity (receipt_of_state H s) = rs_outputIdentity s"
  "rr_failure (receipt_of_state H s) = rs_failure s"
  "rr_tasks (receipt_of_state H s) = map (newTaskReceipt s) (rp_tasks (rs_plan s))"
  by (simp_all add: receipt_of_state_def Let_def)

lemma receipt_of_state_valid:
  assumes "sum256 H" and wf: "plan_wf H plan" and inv: "state_inv plan s" and clean: "state_clean s"
    and v: "ReviewRunState_Validate H s = None"
  shows "ReviewRunReceipt_Validate H (receipt_of_state H s) = None \<longleftrightarrow>
    (\<forall>d\<in>set (rp_tasks plan). representable (runtime_at s (td_key d)))"
proof -
  have plan: "rs_plan s = plan" using inv by (simp add: state_inv_def tasks_inv_def)
  have keys: "sorted_wrt (<) ([] # map tt_key (map (newTaskReceipt s) (rp_tasks plan)))"
  proof -
    have "map tt_key (map (newTaskReceipt s) (rp_tasks plan)) = map td_key (rp_tasks plan)"
      by (simp add: newTaskReceipt_def Let_def comp_def)
    moreover have "[] < td_key d" if "d \<in> set (rp_tasks plan)" for d
      using task_ok_key [OF plan_wf_task_ok [OF wf that]] by (cases "td_key d") simp_all
    ultimately show ?thesis
      using wf by (simp add: plan_wf_def del: map_map)
  qed
  have "receipt_tasks_ok [] (map (newTaskReceipt s) (rp_tasks plan)) \<longleftrightarrow>
      (\<forall>d\<in>set (rp_tasks plan). representable (runtime_at s (td_key d)))"
    using keys newTaskReceipt_valid [OF assms(1) wf inv clean] by (auto simp: receipt_tasks_ok_iff simp del: sorted_wrt.simps)
  moreover have "receipt_run_fields (receipt_of_state H s)"
    using clean v inv
    by (cases "rs_status s") (auto simp: receipt_run_fields_def state_clean_def
        run_clean_def ReviewRunState_Validate_def state_inv_def head_inv_def split: option.splits if_splits)
  moreover have "validControlPlaneDigest (rp_identity plan)" "ReviewScope_Validate H (rp_scope plan) = None"
    using plan_identity_valid [OF assms(1)] plan_scope_valid ReviewRunPlan_Validate_wf [OF wf] by blast+
  moreover have "ReviewRunStatus_String (rs_status s) \<noteq> []" "rs_revision s \<noteq> 0"
      "validControlPlaneDigest (rs_headIdentity s)" "validRunMillis (rs_lastOccurredAtMillis s)"
    using v by (auto simp: ReviewRunState_Validate_def split: option.splits if_splits)
  moreover have "rp_tasks plan \<noteq> []" "length (rp_tasks plan) \<le> 64" using wf by (auto simp: plan_wf_def)
  ultimately show ?thesis
    using receipt_of_state_identity [of H s]
    by (simp add: ReviewRunReceipt_Validate_def Let_def plan maxReviewRunTasks_def)
qed

text \<open>
  C27. The receipt of a replayed run is refused for one reason only: a lease expiry
  or a retry time of a task that lies after the year 9999, which the events themselves admit.
\<close>

theorem receipt_of_replay:
  assumes "sum256 H" and "plan_wf H plan" and "ReplayReviewRun H plan es = Inr st"
  shows "NewReviewRunReceipt H st =
    (if list_all (\<lambda>d. representable (runtime_at st (td_key d))) (rp_tasks plan)
     then Inr (receipt_of_state H st)
     else Inl ErrInvalidReviewRunReceipt)"
proof -
  have ctx: "replay_context H plan" using assms by (simp add: replay_context_def)
  have r: "replayed H plan es st" "ReviewRunState_Validate H st = None"
    using assms(3) by (simp_all add: ReplayReviewRun_Inr)
  note valid = receipt_of_state_valid [OF assms(1,2) replayed_inv [OF ctx r(1)] clean.invar_replayed [OF r(1)] r(2)]
  moreover have "ReviewRunReceipt_Validate H (receipt_of_state H st)
      \<in> {None, Some ErrInvalidReviewRunReceipt}"
    using receipt_of_state_identity [of H st] by (auto simp: ReviewRunReceipt_Validate_def Let_def)
  ultimately show ?thesis
    using r(2) by (auto simp: NewReviewRunReceipt_def Let_def list_all_iff)
qed

lemma find_map_key: "find P (map f xs) = map_option f (find (P \<circ> f) xs)"
  by (induction xs) simp_all

text \<open>
  A task is looked up in the receipt of a replayed run exactly as in the plan, and the entry
  is the definition of the task with its runtime state.
\<close>

lemma receipt_lookup:
  assumes "sum256 H" and "plan_wf H plan" and "ReplayReviewRun H plan es = Inr st"
    and "NewReviewRunReceipt H st = Inr receipt"
  shows "ReviewRunReceipt_Task receipt key = map_option (newTaskReceipt st) (ReviewRunPlan_Task plan key)"
proof -
  have ctx: "replay_context H plan" using assms by (simp add: replay_context_def)
  have "replayed H plan es st" using assms(3) by (simp add: ReplayReviewRun_Inr)
  then have "rs_plan st = plan" using replayed_inv [OF ctx] by (simp add: state_inv_def tasks_inv_def)
  moreover have "receipt = receipt_of_state H st"
    using assms(4) by (simp add: NewReviewRunReceipt_def check_Inr_iff Let_def)
  ultimately have tasks: "rr_tasks receipt = map (newTaskReceipt st) (rp_tasks plan)" by simp
  have key: "tt_key (newTaskReceipt st d) = td_key d" for d by (simp add: newTaskReceipt_def Let_def)
  have sorted: "sorted_wrt (<) (map td_key (rp_tasks plan))" using assms(2) by (simp add: plan_wf_def)
  then have "sorted_wrt (<) (map tt_key (rr_tasks receipt))" by (simp add: tasks comp_def key)
  from search_by_key_sorted [OF this] search_by_key_sorted [OF sorted] show ?thesis
    by (simp add: ReviewRunReceipt_Task_def ReviewRunPlan_Task_def tasks find_map_key comp_def key)
qed


section \<open>Round trips\<close>

definition task_receipt_record_ok :: "reviewTaskReceiptRecord \<Rightarrow> bool" where
  "task_receipt_record_ok r \<longleftrightarrow>
     rt_r_Attempts r < 2 ^ 8 \<and> rt_r_MaxAttempts r < 2 ^ 8 \<and> int64 (rt_r_LeaseExpiresAtMilliseconds r)
     \<and> int64 (rt_r_RetryAtMilliseconds r)
     \<and> list_all utf8_ValidString [rt_r_Key r, rt_r_TaskIdentity r, rt_r_InputIdentity r,
          rt_r_HandlerIdentity r, rt_r_Kind r, rt_r_Status r, rt_r_OutputIdentity r, rt_r_Failure r]"

interpretation task_receipt_codec:
  canonical_codec reviewTaskReceiptRecord_json reviewTaskReceiptRecord_decode task_receipt_record_ok
proof
  fix r
  assume ok: "task_receipt_record_ok r"
  show "reviewTaskReceiptRecord_decode (reviewTaskReceiptRecord_json r) = Some r"
    using ok by (simp add: task_receipt_record_ok_def reviewTaskReceiptRecord_decode_def
        reviewTaskReceiptRecord_json_def json_object_def)
  show "json_clean (reviewTaskReceiptRecord_json r)"
    using ok by (simp add: task_receipt_record_ok_def reviewTaskReceiptRecord_json_def utf8_literal)
qed

definition receipt_record_ok :: "reviewRunReceiptRecord \<Rightarrow> bool" where
  "receipt_record_ok r \<longleftrightarrow>
     int64 (rr_r_SchemaVersion r) \<and> rr_r_Revision r < 2 ^ 64 \<and> int64 (rr_r_LastOccurredAtMilliseconds r)
     \<and> list_all utf8_ValidString [rr_r_Contract r, rr_r_Identity r, rr_r_PlanIdentity r, rr_r_TenantID r,
          rr_r_RepositoryID r, rr_r_ReviewRunID r, rr_r_Status r, rr_r_HeadIdentity r, rr_r_OutputIdentity r,
          rr_r_Failure r]
     \<and> (case rr_r_Tasks r of None \<Rightarrow> True | Some ts \<Rightarrow> list_all task_receipt_record_ok ts)"

interpretation receipt_codec:
  canonical_codec reviewRunReceiptRecord_json reviewRunReceiptRecord_decode receipt_record_ok
proof
  fix r
  assume ok: "receipt_record_ok r"
  have tasks: "field_list reviewTaskReceiptRecord_decode fs ''tasks'' = Some (rr_r_Tasks r)"
    if "map_of fs ''tasks'' = Some (json_list reviewTaskReceiptRecord_json (rr_r_Tasks r))" for fs
    using that ok
    by (intro field_list_json_list) (auto simp: receipt_record_ok_def list_all_iff task_receipt_codec.inverse)
  show "reviewRunReceiptRecord_decode (reviewRunReceiptRecord_json r) = Some r"
    using ok by (simp add: receipt_record_ok_def reviewRunReceiptRecord_decode_def
        reviewRunReceiptRecord_json_def json_object_def tasks)
  show "json_clean (reviewRunReceiptRecord_json r)"
    using ok by (auto simp: receipt_record_ok_def reviewRunReceiptRecord_json_def utf8_literal list_all_iff
        task_receipt_codec.clean split: option.splits)
qed

text \<open>The integers of a receipt are machine integers.\<close>

definition receipt_ints :: "ReviewRunReceipt \<Rightarrow> bool" where
  "receipt_ints r \<longleftrightarrow> rr_revision r < 2 ^ 64
     \<and> list_all (\<lambda>t. int64 (tt_leaseExpiresAtMillis t) \<and> int64 (tt_retryAtMillis t)) (rr_tasks r)"

lemma ReviewTaskReceipt_Validate_None:
  "ReviewTaskReceipt_Validate t = None \<longleftrightarrow>
     validReviewTaskKey (tt_key t)
     \<and> list_all validControlPlaneDigest [tt_taskIdentity t, tt_inputIdentity t, tt_handlerIdentity t]
     \<and> TaskKind_Validate (tt_kind t) = None \<and> TaskRuntimeStatus_String (tt_status t) \<noteq> []
     \<and> 0 < tt_maxAttempts t \<and> tt_maxAttempts t \<le> 5 \<and> tt_attempts t \<le> tt_maxAttempts t
     \<and> receipt_status_fields t"
  by (auto simp: ReviewTaskReceipt_Validate_def Let_def maxReviewTaskAttempts_def)

lemma task_receipt_result:
  assumes "ReviewTaskReceipt_Validate t = None"
  shows "digest_or_empty (tt_outputIdentity t)"
    and "tt_failure t = NoRunFailure \<or> RunFailure_String (tt_failure t) \<noteq> []"
  using assms
  by (cases "tt_status t"; auto simp: ReviewTaskReceipt_Validate_None receipt_status_fields_def
      hasResultFields_def digest_or_empty_def)+

lemma ReviewRunReceipt_Validate_None:
  "ReviewRunReceipt_Validate H r = None \<longleftrightarrow>
     validControlPlaneDigest (rr_planIdentity r) \<and> ReviewScope_Validate H (rr_scope r) = None
     \<and> ReviewRunStatus_String (rr_status r) \<noteq> [] \<and> 0 < rr_revision r
     \<and> validControlPlaneDigest (rr_headIdentity r) \<and> validRunMillis (rr_lastOccurredAtMillis r)
     \<and> rr_tasks r \<noteq> [] \<and> length (rr_tasks r) \<le> 64
     \<and> (\<forall>t\<in>set (rr_tasks r). ReviewTaskReceipt_Validate t = None)
     \<and> sorted_wrt (<) ([] # map tt_key (rr_tasks r)) \<and> receipt_run_fields r
     \<and> rr_identity r = deriveReviewRunReceiptIdentity H r"
  by (auto simp: ReviewRunReceipt_Validate_def Let_def maxReviewRunTasks_def receipt_tasks_ok_iff
      simp del: sorted_wrt.simps)

lemma receipt_result:
  assumes "ReviewRunReceipt_Validate H r = None"
  shows "digest_or_empty (rr_outputIdentity r)"
    and "rr_failure r = NoRunFailure \<or> RunFailure_String (rr_failure r) \<noteq> []"
  using assms
  by (cases "rr_status r"; auto simp: ReviewRunReceipt_Validate_None receipt_run_fields_def digest_or_empty_def)+

lemma status_string_utf8 [simp]:
  "utf8_ValidString (TaskRuntimeStatus_String ts)" "utf8_ValidString (ReviewRunStatus_String rs)"
  by (cases ts; simp add: utf8_literal) (cases rs; simp add: utf8_literal)

lemma parseTaskRuntimeStatus_String:
  "TaskRuntimeStatus_String st \<noteq> [] \<Longrightarrow> parseTaskRuntimeStatus (TaskRuntimeStatus_String st) = Inr st"
  unfolding parseTaskRuntimeStatus_def
  by (cases st; rule parse_named_name) (simp_all add: taskRuntimeStatuses_def)

lemma parseReviewRunStatus_String:
  "ReviewRunStatus_String st \<noteq> [] \<Longrightarrow> parseReviewRunStatus (ReviewRunStatus_String st) = Inr st"
  unfolding parseReviewRunStatus_def
  by (cases st; rule parse_named_name) (simp_all add: reviewRunStatuses_def)

lemma task_receipt_record_ok_of:
  assumes v: "ReviewTaskReceipt_Validate t = None"
    and "int64 (tt_leaseExpiresAtMillis t)" "int64 (tt_retryAtMillis t)"
  shows "task_receipt_record_ok (reviewTaskReceiptToRecord t)"
proof -
  have "ascii (tt_key t)" "ascii (tt_taskIdentity t)" "ascii (tt_inputIdentity t)" "ascii (tt_handlerIdentity t)"
      "ascii (tt_outputIdentity t)"
    using v ascii_task_key ascii_digest digest_or_empty_string task_receipt_result(1) [OF v]
    by (auto simp: ReviewTaskReceipt_Validate_None)
  moreover have "tt_attempts t < 256" "tt_maxAttempts t < 256"
    using v by (auto simp: ReviewTaskReceipt_Validate_None)
  ultimately show ?thesis
    using assms(2,3) by (simp add: task_receipt_record_ok_def reviewTaskReceiptToRecord_def ascii_utf8)
qed

lemma receipt_record_ok_of:
  assumes "sum256 H" and v: "ReviewRunReceipt_Validate H r = None" and ints: "receipt_ints r"
  shows "receipt_record_ok (reviewRunReceiptToRecord r)"
proof -
  have "ascii (rr_identity r)" "ascii (rr_planIdentity r)" "ascii (rr_headIdentity r)"
      "ascii (rr_outputIdentity r)" "int64 (rr_lastOccurredAtMillis r)"
    using v ascii_digest digest_or_empty_string receipt_result(1) [OF v] hash_valid [OF assms(1)] int64_millis
    by (auto simp: ReviewRunReceipt_Validate_None deriveReviewRunReceiptIdentity_def Let_def)
  moreover have "ReviewScope_Validate H (rr_scope r) = None"
    using v by (simp add: ReviewRunReceipt_Validate_None)
  moreover have "list_all task_receipt_record_ok (map reviewTaskReceiptToRecord (rr_tasks r))"
    using v ints task_receipt_record_ok_of
    by (auto simp: ReviewRunReceipt_Validate_None receipt_ints_def list_all_iff)
  ultimately show ?thesis
    using scope_strings [of H "rr_scope r"] ints
    by (simp add: receipt_record_ok_def reviewRunReceiptToRecord_def ascii_utf8 utf8_literal receipt_ints_def)
      (simp add: int64_def)
qed

lemma taskReceiptsFromRecords_ToRecords:
  "\<forall>t\<in>set ts. ReviewTaskReceipt_Validate t = None \<Longrightarrow>
     taskReceiptsFromRecords (map reviewTaskReceiptToRecord ts) = Inr ts"
proof (induction ts)
  case (Cons t ts)
  then have v: "ReviewTaskReceipt_Validate t = None" by simp
  then have "taskReceiptFromRecord (reviewTaskReceiptToRecord t) = Inr t"
    using parseRunFailure_String [OF task_receipt_result(2) [OF v]]
    by (simp add: taskReceiptFromRecord_def reviewTaskReceiptToRecord_def parseTaskKind_String
        parseTaskRuntimeStatus_String ReviewTaskReceipt_Validate_None)
  with Cons show ?case by simp
qed simp

lemma reviewRunReceiptFromRecord_ToRecord:
  assumes v: "ReviewRunReceipt_Validate H r = None"
  shows "reviewRunReceiptFromRecord H (reviewRunReceiptToRecord r) = Inr r"
proof -
  have f: "ReviewScope_Validate H (rr_scope r) = None" "ReviewRunStatus_String (rr_status r) \<noteq> []"
      "\<forall>t\<in>set (rr_tasks r). ReviewTaskReceipt_Validate t = None"
    using v by (simp_all add: ReviewRunReceipt_Validate_None)
  show ?thesis
    using v scope_strings(7) [OF f(1)] parseReviewRunStatus_String [OF f(2)]
      taskReceiptsFromRecords_ToRecords [OF f(3)] parseRunFailure_String [OF receipt_result(2) [OF v]]
    by (cases r) (simp add: reviewRunReceiptFromRecord_def reviewRunReceiptToRecord_def)
qed

text \<open>
  A receipt that was encoded is parsed back as it was.
\<close>

lemma receipt_roundtrip:
  assumes "sum256 H" and "EncodeReviewRunReceipt H receipt = Inr s" and "receipt_ints receipt"
  shows "ParseReviewRunReceipt H s = Inr receipt"
proof -
  have v: "ReviewRunReceipt_Validate H receipt = None"
    and s: "s = json_Marshal (reviewRunReceiptRecord_json (reviewRunReceiptToRecord receipt))"
      "length s \<le> maxEncodedReviewRunReceiptBytes"
    using assms(2) by (auto simp: EncodeReviewRunReceipt_def check_def encode_bounded_Inr split: option.splits)
  from receipt_codec.parse_Marshal [OF receipt_record_ok_of [OF assms(1) v assms(3)]] s assms(2)
  show ?thesis by (simp add: ParseReviewRunReceipt_def reviewRunReceiptFromRecord_ToRecord [OF v])
qed

text \<open>
  The parser of receipts accepts one text per receipt, and only receipts that
  validate: the identity in the text is the hash of the rest.
\<close>

lemma receipt_canonical:
  assumes "ParseReviewRunReceipt H s = Inr receipt"
  shows "EncodeReviewRunReceipt H receipt = Inr s
    \<and> rr_identity receipt = deriveReviewRunReceiptIdentity H receipt"
proof -
  have e: "EncodeReviewRunReceipt H receipt = Inr s"
    using assms by (auto simp: ParseReviewRunReceipt_def and_then_Inr_iff split: if_splits)
  then have "ReviewRunReceipt_Validate H receipt = None"
    by (auto simp: EncodeReviewRunReceipt_def check_Inr_iff)
  with e show ?thesis by (simp add: ReviewRunReceipt_Validate_None)
qed

lemma digest_or_empty_plain: "digest_or_empty s \<Longrightarrow> list_all json_plain_char s"
  using plain_digest by (auto simp: digest_or_empty_def)

lemma task_receipt_json_bound:
  assumes v: "ReviewTaskReceipt_Validate t = None"
    and "int64 (tt_leaseExpiresAtMillis t)" "int64 (tt_retryAtMillis t)"
  shows "json_plain (reviewTaskReceiptRecord_json (reviewTaskReceiptToRecord t))
    \<and> json_plain_bound (reviewTaskReceiptRecord_json (reviewTaskReceiptToRecord t)) \<le> 1000"
proof -
  have s: "list_all (\<lambda>s. list_all json_plain_char s \<and> length s \<le> 64)
      [tt_key t, tt_taskIdentity t, tt_inputIdentity t, tt_handlerIdentity t, tt_outputIdentity t]"
    using v task_receipt_result(1) [OF v] plain_digest plain_task_key ascii_digest ascii_task_key
      digest_or_empty_plain digest_or_empty_string
    by (auto simp: ReviewTaskReceipt_Validate_None)
  have kind: "list_all json_plain_char (TaskKind_String (tt_kind t))" "length (TaskKind_String (tt_kind t)) \<le> 21"
    by (cases "tt_kind t"; simp add: json_plain_char_def)+
  have status: "list_all json_plain_char (TaskRuntimeStatus_String (tt_status t))"
      "length (TaskRuntimeStatus_String (tt_status t)) \<le> 9"
    by (cases "tt_status t"; simp add: json_plain_char_def)+
  have failure: "list_all json_plain_char (RunFailure_String (tt_failure t))"
    by (cases "tt_failure t") (simp_all add: json_plain_char_def)
  have ints: "length (dec_int (int (tt_attempts t))) \<le> 1" "length (dec_int (int (tt_maxAttempts t))) \<le> 1"
      "length (dec_int (tt_leaseExpiresAtMillis t)) \<le> 21" "length (dec_int (tt_retryAtMillis t)) \<le> 21"
    using v assms(2,3) by (auto simp: ReviewTaskReceipt_Validate_None intro!: dec_int_digits int64_length)
  show ?thesis
    using s kind status failure failure_string_length [of "tt_failure t"] ints
    by (simp add: reviewTaskReceiptRecord_json_def reviewTaskReceiptToRecord_def json_plain_char_def)
qed

text \<open>
  Every valid receipt fits the size limit of the encoding.
\<close>

lemma receipt_encodable:
  assumes "sum256 H" and v: "ReviewRunReceipt_Validate H receipt = None" and ints: "receipt_ints receipt"
  shows "\<exists>s. EncodeReviewRunReceipt H receipt = Inr s"
proof -
  let ?j = "reviewRunReceiptRecord_json (reviewRunReceiptToRecord receipt)"
  note f = v [unfolded ReviewRunReceipt_Validate_None]
  have each: "json_plain (reviewTaskReceiptRecord_json (reviewTaskReceiptToRecord t))
      \<and> json_plain_bound (reviewTaskReceiptRecord_json (reviewTaskReceiptToRecord t)) \<le> 1000"
    if "t \<in> set (rr_tasks receipt)" for t
    using that f ints by (intro task_receipt_json_bound) (auto simp: receipt_ints_def list_all_iff)
  have tasks: "sum_list (map (\<lambda>t. json_plain_bound (reviewTaskReceiptRecord_json (reviewTaskReceiptToRecord t)) + 1)
      (rr_tasks receipt)) \<le> 64 * 1001"
  proof -
    have "sum_list (map (\<lambda>t. json_plain_bound (reviewTaskReceiptRecord_json (reviewTaskReceiptToRecord t)) + 1)
        (rr_tasks receipt)) \<le> length (rr_tasks receipt) * 1001"
      using each by (intro sum_list_le) auto
    then show ?thesis using f by simp
  qed
  have s: "list_all (\<lambda>s. list_all json_plain_char s \<and> length s \<le> 128)
      [rr_identity receipt, rr_planIdentity receipt, rr_headIdentity receipt, rr_outputIdentity receipt,
       sc_tenantID (rr_scope receipt), sc_repositoryID (rr_scope receipt), sc_reviewRunID (rr_scope receipt)]"
  proof -
    have "validControlPlaneDigest (rr_identity receipt)"
      using f hash_valid [OF assms(1)] by (simp add: deriveReviewRunReceiptIdentity_def Let_def)
    moreover have "list_all validAuditScopeIdentifier [sc_tenantID (rr_scope receipt),
        sc_repositoryID (rr_scope receipt), sc_reviewRunID (rr_scope receipt)]"
      using f by (auto simp: ReviewScope_Validate_def split: if_splits)
    ultimately show ?thesis
      using f receipt_result(1) [OF v] plain_digest ascii_digest digest_or_empty_plain digest_or_empty_string
        plain_scope_id ascii_scope_id by fastforce
  qed
  have status: "list_all json_plain_char (ReviewRunStatus_String (rr_status receipt))"
      "length (ReviewRunStatus_String (rr_status receipt)) \<le> 9"
    by (cases "rr_status receipt"; simp add: json_plain_char_def)+
  have failure: "list_all json_plain_char (RunFailure_String (rr_failure receipt))"
    by (cases "rr_failure receipt") (simp_all add: json_plain_char_def)
  have n: "length (dec_int (rr_lastOccurredAtMillis receipt)) \<le> 21"
      "length (dec_int (int (rr_revision receipt))) \<le> 21" "length (dec_int 1) \<le> 1"
    using f ints dec_int_digits [of 1 1]
    by (auto simp: receipt_ints_def intro!: int64_length int64_millis uint_length)
  have "json_plain ?j"
    using s status failure each
    by (simp add: reviewRunReceiptRecord_json_def reviewRunReceiptToRecord_def json_list_def json_plain_char_def
        list_all_iff)
  moreover have "json_plain_bound ?j \<le> maxEncodedReviewRunReceiptBytes"
    using s status(2) failure_string_length [of "rr_failure receipt"] n tasks
    by (simp add: reviewRunReceiptRecord_json_def reviewRunReceiptToRecord_def json_list_def comp_def
        maxEncodedReviewRunReceiptBytes_def)
  ultimately have "length (json_Marshal ?j) \<le> maxEncodedReviewRunReceiptBytes"
    using length_json_plain [of ?j] by linarith
  then show ?thesis
    using v by (auto simp: EncodeReviewRunReceipt_def check_def encode_bounded_def Let_def)
qed

text \<open>
  C28. Every valid receipt has an encoding within the size limit, and that text is the only
  one the parser accepts for it.
\<close>

theorem receipt_exact:
  assumes "sum256 H" and "ReviewRunReceipt_Validate H receipt = None" and "receipt_ints receipt"
  shows "\<exists>s. EncodeReviewRunReceipt H receipt = Inr s
    \<and> (\<forall>s'. ParseReviewRunReceipt H s' = Inr receipt \<longleftrightarrow> s' = s)"
  using receipt_encodable [OF assms] receipt_roundtrip [OF assms(1) _ assms(3)] receipt_canonical [THEN conjunct1]
  by (rule exact_codecI)

end
