(* ===== verification/Task_Handler.thy ===== *)
theory Task_Handler
  imports Run_Receipt
begin

text \<open>
  Execution requests and the dispatch of a leased task to its handler
  (controlplane/task\_handler.go).

  A handler is code outside the control plane: the interface is a record of its methods, and
  \<open>Execute\<close> acts on a world \<open>'w\<close> of its own. A nil handler is \<open>None\<close>.
\<close>


section \<open>Dependency outputs\<close>

record TaskDependencyOutput =
  do_identity :: string
  do_planIdentity :: string
  do_taskKey :: string
  do_taskIdentity :: string
  do_outputIdentity :: string
  do_available :: bool
  do_failure :: RunFailure

definition deriveTaskDependencyOutputIdentity :: "sha \<Rightarrow> TaskDependencyOutput \<Rightarrow> string" where
  "deriveTaskDependencyOutputIdentity H output =
     hashControlPlaneValue H
       (JObj [(''contract'', JStr ''open-trestle/task-dependency-output''), (''version'', JInt 1),
              (''plan'', JStr (do_planIdentity output)), (''task_key'', JStr (do_taskKey output)),
              (''task'', JStr (do_taskIdentity output)), (''output'', JStr (do_outputIdentity output)),
              (''available'', JBool (do_available output)),
              (''failure'', JStr (RunFailure_String (do_failure output)))])"

definition NewTaskDependencyOutput ::
    "sha \<Rightarrow> ReviewRunPlan \<Rightarrow> string \<Rightarrow> string \<Rightarrow> error + TaskDependencyOutput" where
  "NewTaskDependencyOutput H plan taskKey outputIdentity =
     check (ReviewRunPlan_Validate H plan)
     (case ReviewRunPlan_Task plan taskKey of
        None \<Rightarrow> Inl ErrTaskDependencyOutputMismatch
      | Some task \<Rightarrow>
          if \<not> validControlPlaneDigest outputIdentity then Inl ErrTaskDependencyOutputMismatch
          else (let output = \<lparr>do_identity = [], do_planIdentity = rp_identity plan, do_taskKey = td_key task,
                              do_taskIdentity = td_identity task, do_outputIdentity = outputIdentity,
                              do_available = True, do_failure = NoRunFailure\<rparr>
                in Inr (output\<lparr>do_identity := deriveTaskDependencyOutputIdentity H output\<rparr>)))"

definition NewUnavailableTaskDependencyOutput ::
    "sha \<Rightarrow> ReviewRunPlan \<Rightarrow> string \<Rightarrow> RunFailure \<Rightarrow> error + TaskDependencyOutput" where
  "NewUnavailableTaskDependencyOutput H plan taskKey failure =
     check (ReviewRunPlan_Validate H plan)
     (case ReviewRunPlan_Task plan taskKey of
        None \<Rightarrow> Inl ErrTaskDependencyOutputMismatch
      | Some task \<Rightarrow>
          if td_required task \<or> RunFailure_String failure = [] then Inl ErrTaskDependencyOutputMismatch
          else (let output = \<lparr>do_identity = [], do_planIdentity = rp_identity plan, do_taskKey = td_key task,
                              do_taskIdentity = td_identity task, do_outputIdentity = [],
                              do_available = False, do_failure = failure\<rparr>
                in Inr (output\<lparr>do_identity := deriveTaskDependencyOutputIdentity H output\<rparr>)))"

definition TaskDependencyOutput_Validate :: "sha \<Rightarrow> TaskDependencyOutput \<Rightarrow> error option" where
  "TaskDependencyOutput_Validate H out =
     (if \<not> validControlPlaneDigest (do_planIdentity out) \<or> \<not> validReviewTaskKey (do_taskKey out)
         \<or> \<not> validControlPlaneDigest (do_taskIdentity out)
         \<or> do_identity out \<noteq> deriveTaskDependencyOutputIdentity H out
      then Some ErrTaskDependencyOutputMismatch
      else if do_available out
      then if \<not> validControlPlaneDigest (do_outputIdentity out) \<or> do_failure out \<noteq> NoRunFailure
           then Some ErrTaskDependencyOutputMismatch else None
      else if do_outputIdentity out \<noteq> [] \<or> RunFailure_String (do_failure out) = []
      then Some ErrTaskDependencyOutputMismatch else None)"


section \<open>Execution requests\<close>

record TaskExecutionRequest =
  tx_identity :: string
  tx_plan :: ReviewRunPlan
  tx_task :: TaskDefinition
  tx_lease :: TaskLease
  tx_dependencyOutputs :: "TaskDependencyOutput list"

definition taskDependencyOutputIdentities :: "TaskDependencyOutput list \<Rightarrow> string list" where
  "taskDependencyOutputIdentities outputs = map do_identity outputs"

definition deriveTaskExecutionRequestIdentity :: "sha \<Rightarrow> TaskExecutionRequest \<Rightarrow> string" where
  "deriveTaskExecutionRequestIdentity H request =
     hashControlPlaneValue H
       (JObj [(''contract'', JStr ''open-trestle/task-execution-request''), (''version'', JInt 1),
              (''plan'', JStr (rp_identity (tx_plan request))), (''task'', JStr (td_identity (tx_task request))),
              (''lease'', JStr (tl_identity (tx_lease request))),
              (''input'', JStr (td_inputIdentity (tx_task request))),
              (''handler'', JStr (td_handlerIdentity (tx_task request))),
              (''dependencies'', json_strings (taskDependencyOutputIdentities (tx_dependencyOutputs request)))])"

text \<open>The loop over the outputs, beside the keys of the dependencies.\<close>

fun request_outputs_ok ::
    "sha \<Rightarrow> ReviewRunPlan \<Rightarrow> string list \<Rightarrow> TaskDependencyOutput list \<Rightarrow> bool" where
  "request_outputs_ok H plan (key # keys) (output # outputs) =
     (case ReviewRunPlan_Task plan key of
        None \<Rightarrow> False
      | Some dependency \<Rightarrow>
          if TaskDependencyOutput_Validate H output \<noteq> None \<or> do_planIdentity output \<noteq> rp_identity plan
             \<or> do_taskKey output \<noteq> key \<or> do_taskIdentity output \<noteq> td_identity dependency
          then False else request_outputs_ok H plan keys outputs)"
| "request_outputs_ok H plan keys outputs = True"

definition TaskExecutionRequest_Validate :: "sha \<Rightarrow> TaskExecutionRequest \<Rightarrow> error option" where
  "TaskExecutionRequest_Validate H r =
     (case ReviewRunPlan_Validate H (tx_plan r) of Some err \<Rightarrow> Some err | None \<Rightarrow>
     (case TaskDefinition_Validate H (tx_task r) of Some err \<Rightarrow> Some err | None \<Rightarrow>
     (case TaskLease_Validate H (tx_lease r) of Some err \<Rightarrow> Some err | None \<Rightarrow>
       (let matchingPlan = tl_planIdentity (tx_lease r) = rp_identity (tx_plan r);
            matchingTask = tl_taskIdentity (tx_lease r) = td_identity (tx_task r)
              \<and> tl_taskKey (tx_lease r) = td_key (tx_task r);
            matchingHandler = tl_handlerIdentity (tx_lease r) = td_handlerIdentity (tx_task r)
        in if \<not> matchingPlan \<or> \<not> matchingTask \<or> \<not> matchingHandler then Some ErrInvalidTaskExecutionRequest
           else if length (td_dependencies (tx_task r)) \<noteq> length (tx_dependencyOutputs r)
           then Some ErrTaskDependencyOutputMismatch
           else if \<not> request_outputs_ok H (tx_plan r) (td_dependencies (tx_task r)) (tx_dependencyOutputs r)
           then Some ErrTaskDependencyOutputMismatch
           else if tx_identity r \<noteq> deriveTaskExecutionRequestIdentity H r
           then Some ErrInvalidTaskExecutionRequestIdentity
           else None))))"

text \<open>
  The sort of the outputs is by key; a request with two outputs of one key is refused, so their
  order does not matter.
\<close>

definition NewTaskExecutionRequestWithDependencies ::
    "sha \<Rightarrow> ReviewRunPlan \<Rightarrow> TaskDefinition \<Rightarrow> TaskLease \<Rightarrow> TaskDependencyOutput list
      \<Rightarrow> error + TaskExecutionRequest" where
  "NewTaskExecutionRequestWithDependencies H plan task lease outputs =
     (let canonical = sort_key do_taskKey outputs;
          request = \<lparr>tx_identity = [], tx_plan = plan, tx_task = task, tx_lease = lease,
                     tx_dependencyOutputs = canonical\<rparr>;
          request = request\<lparr>tx_identity := deriveTaskExecutionRequestIdentity H request\<rparr>
      in check (TaskExecutionRequest_Validate H request) (Inr request))"

definition NewTaskExecutionRequest ::
    "sha \<Rightarrow> ReviewRunPlan \<Rightarrow> TaskDefinition \<Rightarrow> TaskLease \<Rightarrow> error + TaskExecutionRequest" where
  "NewTaskExecutionRequest H plan task lease =
     NewTaskExecutionRequestWithDependencies H plan task lease []"

definition TaskExecutionRequest_DependencyOutput ::
    "TaskExecutionRequest \<Rightarrow> string \<Rightarrow> TaskDependencyOutput option" where
  "TaskExecutionRequest_DependencyOutput r taskKey = search_by_key do_taskKey (tx_dependencyOutputs r) taskKey"


section \<open>Outputs of a state and of a receipt\<close>

text \<open>The loop over the dependencies; \<open>f\<close> is the output of one, read from the state or from the receipt.\<close>

fun dependency_outputs ::
    "(string \<Rightarrow> error + TaskDependencyOutput) \<Rightarrow> string list \<Rightarrow> error + TaskDependencyOutput list" where
  "dependency_outputs f [] = Inr []"
| "dependency_outputs f (key # keys) =
     (case f key of
        Inl _ \<Rightarrow> Inl ErrTaskDependencyOutputMismatch
      | Inr output \<Rightarrow> and_then (dependency_outputs f keys) (\<lambda>outputs. Inr (output # outputs)))"

definition state_dependency_output :: "sha \<Rightarrow> ReviewRunState \<Rightarrow> string \<Rightarrow> error + TaskDependencyOutput" where
  "state_dependency_output H state key =
     (case ReviewRunState_Task state key of
        None \<Rightarrow> Inl ErrTaskDependencyOutputMismatch
      | Some runtime \<Rightarrow>
          if rt_status runtime = TaskRuntimeSucceeded
          then NewTaskDependencyOutput H (rs_plan state) key (rt_outputIdentity runtime)
          else NewUnavailableTaskDependencyOutput H (rs_plan state) key (rt_failure runtime))"

definition TaskDependencyOutputsFromState ::
    "sha \<Rightarrow> ReviewRunState \<Rightarrow> TaskDefinition \<Rightarrow> error + TaskDependencyOutput list" where
  "TaskDependencyOutputsFromState H state task =
     (if ReviewRunState_Validate H state \<noteq> None \<or> TaskDefinition_Validate H task \<noteq> None
      then Inl ErrTaskDependencyOutputMismatch
      else (let plan = rs_plan state in
        case ReviewRunPlan_Task plan (td_key task) of
          None \<Rightarrow> Inl ErrTaskDependencyOutputMismatch
        | Some planned \<Rightarrow>
            if td_identity planned \<noteq> td_identity task then Inl ErrTaskDependencyOutputMismatch
            else dependency_outputs (state_dependency_output H state) (td_dependencies task)))"

definition receipt_dependency_output ::
    "sha \<Rightarrow> ReviewRunPlan \<Rightarrow> ReviewRunReceipt \<Rightarrow> string \<Rightarrow> error + TaskDependencyOutput" where
  "receipt_dependency_output H plan receipt key =
     (case (ReviewRunReceipt_Task receipt key, ReviewRunPlan_Task plan key) of
        (Some dependencyReceipt, Some dependency) \<Rightarrow>
          if tt_taskIdentity dependencyReceipt \<noteq> td_identity dependency
          then Inl ErrTaskDependencyOutputMismatch
          else if tt_status dependencyReceipt = TaskRuntimeSucceeded
          then NewTaskDependencyOutput H plan key (tt_outputIdentity dependencyReceipt)
          else NewUnavailableTaskDependencyOutput H plan key (tt_failure dependencyReceipt)
      | _ \<Rightarrow> Inl ErrTaskDependencyOutputMismatch)"

definition TaskDependencyOutputsFromReceipt ::
    "sha \<Rightarrow> ReviewRunPlan \<Rightarrow> TaskDefinition \<Rightarrow> ReviewRunReceipt \<Rightarrow> error + TaskDependencyOutput list" where
  "TaskDependencyOutputsFromReceipt H plan task receipt =
     (if ReviewRunPlan_Validate H plan \<noteq> None \<or> TaskDefinition_Validate H task \<noteq> None
         \<or> ReviewRunReceipt_Validate H receipt \<noteq> None \<or> rr_planIdentity receipt \<noteq> rp_identity plan
         \<or> sc_identity (rr_scope receipt) \<noteq> sc_identity (rp_scope plan)
      then Inl ErrTaskDependencyOutputMismatch
      else (case ReviewRunPlan_Task plan (td_key task) of
          None \<Rightarrow> Inl ErrTaskDependencyOutputMismatch
        | Some planned \<Rightarrow>
            if td_identity planned \<noteq> td_identity task then Inl ErrTaskDependencyOutputMismatch
            else dependency_outputs (receipt_dependency_output H plan receipt) (td_dependencies task)))"


section \<open>Handlers and dispatch\<close>

record 'w TaskHandler =
  th_HandlerIdentity :: string
  th_Kind :: TaskKind
  th_Execute :: "gocontext \<Rightarrow> TaskExecutionRequest \<Rightarrow> 'w \<Rightarrow> TaskCompletion \<times> 'w"

record 'w TaskHandlerCatalog =
  hc_handlers :: "(string \<times> 'w TaskHandler option) list"

text \<open>The loop of the constructor.\<close>

fun add_handlers ::
    "(string \<times> 'w TaskHandler option) list \<Rightarrow> 'w TaskHandler option list
      \<Rightarrow> error + (string \<times> 'w TaskHandler option) list" where
  "add_handlers m [] = Inr m"
| "add_handlers m (None # handlers) = Inl ErrInvalidTaskHandler"
| "add_handlers m (Some handler # handlers) =
     (let identity = th_HandlerIdentity handler in
      if \<not> validControlPlaneDigest identity then Inl ErrInvalidReviewTaskHandler
      else check (TaskKind_Validate (th_Kind handler))
        (if map_of m identity \<noteq> None then Inl ErrDuplicateTaskHandler
         else add_handlers (AList.update identity (Some handler) m) handlers))"

definition NewTaskHandlerCatalog :: "'w TaskHandler option list \<Rightarrow> error + 'w TaskHandlerCatalog" where
  "NewTaskHandlerCatalog handlers =
     (if length handlers = 0 \<or> length handlers > maxReviewRunTasks then Inl ErrInvalidTaskHandlerCatalog
      else and_then (add_handlers [] handlers) (\<lambda>m. Inr \<lparr>hc_handlers = m\<rparr>))"

definition TaskHandlerCatalog_Resolve :: "'w TaskHandlerCatalog \<Rightarrow> string \<Rightarrow> 'w TaskHandler option" where
  "TaskHandlerCatalog_Resolve c identity =
     (case map_of (hc_handlers c) identity of Some (Some handler) \<Rightarrow> Some handler | _ \<Rightarrow> None)"

definition TaskHandlerCatalog_Validate :: "'w TaskHandlerCatalog \<Rightarrow> error option" where
  "TaskHandlerCatalog_Validate c =
     (if length (hc_handlers c) = 0 \<or> length (hc_handlers c) > maxReviewRunTasks
      then Some ErrInvalidTaskHandlerCatalog
      else if list_all (\<lambda>(identity, handler).
           validControlPlaneDigest identity
           \<and> (case handler of None \<Rightarrow> False
               | Some h \<Rightarrow> th_HandlerIdentity h = identity \<and> TaskKind_Validate (th_Kind h) = None))
           (hc_handlers c)
      then None else Some ErrInvalidTaskHandlerCatalog)"

definition DispatchLeasedTask ::
    "sha \<Rightarrow> gocontext \<Rightarrow> 'w TaskHandlerCatalog \<Rightarrow> ReviewRunState \<Rightarrow> TaskLease \<Rightarrow> gotime \<Rightarrow> 'w
      \<Rightarrow> (error + TaskCompletion) \<times> 'w" where
  "DispatchLeasedTask H ctx catalog state lease now w =
     (case validateContext ctx of Some err \<Rightarrow> (Inl err, w) | None \<Rightarrow>
     (case TaskHandlerCatalog_Validate catalog of Some err \<Rightarrow> (Inl err, w) | None \<Rightarrow>
     (case ReviewRunState_Validate H state of Some err \<Rightarrow> (Inl err, w) | None \<Rightarrow>
     (let plan = rs_plan state in
      if rs_status state \<noteq> ReviewRunActive then (Inl ErrRunAlreadyTerminal, w)
      else if \<not> transitionTimeAllowed state now then (Inl ErrRunTransitionSequenceMismatch, w)
      else (case TaskLease_Validate H lease of Some err \<Rightarrow> (Inl err, w) | None \<Rightarrow>
        if tl_planIdentity lease \<noteq> rp_identity plan then (Inl ErrInvalidTaskExecutionRequest, w)
        else (case ReviewRunPlan_Task plan (tl_taskKey lease) of
          None \<Rightarrow> (Inl ErrInvalidTaskExecutionRequest, w)
        | Some task \<Rightarrow>
            if td_identity task \<noteq> tl_taskIdentity lease \<or> td_handlerIdentity task \<noteq> tl_handlerIdentity lease
            then (Inl ErrInvalidTaskExecutionRequest, w)
            else (case ReviewRunState_Task state (tl_taskKey lease) of
              None \<Rightarrow> (Inl ErrRunTransitionLeaseMismatch, w)
            | Some runtime \<Rightarrow>
                if \<not> runtimeMatchesLease runtime lease \<or> UnixMilli now > rt_leaseExpiresAtMillis runtime
                then (Inl ErrRunTransitionLeaseMismatch, w)
                else (case TaskHandlerCatalog_Resolve catalog (td_handlerIdentity task) of
                  None \<Rightarrow> (Inl ErrTaskHandlerNotRegistered, w)
                | Some handler \<Rightarrow>
                    if th_Kind handler \<noteq> td_kind task then (Inl ErrTaskHandlerKindMismatch, w)
                    else (case TaskDependencyOutputsFromState H state task of
                      Inl err \<Rightarrow> (Inl err, w)
                    | Inr dependencies \<Rightarrow>
                        (case NewTaskExecutionRequestWithDependencies H plan task lease dependencies of
                           Inl err \<Rightarrow> (Inl err, w)
                         | Inr request \<Rightarrow>
                             (case th_Execute handler ctx request w of
                                (completion, w') \<Rightarrow>
                                  (check (TaskCompletion_Validate H completion) (Inr completion), w'))))))))))))"

section \<open>The outputs a started task is given\<close>

text \<open>What an output says of its dependency.\<close>

definition describes ::
    "sha \<Rightarrow> ReviewRunPlan \<Rightarrow> TaskDefinition \<Rightarrow> TaskRuntimeState \<Rightarrow> TaskDependencyOutput \<Rightarrow> bool" where
  "describes H plan d r out \<longleftrightarrow>
     do_planIdentity out = rp_identity plan \<and> do_taskKey out = td_key d \<and> do_taskIdentity out = td_identity d
     \<and> (if rt_status r = TaskRuntimeSucceeded
        then do_available out \<and> do_outputIdentity out = rt_outputIdentity r \<and> do_failure out = NoRunFailure
        else \<not> do_available out \<and> do_outputIdentity out = [] \<and> do_failure out = rt_failure r)
     \<and> TaskDependencyOutput_Validate H out = None"

lemma state_dependency_output_settled:
  assumes "sum256 H" and wf: "plan_wf H plan" and inv: "state_inv plan s" and d: "d \<in> set (rp_tasks plan)"
    and settled: "phase_of (runtime_at s (td_key d)) = Succeeded
      \<or> \<not> td_required d \<and> phase_of (runtime_at s (td_key d)) \<in> {Skipped, FailedFinal}"
  shows "\<exists>out. state_dependency_output H s (td_key d) = Inr out
    \<and> describes H plan d (runtime_at s (td_key d)) out"
proof -
  let ?r = "runtime_at s (td_key d)"
  have r: "map_of (rs_tasks s) (td_key d) = Some ?r" "rt_definition ?r = d"
    using state_inv_definition [OF wf inv d] by simp_all
  have ok: "phase_ok ?r" using state_inv_runtime(3) [OF inv r(1)] .
  have plan: "rs_plan s = plan" using inv by (simp add: state_inv_def tasks_inv_def)
  have t: "ReviewRunPlan_Task plan (td_key d) = Some d" using d by (simp add: ReviewRunPlan_Task_iff [OF wf])
  have ids: "validControlPlaneDigest (rp_identity plan)" "validReviewTaskKey (td_key d)"
      "validControlPlaneDigest (td_identity d)"
    using plan_identity_valid [OF assms(1)] ReviewRunPlan_Validate_wf [OF wf] plan_wf_task_ok [OF wf d]
      task_ok_identity [OF assms(1)] by (auto simp: task_ok_def)
  show ?thesis
  proof (cases "rt_status ?r = TaskRuntimeSucceeded")
    case True
    with ok have "validControlPlaneDigest (rt_outputIdentity ?r)" by (simp add: phase_ok_def)
    with True ids show ?thesis
      by (simp add: state_dependency_output_def ReviewRunState_Task_def r plan NewTaskDependencyOutput_def t
          ReviewRunPlan_Validate_wf [OF wf] Let_def describes_def TaskDependencyOutput_Validate_def
          deriveTaskDependencyOutputIdentity_def)
  next
    case False
    with settled have "\<not> td_required d" "rt_status ?r = TaskRuntimeSkipped \<or> failedWithoutRetry ?r"
      by (auto simp: phase_of_iff)
    moreover from this ok have "RunFailure_String (rt_failure ?r) \<noteq> []"
      by (auto simp: phase_ok_def failedWithoutRetry_def)
    ultimately show ?thesis
      using False ids
      by (simp add: state_dependency_output_def ReviewRunState_Task_def r plan
          NewUnavailableTaskDependencyOutput_def t
          ReviewRunPlan_Validate_wf [OF wf] Let_def describes_def TaskDependencyOutput_Validate_def
          deriveTaskDependencyOutputIdentity_def)
  qed
qed

lemma dependency_outputs_all:
  assumes "\<forall>k\<in>set keys. \<exists>out. f k = Inr out \<and> Q k out"
  shows "\<exists>outs. dependency_outputs f keys = Inr outs \<and> list_all2 Q keys outs"
  using assms
proof (induction keys)
  case (Cons k keys)
  then obtain out outs where "f k = Inr out" "Q k out" "dependency_outputs f keys = Inr outs"
      "list_all2 Q keys outs"
    by auto
  then show ?case by auto
qed simp

text \<open>
  The dependency outputs of a task that was made available can always be
  taken from the state, one for each dependency in order: the recorded output of a dependency that
  succeeded, the failure of an optional one that did not.
\<close>

lemma started_task_outputs:
  assumes "sum256 H" and wf: "plan_wf H plan" and rep: "ReplayReviewRun H plan es = Inr st"
    and task: "task \<in> set (rp_tasks plan)"
    and status: "rt_status (runtime_at st (td_key task)) \<in>
      {TaskRuntimeAvailable, TaskRuntimeLeased, TaskRuntimeSucceeded, TaskRuntimeFailed}"
  shows "\<exists>outs. TaskDependencyOutputsFromState H st task = Inr outs
    \<and> list_all2 (\<lambda>key out. \<exists>d. ReviewRunPlan_Task plan key = Some d \<and> describes H plan d (runtime_at st key) out)
        (td_dependencies task) outs"
proof -
  have ctx: "replay_context H plan" using assms(1) wf by (simp add: replay_context_def)
  have r: "replayed H plan es st" "ReviewRunState_Validate H st = None"
    using rep by (simp_all add: ReplayReviewRun_Inr)
  note inv = replayed_inv [OF ctx r(1)]
  have plan: "rs_plan st = plan" using inv by (simp add: state_inv_def tasks_inv_def)
  note def = state_inv_definition [OF wf inv task]
  have sat: "dependenciesSatisfied st task"
    using state_inv_runtime(5) [OF inv def(1)] status def(2) by (simp add: started_def)
  have all: "\<forall>k\<in>set (td_dependencies task). \<exists>out. state_dependency_output H st k = Inr out
      \<and> (\<exists>d. ReviewRunPlan_Task plan k = Some d \<and> describes H plan d (runtime_at st k) out)"
  proof
    fix k
    assume k: "k \<in> set (td_dependencies task)"
    with task plan_wf_graph(1) [OF wf] obtain d where d: "d \<in> set (rp_tasks plan)" "td_key d = k"
      by (force simp: deps_present_def)
    from sat k d state_inv_definition(2) [OF wf inv d(1)]
    have "phase_of (runtime_at st (td_key d)) = Succeeded
        \<or> \<not> td_required d \<and> phase_of (runtime_at st (td_key d)) \<in> {Skipped, FailedFinal}"
      by (auto simp: dependenciesSatisfied_iff)
    from state_dependency_output_settled [OF assms(1) wf inv d(1) this] d ReviewRunPlan_Task_iff [OF wf]
    show "\<exists>out. state_dependency_output H st k = Inr out
        \<and> (\<exists>d. ReviewRunPlan_Task plan k = Some d \<and> describes H plan d (runtime_at st k) out)" by auto
  qed
  from dependency_outputs_all [OF all] obtain outs where
    "dependency_outputs (state_dependency_output H st) (td_dependencies task) = Inr outs"
    "list_all2 (\<lambda>key out. \<exists>d. ReviewRunPlan_Task plan key = Some d \<and> describes H plan d (runtime_at st key) out)
        (td_dependencies task) outs" by blast
  moreover have "ReviewRunPlan_Task plan (td_key task) = Some task"
    using task by (simp add: ReviewRunPlan_Task_iff [OF wf])
  moreover have "TaskDefinition_Validate H task = None"
    using plan_wf_task_ok [OF wf task] by (simp add: TaskDefinition_Validate_None)
  ultimately show ?thesis
    using r(2) by (simp add: TaskDependencyOutputsFromState_def plan Let_def)
qed

text \<open>
  C26. A remote worker that reads the receipt of a run and a local one that reads its
  state are given the same dependency outputs, errors included.
\<close>

theorem outputs_agree:
  assumes "sum256 H" and wf: "plan_wf H plan" and rep: "ReplayReviewRun H plan es = Inr st"
    and rec: "NewReviewRunReceipt H st = Inr receipt"
  shows "TaskDependencyOutputsFromReceipt H plan task receipt = TaskDependencyOutputsFromState H st task"
proof -
  have ctx: "replay_context H plan" using assms(1) wf by (simp add: replay_context_def)
  have r: "replayed H plan es st" "ReviewRunState_Validate H st = None"
    using rep by (simp_all add: ReplayReviewRun_Inr)
  note inv = replayed_inv [OF ctx r(1)]
  have plan: "rs_plan st = plan" using inv by (simp add: state_inv_def tasks_inv_def)
  have v: "ReviewRunReceipt_Validate H receipt = None" "receipt = receipt_of_state H st"
    using rec by (auto simp: NewReviewRunReceipt_def check_Inr_iff Let_def)
  have "receipt_dependency_output H plan receipt key = state_dependency_output H st key" for key
  proof (cases "ReviewRunPlan_Task plan key")
    case None
    then have "key \<notin> set (map td_key (rp_tasks plan))"
      using ReviewRunPlan_Task_iff [OF wf, of key] by force
    then have "map_of (rs_tasks st) key = None"
      using inv by (metis map_of_eq_None_iff set_map state_inv_def tasks_inv_def)
    with None receipt_lookup [OF assms] show ?thesis
      by (simp add: receipt_dependency_output_def state_dependency_output_def ReviewRunState_Task_def)
  next
    case (Some d)
    then have d: "d \<in> set (rp_tasks plan)" "td_key d = key" using ReviewRunPlan_Task_iff [OF wf] by auto
    with Some receipt_lookup [OF assms, of key] state_inv_definition(1) [OF wf inv d(1)] show ?thesis
      by (simp add: receipt_dependency_output_def state_dependency_output_def ReviewRunState_Task_def
          newTaskReceipt_def Let_def plan)
  qed
  then have "receipt_dependency_output H plan receipt = state_dependency_output H st" by blast
  then show ?thesis
    using v r(2) ReviewRunPlan_Validate_wf [OF wf]
    by (simp add: TaskDependencyOutputsFromReceipt_def TaskDependencyOutputsFromState_def plan Let_def
        split: option.splits)
qed


section \<open>Dispatch\<close>

lemma described_outputs:
  assumes "list_all2 (\<lambda>key out. \<exists>d. ReviewRunPlan_Task plan key = Some d \<and> describes H plan d (f key) out) keys outs"
    and wf: "plan_wf H plan"
  shows "request_outputs_ok H plan keys outs" and "map do_taskKey outs = keys"
proof -
  have "td_key d = key" if "ReviewRunPlan_Task plan key = Some d" for key d
    using that ReviewRunPlan_Task_iff [OF wf] by blast
  with assms(1) show "request_outputs_ok H plan keys outs" "map do_taskKey outs = keys"
    by (induction rule: list_all2_induct) (auto simp: describes_def)
qed

lemma sort_key_sorted: "sorted_wrt (<) (map f xs) \<Longrightarrow> sort_key f xs = (xs :: 'a list)" for f :: "'a \<Rightarrow> string"
  by (rule sort_key_id_if_sorted) (rule strict_sorted_imp_sorted)

text \<open>The request a dispatch builds, for a task of the plan that is leased.\<close>

definition request_of ::
    "sha \<Rightarrow> ReviewRunPlan \<Rightarrow> TaskDefinition \<Rightarrow> TaskLease \<Rightarrow> TaskDependencyOutput list \<Rightarrow> TaskExecutionRequest" where
  "request_of H plan task lease outs =
     (let request = \<lparr>tx_identity = [], tx_plan = plan, tx_task = task, tx_lease = lease,
                     tx_dependencyOutputs = outs\<rparr>
      in request\<lparr>tx_identity := deriveTaskExecutionRequestIdentity H request\<rparr>)"

lemma request_of_valid:
  assumes wf: "plan_wf H plan" and task: "task \<in> set (rp_tasks plan)"
    and lease: "TaskLease_Validate H lease = None" "tl_planIdentity lease = rp_identity plan"
      "tl_taskIdentity lease = td_identity task" "tl_taskKey lease = td_key task"
      "tl_handlerIdentity lease = td_handlerIdentity task"
    and outs: "list_all2 (\<lambda>key out. \<exists>d. ReviewRunPlan_Task plan key = Some d \<and> describes H plan d (f key) out)
      (td_dependencies task) outs"
  shows "NewTaskExecutionRequestWithDependencies H plan task lease outs = Inr (request_of H plan task lease outs)"
proof -
  note o = described_outputs [OF outs wf]
  have "sorted_wrt (<) (td_dependencies task)"
    using plan_wf_task_ok [OF wf task] by (simp add: task_ok_def dependencies_ok_def)
  then have "sort_key do_taskKey outs = outs" using o(2) by (intro sort_key_sorted) simp
  moreover have "length (td_dependencies task) = length outs" using outs by (rule list_all2_lengthD)
  moreover have "TaskDefinition_Validate H task = None"
    using plan_wf_task_ok [OF wf task] by (simp add: TaskDefinition_Validate_None)
  ultimately show ?thesis
    using lease o(1) ReviewRunPlan_Validate_wf [OF wf]
    by (simp add: NewTaskExecutionRequestWithDependencies_def request_of_def Let_def
        TaskExecutionRequest_Validate_def deriveTaskExecutionRequestIdentity_def)
qed

text \<open>
  C24. For a lease that is current in the state of an active run, with its
  handler registered for the kind of the task, the dispatch runs that handler, once, and nothing
  else can refuse it. The handler is given one output for each dependency, in order: the recorded
  output of a dependency that succeeded, the failure of an optional one that did not.
\<close>

theorem dispatch_runs_handler:
  assumes "sum256 H" and wf: "plan_wf H plan" and rep: "ReplayReviewRun H plan es = Inr st"
    and active: "rs_status st = ReviewRunActive" and time: "transitionTimeAllowed st now"
    and catalog: "TaskHandlerCatalog_Validate catalog = None"
    and lease: "TaskLease_Validate H lease = None" "tl_planIdentity lease = rp_identity plan"
      "ReviewRunPlan_Task plan (tl_taskKey lease) = Some task"
      "runtimeMatchesLease (runtime_at st (td_key task)) lease"
      "tl_handlerIdentity lease = td_handlerIdentity task"
      "UnixMilli now \<le> rt_leaseExpiresAtMillis (runtime_at st (td_key task))"
    and handler: "TaskHandlerCatalog_Resolve catalog (td_handlerIdentity task) = Some handler"
      "th_Kind handler = td_kind task"
  shows "\<exists>outs. list_all2 (\<lambda>key out. \<exists>d. ReviewRunPlan_Task plan key = Some d
        \<and> describes H plan d (runtime_at st key) out) (td_dependencies task) outs
    \<and> DispatchLeasedTask H LiveContext catalog st lease now w
      = (case th_Execute handler LiveContext (request_of H plan task lease outs) w of
           (completion, w') \<Rightarrow> (check (TaskCompletion_Validate H completion) (Inr completion), w'))"
proof -
  have ctx: "replay_context H plan" using assms(1) wf by (simp add: replay_context_def)
  have r: "replayed H plan es st" "ReviewRunState_Validate H st = None"
    using rep by (simp_all add: ReplayReviewRun_Inr)
  note inv = replayed_inv [OF ctx r(1)]
  have plan: "rs_plan st = plan" using inv by (simp add: state_inv_def tasks_inv_def)
  have task: "task \<in> set (rp_tasks plan)" "td_key task = tl_taskKey lease"
    using lease(3) ReviewRunPlan_Task_iff [OF wf] by auto
  note def = state_inv_definition [OF wf inv task(1)]
  have m: "rt_status (runtime_at st (td_key task)) = TaskRuntimeLeased" "tl_taskIdentity lease = td_identity task"
    using lease(4) def(2) by (auto simp: runtimeMatchesLease_def Let_def)
  from started_task_outputs [OF assms(1) wf rep task(1)] m(1) obtain outs
    where outs: "TaskDependencyOutputsFromState H st task = Inr outs"
    and all: "list_all2 (\<lambda>key out. \<exists>d. ReviewRunPlan_Task plan key = Some d
      \<and> describes H plan d (runtime_at st key) out) (td_dependencies task) outs" by auto
  from request_of_valid [OF wf task(1) lease(1,2) m(2) task(2) [symmetric] lease(5) all]
  have "DispatchLeasedTask H LiveContext catalog st lease now w
      = (case th_Execute handler LiveContext (request_of H plan task lease outs) w of
           (completion, w') \<Rightarrow> (check (TaskCompletion_Validate H completion) (Inr completion), w'))"
    using active time catalog lease(1,2,3,4,5,6) handler outs r(2) def(1) m(2) task(2)
    by (simp add: DispatchLeasedTask_def plan Let_def ReviewRunState_Task_def)
  with all show ?thesis by blast
qed

text \<open>
  A dispatch that is refused has run no handler, unless the refusal is of the completion the handler
  returned.
\<close>

lemma refusal_pure:
  assumes "DispatchLeasedTask H ctx catalog st lease now w = (Inl err, w')"
    and "err \<notin> {ErrInvalidTaskCompletion, ErrInvalidTaskCompletionIdentity}"
  shows "w' = w"
proof -
  have "e \<in> {ErrInvalidTaskCompletion, ErrInvalidTaskCompletionIdentity}"
    if "TaskCompletion_Validate H c = Some e" for c e
    using that by (auto simp: TaskCompletion_Validate_def Let_def split: if_splits)
  with assms(2) have "TaskCompletion_Validate H c \<noteq> Some err" for c by blast
  with assms(1) show ?thesis
    by (auto simp: DispatchLeasedTask_def Let_def check_def split: option.splits if_splits sum.splits prod.splits)
qed

text \<open>What a dispatch that returns a completion has done.\<close>

lemma dispatched_handler:
  assumes "DispatchLeasedTask H ctx catalog st lease now w = (Inr completion, w')"
  shows "\<exists>task handler request runtime.
    ReviewRunPlan_Task (rs_plan st) (tl_taskKey lease) = Some task
    \<and> TaskHandlerCatalog_Resolve catalog (td_handlerIdentity task) = Some handler
    \<and> th_HandlerIdentity handler = td_handlerIdentity task \<and> th_Kind handler = td_kind task
    \<and> ReviewRunState_Task st (tl_taskKey lease) = Some runtime \<and> rt_status runtime = TaskRuntimeLeased
    \<and> rt_attempts runtime = tl_attempt lease \<and> rt_leaseTokenIdentity runtime = tl_tokenIdentity lease
    \<and> UnixMilli now \<le> rt_leaseExpiresAtMillis runtime
    \<and> tx_task request = task \<and> tx_lease request = lease \<and> TaskExecutionRequest_Validate H request = None
    \<and> th_Execute handler ctx request w = (completion, w')"
proof -
  from assms have cat: "TaskHandlerCatalog_Validate catalog = None"
    by (simp add: DispatchLeasedTask_def split: option.splits)
  have id: "th_HandlerIdentity h = i" if "TaskHandlerCatalog_Resolve catalog i = Some h" for i h
  proof -
    have "(i, Some h) \<in> set (hc_handlers catalog)"
      using that by (auto simp: TaskHandlerCatalog_Resolve_def split: option.splits dest: map_of_SomeD)
    with cat show ?thesis by (auto simp: TaskHandlerCatalog_Validate_def list_all_iff split: if_splits)
  qed
  have req: "tx_task request = task \<and> tx_lease request = l \<and> TaskExecutionRequest_Validate H request = None"
    if "NewTaskExecutionRequestWithDependencies H plan task l outs = Inr request" for plan task l outs request
    using that by (auto simp: NewTaskExecutionRequestWithDependencies_def Let_def check_Inr_iff)
  from assms obtain task runtime handler outs request where
    "ReviewRunPlan_Task (rs_plan st) (tl_taskKey lease) = Some task"
    "ReviewRunState_Task st (tl_taskKey lease) = Some runtime" "runtimeMatchesLease runtime lease"
    "UnixMilli now \<le> rt_leaseExpiresAtMillis runtime"
    "TaskHandlerCatalog_Resolve catalog (td_handlerIdentity task) = Some handler" "th_Kind handler = td_kind task"
    "NewTaskExecutionRequestWithDependencies H (rs_plan st) task lease outs = Inr request"
    "th_Execute handler ctx request w = (completion, w')"
    by (auto simp: DispatchLeasedTask_def Let_def check_Inr_iff
        split: option.splits if_splits sum.splits prod.splits)
  with id req show ?thesis by (fastforce simp: runtimeMatchesLease_def Let_def)
qed

text \<open>
  C25. A dispatch that returns a completion ran the handler registered under
  the identity that the plan gives the task, on a lease that holds the latest attempt and token of
  the task and has not expired; the handler was given one valid output for each dependency. A
  dispatch that is refused has run no handler, unless the refusal is of the completion the handler
  returned.
\<close>

theorem dispatch_exact_handler:
  assumes "DispatchLeasedTask H ctx catalog st lease now w = (res, w')"
  shows "case res of
      Inr completion \<Rightarrow> \<exists>task handler request runtime.
        ReviewRunPlan_Task (rs_plan st) (tl_taskKey lease) = Some task
        \<and> TaskHandlerCatalog_Resolve catalog (td_handlerIdentity task) = Some handler
        \<and> th_HandlerIdentity handler = td_handlerIdentity task \<and> th_Kind handler = td_kind task
        \<and> ReviewRunState_Task st (tl_taskKey lease) = Some runtime \<and> rt_status runtime = TaskRuntimeLeased
        \<and> rt_attempts runtime = tl_attempt lease \<and> rt_leaseTokenIdentity runtime = tl_tokenIdentity lease
        \<and> UnixMilli now \<le> rt_leaseExpiresAtMillis runtime
        \<and> tx_task request = task \<and> tx_lease request = lease \<and> TaskExecutionRequest_Validate H request = None
        \<and> th_Execute handler ctx request w = (completion, w')
    | Inl err \<Rightarrow> err \<in> {ErrInvalidTaskCompletion, ErrInvalidTaskCompletionIdentity} \<or> w' = w"
proof (cases res)
  case (Inl err)
  with refusal_pure [of H ctx catalog st lease now w err w'] assms show ?thesis by auto
next
  case (Inr completion)
  with dispatched_handler [of H ctx catalog st lease now w completion w'] assms show ?thesis by simp
qed

end
