(* ===== verification/Codec_Witnesses.thy ===== *)
theory Codec_Witnesses
  imports Coordinator_Witnesses Task_Wire Task_Handler
begin

text \<open>
  The theorems on encodings, the finalizer, receipts and dispatch applied to the example runs.
\<close>

section \<open>Encodings\<close>

definition lease_event_by :: "string \<Rightarrow> RunEvent" where
  "lease_event_by worker = example_event 3 RunEventTaskLeased ''acquire'' 1 flat_digest worker 31000 []
     NoRunFailure 0 1000"

lemma lease_event_by_valid:
  "validWorkerIdentity worker \<Longrightarrow> RunEvent_Validate flat_hash (lease_event_by worker) = None"
  using example_keys_valid
  by (auto simp: lease_event_by_def RunEventKind_Validate_def validateFields_def validateLeaseFields_def
      event_hasTask_def intro!: RunEvent_Validate_flat)

lemma lease_event_by_ints: "event_ints (lease_event_by worker)"
  by (simp add: event_ints_def lease_event_by_def int64_def)

theorem event_exact_witness:
  "\<exists>s. EncodeRunEvent flat_hash (lease_event_by ''w'') = Inr s
     \<and> ParseRunEvent flat_hash s = Inr (lease_event_by ''w'')"
proof -
  have "utf8_ValidString (ev_workerIdentity (lease_event_by ''w''))"
    by (simp add: lease_event_by_def utf8_literal)
  from event_exact [OF sum256_flat lease_event_by_valid [OF worker_w] lease_event_by_ints this]
  show ?thesis by blast
qed

definition latin_worker :: string where
  "latin_worker = [char_of (255 :: nat)]"

lemma latin_worker_valid: "validWorkerIdentity latin_worker"
  by (simp add: validWorkerIdentity_bytes latin_worker_def)

lemma latin_worker_not_utf8: "\<not> utf8_ValidString latin_worker"
  by (simp add: utf8_ValidString_def latin_worker_def utf8_ok.simps [of "[255]"] utf8_first_def)

theorem plan_exact_witness:
  "\<exists>s. EncodeReviewRunPlan flat_hash example_plan = Inr s \<and> ParseReviewRunPlan flat_hash s = Inr example_plan"
  using plan_exact [OF sum256_flat example_plan_wf] by blast

lemma flat_token: "validLeaseToken flat_digest"
  unfolding flat_digest_def by code_simp

lemma flat_token_identity [simp]: "deriveLeaseTokenIdentity flat_hash token = flat_digest"
  by (simp add: deriveLeaseTokenIdentity_def flat_hash_def flat_digest_def)

lemma example_lease_valid: "TaskLease_Validate flat_hash example_lease = None"
  using example_keys_valid flat_token
  by (simp add: TaskLease_Validate_def example_lease_def
      deriveTaskLeaseIdentity_def validRunMillis_def maxRunEventUnixMilliseconds_def)

lemma example_completion_valid: "TaskCompletion_Validate flat_hash example_completion = None"
  by (simp add: TaskCompletion_Validate_def example_completion_def deriveTaskCompletionIdentity_def)

theorem wire_exact_witness:
  "(\<exists>s. EncodeTaskLease flat_hash example_lease = Inr s \<and> ParseTaskLease flat_hash s = Inr example_lease)
   \<and> (\<exists>s. EncodeTaskCompletion flat_hash example_completion = Inr s
        \<and> ParseTaskCompletion flat_hash s = Inr example_completion)"
proof -
  have "tl_attempt example_lease < 256" "utf8_ValidString (tl_workerIdentity example_lease)"
    by (simp_all add: example_lease_def utf8_literal)
  from wire_exact [OF sum256_flat example_lease_valid this example_completion_valid] show ?thesis by blast
qed


section \<open>The finalizer\<close>

definition finalized :: "(error + ReviewRunState \<times> bool) \<times> MemoryRunJournal \<times> MemoryRunJournal schedule" where
  "finalized = RunFinalizer_ReconcileRun flat_hash (sharedJournal (memoryJournal flat_hash)) LiveContext
     example_scope (time_of_millis 4000) (journal_with example_events, [])"

lemma planned_example:
  assumes "replayed flat_hash example_plan es s" and "es \<noteq> []"
  shows "planned_ok flat_hash example_plan (journal_with es, [])"
  using example_state_replay [OF assms]
  by (auto simp: planned_ok_def shared_for_def holds_plan_def journal_with_def replayable_def plan_stream_def
      mj_stream_def map_get_def)

theorem finalizer_safety_witness: "prefix example_events (mj_stream (fst (snd finalized)) flat_digest)"
proof -
  obtain s where "replayed flat_hash example_plan example_events s"
    using example_facts(1) by (auto simp: ReplayReviewRun_Inr)
  then have ok: "planned_ok flat_hash example_plan (journal_with example_events, [])"
    by (rule planned_example) (simp add: example_events_def)
  have "RunFinalizer_ReconcileRun flat_hash (sharedJournal (memoryJournal flat_hash)) LiveContext
      (rp_scope example_plan) (time_of_millis 4000) (journal_with example_events, [])
      = (fst finalized, (fst (snd finalized), snd (snd finalized)))"
    by (simp add: finalized_def)
  from finalizer_safety [OF sum256_flat example_plan_wf ok this] show ?thesis by simp
qed

section \<open>Receipts\<close>

lemma leased_state:
  obtains st where "ReplayReviewRun flat_hash example_plan leased_events = Inr st"
    "rs_status st = ReviewRunActive" "rs_revision st = 3" "rs_lastOccurredAtMillis st = 1000"
    "runtime_at st ''acquire'' = leased_runtime" "map_of (rs_tasks st) ''acquire'' = Some leased_runtime"
    "runtime_at st ''build'' =
      newTaskRuntimeState (example_task ''build'' TaskBuildChange [''acquire''] 1 True) TaskRuntimePending"
proof -
  have "\<exists>s. replayed flat_hash example_plan leased_events s \<and> rs_status s = ReviewRunActive
     \<and> rs_revision s = 3 \<and> rs_lastOccurredAtMillis s = 1000
     \<and> map_of (rs_tasks s) ''acquire'' = Some leased_runtime
     \<and> map_of (rs_tasks s) ''build'' =
         Some (newTaskRuntimeState (example_task ''build'' TaskBuildChange [''acquire''] 1 True) TaskRuntimePending)"
    using example_keys_valid
    by (simp add: leased_events_def example_run_eval leased_runtime_def)
  then show ?thesis using that example_state_replay [OF _ example_lists_nonempty(2)] runtime_at_Some by blast
qed

lemma leased_receipt:
  assumes "ReplayReviewRun flat_hash example_plan leased_events = Inr st"
    and "runtime_at st ''acquire'' = leased_runtime"
    and "runtime_at st ''build'' =
      newTaskRuntimeState (example_task ''build'' TaskBuildChange [''acquire''] 1 True) TaskRuntimePending"
  shows "list_all (\<lambda>d. representable (runtime_at st (td_key d))) (rp_tasks example_plan)"
  using assms by (simp add: example_tasks_def representable_def leased_runtime_def newTaskRuntimeState_def)

theorem receipt_of_replay_witness:
  "\<exists>st. ReplayReviewRun flat_hash example_plan leased_events = Inr st
     \<and> NewReviewRunReceipt flat_hash st = Inr (receipt_of_state flat_hash st)"
proof -
  obtain st where st: "ReplayReviewRun flat_hash example_plan leased_events = Inr st"
    "runtime_at st ''acquire'' = leased_runtime" "runtime_at st ''build'' =
      newTaskRuntimeState (example_task ''build'' TaskBuildChange [''acquire''] 1 True) TaskRuntimePending"
    by (rule leased_state)
  from receipt_of_replay [OF sum256_flat example_plan_wf st(1)] leased_receipt [OF st] st(1) show ?thesis
    by (simp del: example_plan_sel)
qed

definition example_receipt :: ReviewRunReceipt where
  "example_receipt =
     \<lparr>rr_identity = flat_digest, rr_planIdentity = flat_digest, rr_scope = example_scope,
      rr_status = ReviewRunActive, rr_revision = 1, rr_headIdentity = flat_digest,
      rr_lastOccurredAtMillis = 1000, rr_outputIdentity = [], rr_failure = NoRunFailure,
      rr_tasks = [\<lparr>tt_key = ''acquire'', tt_taskIdentity = flat_digest, tt_inputIdentity = flat_digest,
        tt_handlerIdentity = flat_digest, tt_kind = TaskAcquireSource, tt_required = True,
        tt_status = TaskRuntimePending, tt_attempts = 0, tt_maxAttempts = 2, tt_leaseExpiresAtMillis = 0,
        tt_outputIdentity = [], tt_failure = NoRunFailure, tt_retryAtMillis = 0\<rparr>]\<rparr>"

theorem receipt_exact_witness:
  "\<exists>s. EncodeReviewRunReceipt flat_hash example_receipt = Inr s
     \<and> ParseReviewRunReceipt flat_hash s = Inr example_receipt"
proof -
  have "ReviewRunReceipt_Validate flat_hash example_receipt = None" "receipt_ints example_receipt"
    using example_keys_valid
    by (simp_all add: ReviewRunReceipt_Validate_None example_receipt_def receipt_run_fields_def
        ReviewTaskReceipt_Validate_None receipt_status_fields_def hasResultFields_def TaskKind_Validate_def
        deriveReviewRunReceiptIdentity_def receipt_ints_def int64_def)
  from receipt_exact [OF sum256_flat this] show ?thesis by blast
qed

section \<open>Dispatch\<close>

text \<open>The outputs for the second task of the finished example run: one, of the first task, which it depends on.\<close>

theorem outputs_agree_witness:
  "\<exists>receipt out. NewReviewRunReceipt flat_hash (example_state example_events) = Inr receipt
     \<and> TaskDependencyOutputsFromState flat_hash (example_state example_events)
         (example_task ''build'' TaskBuildChange [''acquire''] 1 True) = Inr [out]
     \<and> TaskDependencyOutputsFromReceipt flat_hash example_plan
         (example_task ''build'' TaskBuildChange [''acquire''] 1 True) receipt = Inr [out]"
proof -
  let ?st = "example_state example_events" and ?build = "example_task ''build'' TaskBuildChange [''acquire''] 1 True"
  have r: "replayed flat_hash example_plan example_events ?st" "ReviewRunState_Validate flat_hash ?st = None"
    using example_facts(1) by (simp_all add: ReplayReviewRun_Inr)
  note inv = replayed_inv [OF example_context r(1)] and clean = clean.invar_replayed [OF r(1)]
  have tasks: "\<forall>t\<in>set example_tasks. map_of (rs_tasks ?st) (td_key t) = Some (runtime_at ?st (td_key t))
      \<and> runtime_clean (runtime_at ?st (td_key t))"
    using state_inv_definition(1) [OF example_plan_wf inv] clean unfolding state_clean_def by (metis example_plan_sel(3))
  then have acquire: "map_of (rs_tasks ?st) ''acquire'' = Some (runtime_at ?st ''acquire'')"
    by (simp add: example_tasks_def)
  have "list_all (\<lambda>d. representable (runtime_at ?st (td_key d))) (rp_tasks example_plan)"
    using tasks example_facts(3,5) by (simp add: example_tasks_def representable_def runtime_clean_def Let_def)
  with receipt_of_state_valid [OF sum256_flat example_plan_wf inv clean r(2)] r(2)
  have receipt: "NewReviewRunReceipt flat_hash ?st = Inr (receipt_of_state flat_hash ?st)"
    by (simp add: NewReviewRunReceipt_def list_all_iff Let_def)
  have "ReviewRunPlan_Task example_plan ''build'' = Some ?build" "TaskDefinition_Validate flat_hash ?build = None"
    using ReviewRunPlan_Task_iff [OF example_plan_wf] example_plan_wf
    by (simp_all add: example_tasks_def plan_wf_def TaskDefinition_Validate_None)
  moreover have "rs_plan ?st = example_plan" using inv by (simp add: state_inv_def tasks_inv_def)
  ultimately have "\<exists>out. TaskDependencyOutputsFromState flat_hash ?st ?build = Inr [out]"
    using r(2) acquire example_facts(5,6)
    by (simp add: TaskDependencyOutputsFromState_def state_dependency_output_def ReviewRunState_Task_def
        NewTaskDependencyOutput_def ReviewRunPlan_Validate_wf Let_def)
  with receipt outputs_agree [OF sum256_flat example_plan_wf example_facts(1) receipt] show ?thesis by auto
qed

text \<open>A handler that counts its calls.\<close>

definition counting_handler :: "nat TaskHandler" where
  "counting_handler = \<lparr>th_HandlerIdentity = flat_digest, th_Kind = TaskAcquireSource,
     th_Execute = (\<lambda>ctx request calls. (example_completion, calls + 1))\<rparr>"

definition example_catalog :: "nat TaskHandlerCatalog" where
  "example_catalog = \<lparr>hc_handlers = [(flat_digest, Some counting_handler)]\<rparr>"

lemma example_catalog_facts:
  "TaskHandlerCatalog_Validate example_catalog = None"
  "TaskHandlerCatalog_Resolve example_catalog flat_digest = Some counting_handler"
  by (simp_all add: TaskHandlerCatalog_Validate_def TaskHandlerCatalog_Resolve_def example_catalog_def
      counting_handler_def TaskKind_Validate_def maxReviewRunTasks_def)

theorem dispatch_runs_handler_witness:
  "\<exists>st. ReplayReviewRun flat_hash example_plan leased_events = Inr st
     \<and> DispatchLeasedTask flat_hash LiveContext example_catalog st example_lease (time_of_millis 2000) 0
       = (Inr example_completion, 1)"
proof -
  let ?t = "example_task ''acquire'' TaskAcquireSource [] 2 True"
  obtain st where st: "ReplayReviewRun flat_hash example_plan leased_events = Inr st"
    "rs_status st = ReviewRunActive" "rs_lastOccurredAtMillis st = 1000"
    "runtime_at st ''acquire'' = leased_runtime" by (rule leased_state)
  have time: "transitionTimeAllowed st (time_of_millis 2000)"
    using st(3) pos_millis_not_zero_time [of "time_of_millis 2000"] by (simp add: transitionTimeAllowed_def)
  have lease: "tl_planIdentity example_lease = rp_identity example_plan"
      "ReviewRunPlan_Task example_plan (tl_taskKey example_lease) = Some ?t"
      "runtimeMatchesLease (runtime_at st (td_key ?t)) example_lease"
      "tl_handlerIdentity example_lease = td_handlerIdentity ?t"
      "UnixMilli (time_of_millis 2000) \<le> rt_leaseExpiresAtMillis (runtime_at st (td_key ?t))"
    using st(4) by (simp_all add: example_lease_def runtimeMatchesLease_def leased_runtime_def)
  have handler: "TaskHandlerCatalog_Resolve example_catalog (td_handlerIdentity ?t) = Some counting_handler"
      "th_Kind counting_handler = td_kind ?t"
    using example_catalog_facts(2) by (simp_all add: counting_handler_def)
  from dispatch_runs_handler [OF sum256_flat example_plan_wf st(1,2) time example_catalog_facts(1)
      example_lease_valid lease handler, of 0] st(1) show ?thesis
    using example_completion_valid by (auto simp: counting_handler_def)
qed

theorem dispatch_exact_handler_witness:
  "\<exists>st handler. TaskHandlerCatalog_Resolve example_catalog (tl_handlerIdentity example_lease) = Some handler
     \<and> th_HandlerIdentity handler = flat_digest
     \<and> ReplayReviewRun flat_hash example_plan leased_events = Inr st
     \<and> rt_leaseTokenIdentity (runtime_at st ''acquire'') = tl_tokenIdentity example_lease"
proof -
  let ?t = "example_task ''acquire'' TaskAcquireSource [] 2 True"
  obtain st where st: "ReplayReviewRun flat_hash example_plan leased_events = Inr st"
    "rs_status st = ReviewRunActive" "rs_lastOccurredAtMillis st = 1000"
    "runtime_at st ''acquire'' = leased_runtime" "map_of (rs_tasks st) ''acquire'' = Some leased_runtime"
    by (rule leased_state)
  have plan: "rs_plan st = example_plan" "ReviewRunState_Validate flat_hash st = None"
    using st(1) replayed_inv [OF example_context] by (auto simp: ReplayReviewRun_Inr state_inv_def tasks_inv_def)
  have time: "transitionTimeAllowed st (time_of_millis 2000)"
    using st(3) pos_millis_not_zero_time [of "time_of_millis 2000"] by (simp add: transitionTimeAllowed_def)
  have t: "TaskDefinition_Validate flat_hash ?t = None"
    by (simp add: TaskDefinition_Validate_None example_tasks_ok example_tasks_def)
  have lease: "tl_planIdentity example_lease = flat_digest" "tl_taskKey example_lease = ''acquire''"
      "tl_taskIdentity example_lease = flat_digest" "tl_handlerIdentity example_lease = flat_digest"
      "runtimeMatchesLease leased_runtime example_lease" "rt_leaseExpiresAtMillis leased_runtime = 31000"
    by (simp_all add: example_lease_def runtimeMatchesLease_def leased_runtime_def)
  have outs: "TaskDependencyOutputsFromState flat_hash st ?t = Inr []"
    using plan t by (simp add: TaskDependencyOutputsFromState_def)
  have req: "NewTaskExecutionRequestWithDependencies flat_hash example_plan ?t example_lease []
      = Inr (request_of flat_hash example_plan ?t example_lease [])"
    by (rule request_of_valid [OF example_plan_wf _ example_lease_valid]) (simp_all add: lease example_tasks_def)
  have run: "DispatchLeasedTask flat_hash LiveContext example_catalog st example_lease (time_of_millis 2000) 0
      = (Inr example_completion, 1)"
    using plan st time lease outs req example_catalog_facts example_lease_valid example_completion_valid
    by (simp add: DispatchLeasedTask_def ReviewRunState_Task_def) (simp add: counting_handler_def)
  from dispatch_exact_handler [OF run] show ?thesis
    using st lease plan by (auto simp: ReviewRunState_Task_def)
qed

end
