(* ===== verification/Task_Notification.thy ===== *)
theory Task_Notification
  imports Task_Handler "HOL-Library.Product_Lexorder"
begin

text \<open>
  Notifications of claimable work and the queue that delivers them
  (controlplane/task\_notification.go).

  A duration is a number of nanoseconds. The wake-up channel of the memory queue, which has one
  slot, is a flag. Random bytes are arguments of the operations that draw them.
\<close>


section \<open>Notifications\<close>

definition maximumTaskNotificationDeliveries :: nat where
  "maximumTaskNotificationDeliveries = 10"

definition minimumTaskNotificationLease :: int where
  "minimumTaskNotificationLease = 1000000000"

definition maximumTaskNotificationLease :: int where
  "maximumTaskNotificationLease = 86400000000000"

definition Milliseconds :: "int \<Rightarrow> int" where
  "Milliseconds duration = duration div 1000000"

record TaskNotification =
  tn_identity :: string
  tn_scope :: ReviewScope
  tn_planIdentity :: string
  tn_taskStateRevision :: nat
  tn_taskStateEventIdentity :: string
  tn_taskKey :: string
  tn_taskIdentity :: string
  tn_handlerIdentity :: string
  tn_attempt :: nat
  tn_availableAtMillis :: int

definition deriveTaskNotificationIdentity :: "sha \<Rightarrow> TaskNotification \<Rightarrow> string" where
  "deriveTaskNotificationIdentity H n =
     hashControlPlaneValue H
       (JObj [(''contract'', JStr ''open-trestle/task-notification-identity''), (''schema_version'', JInt 1),
              (''scope_identity'', JStr (sc_identity (tn_scope n))),
              (''plan_identity'', JStr (tn_planIdentity n)),
              (''task_state_revision'', JInt (int (tn_taskStateRevision n))),
              (''task_state_event_identity'', JStr (tn_taskStateEventIdentity n)),
              (''task_key'', JStr (tn_taskKey n)), (''task_identity'', JStr (tn_taskIdentity n)),
              (''handler_identity'', JStr (tn_handlerIdentity n)), (''attempt'', JInt (int (tn_attempt n))),
              (''available_at_milliseconds'', JInt (tn_availableAtMillis n))])"

definition TaskNotification_Validate :: "sha \<Rightarrow> TaskNotification \<Rightarrow> error option" where
  "TaskNotification_Validate H n =
     (if ReviewScope_Validate H (tn_scope n) \<noteq> None \<or> \<not> validControlPlaneDigest (tn_planIdentity n)
         \<or> tn_taskStateRevision n = 0 \<or> tn_taskStateRevision n > maxRunJournalStreamEvents
         \<or> \<not> validControlPlaneDigest (tn_taskStateEventIdentity n) \<or> \<not> validReviewTaskKey (tn_taskKey n)
         \<or> \<not> validControlPlaneDigest (tn_taskIdentity n) \<or> \<not> validControlPlaneDigest (tn_handlerIdentity n)
         \<or> tn_attempt n = 0 \<or> \<not> validRunMillis (tn_availableAtMillis n)
         \<or> tn_identity n \<noteq> deriveTaskNotificationIdentity H n
      then Some ErrInvalidTaskNotification else None)"

definition sameTaskNotificationRuntime :: "TaskRuntimeState \<Rightarrow> TaskRuntimeState \<Rightarrow> bool" where
  "sameTaskNotificationRuntime first second \<longleftrightarrow>
     td_identity (rt_definition first) = td_identity (rt_definition second)
     \<and> rt_status first = rt_status second \<and> rt_attempts first = rt_attempts second
     \<and> rt_leaseTokenIdentity first = rt_leaseTokenIdentity second
     \<and> rt_workerIdentity first = rt_workerIdentity second
     \<and> rt_leaseExpiresAtMillis first = rt_leaseExpiresAtMillis second
     \<and> rt_outputIdentity first = rt_outputIdentity second \<and> rt_failure first = rt_failure second
     \<and> rt_retryAtMillis first = rt_retryAtMillis second
     \<and> rt_lastEventRevision first = rt_lastEventRevision second
     \<and> rt_lastEventIdentity first = rt_lastEventIdentity second
     \<and> rt_lastEventAtMillis first = rt_lastEventAtMillis second"

definition NewTaskNotification ::
    "sha \<Rightarrow> ReviewRunState \<Rightarrow> TaskRuntimeState \<Rightarrow> gotime \<Rightarrow> error + TaskNotification" where
  "NewTaskNotification H state runtime now =
     (if ReviewRunState_Validate H state \<noteq> None \<or> TaskDefinition_Validate H (rt_definition runtime) \<noteq> None
         \<or> rs_status state \<noteq> ReviewRunActive \<or> \<not> transitionTimeAllowed state now
      then Inl ErrInvalidTaskNotification
      else (case ReviewRunState_Task state (td_key (rt_definition runtime)) of
              None \<Rightarrow> Inl ErrInvalidTaskNotification
            | Some current \<Rightarrow>
                if \<not> sameTaskNotificationRuntime current runtime then Inl ErrInvalidTaskNotification
                else (let expiry = runMillisToTime (rt_leaseExpiresAtMillis runtime);
                          expired = rt_status runtime = TaskRuntimeLeased \<and> UnixMilli expiry > 0
                            \<and> UnixMilli now \<ge> UnixMilli expiry;
                          eligible = rt_status runtime = TaskRuntimeAvailable \<or> expired;
                          availableAt = (if expired then expiry
                            else runMillisToTime (rt_lastEventAtMillis runtime));
                          attempt = u8_succ (rt_attempts runtime)
                      in if \<not> eligible \<or> attempt = 0 \<or> attempt > td_maxAttempts (rt_definition runtime)
                            \<or> availableAt = zero_time \<or> availableAt > now
                         then Inl ErrInvalidTaskNotification
                         else (let n = \<lparr>tn_identity = [], tn_scope = rp_scope (rs_plan state),
                                        tn_planIdentity = rp_identity (rs_plan state),
                                        tn_taskStateRevision = rt_lastEventRevision runtime,
                                        tn_taskStateEventIdentity = rt_lastEventIdentity runtime,
                                        tn_taskKey = td_key (rt_definition runtime),
                                        tn_taskIdentity = td_identity (rt_definition runtime),
                                        tn_handlerIdentity = td_handlerIdentity (rt_definition runtime),
                                        tn_attempt = attempt,
                                        tn_availableAtMillis = UnixMilli availableAt\<rparr>;
                                   n = n\<lparr>tn_identity := deriveTaskNotificationIdentity H n\<rparr>
                               in if TaskNotification_Validate H n \<noteq> None then Inl ErrInvalidTaskNotification
                                  else Inr n))))"


section \<open>Delivery leases\<close>

record TaskNotificationLease =
  nl_identity :: string
  nl_notification :: TaskNotification
  nl_workerIdentity :: string
  nl_token :: string
  nl_tokenIdentity :: string
  nl_delivery :: nat
  nl_leasedAtMillis :: int
  nl_expiresAtMillis :: int

definition deriveTaskNotificationLeaseIdentity :: "sha \<Rightarrow> TaskNotificationLease \<Rightarrow> string" where
  "deriveTaskNotificationLeaseIdentity H l =
     hashControlPlaneValue H
       (JObj [(''contract'', JStr ''open-trestle/task-notification-lease-identity''),
              (''schema_version'', JInt 1),
              (''notification_identity'', JStr (tn_identity (nl_notification l))),
              (''worker_identity'', JStr (nl_workerIdentity l)), (''token_identity'', JStr (nl_tokenIdentity l)),
              (''delivery'', JInt (int (nl_delivery l))),
              (''leased_at_milliseconds'', JInt (nl_leasedAtMillis l)),
              (''expires_at_milliseconds'', JInt (nl_expiresAtMillis l))])"

definition deriveTaskNotificationTokenIdentity :: "sha \<Rightarrow> string \<Rightarrow> string" where
  "deriveTaskNotificationTokenIdentity H token =
     hashControlPlaneValue H
       (JObj [(''contract'', JStr ''open-trestle/task-notification-token''), (''schema_version'', JInt 1),
              (''token'', JStr token)])"

text \<open>
  The difference of the two times cannot overflow where it is looked at: both were found in range
  before.
\<close>

definition TaskNotificationLease_Validate :: "sha \<Rightarrow> TaskNotificationLease \<Rightarrow> error option" where
  "TaskNotificationLease_Validate H l =
     (let durationMillis = nl_expiresAtMillis l - nl_leasedAtMillis l
      in if TaskNotification_Validate H (nl_notification l) \<noteq> None
            \<or> \<not> validWorkerIdentity (nl_workerIdentity l) \<or> \<not> validLeaseToken (nl_token l)
            \<or> deriveTaskNotificationTokenIdentity H (nl_token l) \<noteq> nl_tokenIdentity l
            \<or> nl_delivery l = 0 \<or> nl_delivery l > maximumTaskNotificationDeliveries
            \<or> \<not> validRunMillis (nl_leasedAtMillis l) \<or> \<not> validRunMillis (nl_expiresAtMillis l)
            \<or> nl_leasedAtMillis l < tn_availableAtMillis (nl_notification l)
            \<or> nl_expiresAtMillis l \<le> nl_leasedAtMillis l
            \<or> durationMillis < Milliseconds minimumTaskNotificationLease
            \<or> durationMillis > Milliseconds maximumTaskNotificationLease
            \<or> nl_identity l \<noteq> deriveTaskNotificationLeaseIdentity H l
         then Some ErrTaskNotificationLeaseMismatch else None)"

definition NewTaskNotificationLease ::
    "sha \<Rightarrow> TaskNotification \<Rightarrow> string \<Rightarrow> string \<Rightarrow> nat \<Rightarrow> gotime \<Rightarrow> gotime \<Rightarrow> error + TaskNotificationLease" where
  "NewTaskNotificationLease H notification workerIdentity token delivery leasedAt expiresAt =
     (let l = \<lparr>nl_identity = [], nl_notification = notification, nl_workerIdentity = workerIdentity,
               nl_token = token, nl_tokenIdentity = deriveTaskNotificationTokenIdentity H token,
               nl_delivery = delivery, nl_leasedAtMillis = UnixMilli leasedAt,
               nl_expiresAtMillis = UnixMilli expiresAt\<rparr>;
          l = l\<lparr>nl_identity := deriveTaskNotificationLeaseIdentity H l\<rparr>
      in if TaskNotificationLease_Validate H l \<noteq> None then Inl ErrTaskNotificationLeaseMismatch else Inr l)"


section \<open>The memory queue\<close>

record memoryTaskNotificationItem =
  ni_notification :: TaskNotification
  ni_delivery :: nat
  ni_worker :: string
  ni_tokenIdentity :: string
  ni_leaseExpires :: int
  ni_acknowledged :: bool

record MemoryTaskNotificationQueue =
  mq_items :: "(string \<times> memoryTaskNotificationItem) list"
  mq_wake :: bool

definition NewMemoryTaskNotificationQueue :: MemoryTaskNotificationQueue where
  "NewMemoryTaskNotificationQueue = \<lparr>mq_items = [], mq_wake = False\<rparr>"

definition invalidNotificationOperation :: "gocontext \<Rightarrow> bool" where
  "invalidNotificationOperation ctx \<longleftrightarrow> ctx \<noteq> LiveContext"

definition EnqueueTaskNotification ::
    "sha \<Rightarrow> gocontext \<Rightarrow> TaskNotification \<Rightarrow> MemoryTaskNotificationQueue
      \<Rightarrow> (error + bool) \<times> MemoryTaskNotificationQueue" where
  "EnqueueTaskNotification H ctx n q =
     (if invalidNotificationOperation ctx \<or> TaskNotification_Validate H n \<noteq> None
      then (Inl ErrInvalidTaskNotificationQueue, q)
      else (case map_of (mq_items q) (tn_identity n) of
              Some existing \<Rightarrow>
                if tn_identity (ni_notification existing) \<noteq> tn_identity n
                then (Inl ErrTaskNotificationConflict, q) else (Inr False, q)
            | None \<Rightarrow>
                (Inr True,
                 q\<lparr>mq_items := AList.update (tn_identity n)
                      \<lparr>ni_notification = n, ni_delivery = 0, ni_worker = [], ni_tokenIdentity = [],
                       ni_leaseExpires = 0, ni_acknowledged = False\<rparr> (mq_items q),
                    mq_wake := True\<rparr>)))"

definition validNotificationClaimTime :: "gotime \<Rightarrow> int \<Rightarrow> bool" where
  "validNotificationClaimTime now duration \<longleftrightarrow>
     validRunMillis (UnixMilli now) \<and> duration mod 1000000 = 0 \<and> duration \<ge> minimumTaskNotificationLease
     \<and> duration \<le> maximumTaskNotificationLease \<and> now + duration > now
     \<and> validRunMillis (UnixMilli (now + duration))"

definition newNotificationToken :: "string option \<Rightarrow> error + string" where
  "newNotificationToken draw =
     (case draw of
        None \<Rightarrow> Inl ErrInvalidTaskNotificationQueue
      | Some bytes \<Rightarrow>
          if length bytes \<noteq> 32 then Inl ErrInvalidTaskNotificationQueue
          else (let token = hex_EncodeToString bytes
                in if \<not> validLeaseToken token then Inl ErrInvalidTaskNotificationQueue else Inr token))"

text \<open>The items a claim considers, in the order of their availability and then of their identity.\<close>

definition claimable_item :: "ReviewScope \<Rightarrow> gotime \<Rightarrow> memoryTaskNotificationItem \<Rightarrow> bool" where
  "claimable_item scope now item \<longleftrightarrow>
     sc_identity (tn_scope (ni_notification item)) = sc_identity scope \<and> \<not> ni_acknowledged item
     \<and> ni_delivery item < maximumTaskNotificationDeliveries
     \<and> tn_availableAtMillis (ni_notification item) \<le> UnixMilli now
     \<and> (ni_leaseExpires item = 0 \<or> ni_leaseExpires item \<le> UnixMilli now)"

definition claim_candidates ::
    "ReviewScope \<Rightarrow> gotime \<Rightarrow> MemoryTaskNotificationQueue \<Rightarrow> (string \<times> memoryTaskNotificationItem) list" where
  "claim_candidates scope now q =
     sort_key (\<lambda>(identity, item). (tn_availableAtMillis (ni_notification item), identity))
       (filter (\<lambda>(identity, item). claimable_item scope now item) (mq_items q))"

text \<open>\<open>Inr None\<close> is the code's \<open>(TaskNotificationLease{}, false, nil)\<close>.\<close>

definition ClaimTaskNotification ::
    "sha \<Rightarrow> string option \<Rightarrow> gocontext \<Rightarrow> ReviewScope \<Rightarrow> string \<Rightarrow> gotime \<Rightarrow> int \<Rightarrow> MemoryTaskNotificationQueue
      \<Rightarrow> (error + TaskNotificationLease option) \<times> MemoryTaskNotificationQueue" where
  "ClaimTaskNotification H draw ctx scope worker now duration q =
     (if invalidNotificationOperation ctx \<or> ReviewScope_Validate H scope \<noteq> None
         \<or> \<not> validWorkerIdentity worker \<or> \<not> validNotificationClaimTime now duration
      then (Inl ErrInvalidTaskNotificationQueue, q)
      else (case claim_candidates scope now q of
              [] \<Rightarrow> (Inr None, q)
            | (identity, item) # _ \<Rightarrow>
                (case newNotificationToken draw of
                   Inl _ \<Rightarrow> (Inl ErrInvalidTaskNotificationQueue, q)
                 | Inr token \<Rightarrow>
                     if ni_tokenIdentity item \<noteq> []
                        \<and> deriveTaskNotificationTokenIdentity H token = ni_tokenIdentity item
                     then (Inl ErrInvalidTaskNotificationQueue, q)
                     else (let delivery = u8_succ (ni_delivery item);
                               expires = now + duration
                           in case NewTaskNotificationLease H (ni_notification item) worker token delivery
                                     now expires of
                                Inl _ \<Rightarrow> (Inl ErrInvalidTaskNotificationQueue, q)
                              | Inr lease \<Rightarrow>
                                  (Inr (Some lease),
                                   q\<lparr>mq_items := AList.update identity
                                        (item\<lparr>ni_delivery := delivery, ni_worker := worker,
                                              ni_tokenIdentity := nl_tokenIdentity lease,
                                              ni_leaseExpires := UnixMilli expires\<rparr>) (mq_items q)\<rparr>)))))"

definition AcknowledgeTaskNotification ::
    "sha \<Rightarrow> gocontext \<Rightarrow> TaskNotificationLease \<Rightarrow> gotime \<Rightarrow> MemoryTaskNotificationQueue
      \<Rightarrow> error option \<times> MemoryTaskNotificationQueue" where
  "AcknowledgeTaskNotification H ctx lease now q =
     (if invalidNotificationOperation ctx \<or> TaskNotificationLease_Validate H lease \<noteq> None
         \<or> \<not> validRunMillis (UnixMilli now)
      then (Some ErrInvalidTaskNotificationQueue, q)
      else (case map_of (mq_items q) (tn_identity (nl_notification lease)) of
              None \<Rightarrow> (Some ErrTaskNotificationLeaseMismatch, q)
            | Some item \<Rightarrow>
                if ni_acknowledged item \<or> ni_delivery item \<noteq> nl_delivery lease
                   \<or> ni_worker item \<noteq> nl_workerIdentity lease
                   \<or> ni_tokenIdentity item \<noteq> nl_tokenIdentity lease
                   \<or> ni_leaseExpires item \<noteq> nl_expiresAtMillis lease
                   \<or> UnixMilli now < nl_leasedAtMillis lease \<or> UnixMilli now > ni_leaseExpires item
                then (Some ErrTaskNotificationLeaseMismatch, q)
                else (None,
                      q\<lparr>mq_items := AList.update (tn_identity (nl_notification lease))
                           (item\<lparr>ni_acknowledged := True, ni_worker := [], ni_tokenIdentity := [],
                                 ni_leaseExpires := 0\<rparr>) (mq_items q)\<rparr>)))"

text \<open>
  A wait with a live context takes the wake-up if there is one; \<open>None\<close> is a wait that goes on.
\<close>

definition WaitForTaskNotification ::
    "gocontext \<Rightarrow> MemoryTaskNotificationQueue \<Rightarrow> (error option \<times> MemoryTaskNotificationQueue) option" where
  "WaitForTaskNotification ctx q =
     (case ctx of
        NilContext \<Rightarrow> Some (Some ErrInvalidTaskNotificationQueue, q)
      | DoneContext \<Rightarrow> Some (Some ErrTaskNotificationWaitCanceled, q)
      | LiveContext \<Rightarrow> if mq_wake q then Some (None, q\<lparr>mq_wake := False\<rparr>) else None)"


section \<open>The scheduler\<close>

record 'q TaskNotificationQueue =
  nq_Enqueue :: "gocontext \<Rightarrow> TaskNotification \<Rightarrow> 'q \<Rightarrow> (error + bool) \<times> 'q"

definition memoryNotificationQueue :: "sha \<Rightarrow> MemoryTaskNotificationQueue TaskNotificationQueue" where
  "memoryNotificationQueue H = \<lparr>nq_Enqueue = EnqueueTaskNotification H\<rparr>"

text \<open>The loop over the tasks: the count, and the error that ended it if one did.\<close>

fun notify_tasks ::
    "sha \<Rightarrow> 'q TaskNotificationQueue \<Rightarrow> gocontext \<Rightarrow> ReviewRunState \<Rightarrow> gotime \<Rightarrow> TaskDefinition list \<Rightarrow> nat \<Rightarrow> 'q
      \<Rightarrow> (nat \<times> error option) \<times> 'q" where
  "notify_tasks H Q ctx state now [] count q = ((count, None), q)"
| "notify_tasks H Q ctx state now (definition # rest) count q =
     (case NewTaskNotification H state (runtime_at state (td_key definition)) now of
        Inl _ \<Rightarrow> notify_tasks H Q ctx state now rest count q
      | Inr notice \<Rightarrow>
          (case nq_Enqueue Q ctx notice q of
             (Inl err, q') \<Rightarrow> ((count, Some err), q')
           | (Inr created, q') \<Rightarrow>
               notify_tasks H Q ctx state now rest (if created then count + 1 else count) q'))"

text \<open>The world of the scheduler is a journal and a queue. The count is returned beside the error.\<close>

definition TaskNotificationScheduler_ReconcileRun ::
    "sha \<Rightarrow> 's RunJournal \<Rightarrow> 'q TaskNotificationQueue \<Rightarrow> gocontext \<Rightarrow> ReviewScope \<Rightarrow> gotime \<Rightarrow> 's \<times> 'q
      \<Rightarrow> (nat \<times> (error + ReviewRunState)) \<times> 's \<times> 'q" where
  "TaskNotificationScheduler_ReconcileRun H J Q ctx scope now w =
     (case w of (s, q) \<Rightarrow>
       if ctx \<noteq> LiveContext \<or> ReviewScope_Validate H scope \<noteq> None
       then ((0, Inl ErrInvalidTaskNotificationQueue), (s, q))
       else (case Coordinator_Resume H J ctx scope s of
               (Inl err, s1) \<Rightarrow> ((0, Inl err), (s1, q))
             | (Inr (plan, state), s1) \<Rightarrow>
                 if rs_status state \<noteq> ReviewRunActive then ((0, Inr state), (s1, q))
                 else (case Coordinator_Advance H J ctx plan now s1 of
                         (Inl err, s2) \<Rightarrow> ((0, Inl err), (s2, q))
                       | (Inr state, s2) \<Rightarrow>
                           (case notify_tasks H Q ctx state now (rp_tasks plan) 0 q of
                              ((count, Some err), q') \<Rightarrow> ((count, Inl err), (s2, q'))
                            | ((count, None), q') \<Rightarrow> ((count, Inr state), (s2, q'))))))"

definition TaskNotificationScheduler_ReconcileRepository ::
    "sha \<Rightarrow> 's RunJournal \<Rightarrow> 'q TaskNotificationQueue \<Rightarrow> gocontext \<Rightarrow> string \<Rightarrow> string \<Rightarrow> gotime \<Rightarrow> 's \<times> 'q
      \<Rightarrow> (nat \<times> nat \<times> error option) \<times> 's \<times> 'q" where
  "TaskNotificationScheduler_ReconcileRepository H J Q ctx tenantID repositoryID now w =
     (if ctx \<noteq> LiveContext \<or> \<not> validRunPlanQuery tenantID \<or> \<not> validRunPlanQuery repositoryID
         \<or> \<not> validRunMillis (UnixMilli now)
      then ((0, 0, Some ErrInvalidTaskNotificationQueue), w)
      else reconcile_pages ErrInvalidTaskNotificationQueue
             (\<lambda>after (s, q). case rj_ListPlans J ctx tenantID repositoryID after (int reconcilePageSize) s of
                (plans, s') \<Rightarrow> (plans, (s', q)))
             (\<lambda>scope w. case TaskNotificationScheduler_ReconcileRun H J Q ctx scope now w of
                ((created, Inl err), w1) \<Rightarrow> (Inl err, w1)
              | ((created, Inr _), w1) \<Rightarrow> (Inr created, w1))
             [] 0 0 w)"

end
