(* ===== verification/Notification_Queue.thy ===== *)
theory Notification_Queue
  imports Task_Notification
begin

text \<open>
  What the notification queue promises. The queue is a state machine whose steps are the calls of
  its methods, in any order and with any arguments; \<open>queue_trace\<close> collects the deliveries it issued
  and the acknowledgements it took.
\<close>


section \<open>Traces of the memory queue\<close>

datatype delivery_event =
    Issued TaskNotificationLease
  | Acked TaskNotificationLease

inductive queue_trace :: "sha \<Rightarrow> delivery_event list \<Rightarrow> MemoryTaskNotificationQueue \<Rightarrow> bool" for H where
  start: "queue_trace H [] NewMemoryTaskNotificationQueue"
| enqueue: "queue_trace H h q \<Longrightarrow> EnqueueTaskNotification H ctx n q = (res, q') \<Longrightarrow> queue_trace H h q'"
| claim: "queue_trace H h q \<Longrightarrow>
    ClaimTaskNotification H draw ctx scope worker now duration q = (Inr (Some lease), q') \<Longrightarrow>
    queue_trace H (h @ [Issued lease]) q'"
| no_claim: "queue_trace H h q \<Longrightarrow>
    ClaimTaskNotification H draw ctx scope worker now duration q = (res, q') \<Longrightarrow>
    (\<forall>lease. res \<noteq> Inr (Some lease)) \<Longrightarrow> queue_trace H h q'"
| acknowledge: "queue_trace H h q \<Longrightarrow> AcknowledgeTaskNotification H ctx lease now q = (None, q') \<Longrightarrow>
    queue_trace H (h @ [Acked lease]) q'"
| no_acknowledge: "queue_trace H h q \<Longrightarrow> AcknowledgeTaskNotification H ctx lease now q = (Some err, q') \<Longrightarrow>
    queue_trace H h q'"
| wait: "queue_trace H h q \<Longrightarrow> WaitForTaskNotification ctx q = Some (res, q') \<Longrightarrow> queue_trace H h q'"

fun delivery_lease :: "delivery_event \<Rightarrow> TaskNotificationLease" where
  "delivery_lease (Issued lease) = lease"
| "delivery_lease (Acked lease) = lease"

abbreviation notice_of :: "TaskNotificationLease \<Rightarrow> string" where
  "notice_of lease \<equiv> tn_identity (nl_notification lease)"

text \<open>What the order of two events on one notification has to respect.\<close>

fun in_order :: "delivery_event \<Rightarrow> delivery_event \<Rightarrow> bool" where
  "in_order (Issued l1) (Issued l2) \<longleftrightarrow>
     nl_expiresAtMillis l1 \<le> nl_leasedAtMillis l2 \<and> nl_delivery l1 < nl_delivery l2"
| "in_order (Issued l1) (Acked l2) \<longleftrightarrow> nl_delivery l1 \<le> nl_delivery l2"
| "in_order (Acked l1) e \<longleftrightarrow> False"

definition ordered_history :: "delivery_event list \<Rightarrow> bool" where
  "ordered_history h \<longleftrightarrow>
     sorted_wrt (\<lambda>e1 e2. notice_of (delivery_lease e1) = notice_of (delivery_lease e2) \<longrightarrow> in_order e1 e2) h"

text \<open>What the item of a notification remembers of an event on it.\<close>

fun remembers :: "memoryTaskNotificationItem \<Rightarrow> delivery_event \<Rightarrow> bool" where
  "remembers i (Issued l) \<longleftrightarrow>
     nl_delivery l \<le> ni_delivery i \<and> 0 < nl_expiresAtMillis l
     \<and> (ni_acknowledged i \<or> nl_expiresAtMillis l \<le> ni_leaseExpires i)"
| "remembers i (Acked l) \<longleftrightarrow> ni_acknowledged i"

definition items_inv :: "MemoryTaskNotificationQueue \<Rightarrow> bool" where
  "items_inv q \<longleftrightarrow> distinct (map fst (mq_items q))
     \<and> (\<forall>k i. map_of (mq_items q) k = Some i \<longrightarrow> tn_identity (ni_notification i) = k \<and> ni_delivery i \<le> 10)"

definition queue_inv :: "delivery_event list \<Rightarrow> MemoryTaskNotificationQueue \<Rightarrow> bool" where
  "queue_inv h q \<longleftrightarrow> items_inv q
     \<and> (\<forall>e\<in>set h. \<exists>i. map_of (mq_items q) (notice_of (delivery_lease e)) = Some i \<and> remembers i e)
     \<and> ordered_history h
     \<and> (\<forall>l. Issued l \<in> set h \<longrightarrow> 1 \<le> nl_delivery l \<and> nl_delivery l \<le> 10)"


section \<open>The steps\<close>

lemma update_distinct: "distinct (map fst m) \<Longrightarrow> distinct (map fst (AList.update k v m))"
  by (rule distinct_update)

lemma claim_SomeD:
  assumes "ClaimTaskNotification H draw ctx scope worker now duration q = (Inr (Some lease), q')"
  obtains identity item where "(identity, item) \<in> set (mq_items q)" "claimable_item scope now item"
    "nl_notification lease = ni_notification item" "nl_delivery lease = Suc (ni_delivery item)"
    "nl_leasedAtMillis lease = UnixMilli now" "TaskNotificationLease_Validate H lease = None"
    "q' = q\<lparr>mq_items := AList.update identity
       (item\<lparr>ni_delivery := nl_delivery lease, ni_worker := nl_workerIdentity lease,
         ni_tokenIdentity := nl_tokenIdentity lease, ni_leaseExpires := nl_expiresAtMillis lease\<rparr>) (mq_items q)\<rparr>"
proof -
  from assms obtain identity item rest token where c:
      "claim_candidates scope now q = (identity, item) # rest"
      "NewTaskNotificationLease H (ni_notification item) worker token (u8_succ (ni_delivery item)) now
         (now + duration) = Inr lease"
      "q' = q\<lparr>mq_items := AList.update identity
        (item\<lparr>ni_delivery := u8_succ (ni_delivery item), ni_worker := worker,
          ni_tokenIdentity := nl_tokenIdentity lease, ni_leaseExpires := UnixMilli (now + duration)\<rparr>) (mq_items q)\<rparr>"
    by (auto simp: ClaimTaskNotification_def Let_def split: if_splits list.splits sum.splits prod.splits)
  have "(identity, item) \<in> set (claim_candidates scope now q)" using c(1) by simp
  then have mem: "(identity, item) \<in> set (mq_items q)" "claimable_item scope now item"
    by (auto simp: claim_candidates_def)
  then have "u8_succ (ni_delivery item) = Suc (ni_delivery item)"
    by (simp add: claimable_item_def maximumTaskNotificationDeliveries_def)
  with mem c(2,3) show ?thesis
    by (intro that [of identity item]) (auto simp: NewTaskNotificationLease_def Let_def split: if_splits)
qed

lemma claim_otherwise:
  assumes "ClaimTaskNotification H draw ctx scope worker now duration q = (res, q')"
    and "\<forall>lease. res \<noteq> Inr (Some lease)"
  shows "q' = q"
  using assms
  by (auto simp: ClaimTaskNotification_def Let_def split: if_splits list.splits sum.splits prod.splits)

lemma ack_NoneD:
  assumes "AcknowledgeTaskNotification H ctx lease now q = (None, q')"
  obtains item where "map_of (mq_items q) (notice_of lease) = Some item" "\<not> ni_acknowledged item"
    "ni_delivery item = nl_delivery lease"
    "q' = q\<lparr>mq_items := AList.update (notice_of lease)
       (item\<lparr>ni_acknowledged := True, ni_worker := [], ni_tokenIdentity := [], ni_leaseExpires := 0\<rparr>)
       (mq_items q)\<rparr>"
  using assms by (auto simp: AcknowledgeTaskNotification_def split: if_splits option.splits)

lemma ack_refused: "AcknowledgeTaskNotification H ctx lease now q = (Some err, q') \<Longrightarrow> q' = q"
  by (auto simp: AcknowledgeTaskNotification_def split: if_splits option.splits)

lemma enqueue_cases:
  assumes "EnqueueTaskNotification H ctx n q = (res, q')"
  obtains "q' = q" "res \<noteq> Inr True" | "res = Inr True" "map_of (mq_items q) (tn_identity n) = None"
      "mq_items q' = AList.update (tn_identity n)
        \<lparr>ni_notification = n, ni_delivery = 0, ni_worker = [], ni_tokenIdentity = [], ni_leaseExpires = 0,
         ni_acknowledged = False\<rparr> (mq_items q)"
proof (cases "ctx = LiveContext \<and> TaskNotification_Validate H n = None \<and> map_of (mq_items q) (tn_identity n) = None")
  case True
  with assms that(2) show ?thesis by (auto simp: EnqueueTaskNotification_def invalidNotificationOperation_def)
next
  case False
  with assms that(1) show ?thesis
    by (auto simp: EnqueueTaskNotification_def invalidNotificationOperation_def split: if_splits option.splits)
qed

lemma wait_items: "WaitForTaskNotification ctx q = Some (res, q') \<Longrightarrow> mq_items q' = mq_items q"
  by (auto simp: WaitForTaskNotification_def split: gocontext.splits if_splits)

text \<open>The invariant depends on the items alone, and replacing one item keeps what is said of the others.\<close>

lemma queue_inv_items: "mq_items q' = mq_items q \<Longrightarrow> queue_inv h q' = queue_inv h q"
  by (simp add: queue_inv_def items_inv_def)

lemma queue_inv_update:
  assumes inv: "queue_inv h q" and q': "mq_items q' = AList.update k i (mq_items q)"
    and i: "tn_identity (ni_notification i) = k" "ni_delivery i \<le> 10"
    and old: "\<And>e. e \<in> set h \<Longrightarrow> notice_of (delivery_lease e) = k \<Longrightarrow> remembers i e"
    and new: "\<And>e. e \<in> set h' \<Longrightarrow> notice_of (delivery_lease e) = k \<and> remembers i e"
    and order: "\<And>e e'. e \<in> set h \<Longrightarrow> e' \<in> set h' \<Longrightarrow> notice_of (delivery_lease e) = k \<Longrightarrow> in_order e e'"
    and single: "h' = [] \<or> h' = [e0]"
    and range: "\<And>l. Issued l \<in> set h' \<Longrightarrow> 1 \<le> nl_delivery l \<and> nl_delivery l \<le> 10"
  shows "queue_inv (h @ h') q'"
proof -
  have "items_inv q'"
    using inv i by (auto simp: queue_inv_def items_inv_def q' update_conv' distinct_update)
  moreover have "\<exists>i. map_of (mq_items q') (notice_of (delivery_lease e)) = Some i \<and> remembers i e"
    if "e \<in> set (h @ h')" for e
    using that inv old new by (cases "e \<in> set h") (auto simp: queue_inv_def q' update_conv')
  moreover have "ordered_history (h @ h')"
    using inv single new order by (auto simp: queue_inv_def ordered_history_def sorted_wrt_append)
  moreover have "1 \<le> nl_delivery l \<and> nl_delivery l \<le> 10" if "Issued l \<in> set (h @ h')" for l
    using that inv range by (auto simp: queue_inv_def)
  ultimately show ?thesis by (auto simp: queue_inv_def)
qed

lemma queue_trace_inv: "queue_trace H h q \<Longrightarrow> queue_inv h q"
proof (induction rule: queue_trace.induct)
  case start
  show ?case by (simp add: queue_inv_def items_inv_def NewMemoryTaskNotificationQueue_def ordered_history_def)
next
  case (enqueue h q ctx n res q')
  from enqueue.hyps(2) show ?case
  proof (cases rule: enqueue_cases)
    case 2
    have "\<nexists>e. e \<in> set h \<and> notice_of (delivery_lease e) = tn_identity n"
      using enqueue.IH 2(2) by (fastforce simp: queue_inv_def)
    with queue_inv_update [OF enqueue.IH 2(3), of "[]"] show ?thesis by fastforce
  qed (simp add: enqueue.IH)
next
  case (claim h q draw ctx scope worker now duration lease q')
  from claim.hyps(2) obtain identity item where c: "(identity, item) \<in> set (mq_items q)"
      "claimable_item scope now item" "nl_notification lease = ni_notification item"
      "nl_delivery lease = Suc (ni_delivery item)" "nl_leasedAtMillis lease = UnixMilli now"
      "TaskNotificationLease_Validate H lease = None"
    and q': "q' = q\<lparr>mq_items := AList.update identity
       (item\<lparr>ni_delivery := nl_delivery lease, ni_worker := nl_workerIdentity lease,
         ni_tokenIdentity := nl_tokenIdentity lease, ni_leaseExpires := nl_expiresAtMillis lease\<rparr>) (mq_items q)\<rparr>"
    by (rule claim_SomeD)
  have item: "map_of (mq_items q) identity = Some item"
    using claim.IH c(1) by (auto simp: queue_inv_def items_inv_def)
  have id: "tn_identity (ni_notification item) = identity"
    using claim.IH item by (auto simp: queue_inv_def items_inv_def)
  have l: "1 \<le> nl_delivery lease" "nl_delivery lease \<le> 10" "0 < nl_expiresAtMillis lease"
      "nl_leasedAtMillis lease < nl_expiresAtMillis lease"
    using c(6) by (auto simp: TaskNotificationLease_Validate_def Let_def maximumTaskNotificationDeliveries_def
        validRunMillis_def split: if_splits)
  have before: "remembers item e" if "e \<in> set h" "notice_of (delivery_lease e) = identity" for e
    using that claim.IH item by (auto simp: queue_inv_def)
  show ?case
  proof (rule queue_inv_update [OF claim.IH, where k = identity])
    show "mq_items q' = AList.update identity (item\<lparr>ni_delivery := nl_delivery lease,
      ni_worker := nl_workerIdentity lease, ni_tokenIdentity := nl_tokenIdentity lease,
      ni_leaseExpires := nl_expiresAtMillis lease\<rparr>) (mq_items q)" by (simp add: q')
    fix e e'
    assume e: "e \<in> set h" "notice_of (delivery_lease e) = identity"
    from before [OF e] c(2,4,5) l
    show "remembers (item\<lparr>ni_delivery := nl_delivery lease, ni_worker := nl_workerIdentity lease,
        ni_tokenIdentity := nl_tokenIdentity lease, ni_leaseExpires := nl_expiresAtMillis lease\<rparr>) e"
      by (cases e) (auto simp: claimable_item_def)
    assume "e' \<in> set [Issued lease]"
    with before [OF e] c(2,4,5) show "in_order e e'" by (cases e) (auto simp: claimable_item_def)
  qed (use l id c(3) in auto)
next
  case (no_claim h q draw ctx scope worker now duration res q')
  then show ?case using claim_otherwise by blast
next
  case (acknowledge h q ctx lease now q')
  from acknowledge.hyps(2) obtain item where a: "map_of (mq_items q) (notice_of lease) = Some item"
      "\<not> ni_acknowledged item" "ni_delivery item = nl_delivery lease"
    and q': "q' = q\<lparr>mq_items := AList.update (notice_of lease)
       (item\<lparr>ni_acknowledged := True, ni_worker := [], ni_tokenIdentity := [], ni_leaseExpires := 0\<rparr>)
       (mq_items q)\<rparr>" by (rule ack_NoneD)
  have id: "tn_identity (ni_notification item) = notice_of lease" "ni_delivery item \<le> 10"
    using acknowledge.IH a(1) by (auto simp: queue_inv_def items_inv_def)
  have before: "remembers item e" if "e \<in> set h" "notice_of (delivery_lease e) = notice_of lease" for e
    using that acknowledge.IH a(1) by (fastforce simp: queue_inv_def)
  show ?case
  proof (rule queue_inv_update [OF acknowledge.IH, where k = "notice_of lease"])
    show "mq_items q' = AList.update (notice_of lease) (item\<lparr>ni_acknowledged := True, ni_worker := [],
      ni_tokenIdentity := [], ni_leaseExpires := 0\<rparr>) (mq_items q)" by (simp add: q')
    fix e e'
    assume e: "e \<in> set h" "notice_of (delivery_lease e) = notice_of lease"
    from before [OF e] a(3) show "remembers (item\<lparr>ni_acknowledged := True, ni_worker := [],
        ni_tokenIdentity := [], ni_leaseExpires := 0\<rparr>) e" by (cases e) auto
    assume "e' \<in> set [Acked lease]"
    with before [OF e] a show "in_order e e'" by (cases e) auto
  qed (use id in auto)
next
  case (no_acknowledge h q ctx lease now err q')
  then show ?case using ack_refused by blast
next
  case (wait h q ctx res q')
  then show ?case using wait_items queue_inv_items by blast
qed

fun issued_of :: "string \<Rightarrow> delivery_event list \<Rightarrow> nat list" where
  "issued_of k [] = []"
| "issued_of k (Issued l # h) = (if notice_of l = k then nl_delivery l # issued_of k h else issued_of k h)"
| "issued_of k (Acked l # h) = issued_of k h"

lemma issued_of_set: "set (issued_of k h) = {nl_delivery l | l. Issued l \<in> set h \<and> notice_of l = k}"
  by (induction k h rule: issued_of.induct) auto

lemma ordered_history_Cons: "ordered_history (e # h) \<longleftrightarrow>
    (\<forall>e'\<in>set h. notice_of (delivery_lease e) = notice_of (delivery_lease e') \<longrightarrow> in_order e e') \<and> ordered_history h"
  by (simp add: ordered_history_def)

lemma issued_of_sorted: "ordered_history h \<Longrightarrow> sorted_wrt (<) (issued_of k h)"
proof (induction k h rule: issued_of.induct)
  case (2 k l h)
  then have "nl_delivery l < nl_delivery l'" if "Issued l' \<in> set h" "notice_of l = notice_of l'" for l'
    using that by (fastforce simp: ordered_history_Cons)
  with 2 show ?case by (auto simp: ordered_history_Cons issued_of_set)
qed (simp_all add: ordered_history_Cons)

text \<open>
  C14. Whatever calls are made of the queue, in whatever order and at whatever
  times, the deliveries of one notification do not overlap: each begins at or after the end of the
  one before and has a higher number. An acknowledgement is of the latest delivery, and after it the
  notification is neither delivered nor acknowledged again. It is delivered at most ten times.
\<close>

theorem delivery_exclusive:
  assumes "queue_trace H h q"
  shows "ordered_history h \<and> length (issued_of k h) \<le> 10"
proof -
  note inv = queue_trace_inv [OF assms]
  then have "sorted_wrt (<) (issued_of k h)" by (intro issued_of_sorted) (simp add: queue_inv_def)
  then have "length (issued_of k h) = card (set (issued_of k h))"
    by (simp add: strict_sorted_iff distinct_card)
  also have "\<dots> \<le> card {1..10 :: nat}"
    using inv by (intro card_mono) (auto simp: issued_of_set queue_inv_def)
  finally show ?thesis using inv by (simp add: queue_inv_def)
qed

end
