(* ===== verification/Notification_Scheduler.thy ===== *)
theory Notification_Scheduler
  imports Notification_Queue
begin

text \<open>
  What the scheduler promises: it announces exactly the tasks that can be claimed, each once.
\<close>


section \<open>Notices and claims\<close>

lemma millis_not_after: "t \<le> UnixMilli now \<Longrightarrow> \<not> now < time_of_millis t"
  by (simp add: time_of_millis_def UnixMilli_def)

lemma millis_time:
  assumes "validRunMillis t"
  shows "runMillisToTime t = time_of_millis t" "time_of_millis t \<noteq> zero_time" "0 < t"
  using assms by (auto simp: validRunMillis_def runMillisToTime_def time_of_millis_def zero_time_def)

lemma NewTaskNotification_Inr:
  assumes "sum256 H" and wf: "plan_wf H plan" and rep: "ReplayReviewRun H plan es = Inr st"
    and d: "d \<in> set (rp_tasks plan)" and size: "length es \<le> maxRunJournalStreamEvents"
  shows "(\<exists>n. NewTaskNotification H st (runtime_at st (td_key d)) now = Inr n) \<longleftrightarrow>
    rs_status st = ReviewRunActive \<and> transitionTimeAllowed st now
    \<and> (rt_status (runtime_at st (td_key d)) = TaskRuntimeAvailable
       \<or> rt_status (runtime_at st (td_key d)) = TaskRuntimeLeased
         \<and> rt_leaseExpiresAtMillis (runtime_at st (td_key d)) \<le> UnixMilli now)
    \<and> rt_attempts (runtime_at st (td_key d)) < td_maxAttempts d"
    (is "?notice \<longleftrightarrow> ?active \<and> ?time \<and> ?ready \<and> ?attempts")
proof -
  let ?r = "runtime_at st (td_key d)"
  have ctx: "replay_context H plan" using assms(1) wf by (simp add: replay_context_def)
  have r: "replayed H plan es st" "ReviewRunState_Validate H st = None"
    using rep by (simp_all add: ReplayReviewRun_Inr)
  note inv = replayed_inv [OF ctx r(1)]
  have plan: "rs_plan st = plan" using inv by (simp add: state_inv_def tasks_inv_def)
  note def = state_inv_definition [OF wf inv d]
  note rt = state_inv_runtime [OF inv def(1)]
  have m: "td_maxAttempts d \<le> 5" using plan_wf_task_ok [OF wf d] by (simp add: task_ok_def)
  have a: "rt_attempts ?r \<le> td_maxAttempts d" using rt(3) def(2) by (simp add: phase_ok_def)
  have task: "TaskDefinition_Validate H d = None" "validReviewTaskKey (td_key d)"
      "validControlPlaneDigest (td_identity d)" "validControlPlaneDigest (td_handlerIdentity d)"
    using plan_wf_task_ok [OF wf d] task_ok_identity [OF assms(1)]
    by (auto simp: TaskDefinition_Validate_None task_ok_def)
  have head: "ReviewScope_Validate H (rp_scope plan) = None" "validControlPlaneDigest (rp_identity plan)"
    using plan_identity_valid [OF assms(1)] plan_scope_valid ReviewRunPlan_Validate_wf [OF wf] by blast+
  show ?thesis
  proof (cases "?active \<and> ?time \<and> ?ready")
    case False
    then show ?thesis
      using rt(3) by (auto simp: NewTaskNotification_def Let_def runMillisToTime_def split: option.splits if_splits)
  next
    case True
    have v: "0 < rt_lastEventRevision ?r" "rt_lastEventRevision ?r \<le> maxRunJournalStreamEvents"
        "validControlPlaneDigest (rt_lastEventIdentity ?r)" "validRunMillis (rt_lastEventAtMillis ?r)"
        "rt_lastEventAtMillis ?r \<le> UnixMilli now"
      using True rt(4) size replayed_revision [OF r(1)]
      by (auto simp: valid_task_event_def transitionTimeAllowed_def)
    have expiry: "validRunMillis (rt_leaseExpiresAtMillis ?r)" if "rt_status ?r = TaskRuntimeLeased"
      using that True rt(3) by (auto simp: phase_ok_def validRunMillis_def transitionTimeAllowed_def)
    have same: "sameTaskNotificationRuntime ?r ?r" by (simp add: sameTaskNotificationRuntime_def)
    have u8: "u8_succ (rt_attempts ?r) = Suc (rt_attempts ?r)" using a m by simp
    note facts = v(1-3) u8 task head r(2) def plan same
    from True consider "rt_status ?r = TaskRuntimeAvailable" | "rt_status ?r = TaskRuntimeLeased" by blast
    then show ?thesis
    proof cases
      case 1
      with True facts v(4) millis_time [OF v(4)] millis_not_after [OF v(5)] show ?thesis
        by (simp add: NewTaskNotification_def ReviewRunState_Task_def Let_def Suc_le_eq
            TaskNotification_Validate_def deriveTaskNotificationIdentity_def del: u8_succ_small)
    next
      case 2
      then have e: "rt_leaseExpiresAtMillis ?r \<le> UnixMilli now" using True by simp
      from 2 True facts expiry [OF 2] millis_time [OF expiry [OF 2]] millis_not_after [OF e] e show ?thesis
        by (simp add: NewTaskNotification_def ReviewRunState_Task_def Let_def Suc_le_eq
            TaskNotification_Validate_def deriveTaskNotificationIdentity_def del: u8_succ_small)
    qed
  qed
qed

text \<open>
  C33. A notice can be made of a task exactly when a claim of the task, given a token,
  would append a lease: the queue announces no work that the journal would refuse, and misses none.
\<close>

theorem notice_iff_claim:
  assumes "sum256 H" and wf: "plan_wf H plan" and rep: "ReplayReviewRun H plan es = Inr st"
    and key: "ReviewRunPlan_Task plan key = Some d" and size: "length es \<le> maxRunJournalStreamEvents"
    and token: "newLeaseToken H (random n) = Inr token"
  shows "(\<exists>notice. NewTaskNotification H st (runtime_at st key) now = Inr notice) \<longleftrightarrow>
    (\<exists>built. claim_decide H plan key worker random now n st = Try built)"
proof -
  have d: "d \<in> set (rp_tasks plan)" "td_key d = key" using key ReviewRunPlan_Task_iff [OF wf] by auto
  have ctx: "replay_context H plan" using assms(1) wf by (simp add: replay_context_def)
  have "state_inv plan st" using rep replayed_inv [OF ctx] by (auto simp: ReplayReviewRun_Inr)
  note def = state_inv_definition [OF wf this d(1)] state_inv_runtime(3) [OF this state_inv_definition(1) [OF wf this d(1)]]
  have "rt_attempts (runtime_at st key) \<le> td_maxAttempts d" "td_maxAttempts d \<le> 5"
    using def d plan_wf_task_ok [OF wf d(1)] by (auto simp: phase_ok_def task_ok_def)
  then have "u8_succ (rt_attempts (runtime_at st key)) = Suc (rt_attempts (runtime_at st key))" by simp
  with NewTaskNotification_Inr [OF assms(1) wf rep d(1) size, of now] def d token show ?thesis
    by (cases token) (auto simp: claim_decide_def Let_def not_less Suc_le_eq split: if_splits)
qed


section \<open>The contract of a queue and its client\<close>

locale notification_queue =
  fixes Q :: "'q TaskNotificationQueue" and held :: "'q \<Rightarrow> string set" and queue_ok :: "'q \<Rightarrow> bool"
  assumes enqueue_ok: "queue_ok q \<Longrightarrow> nq_Enqueue Q c n q = (res, q') \<Longrightarrow> queue_ok q'"
    and enqueue_held: "queue_ok q \<Longrightarrow> nq_Enqueue Q c n q = (Inr created, q') \<Longrightarrow>
      held q' = insert (tn_identity n) (held q) \<and> created = (tn_identity n \<notin> held q)"
    and enqueue_error: "queue_ok q \<Longrightarrow> nq_Enqueue Q c n q = (Inl err, q') \<Longrightarrow> held q' = held q"
begin

lemma notify_held:
  "notify_tasks H Q c st now ds count q = ((count', None), q') \<Longrightarrow> queue_ok q \<Longrightarrow>
     queue_ok q' \<and> held q' = held q \<union> {tn_identity n | n. \<exists>d\<in>set ds.
       NewTaskNotification H st (runtime_at st (td_key d)) now = Inr n}"
proof (induction ds arbitrary: count q)
  case (Cons d ds)
  show ?case
  proof (cases "NewTaskNotification H st (runtime_at st (td_key d)) now")
    case (Inl err)
    with Cons show ?thesis by simp
  next
    case (Inr n)
    obtain res q1 where e: "nq_Enqueue Q c n q = (res, q1)" by (cases "nq_Enqueue Q c n q")
    with Cons.prems(1) Inr obtain created where res: "res = Inr created" by (cases res) auto
    note laws = enqueue_ok [OF Cons.prems(2) e] enqueue_held [OF Cons.prems(2) e [unfolded res]]
    from Cons.IH [OF _ laws(1)] Cons.prems(1) Inr e res laws(2) show ?thesis by fastforce
  qed
qed simp

lemma notify_mono:
  "notify_tasks H Q c st now ds count q = ((count', err), q') \<Longrightarrow> queue_ok q \<Longrightarrow>
     queue_ok q' \<and> held q \<subseteq> held q' \<and> count' \<le> count + length ds"
proof (induction ds arbitrary: count q)
  case (Cons d ds)
  show ?case
  proof (cases "NewTaskNotification H st (runtime_at st (td_key d)) now")
    case (Inl e)
    with Cons show ?thesis by fastforce
  next
    case (Inr n)
    obtain res q1 where e: "nq_Enqueue Q c n q = (res, q1)" by (cases "nq_Enqueue Q c n q")
    show ?thesis
    proof (cases res)
      case (Inl a)
      with Cons.prems Inr e enqueue_ok enqueue_error show ?thesis by fastforce
    next
      case (Inr created)
      note laws = enqueue_ok [OF Cons.prems(2) e] enqueue_held [OF Cons.prems(2) e [unfolded Inr]]
      from Cons.prems(1) \<open>NewTaskNotification _ _ _ _ = Inr n\<close> e Inr
      have "notify_tasks H Q c st now ds (if created then count + 1 else count) q1 = ((count', err), q')" by simp
      from Cons.IH [OF this laws(1)] laws(2) show ?thesis by (auto split: if_splits)
    qed
  qed
qed simp

end

interpretation memory_queue: notification_queue "memoryNotificationQueue H" "\<lambda>q. fst ` set (mq_items q)" items_inv
  for H
proof (unfold_locales, goal_cases)
  case (1 q c n res q')
  then show ?case
    by (auto simp: memoryNotificationQueue_def items_inv_def update_conv' distinct_update elim!: enqueue_cases
        split: if_splits)
next
  case (2 q c n created q')
  have enq: "EnqueueTaskNotification H c n q = (Inr created, q')" using 2(2) by (simp add: memoryNotificationQueue_def)
  show ?case
  proof (cases "map_of (mq_items q) (tn_identity n)")
    case None
    then have new: "tn_identity n \<notin> fst ` set (mq_items q)" by (simp add: map_of_eq_None_iff)
    have "fst ` set (AList.update k v m) = insert k (fst ` set m)" for k v
        and m :: "(string \<times> memoryTaskNotificationItem) list"
      by (induction m) auto
    moreover have "created" "mq_items q' = AList.update (tn_identity n)
        \<lparr>ni_notification = n, ni_delivery = 0, ni_worker = [], ni_tokenIdentity = [], ni_leaseExpires = 0,
         ni_acknowledged = False\<rparr> (mq_items q)"
      using enq None by (auto simp: EnqueueTaskNotification_def split: if_splits)
    ultimately show ?thesis using new by simp
  next
    case (Some item)
    then have "tn_identity n \<in> fst ` set (mq_items q)" by (metis map_of_eq_None_iff option.distinct(1))
    with enq Some show ?thesis by (auto simp: EnqueueTaskNotification_def split: if_splits)
  qed
next
  case (3 q c n err q')
  then show ?case by (auto simp: memoryNotificationQueue_def elim!: enqueue_cases)
qed

section \<open>The scheduler on a journal and a queue that keep their contracts\<close>

locale scheduler_contract = planned_journal H plan J stream ok worker_ok + notification_queue Q held queue_ok
  for H :: sha and plan :: ReviewRunPlan and J :: "'s RunJournal"
    and stream :: "'s \<Rightarrow> RunEvent list" and ok :: "'s \<Rightarrow> bool" and worker_ok :: "string \<Rightarrow> bool"
    and Q :: "'q TaskNotificationQueue" and held :: "'q \<Rightarrow> string set" and queue_ok :: "'q \<Rightarrow> bool"
begin

lemma schedule_run:
  assumes ctx: "replay_context H plan" and ok: "ok s" and qok: "queue_ok q"
    and res: "TaskNotificationScheduler_ReconcileRun H J Q c (rp_scope plan) now (s, q) = ((count, res), (s', q'))"
  shows "moves s s' \<and> queue_ok q' \<and> held q \<subseteq> held q' \<and> count \<le> length (rp_tasks plan)
    \<and> (\<forall>st. res = Inr st \<longrightarrow> ReplayReviewRun H plan (stream s') = Inr st
      \<and> (rs_status st = ReviewRunActive \<longrightarrow> advance_event H plan st now = None)
      \<and> (\<forall>d\<in>set (rp_tasks plan). \<forall>n. NewTaskNotification H st (runtime_at st (td_key d)) now = Inr n \<longrightarrow>
           tn_identity n \<in> held q'))"
proof (cases "c \<noteq> LiveContext \<or> ReviewScope_Validate H (rp_scope plan) \<noteq> None")
  case True
  with res ok qok show ?thesis by (auto simp: TaskNotificationScheduler_ReconcileRun_def moves_refl)
next
  case live: False
  obtain r1 s1 where r1: "Coordinator_Resume H J c (rp_scope plan) s = (r1, s1)"
    by (cases "Coordinator_Resume H J c (rp_scope plan) s")
  note resume = Resume_state [OF ctx ok r1]
  show ?thesis
  proof (cases "\<exists>st. r1 = Inr (plan, st) \<and> rs_status st = ReviewRunActive")
    case False
    have "NewTaskNotification H st r now \<noteq> Inr n" if "rs_status st \<noteq> ReviewRunActive" for st r n
      using that by (simp add: NewTaskNotification_def)
    with False res live r1 resume qok show ?thesis
      by (auto simp: TaskNotificationScheduler_ReconcileRun_def split: sum.splits if_splits)
  next
    case True
    obtain r2 s2 where r2: "Coordinator_Advance H J c plan now s1 = (r2, s2)"
      by (cases "Coordinator_Advance H J c plan now s1")
    note m2 = moves_trans [OF resume(1) Advance_moves [OF ctx r2 moves_ok [OF resume(1)]]]
    show ?thesis
    proof (cases r2)
      case (Inl err)
      with True res live r1 r2 m2 qok show ?thesis
        by (auto simp: TaskNotificationScheduler_ReconcileRun_def)
    next
      case (Inr st)
      obtain n e q1 where nt: "notify_tasks H Q c st now (rp_tasks plan) 0 q = ((n, e), q1)"
        by (metis prod.collapse)
      have out: "count = n" "s' = s2" "q' = q1" "res = (case e of None \<Rightarrow> Inr st | Some err \<Rightarrow> Inl err)"
        using True res live r1 r2 Inr nt
        by (auto simp: TaskNotificationScheduler_ReconcileRun_def split: option.splits)
      have "ReplayReviewRun H plan (stream s2) = Inr st"
          "rs_status st = ReviewRunActive \<longrightarrow> advance_event H plan st now = None"
        using Advance_result [OF ctx _ moves_ok [OF resume(1)]] r2 Inr by blast+
      with m2 notify_mono [OF nt qok] notify_held [of H c st now "rp_tasks plan" 0 q n q1] nt qok out
      show ?thesis by (cases e) auto
    qed
  qed
qed

end

interpretation scheduler: scheduler_contract H plan "sharedJournal (memoryJournal H)"
  "\<lambda>w. plan_stream plan (fst w)" "planned_ok H plan" "\<lambda>_. True"
  "memoryNotificationQueue H" "\<lambda>q. fst ` set (mq_items q)" items_inv for H plan
  by unfold_locales

text \<open>
  C32. A pass of the scheduler over a run, under any legal interference with the
  journal, keeps the stream replayable and append-only; when it returns a state, that is the replay
  of the stream, and every task of the run that can be claimed has its notice in the queue.
\<close>

theorem scheduler_announces:
  assumes "sum256 H" and "plan_wf H plan" and "planned_ok H plan (j, fs)" and "items_inv q"
    and "TaskNotificationScheduler_ReconcileRun H (sharedJournal (memoryJournal H)) (memoryNotificationQueue H) c
      (rp_scope plan) now ((j, fs), q) = ((count, res), ((j', fs'), q'))"
  shows "prefix (mj_stream j (sc_identity (rp_scope plan))) (mj_stream j' (sc_identity (rp_scope plan)))
    \<and> replayable H plan (mj_stream j' (sc_identity (rp_scope plan)))
    \<and> count \<le> length (rp_tasks plan)
    \<and> (\<forall>st. res = Inr st \<longrightarrow>
        ReplayReviewRun H plan (mj_stream j' (sc_identity (rp_scope plan))) = Inr st
        \<and> (\<forall>d\<in>set (rp_tasks plan). \<forall>n. NewTaskNotification H st (runtime_at st (td_key d)) now = Inr n \<longrightarrow>
             tn_identity n \<in> fst ` set (mq_items q')))"
proof -
  have ctx: "replay_context H plan" using assms by (simp add: replay_context_def)
  note moved = scheduler.schedule_run [OF ctx assms(3,4,5)]
  then have ok: "planned_ok H plan (j', fs')"
    and "prefix (plan_stream plan j) (plan_stream plan j')" by (simp_all add: planned.moves_def)
  with planned.ok_good [OF ok] moved show ?thesis by (simp add: plan_stream_def)
qed

end
