(* ===== verification/Notification_Encoding.thy ===== *)
theory Notification_Encoding
  imports Task_Notification Task_Wire
begin

text \<open>
  The canonical JSON of notifications and of their delivery leases
  (controlplane/task\_notification\_encoding.go).
\<close>

definition maxEncodedTaskNotificationBytes :: nat where
  "maxEncodedTaskNotificationBytes = 16384"

record taskNotificationRecord =
  tnr_Contract :: string
  tnr_SchemaVersion :: int
  tnr_Identity :: string
  tnr_TenantID :: string
  tnr_RepositoryID :: string
  tnr_ReviewRunID :: string
  tnr_PlanIdentity :: string
  tnr_TaskStateRevision :: nat
  tnr_TaskStateEventIdentity :: string
  tnr_TaskKey :: string
  tnr_TaskIdentity :: string
  tnr_HandlerIdentity :: string
  tnr_Attempt :: nat
  tnr_AvailableAtMilliseconds :: int

record taskNotificationLeaseRecord =
  nlr_Contract :: string
  nlr_SchemaVersion :: int
  nlr_Identity :: string
  nlr_Notification :: taskNotificationRecord
  nlr_WorkerIdentity :: string
  nlr_Token :: string
  nlr_TokenIdentity :: string
  nlr_Delivery :: nat
  nlr_LeasedAtMilliseconds :: int
  nlr_ExpiresAtMilliseconds :: int

definition taskNotificationRecord_json :: "taskNotificationRecord \<Rightarrow> json" where
  "taskNotificationRecord_json r =
     JObj [(''contract'', JStr (tnr_Contract r)), (''schema_version'', JInt (tnr_SchemaVersion r)),
           (''identity'', JStr (tnr_Identity r)), (''tenant_id'', JStr (tnr_TenantID r)),
           (''repository_id'', JStr (tnr_RepositoryID r)), (''review_run_id'', JStr (tnr_ReviewRunID r)),
           (''plan_identity'', JStr (tnr_PlanIdentity r)),
           (''task_state_revision'', JInt (int (tnr_TaskStateRevision r))),
           (''task_state_event_identity'', JStr (tnr_TaskStateEventIdentity r)),
           (''task_key'', JStr (tnr_TaskKey r)), (''task_identity'', JStr (tnr_TaskIdentity r)),
           (''handler_identity'', JStr (tnr_HandlerIdentity r)), (''attempt'', JInt (int (tnr_Attempt r))),
           (''available_at_milliseconds'', JInt (tnr_AvailableAtMilliseconds r))]"

definition taskNotificationLeaseRecord_json :: "taskNotificationLeaseRecord \<Rightarrow> json" where
  "taskNotificationLeaseRecord_json r =
     JObj [(''contract'', JStr (nlr_Contract r)), (''schema_version'', JInt (nlr_SchemaVersion r)),
           (''identity'', JStr (nlr_Identity r)),
           (''notification'', taskNotificationRecord_json (nlr_Notification r)),
           (''worker_identity'', JStr (nlr_WorkerIdentity r)), (''token'', JStr (nlr_Token r)),
           (''token_identity'', JStr (nlr_TokenIdentity r)), (''delivery'', JInt (int (nlr_Delivery r))),
           (''leased_at_milliseconds'', JInt (nlr_LeasedAtMilliseconds r)),
           (''expires_at_milliseconds'', JInt (nlr_ExpiresAtMilliseconds r))]"

definition taskNotificationRecord_decode :: "json \<Rightarrow> taskNotificationRecord option" where
  "taskNotificationRecord_decode j = do {
     fs \<leftarrow> json_object j;
     contract \<leftarrow> field_str fs ''contract'';
     version \<leftarrow> field_int fs ''schema_version'';
     identity \<leftarrow> field_str fs ''identity'';
     tenant \<leftarrow> field_str fs ''tenant_id'';
     repository \<leftarrow> field_str fs ''repository_id'';
     run \<leftarrow> field_str fs ''review_run_id'';
     plan \<leftarrow> field_str fs ''plan_identity'';
     revision \<leftarrow> field_uint 64 fs ''task_state_revision'';
     event \<leftarrow> field_str fs ''task_state_event_identity'';
     key \<leftarrow> field_str fs ''task_key'';
     task \<leftarrow> field_str fs ''task_identity'';
     handler \<leftarrow> field_str fs ''handler_identity'';
     attempt \<leftarrow> field_uint 8 fs ''attempt'';
     available \<leftarrow> field_int fs ''available_at_milliseconds'';
     Some \<lparr>tnr_Contract = contract, tnr_SchemaVersion = version, tnr_Identity = identity,
       tnr_TenantID = tenant, tnr_RepositoryID = repository, tnr_ReviewRunID = run,
       tnr_PlanIdentity = plan, tnr_TaskStateRevision = revision, tnr_TaskStateEventIdentity = event,
       tnr_TaskKey = key, tnr_TaskIdentity = task, tnr_HandlerIdentity = handler, tnr_Attempt = attempt,
       tnr_AvailableAtMilliseconds = available\<rparr>
   }"

text \<open>A field that is a struct: a missing or null field leaves the struct at its zero value.\<close>

definition field_struct :: "(json \<Rightarrow> 'a option) \<Rightarrow> (string \<times> json) list \<Rightarrow> string \<Rightarrow> 'a option" where
  "field_struct f fs k =
     (case map_of fs k of None \<Rightarrow> f (JObj []) | Some JNull \<Rightarrow> f (JObj []) | Some j \<Rightarrow> f j)"

definition taskNotificationLeaseRecord_decode :: "json \<Rightarrow> taskNotificationLeaseRecord option" where
  "taskNotificationLeaseRecord_decode j = do {
     fs \<leftarrow> json_object j;
     contract \<leftarrow> field_str fs ''contract'';
     version \<leftarrow> field_int fs ''schema_version'';
     identity \<leftarrow> field_str fs ''identity'';
     notification \<leftarrow> field_struct taskNotificationRecord_decode fs ''notification'';
     worker \<leftarrow> field_str fs ''worker_identity'';
     token \<leftarrow> field_str fs ''token'';
     token_identity \<leftarrow> field_str fs ''token_identity'';
     delivery \<leftarrow> field_uint 8 fs ''delivery'';
     leased \<leftarrow> field_int fs ''leased_at_milliseconds'';
     expires \<leftarrow> field_int fs ''expires_at_milliseconds'';
     Some \<lparr>nlr_Contract = contract, nlr_SchemaVersion = version, nlr_Identity = identity,
       nlr_Notification = notification, nlr_WorkerIdentity = worker, nlr_Token = token,
       nlr_TokenIdentity = token_identity, nlr_Delivery = delivery, nlr_LeasedAtMilliseconds = leased,
       nlr_ExpiresAtMilliseconds = expires\<rparr>
   }"

definition taskNotificationToRecord :: "TaskNotification \<Rightarrow> taskNotificationRecord" where
  "taskNotificationToRecord n =
     \<lparr>tnr_Contract = ''open-trestle/task-notification'', tnr_SchemaVersion = 1, tnr_Identity = tn_identity n,
      tnr_TenantID = sc_tenantID (tn_scope n), tnr_RepositoryID = sc_repositoryID (tn_scope n),
      tnr_ReviewRunID = sc_reviewRunID (tn_scope n), tnr_PlanIdentity = tn_planIdentity n,
      tnr_TaskStateRevision = tn_taskStateRevision n,
      tnr_TaskStateEventIdentity = tn_taskStateEventIdentity n, tnr_TaskKey = tn_taskKey n,
      tnr_TaskIdentity = tn_taskIdentity n, tnr_HandlerIdentity = tn_handlerIdentity n,
      tnr_Attempt = tn_attempt n, tnr_AvailableAtMilliseconds = tn_availableAtMillis n\<rparr>"

definition taskNotificationFromRecord :: "sha \<Rightarrow> taskNotificationRecord \<Rightarrow> error + TaskNotification" where
  "taskNotificationFromRecord H record =
     (if tnr_Contract record \<noteq> ''open-trestle/task-notification'' \<or> tnr_SchemaVersion record \<noteq> 1
      then Inl ErrInvalidTaskNotificationEncoding
      else (case NewReviewScope H (tnr_TenantID record) (tnr_RepositoryID record) (tnr_ReviewRunID record) of
              Inl _ \<Rightarrow> Inl ErrInvalidTaskNotificationEncoding
            | Inr scope \<Rightarrow>
                (let n = \<lparr>tn_identity = tnr_Identity record, tn_scope = scope,
                          tn_planIdentity = tnr_PlanIdentity record,
                          tn_taskStateRevision = tnr_TaskStateRevision record,
                          tn_taskStateEventIdentity = tnr_TaskStateEventIdentity record,
                          tn_taskKey = tnr_TaskKey record, tn_taskIdentity = tnr_TaskIdentity record,
                          tn_handlerIdentity = tnr_HandlerIdentity record, tn_attempt = tnr_Attempt record,
                          tn_availableAtMillis = tnr_AvailableAtMilliseconds record\<rparr>
                 in if TaskNotification_Validate H n \<noteq> None then Inl ErrInvalidTaskNotificationEncoding
                    else Inr n)))"

definition EncodeTaskNotification :: "sha \<Rightarrow> TaskNotification \<Rightarrow> error + string" where
  "EncodeTaskNotification H n =
     (if TaskNotification_Validate H n \<noteq> None then Inl ErrInvalidTaskNotificationEncoding
      else encode_bounded maxEncodedTaskNotificationBytes ErrInvalidTaskNotificationEncoding
             (taskNotificationRecord_json (taskNotificationToRecord n)))"

definition ParseTaskNotification :: "sha \<Rightarrow> string \<Rightarrow> error + TaskNotification" where
  "ParseTaskNotification H encoded =
     and_then (parse_canonical maxEncodedTaskNotificationBytes ErrInvalidTaskNotificationEncoding
                 taskNotificationRecord_decode taskNotificationRecord_json encoded)
       (taskNotificationFromRecord H)"

definition taskNotificationLeaseToRecord :: "TaskNotificationLease \<Rightarrow> taskNotificationLeaseRecord" where
  "taskNotificationLeaseToRecord lease =
     \<lparr>nlr_Contract = ''open-trestle/task-notification-lease'', nlr_SchemaVersion = 1,
      nlr_Identity = nl_identity lease, nlr_Notification = taskNotificationToRecord (nl_notification lease),
      nlr_WorkerIdentity = nl_workerIdentity lease, nlr_Token = nl_token lease,
      nlr_TokenIdentity = nl_tokenIdentity lease, nlr_Delivery = nl_delivery lease,
      nlr_LeasedAtMilliseconds = nl_leasedAtMillis lease,
      nlr_ExpiresAtMilliseconds = nl_expiresAtMillis lease\<rparr>"

definition EncodeTaskNotificationLease :: "sha \<Rightarrow> TaskNotificationLease \<Rightarrow> error + string" where
  "EncodeTaskNotificationLease H lease =
     (if TaskNotificationLease_Validate H lease \<noteq> None then Inl ErrInvalidTaskNotificationEncoding
      else encode_bounded (maxEncodedTaskNotificationBytes * 2) ErrInvalidTaskNotificationEncoding
             (taskNotificationLeaseRecord_json (taskNotificationLeaseToRecord lease)))"

definition taskNotificationLeaseFromRecord ::
    "sha \<Rightarrow> taskNotificationLeaseRecord \<Rightarrow> error + TaskNotificationLease" where
  "taskNotificationLeaseFromRecord H record =
     (if nlr_Contract record \<noteq> ''open-trestle/task-notification-lease'' \<or> nlr_SchemaVersion record \<noteq> 1
      then Inl ErrInvalidTaskNotificationEncoding
      else (case taskNotificationFromRecord H (nlr_Notification record) of
              Inl _ \<Rightarrow> Inl ErrInvalidTaskNotificationEncoding
            | Inr notification \<Rightarrow>
                (case NewTaskNotificationLease H notification (nlr_WorkerIdentity record) (nlr_Token record)
                        (nlr_Delivery record) (runMillisToTime (nlr_LeasedAtMilliseconds record))
                        (runMillisToTime (nlr_ExpiresAtMilliseconds record)) of
                   Inl _ \<Rightarrow> Inl ErrInvalidTaskNotificationEncoding
                 | Inr lease \<Rightarrow>
                     if nl_identity lease \<noteq> nlr_Identity record \<or> nl_tokenIdentity lease \<noteq> nlr_TokenIdentity record
                     then Inl ErrInvalidTaskNotificationEncoding else Inr lease)))"

definition ParseTaskNotificationLease :: "sha \<Rightarrow> string \<Rightarrow> error + TaskNotificationLease" where
  "ParseTaskNotificationLease H encoded =
     and_then (parse_canonical (maxEncodedTaskNotificationBytes * 2) ErrInvalidTaskNotificationEncoding
                 taskNotificationLeaseRecord_decode taskNotificationLeaseRecord_json encoded)
       (taskNotificationLeaseFromRecord H)"


section \<open>The records and their JSON\<close>

definition notification_record_ok :: "taskNotificationRecord \<Rightarrow> bool" where
  "notification_record_ok r \<longleftrightarrow>
     int64 (tnr_SchemaVersion r) \<and> tnr_TaskStateRevision r < 2 ^ 64 \<and> tnr_Attempt r < 2 ^ 8
     \<and> int64 (tnr_AvailableAtMilliseconds r)
     \<and> list_all utf8_ValidString [tnr_Contract r, tnr_Identity r, tnr_TenantID r, tnr_RepositoryID r,
          tnr_ReviewRunID r, tnr_PlanIdentity r, tnr_TaskStateEventIdentity r, tnr_TaskKey r, tnr_TaskIdentity r,
          tnr_HandlerIdentity r]"

interpretation notification_codec:
  canonical_codec taskNotificationRecord_json taskNotificationRecord_decode notification_record_ok
proof
  fix r
  assume ok: "notification_record_ok r"
  show "taskNotificationRecord_decode (taskNotificationRecord_json r) = Some r"
    using ok by (simp add: notification_record_ok_def taskNotificationRecord_decode_def
        taskNotificationRecord_json_def json_object_def)
  show "json_clean (taskNotificationRecord_json r)"
    using ok by (simp add: notification_record_ok_def taskNotificationRecord_json_def utf8_literal)
qed

definition delivery_record_ok :: "taskNotificationLeaseRecord \<Rightarrow> bool" where
  "delivery_record_ok r \<longleftrightarrow>
     int64 (nlr_SchemaVersion r) \<and> nlr_Delivery r < 2 ^ 8 \<and> int64 (nlr_LeasedAtMilliseconds r)
     \<and> int64 (nlr_ExpiresAtMilliseconds r) \<and> notification_record_ok (nlr_Notification r)
     \<and> list_all utf8_ValidString [nlr_Contract r, nlr_Identity r, nlr_WorkerIdentity r, nlr_Token r,
          nlr_TokenIdentity r]"

lemma field_struct_notification:
  assumes "map_of fs k = Some (taskNotificationRecord_json r)" and "notification_record_ok r"
  shows "field_struct taskNotificationRecord_decode fs k = Some r"
  using assms notification_codec.inverse [OF assms(2)]
  by (simp add: field_struct_def taskNotificationRecord_json_def)

interpretation delivery_codec:
  canonical_codec taskNotificationLeaseRecord_json taskNotificationLeaseRecord_decode delivery_record_ok
proof
  fix r
  assume ok: "delivery_record_ok r"
  then have n: "notification_record_ok (nlr_Notification r)" by (simp add: delivery_record_ok_def)
  show "taskNotificationLeaseRecord_decode (taskNotificationLeaseRecord_json r) = Some r"
    using ok field_struct_notification [OF _ n]
    by (simp add: delivery_record_ok_def taskNotificationLeaseRecord_decode_def
        taskNotificationLeaseRecord_json_def json_object_def)
  show "json_clean (taskNotificationLeaseRecord_json r)"
    using ok notification_codec.clean [OF n]
    by (simp add: delivery_record_ok_def taskNotificationLeaseRecord_json_def utf8_literal)
qed

section \<open>Round trips\<close>

lemma TaskNotification_Validate_None:
  "TaskNotification_Validate H n = None \<longleftrightarrow>
     ReviewScope_Validate H (tn_scope n) = None
     \<and> list_all validControlPlaneDigest [tn_planIdentity n, tn_taskStateEventIdentity n, tn_taskIdentity n,
          tn_handlerIdentity n]
     \<and> 0 < tn_taskStateRevision n \<and> tn_taskStateRevision n \<le> maxRunJournalStreamEvents
     \<and> validReviewTaskKey (tn_taskKey n) \<and> 0 < tn_attempt n \<and> validRunMillis (tn_availableAtMillis n)
     \<and> tn_identity n = deriveTaskNotificationIdentity H n"
  by (auto simp: TaskNotification_Validate_def)

lemma notification_strings:
  assumes "sum256 H" and "TaskNotification_Validate H n = None"
  shows "list_all (\<lambda>s. ascii s \<and> length s \<le> 128)
      [tn_identity n, tn_planIdentity n, tn_taskStateEventIdentity n, tn_taskKey n, tn_taskIdentity n,
       tn_handlerIdentity n, sc_tenantID (tn_scope n), sc_repositoryID (tn_scope n), sc_reviewRunID (tn_scope n)]"
    and "tn_taskStateRevision n < 2 ^ 64" and "int64 (tn_availableAtMillis n)"
  using assms ascii_digest ascii_task_key scope_strings [of H "tn_scope n"] hash_valid [OF assms(1)] int64_millis
  by (fastforce simp: TaskNotification_Validate_None deriveTaskNotificationIdentity_def
      maxRunJournalStreamEvents_def)+

lemma notification_record_ok_of:
  assumes "sum256 H" and "TaskNotification_Validate H n = None" and "tn_attempt n < 256"
  shows "notification_record_ok (taskNotificationToRecord n)"
  using notification_strings [OF assms(1,2)] assms(3)
  by (simp add: notification_record_ok_def taskNotificationToRecord_def ascii_utf8 utf8_literal)
    (simp add: int64_def)

lemma notification_record_inverse:
  "TaskNotification_Validate H n = None \<Longrightarrow> taskNotificationFromRecord H (taskNotificationToRecord n) = Inr n"
  using scope_strings(7) [of H "tn_scope n"]
  by (cases n) (simp add: taskNotificationFromRecord_def taskNotificationToRecord_def TaskNotification_Validate_None)

lemma notification_record_of:
  "taskNotificationFromRecord H r = Inr n \<Longrightarrow> r = taskNotificationToRecord n \<and> TaskNotification_Validate H n = None"
  by (auto simp: taskNotificationFromRecord_def taskNotificationToRecord_def NewReviewScope_def Let_def
      split: if_splits sum.splits option.splits)

lemma notification_json_bound:
  assumes "sum256 H" and "TaskNotification_Validate H n = None" and "tn_attempt n < 256"
  shows "json_bound (taskNotificationRecord_json (taskNotificationToRecord n)) \<le> 12000"
proof -
  have one: "length (dec_int 1) \<le> 21" using length_dec_int [of 1] by simp
  have "length (dec_int (int (tn_attempt n))) \<le> 21" using assms(3) by (intro uint_length) simp
  with notification_strings [OF assms(1,2)] one show ?thesis
    using uint_length [of "tn_taskStateRevision n"] int64_length [of "tn_availableAtMillis n"]
    by (simp add: taskNotificationRecord_json_def taskNotificationToRecord_def)
qed

lemma notification_exact:
  assumes "sum256 H" and "TaskNotification_Validate H n = None" and "tn_attempt n < 256"
  shows "\<exists>s. EncodeTaskNotification H n = Inr s \<and> (\<forall>s'. ParseTaskNotification H s' = Inr n \<longleftrightarrow> s' = s)"
proof (rule exact_codecI)
  let ?j = "taskNotificationRecord_json (taskNotificationToRecord n)"
  have len: "length (json_Marshal ?j) \<le> maxEncodedTaskNotificationBytes"
    using notification_json_bound [OF assms] length_json_Marshal [of ?j]
    by (simp add: maxEncodedTaskNotificationBytes_def)
  then have enc: "EncodeTaskNotification H n = Inr (json_Marshal ?j)"
    using assms(2) by (simp add: EncodeTaskNotification_def encode_bounded_def Let_def)
  then show "\<exists>s. EncodeTaskNotification H n = Inr s" by blast
  show "ParseTaskNotification H s = Inr n" if "EncodeTaskNotification H n = Inr s" for s
    using that enc notification_codec.parse_Marshal [OF notification_record_ok_of [OF assms] len]
      notification_record_inverse [OF assms(2)]
    by (simp add: ParseTaskNotification_def)
  show "EncodeTaskNotification H n = Inr s" if "ParseTaskNotification H s = Inr n" for s
    using that enc by (auto simp: ParseTaskNotification_def and_then_Inr_iff
        dest!: parse_canonical_InrD notification_record_of)
qed

lemma delivery_valid:
  assumes "TaskNotificationLease_Validate H l = None"
  shows "TaskNotification_Validate H (nl_notification l) = None" "validWorkerIdentity (nl_workerIdentity l)"
    "validLeaseToken (nl_token l)" "nl_tokenIdentity l = deriveTaskNotificationTokenIdentity H (nl_token l)"
    "nl_delivery l \<le> 10" "validRunMillis (nl_leasedAtMillis l)" "validRunMillis (nl_expiresAtMillis l)"
    "nl_identity l = deriveTaskNotificationLeaseIdentity H l"
  using assms by (auto simp: TaskNotificationLease_Validate_def Let_def maximumTaskNotificationDeliveries_def
      split: if_splits)

lemma NewTaskNotificationLease_again:
  assumes v: "TaskNotificationLease_Validate H l = None"
  shows "NewTaskNotificationLease H (nl_notification l) (nl_workerIdentity l) (nl_token l) (nl_delivery l)
    (runMillisToTime (nl_leasedAtMillis l)) (runMillisToTime (nl_expiresAtMillis l)) = Inr l"
proof -
  note f = delivery_valid [OF v]
  have "UnixMilli (runMillisToTime t) = t" if "validRunMillis t" for t
    using that by (simp add: runMillisToTime_def validRunMillis_def)
  with f(4,6-8) v show ?thesis
    by (cases l) (simp add: NewTaskNotificationLease_def Let_def deriveTaskNotificationLeaseIdentity_def)
qed

lemma NewTaskNotificationLease_fields:
  "NewTaskNotificationLease H n w t d a e = Inr l \<Longrightarrow> nl_notification l = n \<and> nl_workerIdentity l = w
     \<and> nl_token l = t \<and> nl_delivery l = d \<and> nl_leasedAtMillis l = UnixMilli a \<and> nl_expiresAtMillis l = UnixMilli e
     \<and> TaskNotificationLease_Validate H l = None"
  by (auto simp: NewTaskNotificationLease_def Let_def split: if_splits)

lemma delivery_record_of:
  assumes "taskNotificationLeaseFromRecord H r = Inr l"
  shows "r = taskNotificationLeaseToRecord l \<and> TaskNotificationLease_Validate H l = None"
proof -
  from assms obtain n where n: "taskNotificationFromRecord H (nlr_Notification r) = Inr n"
      "NewTaskNotificationLease H n (nlr_WorkerIdentity r) (nlr_Token r) (nlr_Delivery r)
         (runMillisToTime (nlr_LeasedAtMilliseconds r)) (runMillisToTime (nlr_ExpiresAtMilliseconds r)) = Inr l"
      "nl_identity l = nlr_Identity r" "nl_tokenIdentity l = nlr_TokenIdentity r"
      "nlr_Contract r = ''open-trestle/task-notification-lease''" "nlr_SchemaVersion r = 1"
    by (auto simp: taskNotificationLeaseFromRecord_def split: if_splits sum.splits)
  note l = NewTaskNotificationLease_fields [OF n(2)]
  have same: "UnixMilli (runMillisToTime t) = t" if "validRunMillis (UnixMilli (runMillisToTime t))" for t
    using that by (auto simp: runMillisToTime_def validRunMillis_def split: if_splits)
  have "UnixMilli (runMillisToTime (nlr_LeasedAtMilliseconds r)) = nlr_LeasedAtMilliseconds r"
      "UnixMilli (runMillisToTime (nlr_ExpiresAtMilliseconds r)) = nlr_ExpiresAtMilliseconds r"
    using l delivery_valid(6,7) [of H l] by (auto intro!: same)
  then show ?thesis
    using n(3-) l notification_record_of [OF n(1)]
    by (cases r) (simp add: taskNotificationLeaseToRecord_def)
qed

lemma token_ascii: "validLeaseToken t \<Longrightarrow> ascii t \<and> length t \<le> 64"
  using ascii_digest [of t] by (simp add: validLeaseToken_digest)

lemma delivery_strings:
  assumes "sum256 H" and v: "TaskNotificationLease_Validate H l = None"
  shows "list_all (\<lambda>s. ascii s \<and> length s \<le> 64) [nl_identity l, nl_token l, nl_tokenIdentity l]"
    and "length (nl_workerIdentity l) \<le> 128"
  using delivery_valid [OF v] token_ascii ascii_digest hash_valid [OF assms(1)] worker_length
  by (auto simp: deriveTaskNotificationLeaseIdentity_def deriveTaskNotificationTokenIdentity_def)

lemma delivery_codec:
  assumes "sum256 H" and v: "TaskNotificationLease_Validate H l = None"
    and attempt: "tn_attempt (nl_notification l) < 256" and utf8: "utf8_ValidString (nl_workerIdentity l)"
  shows "\<exists>s. EncodeTaskNotificationLease H l = Inr s
    \<and> (\<forall>s'. ParseTaskNotificationLease H s' = Inr l \<longleftrightarrow> s' = s)"
proof (rule exact_codecI)
  let ?j = "taskNotificationLeaseRecord_json (taskNotificationLeaseToRecord l)"
  note f = delivery_valid [OF v]
  have one: "length (dec_int 1) \<le> 21" using length_dec_int [of 1] by simp
  have "length (dec_int (int (nl_delivery l))) \<le> 21" using f(5) by (intro uint_length) simp
  then have "json_bound ?j \<le> 2 * maxEncodedTaskNotificationBytes"
    using delivery_strings [OF assms(1) v] notification_json_bound [OF assms(1) f(1) attempt] one
      int64_length [OF int64_millis [OF f(6)]] int64_length [OF int64_millis [OF f(7)]]
    by (simp add: taskNotificationLeaseRecord_json_def taskNotificationLeaseToRecord_def
        maxEncodedTaskNotificationBytes_def)
  then have len: "length (json_Marshal ?j) \<le> maxEncodedTaskNotificationBytes * 2"
    using length_json_Marshal [of ?j] by simp
  then have enc: "EncodeTaskNotificationLease H l = Inr (json_Marshal ?j)"
    using v by (simp add: EncodeTaskNotificationLease_def encode_bounded_def Let_def)
  then show "\<exists>s. EncodeTaskNotificationLease H l = Inr s" by blast
  have ok: "delivery_record_ok (taskNotificationLeaseToRecord l)"
    using delivery_strings [OF assms(1) v] notification_record_ok_of [OF assms(1) f(1) attempt] utf8 f(5)
      int64_millis [OF f(6)] int64_millis [OF f(7)]
    by (simp add: delivery_record_ok_def taskNotificationLeaseToRecord_def ascii_utf8 utf8_literal)
      (simp add: int64_def)
  have "taskNotificationLeaseFromRecord H (taskNotificationLeaseToRecord l) = Inr l"
    using NewTaskNotificationLease_again [OF v] notification_record_inverse [OF f(1)]
    by (simp add: taskNotificationLeaseFromRecord_def taskNotificationLeaseToRecord_def)
  then show "ParseTaskNotificationLease H s = Inr l" if "EncodeTaskNotificationLease H l = Inr s" for s
    using that enc delivery_codec.parse_Marshal [OF ok len] by (simp add: ParseTaskNotificationLease_def)
  show "EncodeTaskNotificationLease H l = Inr s" if "ParseTaskNotificationLease H s = Inr l" for s
    using that enc by (auto simp: ParseTaskNotificationLease_def and_then_Inr_iff
        dest!: parse_canonical_InrD delivery_record_of)
qed

text \<open>
  C34. Every valid notification, and every valid delivery lease with a worker name in
  UTF-8, has an encoding within the size limit, and that text is the only one the parser accepts for
  it, the nested notification and the secret token of a delivery included.
\<close>

theorem delivery_exact:
  assumes "sum256 H" and "TaskNotification_Validate H n = None" and "tn_attempt n < 256"
    and "TaskNotificationLease_Validate H l = None" and "tn_attempt (nl_notification l) < 256"
    and "utf8_ValidString (nl_workerIdentity l)"
  shows "(\<exists>s. EncodeTaskNotification H n = Inr s \<and> (\<forall>s'. ParseTaskNotification H s' = Inr n \<longleftrightarrow> s' = s))
    \<and> (\<exists>s. EncodeTaskNotificationLease H l = Inr s
         \<and> (\<forall>s'. ParseTaskNotificationLease H s' = Inr l \<longleftrightarrow> s' = s))"
  by (rule conjI [OF notification_exact [OF assms(1-3)] delivery_codec [OF assms(1,4-6)]])

end
