(* ===== verification/Notification_Witnesses.thy ===== *)
theory Notification_Witnesses
  imports Codec_Witnesses Notification_Scheduler Notification_Encoding
begin

text \<open>
  The theorems on notifications applied to a notice of the first task of the example plan: it is
  enqueued, delivered to a worker and acknowledged.
\<close>

definition example_notice :: TaskNotification where
  "example_notice = \<lparr>tn_identity = flat_digest, tn_scope = example_scope, tn_planIdentity = flat_digest,
     tn_taskStateRevision = 2, tn_taskStateEventIdentity = flat_digest, tn_taskKey = ''acquire'',
     tn_taskIdentity = flat_digest, tn_handlerIdentity = flat_digest, tn_attempt = 1,
     tn_availableAtMillis = 1000\<rparr>"

lemma example_notice_valid [simp]: "TaskNotification_Validate flat_hash example_notice = None"
  using example_keys_valid
  by (simp add: TaskNotification_Validate_def example_notice_def deriveTaskNotificationIdentity_def
      maxRunJournalStreamEvents_def)

definition example_delivery :: TaskNotificationLease where
  "example_delivery = \<lparr>nl_identity = flat_digest, nl_notification = example_notice, nl_workerIdentity = ''w'',
     nl_token = flat_digest, nl_tokenIdentity = flat_digest, nl_delivery = 1, nl_leasedAtMillis = 2000,
     nl_expiresAtMillis = 32000\<rparr>"

lemma flat_notification_token [simp]: "deriveTaskNotificationTokenIdentity flat_hash token = flat_digest"
  by (simp add: deriveTaskNotificationTokenIdentity_def)

lemma delivery_time [simp]: "validRunMillis 32000"
  by (simp add: validRunMillis_def maxRunEventUnixMilliseconds_def)

lemma example_delivery_valid [simp]: "TaskNotificationLease_Validate flat_hash example_delivery = None"
  using flat_token
  by (simp add: TaskNotificationLease_Validate_def example_delivery_def deriveTaskNotificationLeaseIdentity_def
      maximumTaskNotificationDeliveries_def minimumTaskNotificationLease_def maximumTaskNotificationLease_def
      Milliseconds_def) (simp add: example_notice_def)

theorem delivery_exact_witness:
  "(\<exists>s. EncodeTaskNotification flat_hash example_notice = Inr s
      \<and> ParseTaskNotification flat_hash s = Inr example_notice)
   \<and> (\<exists>s. EncodeTaskNotificationLease flat_hash example_delivery = Inr s
      \<and> ParseTaskNotificationLease flat_hash s = Inr example_delivery)"
proof -
  have "tn_attempt example_notice < 256" "tn_attempt (nl_notification example_delivery) < 256" "utf8_ValidString (nl_workerIdentity example_delivery)"
    by (simp_all add: example_delivery_def example_notice_def utf8_literal)
  from delivery_exact [OF sum256_flat example_notice_valid this(1) example_delivery_valid this(2,3)] show ?thesis
    by blast
qed


section \<open>A history of the queue\<close>

definition queued_item :: memoryTaskNotificationItem where
  "queued_item = \<lparr>ni_notification = example_notice, ni_delivery = 0, ni_worker = [], ni_tokenIdentity = [],
     ni_leaseExpires = 0, ni_acknowledged = False\<rparr>"

definition delivered_item :: memoryTaskNotificationItem where
  "delivered_item = \<lparr>ni_notification = example_notice, ni_delivery = 1, ni_worker = ''w'',
     ni_tokenIdentity = flat_digest, ni_leaseExpires = 32000, ni_acknowledged = False\<rparr>"

lemma example_enqueue:
  "EnqueueTaskNotification flat_hash LiveContext example_notice NewMemoryTaskNotificationQueue =
     (Inr True, \<lparr>mq_items = [(flat_digest, queued_item)], mq_wake = True\<rparr>)"
  by (simp add: EnqueueTaskNotification_def invalidNotificationOperation_def NewMemoryTaskNotificationQueue_def
      queued_item_def) (simp add: example_notice_def)

lemma example_claim:
  "ClaimTaskNotification flat_hash (Some (replicate 32 (CHR ''a''))) LiveContext example_scope ''w''
     (time_of_millis 2000) 30000000000 \<lparr>mq_items = [(flat_digest, queued_item)], mq_wake = True\<rparr> =
   (Inr (Some example_delivery), \<lparr>mq_items = [(flat_digest, delivered_item)], mq_wake = True\<rparr>)"
proof -
  have now: "UnixMilli (time_of_millis 2000) = 2000" "UnixMilli (time_of_millis 2000 + 30000000000) = 32000"
    by (simp_all add: UnixMilli_def time_of_millis_def)
  have time: "validNotificationClaimTime (time_of_millis 2000) 30000000000"
    by (simp add: validNotificationClaimTime_def now minimumTaskNotificationLease_def maximumTaskNotificationLease_def)
  have candidates: "claim_candidates example_scope (time_of_millis 2000)
      \<lparr>mq_items = [(flat_digest, queued_item)], mq_wake = True\<rparr> = [(flat_digest, queued_item)]"
    by (simp add: claim_candidates_def claimable_item_def queued_item_def now maximumTaskNotificationDeliveries_def)
      (simp add: example_notice_def)
  have token: "newNotificationToken (Some (replicate 32 (CHR ''a''))) = Inr flat_digest"
    using flat_token by (simp add: newNotificationToken_def flat_digest_def)
  have lease: "NewTaskNotificationLease flat_hash example_notice ''w'' flat_digest 1 (time_of_millis 2000)
      (time_of_millis 2000 + 30000000000) = Inr example_delivery"
    using example_delivery_valid
    by (simp add: NewTaskNotificationLease_def now deriveTaskNotificationLeaseIdentity_def Let_def example_delivery_def)
  show ?thesis
    using time candidates token lease now
    by (simp add: ClaimTaskNotification_def invalidNotificationOperation_def u8_succ_def Let_def)
      (simp add: queued_item_def delivered_item_def example_delivery_def)
qed

lemma example_acknowledge:
  "\<exists>q. AcknowledgeTaskNotification flat_hash LiveContext example_delivery (time_of_millis 3000)
     \<lparr>mq_items = [(flat_digest, delivered_item)], mq_wake = True\<rparr> = (None, q)"
  using example_delivery_valid
  by (simp add: AcknowledgeTaskNotification_def invalidNotificationOperation_def)
    (simp add: example_delivery_def delivered_item_def example_notice_def)

lemma example_history: "\<exists>q. queue_trace flat_hash [Issued example_delivery, Acked example_delivery] q"
proof -
  have "queue_trace flat_hash ([] @ [Issued example_delivery])
      \<lparr>mq_items = [(flat_digest, delivered_item)], mq_wake = True\<rparr>"
    by (rule queue_trace.claim [OF queue_trace.enqueue [OF queue_trace.start example_enqueue] example_claim])
  with example_acknowledge obtain q where "queue_trace flat_hash (([] @ [Issued example_delivery]) @ [Acked example_delivery]) q"
    using queue_trace.acknowledge by blast
  then show ?thesis by auto
qed

theorem delivery_exclusive_witness:
  "ordered_history [Issued example_delivery, Acked example_delivery]
   \<and> length (issued_of flat_digest [Issued example_delivery, Acked example_delivery]) \<le> 10"
  using example_history delivery_exclusive by blast


section \<open>The scheduler\<close>

definition announced ::
    "(nat \<times> (error + ReviewRunState)) \<times> (MemoryRunJournal \<times> MemoryRunJournal schedule) \<times> MemoryTaskNotificationQueue" where
  "announced = TaskNotificationScheduler_ReconcileRun flat_hash (sharedJournal (memoryJournal flat_hash))
     (memoryNotificationQueue flat_hash) LiveContext example_scope (time_of_millis 31000)
     ((journal_with leased_events, []), NewMemoryTaskNotificationQueue)"

theorem scheduler_announces_witness:
  "prefix leased_events (mj_stream (fst (fst (snd announced))) flat_digest)
     \<and> fst (fst announced) \<le> length (rp_tasks example_plan)"
proof -
  obtain s where "replayed flat_hash example_plan leased_events s" using leased_replayed by blast
  then have ok: "planned_ok flat_hash example_plan (journal_with leased_events, [])"
    by (rule planned_example) simp
  have queue: "items_inv NewMemoryTaskNotificationQueue"
    by (simp add: items_inv_def NewMemoryTaskNotificationQueue_def)
  have "TaskNotificationScheduler_ReconcileRun flat_hash (sharedJournal (memoryJournal flat_hash))
      (memoryNotificationQueue flat_hash) LiveContext (rp_scope example_plan) (time_of_millis 31000)
      ((journal_with leased_events, []), NewMemoryTaskNotificationQueue) =
      ((fst (fst announced), snd (fst announced)),
       ((fst (fst (snd announced)), snd (fst (snd announced))), snd (snd announced)))"
    by (simp add: announced_def)
  from scheduler_announces [OF sum256_flat example_plan_wf ok queue this] show ?thesis
    by (simp add: journal_with_def mj_stream_def map_get_def example_scope_def)
qed

text \<open>The lease of the first task has lapsed at 31000, so that a claim of it, and hence a notice, is possible.\<close>

theorem notice_iff_claim_witness:
  "\<exists>st. ReplayReviewRun flat_hash example_plan leased_events = Inr st
     \<and> (\<exists>notice. NewTaskNotification flat_hash st (runtime_at st ''acquire'') (time_of_millis 31000) = Inr notice)"
proof -
  obtain st where st: "ReplayReviewRun flat_hash example_plan leased_events = Inr st"
      "rs_status st = ReviewRunActive" "rs_lastOccurredAtMillis st = 1000"
      "runtime_at st ''acquire'' = leased_runtime"
    by (rule leased_state)
  let ?random = "\<lambda>n :: nat. Some (replicate 32 (CHR ''a''))"
  have token: "newLeaseToken flat_hash (?random 0) = Inr (flat_digest, flat_digest)"
    using flat_token by (simp add: newLeaseToken_def flat_digest_def [symmetric])
  have key: "ReviewRunPlan_Task example_plan ''acquire'' = Some (example_task ''acquire'' TaskAcquireSource [] 2 True)"
    using ReviewRunPlan_Task_iff [OF example_plan_wf] by (simp add: example_tasks_def)
  have "\<exists>built. claim_decide flat_hash example_plan ''acquire'' ''w'' ?random (time_of_millis 31000) 0 st = Try built"
    using st token millis_time(2) [OF example_later_time(1)]
    by (simp add: claim_decide_def transitionTimeAllowed_def leased_runtime_def u8_succ_def)
  moreover have "length leased_events \<le> maxRunJournalStreamEvents"
    by (simp add: leased_events_def maxRunJournalStreamEvents_def)
  ultimately show ?thesis
    using notice_iff_claim [where random = ?random and n = 0, OF sum256_flat example_plan_wf st(1) key _ token] st(1)
    by blast
qed

end
