(* ===== verification/File_Lock.thy ===== *)
theory File_Lock
  imports Cp_Errors "HOL-Library.AList"
begin

text \<open>
  The files below the root of a durable journal, and the advisory lock that makes one process their
  writer (internal/filelock/filelock.go, with lock\_unix.go for the platform's part).

  The directory is a list of named entries. What the operating system and the context may do during
  one call is a value of \<open>file_io\<close>: which of the calls below fail, the random part of the name of a
  temporary file, and how many bytes of it had been written when the call was given up. When
  \<open>os.CreateTemp\<close> finds a name taken it tries another one; the random part is that of the last name
  it tries, and it is given up when that name is taken too. Paths are
  the names below the root. Nil receivers and the text that an error wraps are not modelled.
\<close>


section \<open>The directory\<close>

datatype file_kind =
    RegularFile
  | SymbolicLink
  | OtherFile

record dir_entry =
  de_kind :: file_kind
  de_perm :: nat
  de_content :: string

type_synonym directory = "(string \<times> dir_entry) list"

datatype file_call =
    LstatCall string
  | OpenCall string
  | StatCall string
  | SeekEndCall string
  | ReadLastCall string
  | SeekStartCall string
  | ReadCall string nat
  | ReadDirCall
  | InfoCall string
  | CreateTempCall
  | ChmodTempCall
  | WriteTempCall nat
  | FlushTempCall
  | SyncTempCall
  | CloseTempCall
  | RenameCall
  | RemoveTempCall
  | OpenRootCall
  | SyncRootCall
  | ContextCheck nat
  | AbsCall
  | MkdirRootCall
  | LstatRootCall
  | ChmodRootCall
  | SameFileCall string
  | ChmodCall string
  | FlockCall string
  | SyncCall string
  | UnlockCall string
  | CloseCall string

record file_io =
  io_fails :: "file_call \<Rightarrow> bool"
  io_random :: string
  io_written :: nat

text \<open>The first of the calls that fails decides the error.\<close>

fun first_failure :: "file_io \<Rightarrow> (file_call \<times> 'e) list \<Rightarrow> 'e option" where
  "first_failure io [] = None"
| "first_failure io ((call, err) # rest) = (if io_fails io call then Some err else first_failure io rest)"

text \<open>\<open>Perm() & 0o077\<close>: a permission of the group or of others.\<close>

definition open_to_others :: "dir_entry \<Rightarrow> bool" where
  "open_to_others entry \<longleftrightarrow> de_perm entry mod 64 \<noteq> 0"

definition private_file :: "string \<Rightarrow> dir_entry" where
  "private_file content = \<lparr>de_kind = RegularFile, de_perm = 384, de_content = content\<rparr>"


section \<open>Locks\<close>

datatype lock_error =
    ErrInvalidPath
  | ErrLocked
  | ErrOperation

text \<open>
  The locks the operating system keeps: the open file that holds the lock on each named file, if
  one does, and how many files have been opened. A lock belongs to an open file and not to a
  process, so it goes away when the file is closed.
\<close>

record lock_table =
  lt_holder :: "string \<Rightarrow> nat option"
  lt_opened :: nat

record Lock =
  lk_name :: string
  lk_file :: nat
  lk_closed :: bool

definition release :: "string \<Rightarrow> nat \<Rightarrow> lock_table \<Rightarrow> lock_table" where
  "release path file locks =
     (if lt_holder locks path = Some file
      then locks\<lparr>lt_holder := (lt_holder locks)(path := None)\<rparr> else locks)"

definition platformLock ::
    "file_io \<Rightarrow> string \<Rightarrow> nat \<Rightarrow> lock_table \<Rightarrow> lock_error option \<times> lock_table" where
  "platformLock io path file locks =
     (if io_fails io (FlockCall path) then (Some ErrOperation, locks)
      else if lt_holder locks path \<noteq> None \<and> lt_holder locks path \<noteq> Some file then (Some ErrLocked, locks)
      else (None, locks\<lparr>lt_holder := (lt_holder locks)(path \<mapsto> file)\<rparr>))"

definition platformUnlock ::
    "file_io \<Rightarrow> string \<Rightarrow> nat \<Rightarrow> lock_table \<Rightarrow> lock_error option \<times> lock_table" where
  "platformUnlock io path file locks =
     (if io_fails io (UnlockCall path) then (Some ErrOperation, locks) else (None, release path file locks))"

text \<open>
  Closing the file. The file and its lock are gone also when the operating system reports an error
  of the call.
\<close>

definition close_file ::
    "file_io \<Rightarrow> string \<Rightarrow> nat \<Rightarrow> lock_table \<Rightarrow> lock_error option \<times> lock_table" where
  "close_file io path file locks =
     (if io_fails io (CloseCall path) then Some ErrOperation else None, release path file locks)"

text \<open>
  \<open>Acquire\<close> opens the file, creating it if it is missing, and takes the lock without waiting. The
  test that the path still names the opened file is the call \<open>SameFileCall\<close>.
\<close>

definition Acquire ::
    "file_io \<Rightarrow> string \<Rightarrow> directory \<Rightarrow> lock_table \<Rightarrow> (lock_error + Lock) \<times> directory \<times> lock_table" where
  "Acquire io path dir locks =
     (if path = [] then (Inl ErrInvalidPath, dir, locks)
      else if io_fails io (LstatCall path) then (Inl ErrInvalidPath, dir, locks)
      else if (case map_of dir path of Some information \<Rightarrow> de_kind information = SymbolicLink | None \<Rightarrow> False)
      then (Inl ErrInvalidPath, dir, locks)
      else if io_fails io (OpenCall path) then (Inl ErrOperation, dir, locks)
      else (let entry = (case map_of dir path of Some entry \<Rightarrow> entry | None \<Rightarrow> private_file []);
                dir1 = AList.update path entry dir;
                file = lt_opened locks;
                locks1 = locks\<lparr>lt_opened := Suc file\<rparr>;
                fail = (\<lambda>err dir locks. (Inl err, dir, snd (close_file io path file locks)))
            in if io_fails io (StatCall path) \<or> de_kind entry \<noteq> RegularFile then fail ErrInvalidPath dir1 locks1
               else if io_fails io (SameFileCall path) then fail ErrInvalidPath dir1 locks1
               else if io_fails io (ChmodCall path) then fail ErrOperation dir1 locks1
               else (let dir2 = AList.update path (entry\<lparr>de_perm := 384\<rparr>) dir1
                     in case platformLock io path file locks1 of
                          (Some err, locks2) \<Rightarrow> fail err dir2 locks2
                        | (None, locks2) \<Rightarrow>
                            if io_fails io (SyncCall path)
                            then fail ErrOperation dir2 (snd (platformUnlock io path file locks2))
                            else (Inr \<lparr>lk_name = path, lk_file = file, lk_closed = False\<rparr>, dir2, locks2))))"

definition Lock_Close :: "file_io \<Rightarrow> Lock \<Rightarrow> lock_table \<Rightarrow> lock_error option \<times> Lock \<times> lock_table" where
  "Lock_Close io l locks =
     (if lk_closed l then (None, l, locks)
      else (let l1 = l\<lparr>lk_closed := True\<rparr>
            in case platformUnlock io (lk_name l) (lk_file l) locks of
                 (Some err, locks1) \<Rightarrow> (Some err, l1, snd (close_file io (lk_name l) (lk_file l) locks1))
               | (None, locks1) \<Rightarrow>
                   (case close_file io (lk_name l) (lk_file l) locks1 of
                      (err, locks2) \<Rightarrow> (err, l1, locks2))))"


section \<open>What the lock guarantees\<close>

lemma release_cases:
  "lt_holder (release path file locks) p = (if p = path \<and> lt_holder locks path = Some file then None else lt_holder locks p)"
  "lt_opened (release path file locks) = lt_opened locks"
  by (simp_all add: release_def)

lemma close_file_cases:
  "lt_holder (snd (close_file io path file locks)) p =
     (if p = path \<and> lt_holder locks path = Some file then None else lt_holder locks p)"
  "lt_opened (snd (close_file io path file locks)) = lt_opened locks"
  by (simp_all add: close_file_def release_cases)

text \<open>What a table of locks guarantees: a lock is held by a file that was opened.\<close>

definition table_ok :: "lock_table \<Rightarrow> bool" where
  "table_ok locks \<longleftrightarrow> (\<forall>path file. lt_holder locks path = Some file \<longrightarrow> file < lt_opened locks)"

lemma table_ok_release: "table_ok locks \<Longrightarrow> table_ok (release path file locks)"
  by (auto simp: table_ok_def release_cases)

lemma Acquire_result:
  assumes "Acquire io path dir locks = (res, dir', locks')" and "table_ok locks"
  shows "table_ok locks'"
    and "lt_holder locks path = Some file \<Longrightarrow> lt_holder locks' path = Some file \<and> (\<exists>err. res = Inl err)"
    and "res = Inr l \<Longrightarrow> lk_name l = path \<and> \<not> lk_closed l \<and> lt_holder locks' path = Some (lk_file l)"
    and "dir' = dir \<or> (\<exists>entry. dir' = AList.update path entry dir)"
proof -
  let ?f = "lt_opened locks"
  have fresh: "lt_holder locks p \<noteq> Some ?f" for p using assms(2) by (auto simp: table_ok_def)
  have twice: "AList.update path x (AList.update path y dir) = AList.update path x dir" for x y
    by (induction dir) auto
  note unfold = Acquire_def Let_def platformLock_def platformUnlock_def close_file_def release_def table_ok_def
  show "table_ok locks'" and "lt_holder locks path = Some file \<Longrightarrow> lt_holder locks' path = Some file \<and> (\<exists>err. res = Inl err)"
    and "res = Inr l \<Longrightarrow> lk_name l = path \<and> \<not> lk_closed l \<and> lt_holder locks' path = Some (lk_file l)"
    and "dir' = dir \<or> (\<exists>entry. dir' = AList.update path entry dir)"
    using assms fresh twice by (auto simp: unfold less_Suc_eq split: if_splits)
qed

lemma Lock_Close_result:
  assumes "Lock_Close io l locks = (err, l', locks')" and "table_ok locks"
  shows "table_ok locks'"
    and "lt_holder locks path = Some file \<Longrightarrow> lk_file l \<noteq> file \<Longrightarrow> lt_holder locks' path = Some file"
    and "lt_holder locks' path = Some file \<Longrightarrow> lt_holder locks path = Some file"
  using assms
  by (auto simp: Lock_Close_def platformUnlock_def close_file_def table_ok_def release_def Let_def split: if_splits)

end
