(* ===== verification/Durable_Files.thy ===== *)
theory Durable_Files
  imports File_Lock Json_Decode
begin

text \<open>
  What the durable journal and the durable ledger share: a root directory with its lock, a file of
  lines that is scanned and replaced as a whole, and the text of such a file. The code has these
  parts once in each package, alike but for the errors, which are arguments here.
\<close>


section \<open>The root\<close>

text \<open>
  The root as the constructor finds it. \<open>RootLink\<close> is a symbolic link to a directory; \<open>MkdirAll\<close>
  accepts it, the test after it does not.
\<close>

datatype root_kind =
    RootMissing
  | RootDirectory
  | RootLink
  | RootOther

record journal_root =
  jr_kind :: root_kind
  jr_perm :: nat
  jr_files :: directory
  jr_locks :: lock_table

definition sync_directory :: "file_io \<Rightarrow> 'e \<Rightarrow> 'e option" where
  "sync_directory io failure = first_failure io [(OpenRootCall, failure), (SyncRootCall, failure)]"


section \<open>Lines\<close>

text \<open>
  \<open>bufio.Scanner\<close> with its line splitter: the text between newlines, a trailing carriage return
  dropped. A line that does not fit the buffer with its newline ends the scan with an error.
\<close>

fun scanner_lines :: "string \<Rightarrow> string list" where
  "scanner_lines [] = []"
| "scanner_lines (c # cs) =
     (if c = CHR 0x0A then [] # scanner_lines cs
      else (case scanner_lines cs of [] \<Rightarrow> [[c]] | l # ls \<Rightarrow> (c # l) # ls))"

definition dropCR :: "string \<Rightarrow> string" where
  "dropCR line = (if line \<noteq> [] \<and> last line = CHR 0x0D then butlast line else line)"

definition stream_content :: "string list \<Rightarrow> string" where
  "stream_content encodedEvents = concat (map (\<lambda>encoded. encoded @ [CHR 0x0A]) encodedEvents)"


section \<open>Replacing a file\<close>

text \<open>Circumstances in which nothing fails.\<close>

definition calm :: file_io where
  "calm = \<lparr>io_fails = (\<lambda>_. False), io_random = ''0'', io_written = 0\<rparr>"

text \<open>
  A new content for the file at \<open>path\<close>: it is written to a temporary file, which takes the place
  of the old one in a single step. \<open>calls\<close> are the calls between the creation and the renaming of
  the temporary file, with their errors; if one of them fails the temporary file is removed, if that
  succeeds.
\<close>

definition replace_file ::
    "file_io \<Rightarrow> 'e \<Rightarrow> string \<Rightarrow> string \<Rightarrow> string \<Rightarrow> (file_call \<times> 'e) list \<Rightarrow> directory \<Rightarrow> 'e option \<times> directory" where
  "replace_file io failure pattern path content calls dir =
     (let temporaryPath = pattern @ io_random io;
          abandoned = (if io_fails io RemoveTempCall
            then AList.update temporaryPath (private_file (take (io_written io) content)) dir else dir)
      in if io_fails io CreateTempCall \<or> map_of dir temporaryPath \<noteq> None
         then (Some failure, dir)
         else (case first_failure io (calls @ [(RenameCall, failure)]) of
                 Some err \<Rightarrow> (Some err, abandoned)
               | None \<Rightarrow> (sync_directory io failure, AList.update path (private_file content) dir)))"

text \<open>The random part of the name of a temporary file is decimal.\<close>

definition decimal :: "string \<Rightarrow> bool" where
  "decimal s \<longleftrightarrow> (\<forall>c\<in>set s. CHR ''0'' \<le> c \<and> c \<le> CHR ''9'')"

lemma first_failure_quiet: "\<forall>call. \<not> io_fails io call \<Longrightarrow> first_failure io calls = None"
  by (induction io calls rule: first_failure.induct) auto

lemma replace_file_result:
  assumes "replace_file io failure pattern path content calls dir = (err, dir')"
  shows "dir' = AList.update path (private_file content) dir
      \<or> err \<noteq> None \<and> (dir' = dir \<or> (\<exists>file. dir' = AList.update (pattern @ io_random io) file dir))"
    and "(\<forall>call. \<not> io_fails io call) \<Longrightarrow> map_of dir (pattern @ io_random io) = None \<Longrightarrow>
      err = None \<and> dir' = AList.update path (private_file content) dir"
  using assms
  by (cases "first_failure io (calls @ [(RenameCall, failure)])";
      auto simp: replace_file_def Let_def sync_directory_def first_failure_quiet split: if_splits)+

lemma private_file_sel [simp]:
  "de_kind (private_file c) = RegularFile" "de_content (private_file c) = c" "\<not> open_to_others (private_file c)"
  by (simp_all add: private_file_def open_to_others_def)

lemma scanner_line: "CHR 0x0A \<notin> set l \<Longrightarrow> scanner_lines (l @ CHR 0x0A # r) = l # scanner_lines r"
  by (induction l) auto


section \<open>Marshalled text has no control characters\<close>

definition printable :: "string \<Rightarrow> bool" where
  "printable s \<longleftrightarrow> (\<forall>c\<in>set s. 32 \<le> byte_of c)"

lemma printable_simps [simp]:
  "printable []" "printable (c # s) \<longleftrightarrow> 32 \<le> byte_of c \<and> printable s"
  "printable (s @ t) \<longleftrightarrow> printable s \<and> printable t"
  by (auto simp: printable_def)

lemma printable_hexdigit: "32 \<le> byte_of (hexdigit n)"
  using lower_hex_hexdigit [of n] by (auto simp: lower_hex_def)

lemma printable_json_ascii: "b < 128 \<Longrightarrow> printable (json_ascii b)"
  using printable_hexdigit by (auto simp: json_ascii_def)

lemma printable_json_bytes: "\<forall>b\<in>set bs. b < 256 \<Longrightarrow> printable (json_bytes bs)"
proof (induction bs rule: json_bytes.induct)
  case (1 bs)
  show ?case
  proof (cases "bs = []")
    case True
    then show ?thesis by (simp add: json_bytes.simps)
  next
    case False
    have "\<forall>b\<in>set (drop (snd (utf8_first bs)) bs). b < 256" using 1(2) in_set_dropD by metis
    with 1(1) [OF False] False have rest: "printable (json_bytes (drop (snd (utf8_first bs)) bs))"
      by (auto simp: prod_eq_iff)
    have "32 \<le> byte_of (char_of b)" if "128 \<le> hd bs" "b \<in> set (take (snd (utf8_first bs)) bs)" for b
      using utf8_first_high [OF False that] 1(2) in_set_takeD [OF that(2)] by simp
    then have "printable (map char_of (take (snd (utf8_first bs)) bs))" if "128 \<le> hd bs"
      using that by (auto simp: printable_def)
    with rest printable_json_ascii [of "hd bs"] False show ?thesis
      by (subst json_bytes.simps) (auto simp: case_prod_beta)
  qed
qed

lemma printable_json_string: "printable (json_string s)"
  using printable_json_bytes [of "map of_char s"] by (auto simp: json_string_def)

lemma printable_dec_int: "printable (dec_int i)"
proof -
  have "printable (dec_digits n)" for n
    by (induction n rule: dec_digits.induct) (subst dec_digits.simps, auto)
  then show ?thesis by (simp add: dec_int_def)
qed

lemma printable_commas: "\<forall>x\<in>set xs. printable x \<Longrightarrow> printable (json_commas xs)"
  by (induction xs rule: json_commas.induct) auto

lemma printable_Marshal: "printable (json_Marshal j)"
proof (induction j)
  case (JArr xs)
  then show ?case using printable_commas [of "map json_Marshal xs"] by simp
next
  case (JObj fs)
  then have "\<forall>x\<in>set (map (\<lambda>(k, v). json_string k @ CHR '':'' # json_Marshal v) fs). printable x"
    using printable_json_string by fastforce
  then show ?case using printable_commas by simp
qed (simp_all add: printable_json_string printable_dec_int)

lemma printable_no_newline: "printable s \<Longrightarrow> CHR 0x0A \<notin> set s" "printable s \<Longrightarrow> CHR 0x0D \<notin> set s"
  by (auto simp: printable_def)


section \<open>A bound that looks at each string\<close>

definition string_bound :: "string \<Rightarrow> nat" where
  "string_bound s = (if list_all json_plain_char s then length s + 2 else 6 * length s + 2)"

fun json_tight :: "json \<Rightarrow> nat" where
  "json_tight (JStr s) = string_bound s"
| "json_tight (JInt i) = length (dec_int i)"
| "json_tight (JBool b) = 5"
| "json_tight JNull = 4"
| "json_tight (JArr xs) = 2 + sum_list (map (\<lambda>x. json_tight x + 1) xs)"
| "json_tight (JObj fs) = 2 + sum_list (map (\<lambda>(k, v). string_bound k + json_tight v + 2) fs)"

lemma length_string_bound: "length (json_string s) \<le> string_bound s"
  using length_json_string [of s] length_json_string_plain [of s] by (simp add: string_bound_def)

lemma length_json_tight: "length (json_Marshal j) \<le> json_tight j"
proof (induction j)
  case (JStr s)
  then show ?case by (simp add: length_string_bound)
next
  case (JArr xs)
  have "sum_list (map (\<lambda>x. length x + 1) (map json_Marshal xs)) \<le> sum_list (map (\<lambda>x. json_tight x + 1) xs)"
    using JArr by (auto simp: comp_def intro!: sum_list_mono)
  then show ?case using length_json_commas [of "map json_Marshal xs"] by simp
next
  case (JObj fs)
  let ?text = "\<lambda>(k, v). json_string k @ CHR '':'' # json_Marshal v"
  have "length (?text f) + 1 \<le> (\<lambda>(k, v). string_bound k + json_tight v + 2) f" if "f \<in> set fs" for f
  proof -
    obtain k v where f: "f = (k, v)" by (cases f)
    then have "length (json_Marshal v) \<le> json_tight v" using JObj [OF that, of v] by simp
    with f length_string_bound [of k] show ?thesis by simp
  qed
  then have "sum_list (map (\<lambda>x. length x + 1) (map ?text fs))
      \<le> sum_list (map (\<lambda>(k, v). string_bound k + json_tight v + 2) fs)"
    by (auto simp: comp_def intro!: sum_list_mono)
  then show ?case using length_json_commas [of "map ?text fs"] by simp
qed auto

end
