(* ===== verification/File_Run_Journal.thy ===== *)
theory File_Run_Journal
  imports Durable_Files Run_Journal Run_Event_Encoding Run_Plan_Encoding "HOL-Library.Stream"
begin

text \<open>
  The durable journal (controlplane/file\_run\_journal.go): \<open>FileRunJournal\<close> keeps one file per plan
  and one per stream in a directory that it alone writes.

  Every method holds the mutex for its whole body, so each is one step on the state. The journal
  carries the directory it works on, which it alone writes while it holds the lock of the root.
\<close>


section \<open>The journal\<close>

definition runJournalStreamSuffix :: string where
  "runJournalStreamSuffix = ''.run.jsonl''"

definition runJournalPlanSuffix :: string where
  "runJournalPlanSuffix = ''.run-plan.json''"

definition runJournalWriterLockName :: string where
  "runJournalWriterLockName = ''.run-writer.lock''"

definition maxRunJournalStreamBytes :: nat where
  "maxRunJournalStreamBytes = 67108864"

record FileRunJournal =
  fj_files :: directory
  fj_lockFile :: "Lock option"
  fj_closed :: bool

definition planPath :: "ReviewScope \<Rightarrow> string" where
  "planPath scope = sc_identity scope @ runJournalPlanSuffix"

definition streamPath :: "ReviewScope \<Rightarrow> string" where
  "streamPath scope = sc_identity scope @ runJournalStreamSuffix"


section \<open>Reading\<close>

definition loadPlan :: "sha \<Rightarrow> file_io \<Rightarrow> ReviewScope \<Rightarrow> directory \<Rightarrow> error + ReviewRunPlan option" where
  "loadPlan H io scope dir =
     (let path = planPath scope
      in if io_fails io (LstatCall path) then Inl ErrRunJournalPersistence
         else (case map_of dir path of
                 None \<Rightarrow> Inr None
               | Some information \<Rightarrow>
                   if de_kind information \<noteq> RegularFile \<or> open_to_others information
                      \<or> length (de_content information) = 0
                      \<or> length (de_content information) > maxEncodedReviewRunPlanBytes
                   then Inl ErrInvalidReviewRunPlanEncoding
                   else if io_fails io (OpenCall path) then Inl ErrRunJournalPersistence
                   else (let content = take (maxEncodedReviewRunPlanBytes + 1) (de_content information)
                         in if io_fails io (ReadCall path 0) \<or> length content > maxEncodedReviewRunPlanBytes
                            then Inl ErrInvalidReviewRunPlanEncoding
                            else (case ParseReviewRunPlan H content of
                                    Inl _ \<Rightarrow> Inl ErrInvalidReviewRunPlanEncoding
                                  | Inr plan \<Rightarrow>
                                      if sc_identity (rp_scope plan) \<noteq> sc_identity scope
                                      then Inl ErrInvalidReviewRunPlanEncoding else Inr (Some plan)))))"

fun scan_events ::
    "sha \<Rightarrow> file_io \<Rightarrow> ReviewScope \<Rightarrow> RunEvent list \<Rightarrow> string \<Rightarrow> string \<Rightarrow> int \<Rightarrow> string list \<Rightarrow> error + RunEvent list" where
  "scan_events H io scope events previous planIdentity occurredAt [] =
     (if io_fails io (ReadCall (streamPath scope) (length events)) then Inl ErrCorruptRunJournalStream
      else Inr events)"
| "scan_events H io scope events previous planIdentity occurredAt (line # rest) =
     (if io_fails io (ReadCall (streamPath scope) (length events)) \<or> length line + 1 > maxEncodedRunEventBytes + 1
      then Inl ErrCorruptRunJournalStream
      else if length events \<ge> maxRunJournalStreamEvents then Inl ErrRunJournalStreamTooLarge
      else (case ParseRunEvent H (dropCR line) of
              Inl _ \<Rightarrow> Inl ErrCorruptRunJournalStream
            | Inr event \<Rightarrow>
                (let planIdentity = (if events = [] then ev_planIdentity event else planIdentity)
                 in if sc_identity (ev_scope event) \<noteq> sc_identity scope
                       \<or> ev_planIdentity event \<noteq> planIdentity
                       \<or> ev_sequence event \<noteq> length events + 1
                       \<or> ev_previousIdentity event \<noteq> previous
                       \<or> ev_occurredAtMillis event < occurredAt
                    then Inl ErrCorruptRunJournalStream
                    else scan_events H io scope (events @ [event]) (ev_identity event) planIdentity
                           (ev_occurredAtMillis event) rest)))"

definition loadStream :: "sha \<Rightarrow> file_io \<Rightarrow> ReviewScope \<Rightarrow> directory \<Rightarrow> error + RunEvent list" where
  "loadStream H io scope dir =
     (let path = streamPath scope
      in if io_fails io (LstatCall path) then Inl ErrRunJournalPersistence
         else (case map_of dir path of
                 None \<Rightarrow> Inr []
               | Some file \<Rightarrow>
                   if de_kind file \<noteq> RegularFile then Inl ErrCorruptRunJournalStream
                   else if io_fails io (OpenCall path) then Inl ErrRunJournalPersistence
                   else if io_fails io (StatCall path) then Inl ErrRunJournalPersistence
                   else if open_to_others file then Inl ErrCorruptRunJournalStream
                   else if length (de_content file) = 0
                           \<or> length (de_content file) > maxRunJournalStreamBytes
                   then Inl ErrRunJournalStreamTooLarge
                   else if io_fails io (SeekEndCall path) then Inl ErrCorruptRunJournalStream
                   else if io_fails io (ReadLastCall path) \<or> last (de_content file) \<noteq> CHR 0x0A
                   then Inl ErrCorruptRunJournalStream
                   else if io_fails io (SeekStartCall path) then Inl ErrRunJournalPersistence
                   else scan_events H io scope [] [] [] 0 (scanner_lines (de_content file))))"


section \<open>Replacing a file\<close>

definition syncRoot :: "file_io \<Rightarrow> error option" where
  "syncRoot io = sync_directory io ErrRunJournalPersistence"

definition replacePlan :: "sha \<Rightarrow> file_io \<Rightarrow> ReviewRunPlan \<Rightarrow> directory \<Rightarrow> error option \<times> directory" where
  "replacePlan H io plan dir =
     (case EncodeReviewRunPlan H plan of
        Inl err \<Rightarrow> (Some err, dir)
      | Inr encoded \<Rightarrow>
          replace_file io ErrRunJournalPersistence ''.plan-write-'' (planPath (rp_scope plan)) encoded
            [(ChmodTempCall, ErrRunJournalPersistence), (ContextCheck 0, ErrRunJournalContextDone),
             (WriteTempCall 0, ErrRunJournalPersistence), (SyncTempCall, ErrRunJournalPersistence),
             (CloseTempCall, ErrRunJournalPersistence)] dir)"

fun encode_events :: "sha \<Rightarrow> nat \<Rightarrow> RunEvent list \<Rightarrow> error + string list" where
  "encode_events H written [] = Inr []"
| "encode_events H written (event # rest) =
     (case EncodeRunEvent H event of
        Inl err \<Rightarrow> Inl err
      | Inr encoded \<Rightarrow>
          (let written = written + length encoded + 1
           in if written > maxRunJournalStreamBytes then Inl ErrRunJournalStreamTooLarge
              else (case encode_events H written rest of
                      Inl err \<Rightarrow> Inl err
                    | Inr encodedEvents \<Rightarrow> Inr (encoded # encodedEvents))))"

definition replaceStream ::
    "sha \<Rightarrow> file_io \<Rightarrow> ReviewScope \<Rightarrow> RunEvent list \<Rightarrow> directory \<Rightarrow> error option \<times> directory" where
  "replaceStream H io scope events dir =
     (case encode_events H 0 events of
        Inl err \<Rightarrow> (Some err, dir)
      | Inr encodedEvents \<Rightarrow>
          replace_file io ErrRunJournalPersistence ''.run-write-'' (streamPath scope) (stream_content encodedEvents)
            ((ChmodTempCall, ErrRunJournalPersistence)
             # concat (map (\<lambda>index. [(ContextCheck (Suc index), ErrRunJournalContextDone),
                                     (WriteTempCall index, ErrRunJournalPersistence)])
                         [0..<length encodedEvents])
             @ [(FlushTempCall, ErrRunJournalPersistence), (SyncTempCall, ErrRunJournalPersistence),
                (CloseTempCall, ErrRunJournalPersistence)]) dir)"


section \<open>The methods\<close>

definition NewFileRunJournal ::
    "file_io \<Rightarrow> string \<Rightarrow> journal_root \<Rightarrow> (error + FileRunJournal) \<times> journal_root" where
  "NewFileRunJournal io root r =
     (if root = [] then (Inl ErrInvalidRunJournalRoot, r)
      else if io_fails io AbsCall then (Inl ErrInvalidRunJournalRoot, r)
      else if io_fails io MkdirRootCall \<or> jr_kind r = RootOther then (Inl ErrRunJournalPersistence, r)
      else (let r1 = (if jr_kind r = RootMissing
                      then r\<lparr>jr_kind := RootDirectory, jr_perm := 448, jr_files := []\<rparr> else r)
            in if io_fails io LstatRootCall \<or> jr_kind r1 \<noteq> RootDirectory then (Inl ErrInvalidRunJournalRoot, r1)
               else if io_fails io ChmodRootCall then (Inl ErrRunJournalPersistence, r1)
               else (let r2 = r1\<lparr>jr_perm := 448\<rparr>
                     in case Acquire io runJournalWriterLockName (jr_files r2) (jr_locks r2) of
                          (Inl err, files, locks) \<Rightarrow>
                            (Inl (if err = ErrLocked then ErrRunJournalLocked else ErrRunJournalPersistence),
                             r2\<lparr>jr_files := files, jr_locks := locks\<rparr>)
                        | (Inr lockFile, files, locks) \<Rightarrow>
                            (case syncRoot io of
                               Some err \<Rightarrow>
                                 (case Lock_Close io lockFile locks of
                                    (_, _, locks1) \<Rightarrow> (Inl err, r2\<lparr>jr_files := files, jr_locks := locks1\<rparr>))
                             | None \<Rightarrow>
                                 (Inr \<lparr>fj_files = files, fj_lockFile = Some lockFile, fj_closed = False\<rparr>,
                                  r2\<lparr>jr_files := files, jr_locks := locks\<rparr>)))))"

definition FileRunJournal_Close ::
    "file_io \<Rightarrow> FileRunJournal \<Rightarrow> lock_table \<Rightarrow> error option \<times> FileRunJournal \<times> lock_table" where
  "FileRunJournal_Close io j locks =
     (if fj_closed j then (None, j, locks)
      else (case fj_lockFile j of
              None \<Rightarrow> (syncRoot io, j\<lparr>fj_closed := True\<rparr>, locks)
            | Some lockFile \<Rightarrow>
                (case Lock_Close io lockFile locks of
                   (Some _, l, locks1) \<Rightarrow>
                     (Some ErrRunJournalPersistence, j\<lparr>fj_lockFile := Some l\<rparr>, locks1)
                 | (None, _, locks1) \<Rightarrow>
                     (syncRoot io, j\<lparr>fj_lockFile := None, fj_closed := True\<rparr>, locks1))))"

definition FileRunJournal_SavePlan ::
    "sha \<Rightarrow> file_io \<Rightarrow> gocontext \<Rightarrow> ReviewRunPlan \<Rightarrow> FileRunJournal \<Rightarrow> error option \<times> FileRunJournal" where
  "FileRunJournal_SavePlan H io ctx plan j =
     (case validateContext ctx of
        Some err \<Rightarrow> (Some err, j)
      | None \<Rightarrow>
     (case ReviewRunPlan_Validate H plan of
        Some err \<Rightarrow> (Some err, j)
      | None \<Rightarrow>
          if fj_closed j then (Some ErrRunJournalClosed, j)
          else (case loadPlan H io (rp_scope plan) (fj_files j) of
                  Inl err \<Rightarrow> (Some err, j)
                | Inr (Some existing) \<Rightarrow>
                    if rp_identity existing = rp_identity plan then (None, j) else (Some ErrRunPlanConflict, j)
                | Inr None \<Rightarrow>
                    (case loadStream H io (rp_scope plan) (fj_files j) of
                       Inl err \<Rightarrow> (Some err, j)
                     | Inr stream \<Rightarrow>
                         if stream \<noteq> [] \<and> ev_planIdentity (hd stream) \<noteq> rp_identity plan
                         then (Some ErrRunPlanConflict, j)
                         else (case replacePlan H io plan (fj_files j) of
                                 (err, files) \<Rightarrow> (err, j\<lparr>fj_files := files\<rparr>))))))"

definition FileRunJournal_LoadPlan ::
    "sha \<Rightarrow> file_io \<Rightarrow> gocontext \<Rightarrow> ReviewScope \<Rightarrow> FileRunJournal
      \<Rightarrow> (error + ReviewRunPlan option) \<times> FileRunJournal" where
  "FileRunJournal_LoadPlan H io ctx scope j =
     (case validateRunJournalOperation H ctx scope of
        Some err \<Rightarrow> (Inl err, j)
      | None \<Rightarrow>
          if fj_closed j then (Inl ErrRunJournalClosed, j) else (loadPlan H io scope (fj_files j), j))"

fun list_plan_files :: "sha \<Rightarrow> file_io \<Rightarrow> directory \<Rightarrow> error + ReviewRunPlan list" where
  "list_plan_files H io [] = Inr []"
| "list_plan_files H io ((name, entry) # rest) =
     (if \<not> suffix runJournalPlanSuffix name then list_plan_files H io rest
      else if io_fails io (InfoCall name) \<or> de_kind entry \<noteq> RegularFile \<or> open_to_others entry
      then Inl ErrInvalidReviewRunPlanEncoding
      else if io_fails io (ReadCall name 0) \<or> length (de_content entry) > maxEncodedReviewRunPlanBytes
      then Inl ErrInvalidReviewRunPlanEncoding
      else (case ParseReviewRunPlan H (de_content entry) of
              Inl err \<Rightarrow> Inl err
            | Inr plan \<Rightarrow>
                (case list_plan_files H io rest of
                   Inl err \<Rightarrow> Inl err
                 | Inr plans \<Rightarrow> Inr (plan # plans))))"

text \<open>\<open>os.ReadDir\<close> lists the entries in the order of their names.\<close>

definition FileRunJournal_ListPlans ::
    "sha \<Rightarrow> file_io \<Rightarrow> gocontext \<Rightarrow> string \<Rightarrow> string \<Rightarrow> string \<Rightarrow> int \<Rightarrow> FileRunJournal
      \<Rightarrow> (error + ReviewRunPlan list) \<times> FileRunJournal" where
  "FileRunJournal_ListPlans H io ctx tenantID repositoryID afterRunID limit j =
     (case validateContext ctx of
        Some err \<Rightarrow> (Inl err, j)
      | None \<Rightarrow>
          if \<not> validRunPlanQuery tenantID \<or> \<not> validRunPlanQuery repositoryID
             \<or> afterRunID \<noteq> [] \<and> \<not> validRunPlanQuery afterRunID
             \<or> limit \<le> 0 \<or> limit > int maxRunJournalReadLimit
          then (Inl ErrInvalidRunPlanQuery, j)
          else if fj_closed j then (Inl ErrRunJournalClosed, j)
          else if io_fails io ReadDirCall then (Inl ErrRunJournalPersistence, j)
          else if length (fj_files j) > maxRunJournalStreamEvents * 2 + 1
          then (Inl ErrRunJournalStreamTooLarge, j)
          else (case list_plan_files H io (sort_key fst (fj_files j)) of
                  Inl err \<Rightarrow> (Inl err, j)
                | Inr all_plans \<Rightarrow>
                    (let plans = filter (\<lambda>plan. sc_tenantID (rp_scope plan) = tenantID
                           \<and> sc_repositoryID (rp_scope plan) = repositoryID
                           \<and> sc_reviewRunID (rp_scope plan) > afterRunID) all_plans;
                         sorted_plans = sort_key (\<lambda>plan. sc_reviewRunID (rp_scope plan)) plans
                     in (Inr (if int (length sorted_plans) > limit then take (nat limit) sorted_plans
                              else sorted_plans), j))))"

definition FileRunJournal_Append ::
    "sha \<Rightarrow> file_io \<Rightarrow> gocontext \<Rightarrow> string \<Rightarrow> RunEvent \<Rightarrow> FileRunJournal \<Rightarrow> error option \<times> FileRunJournal" where
  "FileRunJournal_Append H io ctx expectedHead event j =
     (case validateContext ctx of
        Some err \<Rightarrow> (Some err, j)
      | None \<Rightarrow>
     if expectedHead \<noteq> [] \<and> \<not> validControlPlaneDigest expectedHead then (Some ErrRunJournalHeadConflict, j)
     else (case RunEvent_Validate H event of
        Some err \<Rightarrow> (Some err, j)
      | None \<Rightarrow>
          if fj_closed j then (Some ErrRunJournalClosed, j)
          else if io_fails io (ContextCheck 0) then (Some ErrRunJournalContextDone, j)
          else (case loadStream H io (ev_scope event) (fj_files j) of
             Inl err \<Rightarrow> (Some err, j)
           | Inr stream \<Rightarrow>
          (case loadPlan H io (ev_scope event) (fj_files j) of
             Inl err \<Rightarrow> (Some err, j)
           | Inr plan \<Rightarrow>
               (let planConflict = (case plan of Some plan \<Rightarrow> rp_identity plan \<noteq> ev_planIdentity event
                                               | None \<Rightarrow> False);
                    currentHead = (if stream = [] then [] else ev_identity (last stream))
                in if planConflict then (Some ErrRunPlanConflict, j)
                   else if stream \<noteq> [] \<and> ev_planIdentity (hd stream) \<noteq> ev_planIdentity event
                   then (Some ErrRunPlanConflict, j)
                   else if stream \<noteq> [] \<and> ev_identity (last stream) = ev_identity event then (None, j)
                   else if expectedHead \<noteq> currentHead then (Some ErrRunJournalHeadConflict, j)
                   else if ev_sequence event \<noteq> length stream + 1 then (Some ErrRunJournalSequenceMismatch, j)
                   else if ev_previousIdentity event \<noteq> currentHead then (Some ErrRunJournalChainMismatch, j)
                   else if length stream \<ge> maxRunJournalStreamEvents
                   then (Some ErrRunJournalStreamTooLarge, j)
                   else (case replaceStream H io (ev_scope event) (stream @ [event]) (fj_files j) of
                           (err, files) \<Rightarrow> (err, j\<lparr>fj_files := files\<rparr>)))))))"

definition FileRunJournal_Head ::
    "sha \<Rightarrow> file_io \<Rightarrow> gocontext \<Rightarrow> ReviewScope \<Rightarrow> FileRunJournal \<Rightarrow> (error + RunEvent option) \<times> FileRunJournal" where
  "FileRunJournal_Head H io ctx scope j =
     (case validateRunJournalOperation H ctx scope of
        Some err \<Rightarrow> (Inl err, j)
      | None \<Rightarrow>
          if fj_closed j then (Inl ErrRunJournalClosed, j)
          else (case loadStream H io scope (fj_files j) of
                  Inl err \<Rightarrow> (Inl err, j)
                | Inr stream \<Rightarrow> (Inr (if stream = [] then None else Some (last stream)), j)))"

definition FileRunJournal_Read ::
    "sha \<Rightarrow> file_io \<Rightarrow> gocontext \<Rightarrow> ReviewScope \<Rightarrow> nat \<Rightarrow> int \<Rightarrow> FileRunJournal
      \<Rightarrow> (error + RunEvent list) \<times> FileRunJournal" where
  "FileRunJournal_Read H io ctx scope after limit j =
     (case validateRunJournalOperation H ctx scope of
        Some err \<Rightarrow> (Inl err, j)
      | None \<Rightarrow>
          if limit \<le> 0 \<or> limit > int maxRunJournalReadLimit then (Inl ErrInvalidRunJournalReadLimit, j)
          else if fj_closed j then (Inl ErrRunJournalClosed, j)
          else (case loadStream H io scope (fj_files j) of
                  Inl err \<Rightarrow> (Inl err, j)
                | Inr stream \<Rightarrow>
                    if after \<ge> length stream then (Inr [], j)
                    else (let stop = min (after + nat limit) (length stream)
                          in (Inr (drop after (take stop stream)), j))))"

text \<open>The interface. Each call of a method meets the next of an endless row of circumstances.\<close>

definition with_io ::
    "(file_io \<Rightarrow> FileRunJournal \<Rightarrow> 'a \<times> FileRunJournal) \<Rightarrow> FileRunJournal \<times> file_io stream
      \<Rightarrow> 'a \<times> (FileRunJournal \<times> file_io stream)" where
  "with_io method w =
     (case w of (j, ios) \<Rightarrow> (case method (shd ios) j of (x, j') \<Rightarrow> (x, (j', stl ios))))"

definition fileJournal :: "sha \<Rightarrow> (FileRunJournal \<times> file_io stream) RunJournal" where
  "fileJournal H =
     \<lparr>rj_SavePlan = (\<lambda>ctx plan. with_io (\<lambda>io. FileRunJournal_SavePlan H io ctx plan)),
      rj_LoadPlan = (\<lambda>ctx scope. with_io (\<lambda>io. FileRunJournal_LoadPlan H io ctx scope)),
      rj_ListPlans = (\<lambda>ctx tenant repository after limit.
        with_io (\<lambda>io. FileRunJournal_ListPlans H io ctx tenant repository after limit)),
      rj_Head = (\<lambda>ctx scope. with_io (\<lambda>io. FileRunJournal_Head H io ctx scope)),
      rj_Append = (\<lambda>ctx head event. with_io (\<lambda>io. FileRunJournal_Append H io ctx head event)),
      rj_Read = (\<lambda>ctx scope after limit. with_io (\<lambda>io. FileRunJournal_Read H io ctx scope after limit))\<rparr>"

end
