(* ===== verification/Stream_Text.thy ===== *)
theory Stream_Text
  imports File_Run_Journal Shared_Journal
begin

text \<open>
  The text of a stream file: the encoding of an event has no newline and is short, and scanning the
  encodings of a well-formed stream gives the stream back.
\<close>


section \<open>The text of an event\<close>

definition storable :: "sha \<Rightarrow> RunEvent \<Rightarrow> bool" where
  "storable H e \<longleftrightarrow> RunEvent_Validate H e = None \<and> event_ints e \<and> utf8_ValidString (ev_workerIdentity e)"

definition event_text :: "RunEvent \<Rightarrow> string" where
  "event_text e = json_Marshal (runEventRecord_json (runEventToRecord e))"

lemma event_plain:
  assumes "sum256 H" and "RunEvent_Validate H e = None"
  shows "list_all (list_all json_plain_char)
    [ev_identity e, ev_planIdentity e, ev_previousIdentity e, ev_taskKey e, ev_taskIdentity e,
     ev_leaseTokenIdentity e, ev_outputIdentity e, sc_tenantID (ev_scope e), sc_repositoryID (ev_scope e),
     sc_reviewRunID (ev_scope e), RunEventKind_String (ev_kind e), RunFailure_String (ev_failure e)]"
proof -
  have "list_all json_plain_char s" if "digest_or_empty s" for s
    using that plain_digest by (auto simp: digest_or_empty_def)
  moreover have "list_all json_plain_char (RunEventKind_String (ev_kind e))"
    by (cases "ev_kind e") (simp_all add: json_plain_char_def)
  moreover have "list_all json_plain_char (RunFailure_String (ev_failure e))"
    by (cases "ev_failure e") (simp_all add: json_plain_char_def)
  moreover have "ReviewScope_Validate H (ev_scope e) = None" using assms(2) by (simp add: RunEvent_Validate_None)
  then have "list_all (list_all json_plain_char)
      [sc_tenantID (ev_scope e), sc_repositoryID (ev_scope e), sc_reviewRunID (ev_scope e)]"
    using plain_scope_id by (auto simp: ReviewScope_Validate_def split: if_splits)
  ultimately show ?thesis
    using assms validateFields_strings [of e] hash_valid [OF assms(1), of "runEventPreimage e"]
      plain_digest plain_task_key
    by (auto simp: RunEvent_Validate_None deriveRunEventIdentity_def split: if_splits)
qed

lemma event_text_length:
  assumes "sum256 H" and "RunEvent_Validate H e = None" and "event_ints e"
  shows "length (event_text e) \<le> 6000"
proof -
  have v: "ReviewScope_Validate H (ev_scope e) = None" "validRunMillis (ev_occurredAtMillis e)"
    using assms(2) validateFields_time by (auto simp: RunEvent_Validate_None)
  have one: "length (dec_int 1) \<le> 21" using length_dec_int [of 1] by simp
  have "ev_attempt e < 2 ^ 64" using assms(3) by (auto simp: event_ints_def)
  note ints = this uint_length [OF this] assms(3) [unfolded event_ints_def]
  have worker: "string_bound (ev_workerIdentity e) \<le> 770"
    using event_worker_length [OF assms(2)] by (simp add: string_bound_def)
  have "json_tight (runEventRecord_json (runEventToRecord e)) \<le> 6000"
    using event_strings [OF assms(2,1)] event_plain [OF assms(1,2)] scope_strings(4-6) [OF v(1)]
      kind_string_length [of "ev_kind e"] failure_string_length [of "ev_failure e"] one ints(2) worker
      uint_length [of "ev_sequence e"] int64_length [of "ev_leaseExpiresAtMillis e"]
      int64_length [of "ev_retryAtMillis e"] int64_length [OF int64_millis [OF v(2)]] ints(3)
    by (simp add: runEventRecord_json_def runEventToRecord_def string_bound_def json_plain_char_def)
  with length_json_tight show ?thesis unfolding event_text_def using le_trans by blast
qed

lemma EncodeRunEvent_text:
  assumes "sum256 H" and "RunEvent_Validate H e = None" and "event_ints e"
  shows "EncodeRunEvent H e = Inr (event_text e)"
proof -
  obtain s where "EncodeRunEvent H e = Inr s" using event_encodable [OF assms] by blast
  then show ?thesis
    by (auto simp: EncodeRunEvent_def check_def encode_bounded_Inr event_text_def split: option.splits)
qed

lemma event_text_facts:
  "CHR 0x0A \<notin> set (event_text e)" "dropCR (event_text e) = event_text e" "event_text e \<noteq> []"
proof -
  show "CHR 0x0A \<notin> set (event_text e)"
    using printable_no_newline(1) [OF printable_Marshal] by (simp add: event_text_def)
  show ne: "event_text e \<noteq> []"
    by (simp add: event_text_def runEventRecord_json_def json_object_def)
  have "CHR 0x0D \<notin> set (event_text e)"
    using printable_no_newline(2) [OF printable_Marshal] by (simp add: event_text_def)
  with ne show "dropCR (event_text e) = event_text e" by (metis dropCR_def last_in_set)
qed

lemma parse_event_text:
  assumes "sum256 H" and "storable H e"
  shows "ParseRunEvent H (event_text e) = Inr e"
  using event_roundtrip [OF assms(1) EncodeRunEvent_text] assms by (simp add: storable_def)

section \<open>Well-formed streams\<close>

text \<open>The event continues the stream: what an append and a later scan check, taken together.\<close>

definition link_ok :: "sha \<Rightarrow> string \<Rightarrow> RunEvent list \<Rightarrow> RunEvent \<Rightarrow> bool" where
  "link_ok H k es e \<longleftrightarrow>
     storable H e \<and> sc_identity (ev_scope e) = k \<and> (es \<noteq> [] \<longrightarrow> ev_planIdentity e = ev_planIdentity (hd es))
     \<and> ev_sequence e = Suc (length es) \<and> ev_previousIdentity e = head_of es
     \<and> (es \<noteq> [] \<longrightarrow> ev_occurredAtMillis (last es) \<le> ev_occurredAtMillis e)
     \<and> length es < maxRunJournalStreamEvents"

definition stream_wf :: "sha \<Rightarrow> string \<Rightarrow> RunEvent list \<Rightarrow> bool" where
  "stream_wf H k es \<longleftrightarrow> (\<forall>es1 e es2. es = es1 @ e # es2 \<longrightarrow> link_ok H k es1 e)"

lemma stream_wf_Nil [simp]: "stream_wf H k []"
  by (simp add: stream_wf_def)

lemma stream_wf_snoc: "stream_wf H k (es @ [e]) \<longleftrightarrow> stream_wf H k es \<and> link_ok H k es e"
proof
  assume wf: "stream_wf H k (es @ [e])"
  then have "link_ok H k es e" by (simp add: stream_wf_def)
  moreover have "link_ok H k es1 e1" if "es = es1 @ e1 # es2" for es1 e1 es2
    using wf that unfolding stream_wf_def by (metis append.assoc append_Cons)
  ultimately show "stream_wf H k es \<and> link_ok H k es e" by (simp add: stream_wf_def)
next
  assume wf: "stream_wf H k es \<and> link_ok H k es e"
  have "link_ok H k es1 e1" if "es @ [e] = es1 @ e1 # es2" for es1 e1 es2
    using wf that by (cases es2 rule: rev_cases) (auto simp: stream_wf_def)
  then show "stream_wf H k (es @ [e])" by (simp add: stream_wf_def)
qed

lemma stream_wf_storable: "stream_wf H k es \<Longrightarrow> e \<in> set es \<Longrightarrow> storable H e"
  by (auto simp: stream_wf_def link_ok_def dest!: split_list)

lemma stream_wf_length: "stream_wf H k es \<Longrightarrow> length es \<le> maxRunJournalStreamEvents"
  by (cases es rule: rev_cases) (auto simp: stream_wf_snoc link_ok_def)

lemma stream_wf_scope: "stream_wf H k es \<Longrightarrow> e \<in> set es \<Longrightarrow> sc_identity (ev_scope e) = k"
  by (auto simp: stream_wf_def link_ok_def dest!: split_list)

definition stream_text :: "RunEvent list \<Rightarrow> string" where
  "stream_text es = stream_content (map event_text es)"

lemma stream_text_simps [simp]:
  "stream_text [] = []" "stream_text (es @ [e]) = stream_text es @ event_text e @ [CHR 0x0A]"
  by (simp_all add: stream_text_def stream_content_def)

lemma scanner_stream_text: "scanner_lines (stream_text es) = map event_text es"
  by (induction es) (simp_all add: stream_text_def stream_content_def scanner_line event_text_facts)

lemma stream_text_length:
  assumes "sum256 H"
  shows "\<forall>e\<in>set es. storable H e \<Longrightarrow> length (stream_text es) \<le> 6001 * length es"
proof (induction es rule: rev_induct)
  case (snoc e es)
  then have "length (event_text e) \<le> 6000" using event_text_length [OF assms] by (simp add: storable_def)
  with snoc show ?case by simp
qed simp

lemma encode_events_text:
  assumes "sum256 H"
  shows "\<forall>e\<in>set es. RunEvent_Validate H e = None \<and> event_ints e \<Longrightarrow>
    n + 6001 * length es \<le> maxRunJournalStreamBytes \<Longrightarrow> encode_events H n es = Inr (map event_text es)"
proof (induction es arbitrary: n)
  case (Cons e es)
  then have "EncodeRunEvent H e = Inr (event_text e)" "length (event_text e) \<le> 6000"
    using EncodeRunEvent_text [OF assms] event_text_length [OF assms] by auto
  with Cons.IH [of "n + length (event_text e) + 1"] Cons.prems show ?case by simp
qed simp

text \<open>What the scanner carries along: the identity of the plan and the time of the last event.\<close>

definition carried :: "RunEvent list \<Rightarrow> string \<times> int" where
  "carried es = (if es = [] then ([], 0) else (ev_planIdentity (hd es), ev_occurredAtMillis (last es)))"

abbreviation scan_from :: "sha \<Rightarrow> file_io \<Rightarrow> ReviewScope \<Rightarrow> RunEvent list \<Rightarrow> string list \<Rightarrow> error + RunEvent list" where
  "scan_from H io scope es lines \<equiv> scan_events H io scope es (head_of es) (fst (carried es)) (snd (carried es)) lines"

lemma scan_event:
  assumes "sum256 H" and l: "link_ok H (sc_identity scope) es e"
  shows "scan_from H io scope es (event_text e # rest) =
    (if io_fails io (ReadCall (streamPath scope) (length es)) then Inl ErrCorruptRunJournalStream
     else scan_from H io scope (es @ [e]) rest)"
proof -
  have e: "storable H e" "length es < maxRunJournalStreamEvents" using l by (simp_all add: link_ok_def)
  then have "length (event_text e) \<le> maxEncodedRunEventBytes"
    using event_text_length [OF assms(1), of e] by (simp add: storable_def maxEncodedRunEventBytes_def)
  moreover have "0 \<le> ev_occurredAtMillis e"
    using e(1) validateFields_time [of e] by (auto simp: storable_def RunEvent_Validate_None validRunMillis_def)
  ultimately show ?thesis
    using l parse_event_text [OF assms(1) e(1)] e(2)
    by (auto simp: link_ok_def event_text_facts Let_def carried_def head_of_def)
qed

lemma scan_stream:
  assumes "sum256 H"
  shows "stream_wf H (sc_identity scope) (es @ es') \<Longrightarrow>
    scan_from H io scope es (map event_text es' @ rest) = scan_from H io scope (es @ es') rest
    \<or> scan_from H io scope es (map event_text es' @ rest) = Inl ErrCorruptRunJournalStream
      \<and> (\<exists>call. io_fails io call)"
proof (induction es' arbitrary: es)
  case (Cons e es')
  then have "link_ok H (sc_identity scope) es e" by (simp add: stream_wf_def)
  with scan_event [OF assms this] Cons.IH [of "es @ [e]"] Cons.prems show ?case by auto
qed simp

end
