(* ===== verification/File_Journal_Refinement.thy ===== *)
theory File_Journal_Refinement
  imports Stream_Text
begin

text \<open>
  The file journal implements the memory journal. \<open>represents\<close> says which directory stands for which
  memory journal; every call of the file journal, whatever fails during it, leaves a directory that
  stands for the memory journal before the call or for the one after it.
\<close>


section \<open>The representation\<close>

definition plan_text :: "ReviewRunPlan \<Rightarrow> string" where
  "plan_text p = json_Marshal (reviewRunPlanRecord_json (reviewRunPlanToRecord p))"

definition represents :: "sha \<Rightarrow> MemoryRunJournal \<Rightarrow> directory \<Rightarrow> bool" where
  "represents H m dir \<longleftrightarrow>
     distinct (map fst dir) \<and> distinct (map fst (mj_plans m))
     \<and> (\<forall>k. map_of dir (k @ runJournalStreamSuffix) =
          (if mj_stream m k = [] then None else Some (private_file (stream_text (mj_stream m k)))))
     \<and> (\<forall>k. map_of dir (k @ runJournalPlanSuffix) =
          map_option (\<lambda>p. private_file (plan_text p)) (map_of (mj_plans m) k))
     \<and> (\<forall>k. stream_wf H k (mj_stream m k))
     \<and> (\<forall>k p. map_of (mj_plans m) k = Some p \<longrightarrow> plan_wf H p \<and> sc_identity (rp_scope p) = k)"

lemma representsD:
  assumes "represents H m dir"
  shows "distinct (map fst dir)" "distinct (map fst (mj_plans m))"
    "map_of dir (k @ runJournalStreamSuffix) =
      (if mj_stream m k = [] then None else Some (private_file (stream_text (mj_stream m k))))"
    "map_of dir (k @ runJournalPlanSuffix) = map_option (\<lambda>p. private_file (plan_text p)) (map_of (mj_plans m) k)"
    "stream_wf H k (mj_stream m k)"
    "map_of (mj_plans m) k = Some p \<Longrightarrow> plan_wf H p" "map_of (mj_plans m) k = Some p \<Longrightarrow> sc_identity (rp_scope p) = k"
  using assms by (simp_all add: represents_def)

lemma represents_empty: "represents H NewMemoryRunJournal []"
  by (simp add: represents_def NewMemoryRunJournal_def mj_stream_def map_get_def)

lemma temporary_name:
  assumes "decimal s" and "last p = CHR ''-''" and "p \<noteq> []"
  shows "p @ s \<noteq> k @ runJournalStreamSuffix" "p @ s \<noteq> k @ runJournalPlanSuffix"
proof -
  have "last (p @ s) \<noteq> CHR ''l'' \<and> last (p @ s) \<noteq> CHR ''n''"
  proof (cases "s = []")
    case False
    then have "last s \<le> CHR ''9''" using assms(1) by (simp add: decimal_def)
    with False show ?thesis by (auto simp: less_eq_char_def)
  qed (use assms in simp)
  then show "p @ s \<noteq> k @ runJournalStreamSuffix" "p @ s \<noteq> k @ runJournalPlanSuffix"
    by (auto simp: runJournalStreamSuffix_def runJournalPlanSuffix_def)
qed

lemma path_names [simp]:
  "k @ runJournalStreamSuffix \<noteq> k' @ runJournalPlanSuffix" "k' @ runJournalPlanSuffix \<noteq> k @ runJournalStreamSuffix"
proof -
  have "last (k @ runJournalStreamSuffix) \<noteq> last (k' @ runJournalPlanSuffix)"
    by (simp add: runJournalStreamSuffix_def runJournalPlanSuffix_def)
  then show "k @ runJournalStreamSuffix \<noteq> k' @ runJournalPlanSuffix"
    "k' @ runJournalPlanSuffix \<noteq> k @ runJournalStreamSuffix" by metis+
qed

lemma represents_temporary:
  assumes "represents H m dir" and "\<And>k. name \<noteq> k @ runJournalStreamSuffix" "\<And>k. name \<noteq> k @ runJournalPlanSuffix"
  shows "represents H m (AList.update name file dir)"
  using assms by (auto simp: represents_def update_conv' distinct_update)

lemma represents_stream:
  assumes r: "represents H m dir" and wf: "stream_wf H k es" and ne: "es \<noteq> []"
  shows "represents H (m\<lparr>mj_streams := AList.update k es (mj_streams m)\<rparr>)
    (AList.update (k @ runJournalStreamSuffix) (private_file (stream_text es)) dir)"
  using assms by (auto simp: represents_def update_conv' distinct_update mj_stream_update)

lemma represents_plan:
  assumes r: "represents H m dir" and wf: "plan_wf H p"
  shows "represents H (m\<lparr>mj_plans := AList.update (sc_identity (rp_scope p)) p (mj_plans m)\<rparr>)
    (AList.update (planPath (rp_scope p)) (private_file (plan_text p)) dir)"
  using assms by (auto simp: represents_def update_conv' distinct_update planPath_def)


section \<open>Loading\<close>

lemma loadStream_represents:
  assumes "sum256 H" and r: "represents H m dir"
  shows "loadStream H io scope dir = Inr (mj_stream m (sc_identity scope))
    \<or> (\<exists>err. loadStream H io scope dir = Inl err) \<and> (\<exists>call. io_fails io call)"
proof (cases "mj_stream m (sc_identity scope) = []")
  case True
  then show ?thesis
    using representsD(3) [OF r, of "sc_identity scope"] by (auto simp: loadStream_def streamPath_def Let_def)
next
  case False
  let ?es = "mj_stream m (sc_identity scope)"
  note wf = representsD(5) [OF r, of "sc_identity scope"]
  obtain es e where es: "?es = es @ [e]" using False by (cases ?es rule: rev_cases) auto
  have "length (stream_text ?es) \<le> 6001 * length ?es"
    using stream_text_length [OF assms(1)] stream_wf_storable [OF wf] by blast
  then have len: "length (stream_text ?es) \<le> maxRunJournalStreamBytes"
    using stream_wf_length [OF wf] by (simp add: maxRunJournalStreamBytes_def maxRunJournalStreamEvents_def)
  have content: "stream_text ?es \<noteq> []" "last (stream_text ?es) = CHR 0x0A" by (simp_all add: es)
  have "scan_events H io scope [] [] [] 0 (scanner_lines (stream_text ?es)) = Inr ?es
    \<or> scan_events H io scope [] [] [] 0 (scanner_lines (stream_text ?es)) = Inl ErrCorruptRunJournalStream
      \<and> (\<exists>call. io_fails io call)"
    using scan_stream [OF assms(1), of scope "[]" ?es io "[]"] wf
    by (auto simp: head_of_def carried_def scanner_stream_text split: if_splits)
  with False len content representsD(3) [OF r, of "sc_identity scope"] show ?thesis
    by (auto simp: loadStream_def streamPath_def Let_def)
qed

lemma plan_text_facts:
  assumes "sum256 H" and "plan_wf H p"
  shows "EncodeReviewRunPlan H p = Inr (plan_text p)" "ParseReviewRunPlan H (plan_text p) = Inr p"
    "0 < length (plan_text p)" "length (plan_text p) \<le> maxEncodedReviewRunPlanBytes"
proof -
  obtain s where s: "EncodeReviewRunPlan H p = Inr s" using plan_encodable [OF assms] by blast
  then show "EncodeReviewRunPlan H p = Inr (plan_text p)" and "length (plan_text p) \<le> maxEncodedReviewRunPlanBytes"
    by (auto simp: EncodeReviewRunPlan_def check_def encode_bounded_Inr plan_text_def split: option.splits)
  with plan_roundtrip [OF assms] show "ParseReviewRunPlan H (plan_text p) = Inr p" by simp
  show "0 < length (plan_text p)" by (simp add: plan_text_def reviewRunPlanRecord_json_def json_object_def)
qed

lemma loadPlan_represents:
  assumes "sum256 H" and r: "represents H m dir"
  shows "loadPlan H io scope dir = Inr (map_of (mj_plans m) (sc_identity scope))
    \<or> (\<exists>err. loadPlan H io scope dir = Inl err) \<and> (\<exists>call. io_fails io call)"
proof (cases "map_of (mj_plans m) (sc_identity scope)")
  case None
  then show ?thesis
    using representsD(4) [OF r, of "sc_identity scope"] by (auto simp: loadPlan_def planPath_def Let_def)
next
  case (Some p)
  with plan_text_facts [OF assms(1) representsD(6) [OF r Some]] representsD(4,7) [OF r, of "sc_identity scope"]
  show ?thesis by (auto simp: loadPlan_def planPath_def Let_def)
qed

section \<open>Storing\<close>

text \<open>Nothing fails, the name of the temporary file is free and the directory is not overfull.\<close>

definition undisturbed :: "file_io \<Rightarrow> directory \<Rightarrow> bool" where
  "undisturbed io dir \<longleftrightarrow> (\<forall>call. \<not> io_fails io call) \<and> map_of dir (''.plan-write-'' @ io_random io) = None
     \<and> map_of dir (''.run-write-'' @ io_random io) = None \<and> length dir \<le> maxRunJournalStreamEvents * 2 + 1"

text \<open>
  How a call that changes the directory relates to the memory journal before and after it. A call
  that reports success has its effect; one that fails may have had it or not.
\<close>

definition simulates :: "sha \<Rightarrow> MemoryRunJournal \<Rightarrow> MemoryRunJournal \<Rightarrow> error option \<Rightarrow> error option \<Rightarrow> bool \<Rightarrow> directory \<Rightarrow> bool" where
  "simulates H m m' merr err calm_call dir' \<longleftrightarrow>
     (represents H m dir' \<or> represents H m' dir')
     \<and> (err = None \<or> calm_call \<longrightarrow> err = merr \<and> represents H m' dir')"

lemma simulates_same: "represents H m dir \<Longrightarrow> simulates H m m err err q dir"
  by (simp add: simulates_def)

lemma simulates_fails: "represents H m dir \<Longrightarrow> \<not> q \<Longrightarrow> simulates H m m' merr (Some err) q dir"
  by (simp add: simulates_def)

lemma simulates_replace:
  assumes r: "represents H m dir" and r': "represents H m' (AList.update path (private_file content) dir)"
    and f: "replace_file io ErrRunJournalPersistence pattern path content calls dir = (err, dir')"
    and name: "decimal (io_random io)" "last pattern = CHR ''-''" "pattern \<noteq> []"
    and q: "q \<Longrightarrow> (\<forall>call. \<not> io_fails io call) \<and> map_of dir (pattern @ io_random io) = None"
  shows "simulates H m m' None err q dir'"
proof -
  note temp = represents_temporary [OF r temporary_name(1,2) [OF name]]
  show ?thesis
    using replace_file_result [OF f] temp r r' q by (auto simp: simulates_def)
qed

lemma replaceStream_simulates:
  assumes "sum256 H" and r: "represents H m dir" and link: "link_ok H k (mj_stream m k) e"
    and scope: "sc_identity scope = k" and "decimal (io_random io)" and q: "q \<Longrightarrow> undisturbed io dir"
    and f: "replaceStream H io scope (mj_stream m k @ [e]) dir = (err, dir')"
  shows "simulates H m (m\<lparr>mj_streams := AList.update k (mj_stream m k @ [e]) (mj_streams m)\<rparr>) None err q dir'"
proof -
  let ?es = "mj_stream m k @ [e]"
  have wf: "stream_wf H k ?es" using representsD(5) [OF r] link by (simp add: stream_wf_snoc)
  have "0 + 6001 * length ?es \<le> maxRunJournalStreamBytes"
    using stream_wf_length [OF wf] by (simp add: maxRunJournalStreamBytes_def maxRunJournalStreamEvents_def)
  then have "encode_events H 0 ?es = Inr (map event_text ?es)"
    using encode_events_text [OF assms(1)] stream_wf_storable [OF wf] by (auto simp: storable_def)
  with f obtain calls where "replace_file io ErrRunJournalPersistence ''.run-write-'' (k @ runJournalStreamSuffix) (stream_text ?es) calls dir
      = (err, dir')"
    by (auto simp: replaceStream_def stream_text_def streamPath_def scope)
  from simulates_replace [OF r represents_stream [OF r wf] this assms(5)] q show ?thesis
    by (auto simp: undisturbed_def)
qed

lemma replacePlan_simulates:
  assumes "sum256 H" and r: "represents H m dir" and wf: "plan_wf H p"
    and "decimal (io_random io)" and q: "q \<Longrightarrow> undisturbed io dir"
    and f: "replacePlan H io p dir = (err, dir')"
  shows "simulates H m (m\<lparr>mj_plans := AList.update (sc_identity (rp_scope p)) p (mj_plans m)\<rparr>) None err q dir'"
proof -
  from f obtain calls where "replace_file io ErrRunJournalPersistence ''.plan-write-'' (planPath (rp_scope p)) (plan_text p) calls dir = (err, dir')"
    by (auto simp: replacePlan_def plan_text_facts [OF assms(1) wf])
  from simulates_replace [OF r represents_plan [OF r wf] this assms(4)] q show ?thesis
    by (auto simp: undisturbed_def)
qed


section \<open>The calls\<close>

definition monotone_after :: "RunEvent list \<Rightarrow> RunEvent \<Rightarrow> bool" where
  "monotone_after es e \<longleftrightarrow> es = [] \<or> ev_occurredAtMillis (last es) \<le> ev_occurredAtMillis e"

lemma Append_simulates:
  assumes "sum256 H" and r: "represents H m (fj_files j)" and open_: "\<not> fj_closed j"
    and "decimal (io_random io)" and e: "event_ints e" "utf8_ValidString (ev_workerIdentity e)"
    and time: "head_of (mj_stream m (sc_identity (ev_scope e))) = h \<Longrightarrow>
      ev_sequence e = Suc (length (mj_stream m (sc_identity (ev_scope e)))) \<Longrightarrow>
      monotone_after (mj_stream m (sc_identity (ev_scope e))) e"
    and head: "h = [] \<or> validControlPlaneDigest h"
    and f: "FileRunJournal_Append H io ctx h e j = (err, j')"
    and mm: "MemoryRunJournal_Append H ctx h e m = (merr, m')"
  shows "\<not> fj_closed j' \<and> simulates H m m' merr err (undisturbed io (fj_files j)) (fj_files j')"
proof (cases "validateContext ctx = None \<and> RunEvent_Validate H e = None")
  case False
  with f mm head open_ r show ?thesis
    by (auto simp: FileRunJournal_Append_def MemoryRunJournal_Append_def simulates_same split: option.splits)
next
  case True
  let ?k = "sc_identity (ev_scope e)"
  let ?es = "mj_stream m ?k"
  note loads = loadStream_represents [OF assms(1) r, of io "ev_scope e"]
    loadPlan_represents [OF assms(1) r, of io "ev_scope e"]
  show ?thesis
  proof (cases "\<not> io_fails io (ContextCheck 0) \<and> loadStream H io (ev_scope e) (fj_files j) = Inr ?es
      \<and> loadPlan H io (ev_scope e) (fj_files j) = Inr (map_of (mj_plans m) ?k)")
    case False
    then have "\<not> undisturbed io (fj_files j)" using loads by (auto simp: undisturbed_def)
    moreover have "j' = j \<and> err \<noteq> None"
      using f True head open_ False loads by (auto simp: FileRunJournal_Append_def split: if_splits)
    ultimately show ?thesis using open_ r simulates_fails by auto
  next
    case loaded: True
    let ?head = "if ?es = [] then [] else ev_identity (last ?es)"
    let ?accept = "(\<forall>p. map_of (mj_plans m) ?k = Some p \<longrightarrow> rp_identity p = ev_planIdentity e)
      \<and> (?es \<noteq> [] \<longrightarrow> ev_planIdentity (hd ?es) = ev_planIdentity e \<and> ev_identity (last ?es) \<noteq> ev_identity e)
      \<and> ?head = h \<and> ev_sequence e = length ?es + 1 \<and> ev_previousIdentity e = ?head
      \<and> length ?es < maxRunJournalStreamEvents"
    show ?thesis
    proof (cases ?accept)
      case False
      then have "merr = err \<and> j' = j \<and> m' = m"
        using f mm True loaded head open_
        by (auto simp: FileRunJournal_Append_def MemoryRunJournal_Append_def Let_def
            split: if_splits option.splits)
      with r open_ simulates_same show ?thesis by blast
    next
      case accept: True
      then have "monotone_after ?es e" by (intro time) (simp_all add: head_of_def)
      then have link: "link_ok H ?k ?es e"
        using accept True e by (auto simp: link_ok_def storable_def head_of_def monotone_after_def)
      have "merr = None" "m' = m\<lparr>mj_streams := AList.update ?k (?es @ [e]) (mj_streams m)\<rparr>"
        using accept mm True by (auto simp: MemoryRunJournal_Append_def Let_def split: if_splits option.splits)
      moreover have "replaceStream H io (ev_scope e) (?es @ [e]) (fj_files j) = (err, fj_files j') \<and> \<not> fj_closed j'"
        using accept f True loaded head open_
        by (auto simp: FileRunJournal_Append_def Let_def split: if_splits option.splits prod.splits)
      ultimately show ?thesis
        using replaceStream_simulates [OF assms(1) r link refl assms(4)] by blast
    qed
  qed
qed

lemma SavePlan_simulates:
  assumes "sum256 H" and r: "represents H m (fj_files j)" and open_: "\<not> fj_closed j"
    and "decimal (io_random io)" and wf: "plan_wf H p"
    and f: "FileRunJournal_SavePlan H io ctx p j = (err, j')"
    and mm: "MemoryRunJournal_SavePlan H ctx p m = (merr, m')"
  shows "\<not> fj_closed j' \<and> simulates H m m' merr err (undisturbed io (fj_files j)) (fj_files j')"
proof (cases "validateContext ctx = None \<and> ReviewRunPlan_Validate H p = None")
  case False
  with f mm open_ r show ?thesis
    by (auto simp: FileRunJournal_SavePlan_def MemoryRunJournal_SavePlan_def simulates_same split: option.splits)
next
  case True
  let ?k = "sc_identity (rp_scope p)"
  let ?es = "mj_stream m ?k"
  note loads = loadStream_represents [OF assms(1) r, of io "rp_scope p"]
    loadPlan_represents [OF assms(1) r, of io "rp_scope p"]
  show ?thesis
  proof (cases "loadPlan H io (rp_scope p) (fj_files j) = Inr (map_of (mj_plans m) ?k)
      \<and> (map_of (mj_plans m) ?k = None \<longrightarrow> loadStream H io (rp_scope p) (fj_files j) = Inr ?es)")
    case False
    then have "\<not> undisturbed io (fj_files j)" using loads by (auto simp: undisturbed_def)
    moreover have "j' = j \<and> err \<noteq> None"
      using f True open_ False loads by (auto simp: FileRunJournal_SavePlan_def split: if_splits option.splits)
    ultimately show ?thesis using open_ r simulates_fails by auto
  next
    case loaded: True
    show ?thesis
    proof (cases "map_of (mj_plans m) ?k = None \<and> (?es = [] \<or> ev_planIdentity (hd ?es) = rp_identity p)")
      case False
      then have "merr = err \<and> j' = j \<and> m' = m"
        using f mm True loaded open_
        by (auto simp: FileRunJournal_SavePlan_def MemoryRunJournal_SavePlan_def Let_def
            split: if_splits option.splits)
      with r open_ simulates_same show ?thesis by blast
    next
      case accept: True
      then have "merr = None" "m' = m\<lparr>mj_plans := AList.update ?k p (mj_plans m)\<rparr>"
        using mm True by (auto simp: MemoryRunJournal_SavePlan_def Let_def split: if_splits)
      moreover have "replacePlan H io p (fj_files j) = (err, fj_files j') \<and> \<not> fj_closed j'"
        using accept f True loaded open_
        by (auto simp: FileRunJournal_SavePlan_def split: if_splits prod.splits)
      ultimately show ?thesis
        using replacePlan_simulates [OF assms(1) r wf assms(4)] by blast
    qed
  qed
qed

text \<open>The queries leave the journal as it is; each answers as the memory journal does or fails.\<close>

definition answers :: "(error + 'a) \<Rightarrow> (error + 'a) \<Rightarrow> bool \<Rightarrow> bool" where
  "answers res mres calm_call \<longleftrightarrow> res = mres \<or> (\<exists>err. res = Inl err) \<and> \<not> calm_call"

lemma LoadPlan_answers:
  assumes "sum256 H" and "represents H m (fj_files j)" and "\<not> fj_closed j"
    and "FileRunJournal_LoadPlan H io ctx scope j = (res, j')"
  shows "j' = j \<and> answers res (fst (MemoryRunJournal_LoadPlan H ctx scope m)) (undisturbed io (fj_files j))"
  using assms(3,4) loadPlan_represents [OF assms(1,2), of io scope]
  by (auto simp: FileRunJournal_LoadPlan_def MemoryRunJournal_LoadPlan_def answers_def undisturbed_def
      split: option.splits)

lemma Head_answers:
  assumes "sum256 H" and "represents H m (fj_files j)" and "\<not> fj_closed j"
    and "FileRunJournal_Head H io ctx scope j = (res, j')"
  shows "j' = j \<and> answers res (fst (MemoryRunJournal_Head H ctx scope m)) (undisturbed io (fj_files j))"
  using assms(3,4) loadStream_represents [OF assms(1,2), of io scope]
  by (auto simp: FileRunJournal_Head_def MemoryRunJournal_Head_def answers_def undisturbed_def Let_def
      split: option.splits)

lemma Read_answers:
  assumes "sum256 H" and "represents H m (fj_files j)" and "\<not> fj_closed j"
    and "FileRunJournal_Read H io ctx scope after limit j = (res, j')"
  shows "j' = j \<and> answers res (fst (MemoryRunJournal_Read H ctx scope after limit m)) (undisturbed io (fj_files j))"
  using loadStream_represents [OF assms(1,2), of io scope]
proof
  assume "loadStream H io scope (fj_files j) = Inr (mj_stream m (sc_identity scope))"
  with assms(3,4) show ?thesis
    by (auto simp: FileRunJournal_Read_def MemoryRunJournal_Read_def answers_def Let_def
        split: option.splits if_splits)
next
  assume "(\<exists>err. loadStream H io scope (fj_files j) = Inl err) \<and> (\<exists>call. io_fails io call)"
  then obtain err where "loadStream H io scope (fj_files j) = Inl err" "\<exists>call. io_fails io call" by blast
  moreover from this assms(3) have "FileRunJournal_Read H io ctx scope after limit j =
      (fst (MemoryRunJournal_Read H ctx scope after limit m), j)
      \<or> FileRunJournal_Read H io ctx scope after limit j = (Inl err, j)"
    by (auto simp: FileRunJournal_Read_def MemoryRunJournal_Read_def split: option.splits)
  ultimately show ?thesis using assms(4) by (auto simp: answers_def undisturbed_def)
qed

text \<open>
  The listing. The files with the suffix of a plan are the plans of the memory journal, in the order
  of their names; sorted by run identifier, the ones of a repository come out in the same order.
\<close>

lemma list_plan_files_result:
  assumes "sum256 H" and "distinct (map fst dir)"
    and files: "\<And>name entry. (name, entry) \<in> set dir \<Longrightarrow> suffix runJournalPlanSuffix name \<Longrightarrow>
      \<exists>p. plan_wf H p \<and> name = planPath (rp_scope p) \<and> entry = private_file (plan_text p)"
  shows "(\<exists>ps. list_plan_files H io dir = Inr ps \<and> distinct (map (\<lambda>p. sc_identity (rp_scope p)) ps) \<and>
      set ps = {p. plan_wf H p \<and> (planPath (rp_scope p), private_file (plan_text p)) \<in> set dir})
    \<or> (\<exists>err. list_plan_files H io dir = Inl err) \<and> (\<exists>call. io_fails io call)"
  using assms(2) files
proof (induction dir)
  case (Cons x dir)
  obtain name entry where x: "x = (name, entry)" by (cases x)
  have d: "distinct (map fst dir)" "name \<notin> fst ` set dir" using Cons.prems(1) by (simp_all add: x)
  note rest = Cons.IH [OF d(1) Cons.prems(2)]
  show ?case
  proof (cases "suffix runJournalPlanSuffix name")
    case False
    then have "\<forall>scope. name \<noteq> planPath scope" by (auto simp: planPath_def suffix_def)
    with False rest show ?thesis by (auto simp: x)
  next
    case True
    then obtain p where p: "plan_wf H p" "name = planPath (rp_scope p)" "entry = private_file (plan_text p)"
      using Cons.prems(2) [of name entry] by (auto simp: x)
    note t = plan_text_facts [OF assms(1) p(1)]
    have other: "planPath (rp_scope q) \<noteq> name" if "(planPath (rp_scope q), f) \<in> set dir" for q f
      using d(2) that by force
    have same: "q = p" if "plan_wf H q" "plan_text q = plan_text p" for q
      using plan_text_facts(2) [OF assms(1) that(1)] t(2) that(2) by (metis sum.inject(2))
    show ?thesis
    proof (cases "io_fails io (InfoCall name) \<or> io_fails io (ReadCall name 0) \<or> (\<exists>err. list_plan_files H io dir = Inl err)")
      case bad: True
      then have "\<exists>call. io_fails io call" using rest by auto
      with bad True p t show ?thesis by (auto simp: x)
    next
      case False
      with rest obtain ps where ps: "list_plan_files H io dir = Inr ps"
          "distinct (map (\<lambda>p. sc_identity (rp_scope p)) ps)"
          "set ps = {p. plan_wf H p \<and> (planPath (rp_scope p), private_file (plan_text p)) \<in> set dir}" by auto
      have "list_plan_files H io (x # dir) = Inr (p # ps)" using False True p t ps(1) by (simp add: x)
      moreover have "sc_identity (rp_scope q) \<noteq> sc_identity (rp_scope p)" if "q \<in> set ps" for q
        using that other ps(3) p(2) by (auto simp: planPath_def)
      moreover have "plan_wf H q \<and> (planPath (rp_scope q), private_file (plan_text q)) \<in> set (x # dir) \<longleftrightarrow>
          q \<in> set (p # ps)" for q
        using ps(3) p same [of q] by (auto simp: x private_file_def)
      ultimately show ?thesis using ps(2) by fastforce
    qed
  qed
qed simp

lemma represents_plan_file:
  assumes r: "represents H m dir" and "(name, entry) \<in> set dir" and "suffix runJournalPlanSuffix name"
  shows "\<exists>p. plan_wf H p \<and> name = planPath (rp_scope p) \<and> entry = private_file (plan_text p)"
proof -
  obtain k where k: "name = k @ runJournalPlanSuffix" using assms(3) by (auto simp: suffix_def)
  have "map_of dir name = Some entry" using representsD(1) [OF r] assms(2) by simp
  then obtain p where p: "map_of (mj_plans m) k = Some p" "entry = private_file (plan_text p)"
    using representsD(4) [OF r, of k] by (auto simp: k)
  with representsD(6,7) [OF r p(1)] k show ?thesis by (auto simp: planPath_def)
qed

lemma represents_plan_set:
  assumes "sum256 H" and r: "represents H m dir"
  shows "{p. plan_wf H p \<and> (planPath (rp_scope p), private_file (plan_text p)) \<in> set dir} = snd ` set (mj_plans m)"
proof -
  have "plan_wf H p \<and> (planPath (rp_scope p), private_file (plan_text p)) \<in> set dir \<longleftrightarrow>
      map_of (mj_plans m) (sc_identity (rp_scope p)) = Some p" (is "?l \<longleftrightarrow> ?r") for p
  proof
    assume l: ?l
    then have "map_of dir (sc_identity (rp_scope p) @ runJournalPlanSuffix) = Some (private_file (plan_text p))"
      using representsD(1) [OF r] by (simp add: planPath_def)
    then obtain q where q: "map_of (mj_plans m) (sc_identity (rp_scope p)) = Some q" "plan_text q = plan_text p"
      using representsD(4) [OF r, of "sc_identity (rp_scope p)"] by (auto simp: private_file_def)
    then have "q = p" using plan_text_facts(2) [OF assms(1)] representsD(6) [OF r q(1)] l by (metis sum.inject(2))
    with q show ?r by simp
  next
    assume ?r
    with representsD(4) [OF r, of "sc_identity (rp_scope p)"] representsD(6) [OF r] show ?l
      by (auto simp: planPath_def dest: map_of_SomeD)
  qed
  moreover have "p \<in> snd ` set (mj_plans m) \<longleftrightarrow> map_of (mj_plans m) (sc_identity (rp_scope p)) = Some p" for p
    using representsD(2) [OF r] representsD(7) [OF r] by (force simp: image_iff)
  ultimately show ?thesis by blast
qed

lemma sort_key_unique:
  assumes "set xs = set ys" and "inj_on f (set xs)" and "distinct xs" and "distinct ys"
  shows "sort_key f xs = sort_key f ys"
  by (rule map_sorted_distinct_set_unique [of f]) (use assms in \<open>auto simp: distinct_map\<close>)

lemma same_listing:
  assumes r: "represents H m dir" and ps: "distinct (map (\<lambda>p. sc_identity (rp_scope p)) ps)"
    "set ps = snd ` set (mj_plans m)"
  shows "sort_key run_of (filter (selected t rep after) ps) =
    sort_key run_of (filter (selected t rep after) (map snd (mj_plans m)))"
proof (rule sort_key_unique)
  have plans: "plan_wf H p \<and> sc_identity (rp_scope p) = k" if "(k, p) \<in> set (mj_plans m)" for k p
    using that representsD(2,6,7) [OF r] by simp
  show "set (filter (selected t rep after) ps) = set (filter (selected t rep after) (map snd (mj_plans m)))"
    using ps(2) by auto
  have inj: "inj_on (\<lambda>p. sc_identity (rp_scope p)) (set ps)" using ps(1) by (simp add: distinct_map)
  show "inj_on run_of (set (filter (selected t rep after) ps))"
  proof (rule inj_onI)
    fix p q
    assume pq: "p \<in> set (filter (selected t rep after) ps)" "q \<in> set (filter (selected t rep after) ps)"
      "run_of p = run_of q"
    then have "plan_wf H p" "plan_wf H q" using ps(2) plans by auto
    then have "sc_identity (rp_scope p) = sc_identity (rp_scope q)"
      using pq by (intro scope_determined) (auto simp: selected_def)
    with inj pq show "p = q" by (simp add: inj_on_def)
  qed
  show "distinct (filter (selected t rep after) ps)" using ps(1) by (simp add: distinct_map)
  have "inj_on snd (set (mj_plans m))"
    using plans by (metis inj_onI prod.collapse)
  then show "distinct (filter (selected t rep after) (map snd (mj_plans m)))"
    using representsD(2) [OF r] by (simp add: distinct_map)
qed

lemma listing_represents:
  assumes "sum256 H" and r: "represents H m dir"
  shows "(\<exists>ps. list_plan_files H io (sort_key fst dir) = Inr ps
      \<and> (\<forall>t rep after. sort_key run_of (filter (selected t rep after) ps) =
            sort_key run_of (filter (selected t rep after) (map snd (mj_plans m)))))
    \<or> (\<exists>err. list_plan_files H io (sort_key fst dir) = Inl err) \<and> (\<exists>call. io_fails io call)"
proof -
  have "distinct (map fst (sort_key fst dir))" using representsD(1) [OF r] by (simp add: distinct_map)
  then have "(\<exists>ps. list_plan_files H io (sort_key fst dir) = Inr ps
      \<and> distinct (map (\<lambda>p. sc_identity (rp_scope p)) ps) \<and>
      set ps = {p. plan_wf H p \<and> (planPath (rp_scope p), private_file (plan_text p)) \<in> set (sort_key fst dir)})
    \<or> (\<exists>err. list_plan_files H io (sort_key fst dir) = Inl err) \<and> (\<exists>call. io_fails io call)"
    by (rule list_plan_files_result [OF assms(1)]) (use represents_plan_file [OF r] in simp)
  then show ?thesis
  proof (elim disjE exE conjE)
    fix ps
    assume ps: "list_plan_files H io (sort_key fst dir) = Inr ps"
      "distinct (map (\<lambda>p. sc_identity (rp_scope p)) ps)"
      "set ps = {p. plan_wf H p \<and> (planPath (rp_scope p), private_file (plan_text p)) \<in> set (sort_key fst dir)}"
    then have "set ps = snd ` set (mj_plans m)" using represents_plan_set [OF assms(1) r] by simp
    with same_listing [OF r ps(2)] ps(1) show ?thesis by blast
  qed blast
qed

lemma ListPlans_answers:
  assumes "sum256 H" and r: "represents H m (fj_files j)" and "\<not> fj_closed j"
    and f: "FileRunJournal_ListPlans H io ctx tenant repository after limit j = (res, j')"
  shows "j' = j \<and> answers res (fst (MemoryRunJournal_ListPlans ctx tenant repository after limit m))
    (undisturbed io (fj_files j))"
proof -
  let ?bad = "\<not> validRunPlanQuery tenant \<or> \<not> validRunPlanQuery repository
    \<or> after \<noteq> [] \<and> \<not> validRunPlanQuery after \<or> limit \<le> 0 \<or> limit > int maxRunJournalReadLimit"
  let ?full = "io_fails io ReadDirCall \<or> length (fj_files j) > maxRunJournalStreamEvents * 2 + 1"
  consider "validateContext ctx \<noteq> None \<or> ?bad" | "validateContext ctx = None" "?bad = False" ?full
    | err call where "validateContext ctx = None" "?bad = False" "\<not> ?full"
        "list_plan_files H io (sort_key fst (fj_files j)) = Inl err" "io_fails io call"
    | ps where "validateContext ctx = None" "?bad = False" "\<not> ?full"
        "list_plan_files H io (sort_key fst (fj_files j)) = Inr ps"
        "sort_key run_of (filter (selected tenant repository after) ps) =
           sort_key run_of (filter (selected tenant repository after) (map snd (mj_plans m)))"
    using listing_represents [OF assms(1) r, of io] by blast
  then show ?thesis
  proof cases
    case 1
    with f show ?thesis
      by (cases "validateContext ctx")
        (auto simp: FileRunJournal_ListPlans_def MemoryRunJournal_ListPlans_def answers_def)
  next
    case 2
    then have "\<not> undisturbed io (fj_files j)" by (auto simp: undisturbed_def)
    with 2 f assms(3) show ?thesis by (auto simp: FileRunJournal_ListPlans_def answers_def split: if_splits)
  next
    case 3
    then have "\<not> undisturbed io (fj_files j)" by (auto simp: undisturbed_def)
    moreover have "FileRunJournal_ListPlans H io ctx tenant repository after limit j = (Inl err, j)"
      using 3 assms(3) unfolding FileRunJournal_ListPlans_def
      by (simp only: option.case sum.case if_False de_Morgan_disj simp_thms)
    ultimately show ?thesis using f by (auto simp: answers_def)
  next
    case 4
    have "FileRunJournal_ListPlans H io ctx tenant repository after limit j =
        (fst (MemoryRunJournal_ListPlans ctx tenant repository after limit m), j)"
      using 4 assms(3) unfolding FileRunJournal_ListPlans_def MemoryRunJournal_ListPlans_def Let_def selected_def [abs_def]
      by (simp only: option.case sum.case if_False de_Morgan_disj fst_conv simp_thms)
    with f show ?thesis by (auto simp: answers_def)
  qed
qed

section \<open>The interface\<close>

datatype journal_call =
    CallSavePlan ReviewRunPlan
  | CallLoadPlan ReviewScope
  | CallListPlans string string string int
  | CallHead ReviewScope
  | CallAppend string RunEvent
  | CallRead ReviewScope nat int

datatype journal_result =
    Stored "error option"
  | FoundPlan "error + ReviewRunPlan option"
  | FoundPlans "error + ReviewRunPlan list"
  | FoundHead "error + RunEvent option"
  | FoundEvents "error + RunEvent list"

fun journal_do :: "'s RunJournal \<Rightarrow> gocontext \<Rightarrow> journal_call \<Rightarrow> 's \<Rightarrow> journal_result \<times> 's" where
  "journal_do J ctx (CallSavePlan plan) s = map_prod Stored id (rj_SavePlan J ctx plan s)"
| "journal_do J ctx (CallLoadPlan scope) s = map_prod FoundPlan id (rj_LoadPlan J ctx scope s)"
| "journal_do J ctx (CallListPlans tenant repository after limit) s =
     map_prod FoundPlans id (rj_ListPlans J ctx tenant repository after limit s)"
| "journal_do J ctx (CallHead scope) s = map_prod FoundHead id (rj_Head J ctx scope s)"
| "journal_do J ctx (CallAppend head event) s = map_prod Stored id (rj_Append J ctx head event s)"
| "journal_do J ctx (CallRead scope after limit) s =
     map_prod FoundEvents id (rj_Read J ctx scope after limit s)"

fun failed :: "journal_result \<Rightarrow> bool" where
  "failed (Stored err) \<longleftrightarrow> err \<noteq> None"
| "failed (FoundPlan res) \<longleftrightarrow> (\<exists>err. res = Inl err)"
| "failed (FoundPlans res) \<longleftrightarrow> (\<exists>err. res = Inl err)"
| "failed (FoundHead res) \<longleftrightarrow> (\<exists>err. res = Inl err)"
| "failed (FoundEvents res) \<longleftrightarrow> (\<exists>err. res = Inl err)"

text \<open>
  The calls that can be stored: plans of the constructor, and events with a worker name in UTF-8,
  integers in the range of their types, not dated before the last event of the stream.
\<close>

fun storable_call :: "sha \<Rightarrow> MemoryRunJournal \<Rightarrow> journal_call \<Rightarrow> bool" where
  "storable_call H m (CallSavePlan plan) \<longleftrightarrow> plan_wf H plan"
| "storable_call H m (CallAppend head event) \<longleftrightarrow>
     (head = [] \<or> validControlPlaneDigest head) \<and> event_ints event
     \<and> utf8_ValidString (ev_workerIdentity event)
     \<and> monotone_after (mj_stream m (sc_identity (ev_scope event))) event"
| "storable_call H m _ \<longleftrightarrow> True"

lemma with_io_eq:
  "with_io f (j, ios) = (x, w') \<longleftrightarrow> (\<exists>j'. f (shd ios) j = (x, j') \<and> w' = (j', stl ios))"
  by (auto simp: with_io_def split: prod.splits)

lemma memory_query:
  "snd (MemoryRunJournal_LoadPlan H ctx scope m) = m" "snd (MemoryRunJournal_Head H ctx scope m) = m"
  "snd (MemoryRunJournal_Read H ctx scope after limit m) = m"
  "snd (MemoryRunJournal_ListPlans ctx tenant repository run limit m) = m"
  by (auto simp: MemoryRunJournal_LoadPlan_def MemoryRunJournal_Head_def MemoryRunJournal_Read_def
      MemoryRunJournal_ListPlans_def Let_def split: option.splits)

lemmas journal_records = fileJournal_def memoryJournal_def

text \<open>
  C2. The file journal implements the memory journal, for the calls that can be
  stored. From a directory that stands for a memory journal, such a call leads to a directory that
  stands for the memory journal before or after the same call, whatever fails on the way (a process
  that is stopped leaves what a failed call with a failed clean-up leaves); if the call reports no
  error, it has the result and the effect of the memory journal; if nothing fails, it has them in any
  case, errors included. Every query can be made. A plan can be stored when the constructor has
  built it. An append can be stored when the worker name is UTF-8, the event is not dated before the
  last one of its stream, its integers lie in the range of their Go types, and the expected head is
  empty or a digest. Events outside these conditions are accepted and make the stream unreadable.
\<close>

theorem file_refines_memory:
  assumes "sum256 H" and "represents H m (fj_files j)" and "\<not> fj_closed j"
    and "decimal (io_random (shd ios))" and "storable_call H m call"
    and "journal_do (fileJournal H) ctx call (j, ios) = (res, (j', ios'))"
    and "journal_do (memoryJournal H) ctx call m = (mres, m')"
  shows "\<not> fj_closed j' \<and> (represents H m (fj_files j') \<or> represents H m' (fj_files j'))
    \<and> (\<not> failed res \<or> undisturbed (shd ios) (fj_files j) \<longrightarrow> res = mres \<and> represents H m' (fj_files j'))"
proof (cases call)
  case (CallSavePlan plan)
  with assms(6,7) obtain err merr where f: "FileRunJournal_SavePlan H (shd ios) ctx plan j = (err, j')"
      and "MemoryRunJournal_SavePlan H ctx plan m = (merr, m')" "res = Stored err" "mres = Stored merr"
    by (auto simp: journal_records with_io_eq map_prod_def split: prod.splits)
  with SavePlan_simulates [OF assms(1-4) _ f] CallSavePlan assms(5) show ?thesis by (auto simp: simulates_def)
next
  case (CallAppend head event)
  with assms(6,7) obtain err merr where f: "FileRunJournal_Append H (shd ios) ctx head event j = (err, j')"
      and "MemoryRunJournal_Append H ctx head event m = (merr, m')" "res = Stored err" "mres = Stored merr"
    by (auto simp: journal_records with_io_eq map_prod_def split: prod.splits)
  with Append_simulates [OF assms(1-4) _ _ _ _ f] CallAppend assms(5) show ?thesis by (auto simp: simulates_def)
next
  case (CallLoadPlan scope)
  with assms(6,7) memory_query(1) [of H ctx scope m] obtain r where f: "FileRunJournal_LoadPlan H (shd ios) ctx scope j = (r, j')"
      and "res = FoundPlan r" "mres = FoundPlan (fst (MemoryRunJournal_LoadPlan H ctx scope m))" "m' = m"
    by (auto simp: journal_records with_io_eq map_prod_def split: prod.splits)
  with LoadPlan_answers [OF assms(1-3) f] assms(2,3) show ?thesis by (auto simp: answers_def)
next
  case (CallHead scope)
  with assms(6,7) memory_query(2) [of H ctx scope m] obtain r where f: "FileRunJournal_Head H (shd ios) ctx scope j = (r, j')"
      and "res = FoundHead r" "mres = FoundHead (fst (MemoryRunJournal_Head H ctx scope m))" "m' = m"
    by (auto simp: journal_records with_io_eq map_prod_def split: prod.splits)
  with Head_answers [OF assms(1-3) f] assms(2,3) show ?thesis by (auto simp: answers_def)
next
  case (CallRead scope after limit)
  with assms(6,7) memory_query(3) [of H ctx scope after limit m] obtain r where f: "FileRunJournal_Read H (shd ios) ctx scope after limit j = (r, j')"
      and "res = FoundEvents r" "mres = FoundEvents (fst (MemoryRunJournal_Read H ctx scope after limit m))" "m' = m"
    by (auto simp: journal_records with_io_eq map_prod_def split: prod.splits)
  with Read_answers [OF assms(1-3) f] assms(2,3) show ?thesis by (auto simp: answers_def)
next
  case (CallListPlans tenant repository after limit)
  with assms(6,7) memory_query(4) [of ctx tenant repository after limit m] obtain r where f: "FileRunJournal_ListPlans H (shd ios) ctx tenant repository after limit j = (r, j')"
      and "res = FoundPlans r" "mres = FoundPlans (fst (MemoryRunJournal_ListPlans ctx tenant repository after limit m))" "m' = m"
    by (auto simp: journal_records with_io_eq map_prod_def split: prod.splits)
  with ListPlans_answers [OF assms(1-3) f] assms(2,3) show ?thesis by (auto simp: answers_def)
qed

section \<open>What cannot be stored\<close>

text \<open>An event that the memory journal appends is appended by the file journal too when nothing fails.\<close>

lemma Append_stored:
  assumes "sum256 H" and r: "represents H m (fj_files j)" and open_: "\<not> fj_closed j" and "event_ints e"
    and calm: "undisturbed io (fj_files j)"
    and mm: "MemoryRunJournal_Append H ctx h e m = (None, m')" and "m' \<noteq> m"
  shows "\<exists>j'. FileRunJournal_Append H io ctx h e j = (None, j') \<and>
    map_of (fj_files j') (streamPath (ev_scope e)) =
      Some (private_file (stream_text (mj_stream m (sc_identity (ev_scope e)) @ [e])))"
proof -
  let ?k = "sc_identity (ev_scope e)"
  let ?es = "mj_stream m ?k" and ?head = "if mj_stream m ?k = [] then [] else ev_identity (last (mj_stream m ?k))"
  have accept: "validateContext ctx = None" "RunEvent_Validate H e = None"
      "\<forall>p. map_of (mj_plans m) ?k = Some p \<longrightarrow> rp_identity p = ev_planIdentity e"
      "?es \<noteq> [] \<longrightarrow> ev_planIdentity (hd ?es) = ev_planIdentity e \<and> ev_identity (last ?es) \<noteq> ev_identity e"
      "?head = h" "ev_sequence e = length ?es + 1" "ev_previousIdentity e = ?head" "length ?es < maxRunJournalStreamEvents"
    using mm \<open>m' \<noteq> m\<close> by (auto simp: MemoryRunJournal_Append_def Let_def split: if_splits option.splits)
  have stored: "\<forall>x\<in>set (?es @ [e]). RunEvent_Validate H x = None \<and> event_ints x"
    using accept(2) assms(4) stream_wf_storable [OF representsD(5) [OF r]] by (auto simp: storable_def)
  then have "encode_events H 0 (?es @ [e]) = Inr (map event_text (?es @ [e]))"
    using accept(8) by (intro encode_events_text [OF assms(1)])
      (auto simp: maxRunJournalStreamBytes_def maxRunJournalStreamEvents_def)
  then obtain calls where "\<forall>dir. replaceStream H io (ev_scope e) (?es @ [e]) dir = replace_file io ErrRunJournalPersistence
      ''.run-write-'' (streamPath (ev_scope e)) (stream_text (?es @ [e])) calls dir"
    by (auto simp: replaceStream_def stream_text_def)
  with replace_file_result(2) [of io ErrRunJournalPersistence "''.run-write-''" "streamPath (ev_scope e)"
      "stream_text (?es @ [e])" calls "fj_files j"] calm
  have rep: "replaceStream H io (ev_scope e) (?es @ [e]) (fj_files j) =
      (None, AList.update (streamPath (ev_scope e)) (private_file (stream_text (?es @ [e]))) (fj_files j))"
    by (auto simp: undisturbed_def prod_eq_iff)
  have "h = [] \<or> validControlPlaneDigest h"
    using accept(5) stored event_identity_valid [OF assms(1)] by (auto split: if_splits)
  moreover have "\<not> io_fails io (ContextCheck 0)" "loadStream H io (ev_scope e) (fj_files j) = Inr ?es"
      "loadPlan H io (ev_scope e) (fj_files j) = Inr (map_of (mj_plans m) ?k)"
    using calm loadStream_represents [OF assms(1) r, of io "ev_scope e"]
      loadPlan_represents [OF assms(1) r, of io "ev_scope e"] by (auto simp: undisturbed_def)
  ultimately show ?thesis
    using accept open_ rep
    by (auto simp: FileRunJournal_Append_def Let_def update_conv' split: option.splits)
qed

lemma unreadable_stream:
  assumes "sum256 H" and r: "represents H m dir"
    and stored: "map_of dir' (streamPath scope) =
      Some (private_file (stream_text (mj_stream m (sc_identity scope) @ [e])))"
    and "EncodeRunEvent H e = Inr (event_text e)" and "event_ints e"
    and bad: "\<not> utf8_ValidString (ev_workerIdentity e) \<or> \<not> monotone_after (mj_stream m (sc_identity scope)) e"
  shows "\<exists>err. loadStream H io scope dir' = Inl err"
proof -
  let ?es = "mj_stream m (sc_identity scope)"
  have "\<exists>err. scan_from H io scope ?es [event_text e] = Inl err"
  proof (cases "utf8_ValidString (ev_workerIdentity e)")
    case True
    then have "?es \<noteq> []" "ev_occurredAtMillis e < ev_occurredAtMillis (last ?es)"
      using bad by (auto simp: monotone_after_def)
    with event_roundtrip [OF assms(1,4,5) True] show ?thesis
      by (auto simp: event_text_facts carried_def)
  next
    case False
    with event_unreadable [OF assms(1,4,5)] show ?thesis by (auto simp: event_text_facts)
  qed
  moreover have "scan_from H io scope [] (map event_text ?es @ [event_text e]) = scan_from H io scope ?es [event_text e]
      \<or> (\<exists>err. scan_from H io scope [] (map event_text ?es @ [event_text e]) = Inl err)"
    using scan_stream [OF assms(1), of scope "[]" ?es io "[event_text e]"] representsD(5) [OF r] by auto
  ultimately have "\<exists>err. scan_events H io scope [] [] [] 0 (scanner_lines (stream_text (?es @ [e]))) = Inl err"
    by (auto simp: scanner_stream_text carried_def head_of_def simp del: stream_text_simps)
  with stored show ?thesis by (auto simp: loadStream_def Let_def)
qed

text \<open>
  C36. The file journal stores what it cannot read back. An event whose worker name is not
  UTF-8, or whose time lies before that of the last event, and which the memory journal appends, is
  appended by the file journal too, without an error, when nothing fails. After that every read of
  the stream fails, whatever its arguments, and so does every further append to it.
\<close>

theorem stream_unreadable:
  assumes "sum256 H" and "represents H m (fj_files j)" and "\<not> fj_closed j" and "event_ints e"
    and "undisturbed io (fj_files j)"
    and "MemoryRunJournal_Append H ctx h e m = (None, m')" and "m' \<noteq> m"
    and "\<not> utf8_ValidString (ev_workerIdentity e)
      \<or> \<not> monotone_after (mj_stream m (sc_identity (ev_scope e))) e"
  shows "\<exists>j'. FileRunJournal_Append H io ctx h e j = (None, j')
    \<and> (\<forall>io' ctx' after limit. \<exists>err. fst (FileRunJournal_Read H io' ctx' (ev_scope e) after limit j') = Inl err)
    \<and> (\<forall>io' ctx'. \<exists>err. fst (FileRunJournal_Head H io' ctx' (ev_scope e) j') = Inl err)
    \<and> (\<forall>io' ctx' h' e'. ev_scope e' = ev_scope e \<longrightarrow> (\<exists>err. FileRunJournal_Append H io' ctx' h' e' j' = (Some err, j')))"
proof -
  have "RunEvent_Validate H e = None"
    using assms(6,7) by (auto simp: MemoryRunJournal_Append_def split: option.splits if_splits)
  then have encoded: "EncodeRunEvent H e = Inr (event_text e)" using EncodeRunEvent_text [OF assms(1)] assms(4) by blast
  from Append_stored [OF assms(1-7)] obtain j' where j': "FileRunJournal_Append H io ctx h e j = (None, j')"
      "map_of (fj_files j') (streamPath (ev_scope e)) =
        Some (private_file (stream_text (mj_stream m (sc_identity (ev_scope e)) @ [e])))" by blast
  have load: "\<exists>err. loadStream H io' (ev_scope e) (fj_files j') = Inl err" for io'
    using unreadable_stream [OF assms(1,2) j'(2) encoded assms(4,8)] .
  have "\<exists>err. fst (FileRunJournal_Read H io' ctx' (ev_scope e) after limit j') = Inl err"
      "\<exists>err. fst (FileRunJournal_Head H io' ctx' (ev_scope e) j') = Inl err" for io' ctx' after limit
    using load [of io'] by (auto simp: FileRunJournal_Read_def FileRunJournal_Head_def split: option.splits)
  moreover have "\<exists>err. FileRunJournal_Append H io' ctx' h' e' j' = (Some err, j')" if "ev_scope e' = ev_scope e"
    for io' ctx' h' e'
    using load [of io'] that by (auto simp: FileRunJournal_Append_def split: option.splits)
  ultimately show ?thesis using j'(1) by blast
qed

end
