(* ===== verification/File_Coordinator.thy ===== *)
theory File_Coordinator
  imports File_Journal_Refinement
begin

text \<open>
  The coordinator on the file journal. Under the contract of \<open>run_journal\<close>, whatever the operating
  system refuses, every operation of the coordinator leaves a directory whose stream keeps the promise
  of the coordinator: it replays unless its last event is a renewal that records no later expiry.
\<close>

definition file_stream :: "sha \<Rightarrow> ReviewRunPlan \<Rightarrow> FileRunJournal \<times> file_io stream \<Rightarrow> RunEvent list" where
  "file_stream H plan w =
     (case loadStream H calm (rp_scope plan) (fj_files (fst w)) of Inr es \<Rightarrow> es | Inl _ \<Rightarrow> [])"

definition file_ok :: "sha \<Rightarrow> ReviewRunPlan \<Rightarrow> Lock option \<Rightarrow> FileRunJournal \<times> file_io stream \<Rightarrow> bool" where
  "file_ok H plan L w \<longleftrightarrow>
     replay_context H plan \<and> \<not> fj_closed (fst w) \<and> fj_lockFile (fst w) = L \<and> (\<exists>m. represents H m (fj_files (fst w)))
     \<and> replays_or_stalled H plan (file_stream H plan w) \<and> (\<forall>io\<in>sset (snd w). decimal (io_random io))"

lemma file_stream_represents:
  assumes "sum256 H" and "represents H m (fj_files (fst w))"
  shows "file_stream H plan w = mj_stream m (sc_identity (rp_scope plan))"
  using loadStream_represents [OF assms, of calm "rp_scope plan"]
  by (auto simp: file_stream_def calm_def)

lemma decimal_stl: "\<forall>io\<in>sset ios. decimal (io_random io) \<Longrightarrow>
    decimal (io_random (shd ios)) \<and> (\<forall>io\<in>sset (stl ios). decimal (io_random io))"
  by (cases ios) auto

text \<open>The steps keep the contract when the memory journal they simulate does.\<close>

lemma file_okI:
  assumes "replay_context H plan" and "\<not> fj_closed j" and "represents H m (fj_files j)"
    and "replays_or_stalled H plan (mj_stream m (sc_identity (rp_scope plan)))" and "\<forall>io\<in>sset ios. decimal (io_random io)"
  shows "file_ok H plan (fj_lockFile j) (j, ios)"
proof -
  have "file_stream H plan (j, ios) = mj_stream m (sc_identity (rp_scope plan))"
    using assms(1,3) by (intro file_stream_represents) (simp_all add: replay_context_def)
  with assms show ?thesis by (auto simp: file_ok_def)
qed

lemma promised_monotone:
  "replay_context H plan \<Longrightarrow> replays_or_stalled H plan (es @ [e]) \<Longrightarrow> monotone_after es e"
  using promised.good_order by (auto simp: monotone_after_def)

lemma file_okE:
  assumes "file_ok H plan L (j, ios)"
  obtains m where "represents H m (fj_files j)" "replay_context H plan" "sum256 H" "\<not> fj_closed j"
    "replays_or_stalled H plan (mj_stream m (sc_identity (rp_scope plan)))" "decimal (io_random (shd ios))"
    "\<forall>io\<in>sset (stl ios). decimal (io_random io)"
    "\<forall>is. file_stream H plan (j, is) = mj_stream m (sc_identity (rp_scope plan))"
proof -
  from assms obtain m where m: "represents H m (fj_files j)" "sum256 H" "replay_context H plan" "\<not> fj_closed j"
      "replays_or_stalled H plan (file_stream H plan (j, ios))" "\<forall>io\<in>sset ios. decimal (io_random io)"
    by (auto simp: file_ok_def replay_context_def)
  have stream: "file_stream H plan (j, is) = mj_stream m (sc_identity (rp_scope plan))" for "is"
    using m(1,2) by (intro file_stream_represents) simp_all
  from that [OF m(1,3,2,4)] m(5) stream decimal_stl [OF m(6)] show ?thesis by simp
qed

lemma lock_kept [simp]:
  "FileRunJournal_Append H io c h e j = (err, j') \<Longrightarrow> fj_lockFile j' = fj_lockFile j"
  "FileRunJournal_SavePlan H io c p j = (err, j') \<Longrightarrow> fj_lockFile j' = fj_lockFile j"
  by (auto simp: FileRunJournal_Append_def FileRunJournal_SavePlan_def Let_def
      split: option.splits if_splits sum.splits prod.splits)

lemma file_ok_next:
  assumes "file_ok H plan L (j, ios)" and "\<not> fj_closed j'" and "represents H x (fj_files j')"
    and "replays_or_stalled H plan (mj_stream x (sc_identity (rp_scope plan)))" and "fj_lockFile j' = fj_lockFile j"
  shows "file_ok H plan L (j', stl ios) \<and> file_stream H plan (j', stl ios) = mj_stream x (sc_identity (rp_scope plan))"
proof -
  from assms(1) obtain m where ctx: "replay_context H plan" "sum256 H"
    and dec: "\<forall>io\<in>sset (stl ios). decimal (io_random io)" by (rule file_okE) blast
  from file_okI [OF ctx(1) assms(2-4) dec] file_stream_represents [OF ctx(2), of x "(j', stl ios)"] assms
  show ?thesis by (simp add: file_ok_def)
qed

lemma file_append:
  assumes ok: "file_ok H plan L (j, ios)"
    and fit: "fits (replays_or_stalled H plan) plan (file_stream H plan (j, ios)) h e" and e: "event_ints e" "utf8_ValidString (ev_workerIdentity e)"
    and ap: "FileRunJournal_Append H (shd ios) c h e j = (err, j')"
  shows "file_ok H plan L (j', stl ios)
    \<and> prefix (file_stream H plan (j, ios)) (file_stream H plan (j', stl ios))
    \<and> (err = None \<longrightarrow> file_stream H plan (j', stl ios) \<noteq> []
        \<and> ev_identity (last (file_stream H plan (j', stl ios))) = ev_identity e)"
proof -
  let ?k = "sc_identity (rp_scope plan)"
  from ok obtain m where m: "represents H m (fj_files j)" and ctx: "replay_context H plan" "sum256 H"
    and open_: "\<not> fj_closed j" and rep: "replays_or_stalled H plan (mj_stream m ?k)"
    and dec: "decimal (io_random (shd ios))" and s: "\<forall>is. file_stream H plan (j, is) = mj_stream m ?k"
    by (rule file_okE) blast
  note stream = s [rule_format]
  note new = file_ok_next [OF ok _ _ _ lock_kept(1) [OF ap]]
  have scope: "ev_scope e = rp_scope plan" using fit by (simp add: fits_def)
  have fits: "replays_or_stalled H plan (mj_stream m ?k @ [e])"
    if "head_of (mj_stream m ?k) = h" "ev_sequence e = Suc (length (mj_stream m ?k))"
    using fit rep that unfolding fits_def stream by blast
  show ?thesis
  proof (cases "h = [] \<or> validControlPlaneDigest h")
    case False
    then have "j' = j" "err \<noteq> None" using ap by (cases "validateContext c"; auto simp: FileRunJournal_Append_def)+
    with file_ok_next [OF ok open_ m rep refl] stream show ?thesis by auto
  next
    case True
    obtain merr m' where mm: "MemoryRunJournal_Append H c h e m = (merr, m')"
      by (cases "MemoryRunJournal_Append H c h e m")
    have "monotone_after (mj_stream m ?k) e"
      if "head_of (mj_stream m ?k) = h" "ev_sequence e = Suc (length (mj_stream m ?k))"
      by (rule promised_monotone [OF ctx(1) fits [OF that]])
    with Append_simulates [OF ctx(2) m open_ dec e _ True ap mm] scope
    have sim: "\<not> fj_closed j'" "simulates H m m' merr err (undisturbed (shd ios) (fj_files j)) (fj_files j')" by auto
    have grows: "mj_stream m' ?k = mj_stream m ?k \<or> mj_stream m' ?k = mj_stream m ?k @ [e]"
        "replays_or_stalled H plan (mj_stream m' ?k)"
        "merr = None \<longrightarrow> mj_stream m' ?k \<noteq> [] \<and> ev_identity (last (mj_stream m' ?k)) = ev_identity e"
      using mm rep fits by (cases rule: Append_cases; auto simp: scope mj_stream_update)+
    from sim(2) show ?thesis
      using new [OF sim(1), of m] new [OF sim(1), of m'] rep grows unfolding simulates_def stream by auto
  qed
qed

lemma file_read:
  assumes ok: "file_ok H plan L (j, ios)"
    and rd: "FileRunJournal_Read H (shd ios) c (rp_scope plan) after limit j = (res, j')"
  shows "file_ok H plan L (j', stl ios)"
    "prefix (file_stream H plan (j, ios)) (file_stream H plan (j', stl ios))"
    "res = Inr page \<Longrightarrow> page = take (nat limit) (drop after (file_stream H plan (j', stl ios)))"
proof -
  from ok obtain m where m: "represents H m (fj_files j)" and ctx: "sum256 H" and open_: "\<not> fj_closed j"
    and rep: "replays_or_stalled H plan (mj_stream m (sc_identity (rp_scope plan)))"
    and s: "\<forall>is. file_stream H plan (j, is) = mj_stream m (sc_identity (rp_scope plan))"
    by (rule file_okE) blast
  note stream = s [rule_format]
  note ans = Read_answers [OF ctx m open_ rd]
  then have j': "j' = j" by simp
  show "file_ok H plan L (j', stl ios)" "prefix (file_stream H plan (j, ios)) (file_stream H plan (j', stl ios))"
    using file_ok_next [OF ok open_ m rep refl] stream by (simp_all add: j')
  obtain mres m' where mm: "MemoryRunJournal_Read H c (rp_scope plan) after limit m = (mres, m')"
    by (cases "MemoryRunJournal_Read H c (rp_scope plan) after limit m")
  show "page = take (nat limit) (drop after (file_stream H plan (j', stl ios)))" if "res = Inr page"
  proof -
    have "res = mres" using ans that mm by (auto simp: answers_def)
    with Read_page(2) [OF mm, of page] that show ?thesis by (simp add: j' stream)
  qed
qed

lemma file_save:
  assumes ok: "file_ok H plan L (j, ios)" and wf: "plan_wf H plan"
    and sv: "FileRunJournal_SavePlan H (shd ios) c plan j = (err, j')"
  shows "file_ok H plan L (j', stl ios) \<and> prefix (file_stream H plan (j, ios)) (file_stream H plan (j', stl ios))"
proof -
  from ok obtain m where m: "represents H m (fj_files j)" and ctx: "sum256 H" and open_: "\<not> fj_closed j"
    and rep: "replays_or_stalled H plan (mj_stream m (sc_identity (rp_scope plan)))" and dec: "decimal (io_random (shd ios))"
    and s: "\<forall>is. file_stream H plan (j, is) = mj_stream m (sc_identity (rp_scope plan))"
    by (rule file_okE) blast
  note stream = s [rule_format]
  obtain merr m' where mm: "MemoryRunJournal_SavePlan H c plan m = (merr, m')"
    by (cases "MemoryRunJournal_SavePlan H c plan m")
  from SavePlan_simulates [OF ctx m open_ dec wf sv mm] SavePlan_stream [OF mm] obtain x where
      "\<not> fj_closed j'" "represents H x (fj_files j')" "mj_stream x (sc_identity (rp_scope plan)) =
      mj_stream m (sc_identity (rp_scope plan))" by (auto simp: simulates_def)
  with file_ok_next [OF ok this(1,2) _ lock_kept(2) [OF sv]] rep stream show ?thesis by simp
qed

interpretation durable: renewing_journal H plan "replays_or_stalled H plan" "fileJournal H" "file_stream H plan"
  "file_ok H plan L" utf8_ValidString for H plan L
proof (unfold_locales, goal_cases)
  case (1 w)
  then show ?case by (simp add: file_ok_def)
next
  case (2 w e)
  then obtain m where "sum256 H" "represents H m (fj_files (fst w))" by (auto simp: file_ok_def replay_context_def)
  with 2(2) stream_wf_storable [OF representsD(5)] show ?case
    by (auto simp: file_stream_represents storable_def)
next
  case 3
  show ?case by (simp add: utf8_literal)
next
  case (4 w c after limit res w')
  then obtain j ios j' where w: "w = (j, ios)" "w' = (j', stl ios)"
    and rd: "FileRunJournal_Read H (shd ios) c (rp_scope plan) after limit j = (res, j')"
    by (cases w) (auto simp: fileJournal_def with_io_eq)
  from file_read [OF 4(1) [unfolded w] rd] show ?case unfolding w by blast
next
  case (5 w h e c err w')
  then obtain j ios j' where w: "w = (j, ios)" "w' = (j', stl ios)"
    and ap: "FileRunJournal_Append H (shd ios) c h e j = (err, j')"
    by (cases w) (auto simp: fileJournal_def with_io_eq)
  from file_append [OF 5(1,2) [unfolded w] 5(3,4) ap] show ?case unfolding w .
next
  case (6 w c err w')
  then obtain j ios j' where w: "w = (j, ios)" "w' = (j', stl ios)"
    and sv: "FileRunJournal_SavePlan H (shd ios) c plan j = (err, j')"
    by (cases w) (auto simp: fileJournal_def with_io_eq)
  from file_save [OF 6(1) [unfolded w] 6(2) sv] show ?case unfolding w .
next
  case (7 es st lease now n e)
  then show ?case by (rule renewed.renew_good)
qed

text \<open>
  C6. On a durable journal the coordinator is as safe as in memory: whatever sequence of
  calls is made, as long as the names of the workers in them are UTF-8, whatever the operating system
  refuses during any of them and wherever a call is abandoned, the stream of the plan that the
  directory holds can be read and is only ever extended. It replays, unless its last event is a
  renewal that leaves the recorded expiry of a lease as it is. The random parts of the names of
  temporary files are decimal numbers, as \<open>os.CreateTemp\<close> makes them.
\<close>

theorem durable_safety:
  assumes "sum256 H" and "plan_wf H plan" and "represents H m (fj_files j)" and "\<not> fj_closed j"
    and "replays_or_stalled H plan (mj_stream m (sc_identity (rp_scope plan)))"
    and "\<forall>io\<in>sset ios. decimal (io_random io)"
    and "(coordinator_step H (fileJournal H) utf8_ValidString plan)\<^sup>*\<^sup>* (j, ios) (j', ios')"
  shows "\<exists>es. loadStream H calm (rp_scope plan) (fj_files j') = Inr es
    \<and> prefix (mj_stream m (sc_identity (rp_scope plan))) es \<and> (replayable H plan es \<or> stalled H plan es)"
proof -
  have ctx: "replay_context H plan" using assms by (simp add: replay_context_def)
  let ?L = "fj_lockFile j"
  have "file_ok H plan ?L (j, ios)" using file_okI [OF ctx assms(4,3,5,6)] .
  from durable.steps_move [OF ctx assms(7) this] have ok: "file_ok H plan ?L (j', ios')"
    and pre: "prefix (file_stream H plan (j, ios)) (file_stream H plan (j', ios'))" by (simp_all add: durable.moves_def)
  then obtain m' where m': "represents H m' (fj_files j')" by (auto simp: file_ok_def)
  have "loadStream H calm (rp_scope plan) (fj_files j') = Inr (mj_stream m' (sc_identity (rp_scope plan)))"
    using loadStream_represents [OF assms(1) m', of calm "rp_scope plan"] by (simp add: calm_def)
  moreover have "file_stream H plan (j, ios) = mj_stream m (sc_identity (rp_scope plan))"
      "file_stream H plan (j', ios') = mj_stream m' (sc_identity (rp_scope plan))"
    using assms(1,3) m' by (auto intro: file_stream_represents)
  ultimately show ?thesis using pre ok by (simp add: file_ok_def replays_or_stalled_def)
qed

end
