(* ===== verification/File_Writers.thy ===== *)
theory File_Writers
  imports File_Coordinator
begin

text \<open>
  The processes that share the root of a durable journal. Each may open a journal on it, work with
  it, close it and end at any time; the lock of the root admits one of them.
\<close>


section \<open>Opening and closing a journal\<close>

text \<open>A journal that may write: not closed, and its lock not given back.\<close>

definition live_lock :: "lock_table \<Rightarrow> FileRunJournal \<Rightarrow> bool" where
  "live_lock locks j \<longleftrightarrow>
     (\<exists>l. fj_lockFile j = Some l \<and> \<not> lk_closed l \<and> lk_name l = runJournalWriterLockName
          \<and> lt_holder locks runJournalWriterLockName = Some (lk_file l))"

text \<open>The directory below a root that may still be missing.\<close>

definition root_represents :: "sha \<Rightarrow> MemoryRunJournal \<Rightarrow> journal_root \<Rightarrow> bool" where
  "root_represents H m r \<longleftrightarrow> represents H m (jr_files r) \<and> (jr_kind r = RootMissing \<longrightarrow> jr_files r = [])"

lemma lock_name: "runJournalWriterLockName \<noteq> k @ runJournalStreamSuffix" "runJournalWriterLockName \<noteq> k @ runJournalPlanSuffix"
proof -
  have "last runJournalWriterLockName \<noteq> last (k @ runJournalStreamSuffix)"
    "last runJournalWriterLockName \<noteq> last (k @ runJournalPlanSuffix)"
    by (simp_all add: runJournalWriterLockName_def runJournalStreamSuffix_def runJournalPlanSuffix_def)
  then show "runJournalWriterLockName \<noteq> k @ runJournalStreamSuffix" "runJournalWriterLockName \<noteq> k @ runJournalPlanSuffix"
    by metis+
qed

lemma NewFileRunJournal_result:
  assumes new: "NewFileRunJournal io root r = (res, r')" and "table_ok (jr_locks r)"
  shows "table_ok (jr_locks r')"
    and "lt_holder (jr_locks r) runJournalWriterLockName = Some file \<Longrightarrow>
      lt_holder (jr_locks r') runJournalWriterLockName = Some file \<and> (\<exists>err. res = Inl err)"
    and "res = Inr j \<Longrightarrow> \<not> fj_closed j \<and> live_lock (jr_locks r') j"
    and "root_represents H m r \<Longrightarrow> root_represents H m r'"
proof -
  let ?r = "(if jr_kind r = RootMissing then r\<lparr>jr_kind := RootDirectory, jr_perm := 448, jr_files := []\<rparr>
    else r)\<lparr>jr_perm := 448\<rparr>"
  let ?name = runJournalWriterLockName
  obtain a files locks where a: "Acquire io ?name (jr_files ?r) (jr_locks r) = (a, files, locks)"
    by (metis prod.collapse)
  note acq = Acquire_result [OF a assms(2)]
  consider (early) err where "res = Inl err" "jr_locks r' = jr_locks r" "jr_files r' = jr_files r \<or> jr_kind r = RootMissing \<and> jr_files r' = []"
      "jr_kind r' = RootMissing \<longrightarrow> r' = r"
    | (refused) err where "res = Inl err" "jr_locks r' = locks" "jr_files r' = files" "jr_kind r' = RootDirectory"
        "\<exists>e. a = Inl e"
    | (undone) l l' e err where "a = Inr l" "Lock_Close io l locks = (e, l', jr_locks r')" "res = Inl err"
        "jr_files r' = files" "jr_kind r' = RootDirectory"
    | (made) l j where "a = Inr l" "res = Inr j" "fj_lockFile j = Some l" "\<not> fj_closed j" "jr_locks r' = locks"
        "jr_files r' = files" "jr_kind r' = RootDirectory"
  proof (cases "root = [] \<or> io_fails io AbsCall \<or> io_fails io MkdirRootCall \<or> jr_kind r = RootOther
      \<or> io_fails io LstatRootCall \<or> jr_kind r = RootLink \<or> io_fails io ChmodRootCall")
    case True
    with new show ?thesis
      by (cases "jr_kind r") (auto simp: NewFileRunJournal_def Let_def split: if_splits intro!: that(1))
  next
    case False
    have kind: "jr_kind r = RootMissing \<or> jr_kind r = RootDirectory" using False by (cases "jr_kind r") auto
    note unfolded = new [unfolded NewFileRunJournal_def Let_def] False a
    show ?thesis
    proof (cases a)
      case (Inl e)
      from kind unfolded Inl show ?thesis by (elim disjE) (auto intro!: that(2))
    next
      case (Inr l)
      obtain e l' locks1 where c: "Lock_Close io l locks = (e, l', locks1)" by (metis prod.collapse)
      show ?thesis
      proof (cases "syncRoot io")
        case None
        from kind unfolded Inr None show ?thesis by (elim disjE) (auto intro!: that(4))
      next
        case (Some err)
        from kind unfolded Inr Some c show ?thesis by (elim disjE) (auto intro!: that(3))
      qed
    qed
  qed
  note outcomes = this
  note undo = Lock_Close_result [OF _ acq(1)]
  show "table_ok (jr_locks r')"
    using outcomes by cases (use assms(2) acq(1) undo(1) in auto)
  show "lt_holder (jr_locks r') ?name = Some file \<and> (\<exists>err. res = Inl err)"
    if "lt_holder (jr_locks r) ?name = Some file"
    using outcomes by cases (use that acq(2) [OF that] in auto)
  show "\<not> fj_closed j \<and> live_lock (jr_locks r') j" if "res = Inr j"
    using outcomes by cases (use that acq(3) in \<open>auto simp: live_lock_def\<close>)
  show "root_represents H m r'" if rep: "root_represents H m r"
  proof -
    have "represents H m (jr_files ?r)" using rep by (auto simp: root_represents_def)
    from acq(4) this represents_temporary [OF this lock_name] have "represents H m files" by metis
    note files = this
    show ?thesis using outcomes by cases (use rep files in \<open>auto simp: root_represents_def\<close>)
  qed
qed

text \<open>Between calls a journal is open under the lock, or shut.\<close>

definition open_or_shut :: "lock_table \<Rightarrow> FileRunJournal \<Rightarrow> bool" where
  "open_or_shut locks j \<longleftrightarrow> (if fj_closed j then fj_lockFile j = None else live_lock locks j)"

lemma open_or_shut_fields:
  "fj_closed j' = fj_closed j \<Longrightarrow> fj_lockFile j' = fj_lockFile j \<Longrightarrow> open_or_shut locks j' = open_or_shut locks j"
  by (simp add: open_or_shut_def live_lock_def)

text \<open>The operating system does not refuse to give the lock back.\<close>

definition releases :: "file_io \<Rightarrow> bool" where
  "releases io \<longleftrightarrow> \<not> io_fails io (UnlockCall runJournalWriterLockName) \<and> \<not> io_fails io (CloseCall runJournalWriterLockName)"

lemma FileRunJournal_Close_result:
  assumes "FileRunJournal_Close io j locks = (err, j', locks')" and "table_ok locks" and "open_or_shut locks j"
    and "releases io"
  shows "table_ok locks'" and "fj_closed j' \<and> fj_lockFile j' = None" and "fj_closed j \<Longrightarrow> locks' = locks"
  using assms Lock_Close_result(1) [OF _ assms(2)]
  by (auto simp: FileRunJournal_Close_def open_or_shut_def live_lock_def Lock_Close_def platformUnlock_def
      close_file_def releases_def table_ok_release Let_def split: if_splits option.splits prod.splits)


section \<open>The processes\<close>

text \<open>
  A closed journal refuses every call and changes nothing, so no operation of the coordinator on it
  does: the contract of a journal holds of it with an empty stream.
\<close>

lemma closed_append: "fj_closed j \<Longrightarrow> \<exists>err. FileRunJournal_Append H io c h e j = (Some err, j)"
  by (simp add: FileRunJournal_Append_def split: option.splits)

definition shut :: "sha \<Rightarrow> ReviewRunPlan \<Rightarrow> FileRunJournal \<Rightarrow> FileRunJournal \<times> file_io stream \<Rightarrow> bool" where
  "shut H plan j w \<longleftrightarrow> replay_context H plan \<and> fst w = j \<and> fj_closed j"

interpretation sealed: renewing_journal H plan "replays_or_stalled H plan" "fileJournal H" "\<lambda>_. []" "shut H plan j"
  utf8_ValidString for H plan j
proof (unfold_locales, goal_cases)
  case (4 w c after limit res w')
  then show ?case
    by (cases w) (auto simp: shut_def fileJournal_def with_io_eq FileRunJournal_Read_def split: option.splits if_splits)
next
  case (5 w h e c err w')
  then obtain ios where w: "w = (j, ios)" "fj_closed j" "replay_context H plan" by (cases w) (auto simp: shut_def)
  from closed_append [OF w(2)] obtain err1 where "FileRunJournal_Append H (shd ios) c h e j = (Some err1, j)" by blast
  with 5(5) w show ?case by (auto simp: shut_def fileJournal_def with_io_eq)
next
  case (6 w c err w')
  then show ?case
    by (cases w) (auto simp: shut_def fileJournal_def with_io_eq FileRunJournal_SavePlan_def split: option.splits if_splits)
next
  case (7 es st lease now n e)
  then show ?case by (rule renewed.renew_good)
qed (simp_all add: replayable_def replays_or_stalled_def utf8_literal)

text \<open>
  The root and the journals that were ever opened on it. Work is done on the directory as it is on
  disk. A process that ends gives its lock back and makes no more calls, as if its journal had been
  closed. \<open>closing\<close> says what may happen when a journal is closed.
\<close>

inductive host_step ::
    "sha \<Rightarrow> ReviewRunPlan \<Rightarrow> (file_io \<Rightarrow> bool) \<Rightarrow> journal_root \<times> FileRunJournal list
      \<Rightarrow> journal_root \<times> FileRunJournal list \<Rightarrow> bool" for H plan closing where
  refused: "NewFileRunJournal io root r = (Inl err, r') \<Longrightarrow> host_step H plan closing (r, js) (r', js)"
| opened: "NewFileRunJournal io root r = (Inr j, r') \<Longrightarrow> host_step H plan closing (r, js) (r', js @ [j])"
| closed: "i < length js \<Longrightarrow> closing io \<Longrightarrow>
     FileRunJournal_Close io (js ! i) (jr_locks r) = (err, j', locks') \<Longrightarrow>
     host_step H plan closing (r, js) (r\<lparr>jr_locks := locks'\<rparr>, js[i := j'])"
| worked: "i < length js \<Longrightarrow> \<forall>io\<in>sset ios. decimal (io_random io) \<Longrightarrow>
     coordinator_step H (fileJournal H) utf8_ValidString plan ((js ! i)\<lparr>fj_files := jr_files r\<rparr>, ios) (j', ios') \<Longrightarrow>
     host_step H plan closing (r, js) (r\<lparr>jr_files := fj_files j'\<rparr>, js[i := j'])"
| ended: "i < length js \<Longrightarrow>
     locks' = (case fj_lockFile (js ! i) of None \<Rightarrow> jr_locks r
       | Some l \<Rightarrow> release (lk_name l) (lk_file l) (jr_locks r)) \<Longrightarrow>
     host_step H plan closing (r, js) (r\<lparr>jr_locks := locks'\<rparr>,
       js[i := (js ! i)\<lparr>fj_lockFile := None, fj_closed := True\<rparr>])"

text \<open>At most one journal is open, under the lock, and the stream on disk continues \<open>es\<close>.\<close>

definition one_open :: "FileRunJournal list \<Rightarrow> bool" where
  "one_open js \<longleftrightarrow> (\<forall>i<length js. \<forall>k<length js. \<not> fj_closed (js ! i) \<longrightarrow> \<not> fj_closed (js ! k) \<longrightarrow> i = k)"

definition locks_inv :: "journal_root \<times> FileRunJournal list \<Rightarrow> bool" where
  "locks_inv w \<longleftrightarrow> (case w of (r, js) \<Rightarrow>
     table_ok (jr_locks r) \<and> (\<forall>j\<in>set js. open_or_shut (jr_locks r) j) \<and> one_open js
     \<and> (js \<noteq> [] \<longrightarrow> jr_kind r \<noteq> RootMissing))"

definition disk_inv :: "sha \<Rightarrow> ReviewRunPlan \<Rightarrow> RunEvent list \<Rightarrow> journal_root \<Rightarrow> bool" where
  "disk_inv H plan es r \<longleftrightarrow> (\<exists>m. root_represents H m r
     \<and> replays_or_stalled H plan (mj_stream m (sc_identity (rp_scope plan)))
     \<and> prefix es (mj_stream m (sc_identity (rp_scope plan))))"

text \<open>Work on an open journal keeps the lock and extends the stream; on a closed one it does nothing.\<close>

lemma work_result:
  assumes ctx: "replay_context H plan" and dec: "\<forall>io\<in>sset ios. decimal (io_random io)"
    and step: "coordinator_step H (fileJournal H) utf8_ValidString plan (j\<lparr>fj_files := jr_files r\<rparr>, ios) (j', ios')"
    and disk: "disk_inv H plan es r" and dir: "jr_kind r \<noteq> RootMissing"
  shows "fj_closed j' = fj_closed j \<and> fj_lockFile j' = fj_lockFile j \<and> disk_inv H plan es (r\<lparr>jr_files := fj_files j'\<rparr>)"
proof (cases "fj_closed j")
  case True
  let ?j = "j\<lparr>fj_files := jr_files r\<rparr>"
  have "shut H plan ?j (?j, ios)" using ctx True by (simp add: shut_def)
  from sealed.step_moves [OF ctx step this] have "j' = ?j" by (simp add: sealed.moves_def shut_def)
  with disk show ?thesis by simp
next
  case False
  let ?j = "j\<lparr>fj_files := jr_files r\<rparr>" and ?k = "sc_identity (rp_scope plan)"
  from disk obtain m where m: "root_represents H m r" "replays_or_stalled H plan (mj_stream m ?k)" "prefix es (mj_stream m ?k)"
    by (auto simp: disk_inv_def)
  have "file_ok H plan (fj_lockFile j) (?j, ios)"
    using file_okI [OF ctx, of ?j m ios] False m dec by (simp add: root_represents_def)
  from durable.step_moves [OF ctx step this] have ok: "file_ok H plan (fj_lockFile j) (j', ios')"
    and pre: "prefix (file_stream H plan (?j, ios)) (file_stream H plan (j', ios'))" by (simp_all add: durable.moves_def)
  then obtain m' where m': "represents H m' (fj_files j')" by (auto simp: file_ok_def)
  have "file_stream H plan (?j, ios) = mj_stream m ?k" "file_stream H plan (j', ios') = mj_stream m' ?k"
    using ctx m m' by (auto intro!: file_stream_represents simp: replay_context_def root_represents_def)
  with ok pre m m' False dir show ?thesis by (auto simp: file_ok_def disk_inv_def root_represents_def)
qed

lemma one_open_update:
  assumes "one_open js" and "i < length js" and "fj_closed j' \<or> fj_closed j' = fj_closed (js ! i)"
  shows "one_open (js[i := j'])"
  using assms by (auto simp: one_open_def nth_list_update)

lemma open_or_shut_others:
  assumes "one_open js" and "i < length js" and "\<not> fj_closed (js ! i)" and "\<forall>j\<in>set js. open_or_shut locks j"
    and "open_or_shut locks' j'"
  shows "\<forall>j\<in>set (js[i := j']). open_or_shut locks' j"
proof
  fix j assume "j \<in> set (js[i := j'])"
  then obtain k where k: "k < length js" "j = (if k = i then j' else js ! k)"
    by (auto simp: in_set_conv_nth nth_list_update)
  have "fj_closed (js ! k)" if "k \<noteq> i" using assms(1-3) k that by (auto simp: one_open_def)
  with k assms(4,5) show "open_or_shut locks' j" by (auto simp: open_or_shut_def)
qed

lemma host_step_inv:
  assumes "host_step H plan releases w w'" and ctx: "replay_context H plan"
    and "locks_inv w" and "disk_inv H plan es (fst w)"
  shows "locks_inv w' \<and> disk_inv H plan es (fst w')"
  using assms(1,3,4)
proof (cases rule: host_step.cases)
  case (refused io root r err r' js)
  then have t: "table_ok (jr_locks r)" using assms(3) by (simp add: locks_inv_def)
  note new = NewFileRunJournal_result [OF refused(3) t]
  have "open_or_shut (jr_locks r') j" if "open_or_shut (jr_locks r) j" for j
    using that new(2) by (auto simp: open_or_shut_def live_lock_def)
  moreover have "jr_kind r' \<noteq> RootMissing" if "jr_kind r \<noteq> RootMissing"
    using refused(3) that
    by (auto simp: NewFileRunJournal_def Let_def split: if_splits sum.splits option.splits prod.splits)
  ultimately show ?thesis using refused assms(3,4) new(1,4) by (auto simp: locks_inv_def disk_inv_def)
next
  case (opened io root r j r' js)
  then have t: "table_ok (jr_locks r)" using assms(3) by (simp add: locks_inv_def)
  note new = NewFileRunJournal_result [OF opened(3) t]
  have none: "\<not> live_lock (jr_locks r) k" for k using new(2) by (auto simp: live_lock_def)
  have shut: "\<forall>k\<in>set js. fj_closed k \<and> fj_lockFile k = None"
    using assms(3) none by (auto simp: opened locks_inv_def open_or_shut_def split: if_splits)
  then have "one_open (js @ [j])" by (auto simp: one_open_def nth_append less_Suc_eq)
  moreover have "jr_kind r' \<noteq> RootMissing"
    using opened(3)
    by (auto simp: NewFileRunJournal_def Let_def split: if_splits sum.splits option.splits prod.splits)
  ultimately show ?thesis using opened shut assms(4) new(1,3,4)
    by (auto simp: locks_inv_def disk_inv_def open_or_shut_def)
next
  case (closed i js io r err j' locks')
  then have t: "table_ok (jr_locks r)" "open_or_shut (jr_locks r) (js ! i)" "one_open js"
    using assms(3) by (auto simp: locks_inv_def)
  note close = FileRunJournal_Close_result [OF closed(5) t(1,2) closed(4)]
  have shut: "open_or_shut locks' j'" using close(2) by (simp add: open_or_shut_def)
  have "\<forall>j\<in>set (js[i := j']). open_or_shut locks' j"
  proof (cases "fj_closed (js ! i)")
    case True
    with closed assms(3) close(3) shut show ?thesis by (auto simp: locks_inv_def dest!: set_update_subset_insert [THEN subsetD])
  qed (use open_or_shut_others [OF t(3) closed(3)] assms(3) closed shut in \<open>auto simp: locks_inv_def\<close>)
  with one_open_update [OF t(3) closed(3)] close closed assms(3,4) show ?thesis
    by (auto simp: locks_inv_def disk_inv_def root_represents_def)
next
  case (worked i js ios r j' ios')
  then have kind: "jr_kind r \<noteq> RootMissing" and one: "one_open js" using assms(3) by (auto simp: locks_inv_def)
  note work = work_result [OF ctx worked(4,5) _ kind]
  have "open_or_shut (jr_locks r) (js ! i)" using assms(3) worked by (auto simp: locks_inv_def)
  then have "open_or_shut (jr_locks r) j'"
    using open_or_shut_fields [of j' "js ! i" "jr_locks r"] work [of es] worked(1) assms(4) by simp
  then have "\<forall>j\<in>set (js[i := j']). open_or_shut (jr_locks r) j"
    using assms(3) worked by (auto simp: locks_inv_def dest!: set_update_subset_insert [THEN subsetD])
  with one_open_update [OF one worked(3)] work [of es] worked assms(3,4) show ?thesis
    by (auto simp: locks_inv_def)
next
  case (ended i js locks' r)
  then have t: "table_ok (jr_locks r)" "open_or_shut (jr_locks r) (js ! i)" "one_open js"
    using assms(3) by (auto simp: locks_inv_def)
  let ?j = "(js ! i)\<lparr>fj_lockFile := None, fj_closed := True\<rparr>"
  have shut: "open_or_shut locks' ?j" by (simp add: open_or_shut_def)
  have "\<forall>j\<in>set (js[i := ?j]). open_or_shut locks' j"
  proof (cases "fj_closed (js ! i)")
    case True
    with t(2) ended have "locks' = jr_locks r" by (simp add: open_or_shut_def)
    with True ended assms(3) shut show ?thesis by (auto simp: locks_inv_def dest!: set_update_subset_insert [THEN subsetD])
  qed (use open_or_shut_others [OF t(3) ended(3)] assms(3) ended shut in \<open>auto simp: locks_inv_def\<close>)
  moreover have "table_ok locks'" using ended(4) t(1) by (simp add: table_ok_release split: option.splits)
  ultimately show ?thesis using one_open_update [OF t(3) ended(3)] ended assms(3,4)
    by (auto simp: locks_inv_def disk_inv_def root_represents_def)
qed

text \<open>
  C3. Whatever processes open journals on one root, work with them, close them or end
  without closing them, at most one of the journals is open at any time, and the stream of the plan on
  disk can be read and is only ever extended: work goes on after a restart where it stopped. The
  stream replays, unless its last event is a renewal that leaves the recorded expiry of a lease as it
  is. Three things are taken for granted. The operating system refuses neither to unlock nor to close
  the lock file of a journal that is being closed (\<open>releases\<close>), although any other call may fail. The
  names of workers are UTF-8. And the lock of a process that ends is given back, as it is for the
  locks of \<open>flock\<close>; the documentation of the runtime describes a lease that stays for an operator to
  recover.
\<close>

theorem single_writer:
  assumes "sum256 H" and "plan_wf H plan" and "root_represents H m r"
    and "replays_or_stalled H plan (mj_stream m (sc_identity (rp_scope plan)))"
    and "table_ok (jr_locks r)"
    and "(host_step H plan releases)\<^sup>*\<^sup>* (r, []) (r', js)"
  shows "(\<forall>i<length js. \<forall>k<length js. \<not> fj_closed (js ! i) \<and> \<not> fj_closed (js ! k) \<longrightarrow> i = k)
    \<and> (\<exists>es. loadStream H calm (rp_scope plan) (jr_files r') = Inr es
         \<and> prefix (mj_stream m (sc_identity (rp_scope plan))) es
         \<and> (replayable H plan es \<or> stalled H plan es))"
proof -
  let ?k = "sc_identity (rp_scope plan)"
  have ctx: "replay_context H plan" using assms by (simp add: replay_context_def)
  have "locks_inv (r, []) \<and> disk_inv H plan (mj_stream m ?k) (fst (r, []))"
    using assms(3-5) by (auto simp: locks_inv_def one_open_def disk_inv_def)
  with assms(6) have "locks_inv (r', js) \<and> disk_inv H plan (mj_stream m ?k) (fst (r', js))"
    by (induction rule: rtranclp_induct) (auto dest: host_step_inv [OF _ ctx])
  then have one: "one_open js" and disk: "disk_inv H plan (mj_stream m ?k) r'" by (auto simp: locks_inv_def)
  from disk obtain m' where m': "represents H m' (jr_files r')" "replays_or_stalled H plan (mj_stream m' ?k)"
      "prefix (mj_stream m ?k) (mj_stream m' ?k)" by (auto simp: disk_inv_def root_represents_def)
  have "loadStream H calm (rp_scope plan) (jr_files r') = Inr (mj_stream m' ?k)"
    using loadStream_represents [OF assms(1) m'(1), of calm "rp_scope plan"] by (simp add: calm_def)
  with one m' show ?thesis by (auto simp: one_open_def replays_or_stalled_def)
qed

text \<open>
  C35. When the operating system refuses either of the two calls by which \<open>Close\<close>
  gives the lock back, or both, \<open>Close\<close> reports an error and leaves the journal open, although the
  lock is gone with the closed file: another process can open a journal on the same root, and both write.
\<close>

theorem failed_close_unlocks:
  assumes "live_lock (jr_locks r) j" and "\<not> fj_closed j" and "root \<noteq> []" and "jr_kind r = RootDirectory"
    and "map_of (jr_files r) runJournalWriterLockName = Some (private_file content)"
    and "io_fails io (UnlockCall runJournalWriterLockName) \<or> io_fails io (CloseCall runJournalWriterLockName)"
    and "FileRunJournal_Close io j (jr_locks r) = (err, j', locks')"
  shows "err = Some ErrRunJournalPersistence \<and> \<not> fj_closed j'
    \<and> (\<exists>j2 r2. NewFileRunJournal calm root (r\<lparr>jr_locks := locks'\<rparr>) = (Inr j2, r2))"
proof -
  from assms(1) obtain l where l: "fj_lockFile j = Some l" "\<not> lk_closed l" "lk_name l = runJournalWriterLockName"
      "lt_holder (jr_locks r) runJournalWriterLockName = Some (lk_file l)" by (auto simp: live_lock_def)
  have close: "err = Some ErrRunJournalPersistence" "\<not> fj_closed j'" "lt_holder locks' runJournalWriterLockName = None"
    using assms(2,6,7) l
    by (auto simp: FileRunJournal_Close_def Lock_Close_def platformUnlock_def close_file_def release_def Let_def
        split: if_splits)
  have "runJournalWriterLockName \<noteq> []" by (simp add: runJournalWriterLockName_def)
  then have "\<exists>l2 files locks2. Acquire calm runJournalWriterLockName (jr_files r) locks' = (Inr l2, files, locks2)"
    using assms(5) close(3)
    by (simp add: Acquire_def calm_def platformLock_def private_file_def Let_def)
  with close assms(3,4) show ?thesis
    by (auto simp: NewFileRunJournal_def syncRoot_def sync_directory_def calm_def Let_def)
qed

end
