(* ===== verification/File_Witnesses.thy ===== *)
theory File_Witnesses
  imports Codec_Witnesses File_Writers
begin

text \<open>
  The theorems on the file journal applied to an empty directory and to one that holds the first
  event of a run.
\<close>

definition empty_root :: FileRunJournal where
  "empty_root = \<lparr>fj_files = [], fj_lockFile = None, fj_closed = False\<rparr>"

lemma empty_root_facts [simp]:
  "represents H NewMemoryRunJournal (fj_files empty_root)" "fj_closed empty_root = False" "fj_files empty_root = []"
  using represents_empty by (simp_all add: empty_root_def)

lemma calm_facts [simp]:
  "io_fails calm call = False" "decimal (io_random calm)" "undisturbed calm []"
  by (simp_all add: calm_def decimal_def undisturbed_def)

lemma calm_sconst: "\<forall>io\<in>sset (sconst calm). decimal (io_random io)"
  by (simp add: sset_sconst)

lemma new_journal_stream [simp]: "mj_stream NewMemoryRunJournal k = []"
  by (simp add: mj_stream_def NewMemoryRunJournal_def map_get_def)

lemma opened_valid: "RunEvent_Validate flat_hash opened_event = None"
  using example_events_valid(1) [of 1000] by (simp add: opened_event_def)

theorem file_refines_memory_witness:
  "fst (journal_do (fileJournal flat_hash) LiveContext (CallAppend [] opened_event) (empty_root, sconst calm))
     = Stored None"
proof -
  let ?call = "CallAppend [] opened_event"
  obtain res j ios where f: "journal_do (fileJournal flat_hash) LiveContext ?call (empty_root, sconst calm) = (res, (j, ios))"
    by (metis prod.collapse)
  have "fst (MemoryRunJournal_Append flat_hash LiveContext [] opened_event NewMemoryRunJournal) = None"
    using opened_valid by (simp add: MemoryRunJournal_Append_def NewMemoryRunJournal_def mj_stream_def map_get_def
        maxRunJournalStreamEvents_def Let_def) (simp add: opened_event_def)
  then obtain m where m: "journal_do (memoryJournal flat_hash) LiveContext ?call NewMemoryRunJournal = (Stored None, m)"
    by (cases "MemoryRunJournal_Append flat_hash LiveContext [] opened_event NewMemoryRunJournal")
      (simp add: memoryJournal_def)
  have "storable_call flat_hash NewMemoryRunJournal ?call"
    by (simp add: opened_event_def event_ints_def int64_def monotone_after_def utf8_literal)
  from file_refines_memory [OF sum256_flat empty_root_facts(1) _ _ this f m] f show ?thesis by simp
qed

text \<open>A first event that names the worker of \<open>latin_worker\<close> is accepted.\<close>

definition latin_event :: RunEvent where
  "latin_event = example_event 1 RunEventTaskLeased ''acquire'' 1 flat_digest latin_worker 31000 [] NoRunFailure 0 1000"

lemma latin_event_facts:
  "RunEvent_Validate flat_hash latin_event = None" "event_ints latin_event"
  "\<not> utf8_ValidString (ev_workerIdentity latin_event)"
  using example_keys_valid latin_worker_valid latin_worker_not_utf8
  by (auto simp: latin_event_def RunEventKind_Validate_def validateFields_def validateLeaseFields_def
      event_hasTask_def event_ints_def int64_def intro!: RunEvent_Validate_flat)

lemma latin_append: "\<exists>m. MemoryRunJournal_Append flat_hash LiveContext [] latin_event NewMemoryRunJournal = (None, m)
    \<and> m \<noteq> NewMemoryRunJournal"
  using latin_event_facts(1)
  by (simp add: MemoryRunJournal_Append_def NewMemoryRunJournal_def mj_stream_def map_get_def
      maxRunJournalStreamEvents_def Let_def) (simp add: latin_event_def)

text \<open>A run opened at 5000 in which a task is made available at 4000.\<close>

definition opened_late :: RunEvent where
  "opened_late = example_event 1 RunEventOpened [] 0 [] [] 0 [] NoRunFailure 0 5000"

definition reversed_event :: RunEvent where
  "reversed_event = (available_event 2 ''acquire'' 4000)\<lparr>ev_identity := late_digest\<rparr>"

definition late_journal :: MemoryRunJournal where
  "late_journal = \<lparr>mj_streams = [(flat_digest, [opened_late])], mj_plans = []\<rparr>"

definition late_root :: FileRunJournal where
  "late_root = \<lparr>fj_files = [(flat_digest @ runJournalStreamSuffix, private_file (stream_text [opened_late]))],
     fj_lockFile = None, fj_closed = False\<rparr>"

lemma late_millis [simp]: "validRunMillis 4000" "validRunMillis 5000"
  by (simp_all add: validRunMillis_def maxRunEventUnixMilliseconds_def)

lemma opened_late_valid: "RunEvent_Validate late_hash opened_late = None"
proof (rule late_valid)
  have "dec_int 5000 = ''5000''" by (simp add: dec_int_def dec_digits.simps char_of_def bit_0)
  then show "deriveRunEventIdentity late_hash opened_late = ev_identity opened_late"
    using late_identity [of opened_late "[]"] by (simp add: opened_late_def)
  show "RunEvent_Validate flat_hash opened_late = None"
    using example_events_valid(1) [of 5000] by (simp add: opened_late_def)
qed (simp add: opened_late_def)

lemma reversed_valid: "RunEvent_Validate late_hash reversed_event = None"
proof -
  let ?e = "available_event 2 ''acquire'' 4000"
  have "RunEvent_Validate flat_hash ?e = None"
    using example_events_valid(2) [of "''acquire''" 4000 2] example_keys_valid by (simp add: available_event_def)
  moreover have "deriveRunEventIdentity late_hash reversed_event = late_digest"
    by (rule late_times(2)) (simp add: reversed_event_def available_event_def)
  ultimately show ?thesis
    by (simp add: RunEvent_Validate_None reversed_event_def) (simp add: available_event_def plain_scope_valid)
qed

lemma late_represents: "represents late_hash late_journal (fj_files late_root)"
proof -
  have "stream_wf late_hash flat_digest ([] @ [opened_late])"
    unfolding stream_wf_snoc using opened_late_valid
    by (simp add: link_ok_def storable_def head_of_def maxRunJournalStreamEvents_def event_ints_def int64_def
        opened_late_def utf8_literal)
  from represents_stream [OF represents_empty this] show ?thesis
    by (simp add: late_root_def late_journal_def NewMemoryRunJournal_def)
qed

lemma reversed_append: "\<exists>m. MemoryRunJournal_Append late_hash LiveContext flat_digest reversed_event late_journal = (None, m)
    \<and> m \<noteq> late_journal"
  using reversed_valid
  by (simp add: MemoryRunJournal_Append_def late_journal_def mj_stream_def map_get_def maxRunJournalStreamEvents_def Let_def)
    (simp add: reversed_event_def available_event_def opened_late_def)

lemma late_undisturbed: "undisturbed calm (fj_files late_root)"
proof -
  have "hd flat_digest \<noteq> CHR ''.''" by code_simp
  then have "CHR ''.'' # name \<noteq> flat_digest @ runJournalStreamSuffix" for name
    using flat_digest_nonempty by (metis hd_append2 list.sel(1))
  then show ?thesis
    by (auto simp: undisturbed_def late_root_def maxRunJournalStreamEvents_def)
qed

theorem stream_unreadable_witness:
  "(\<exists>j err. FileRunJournal_Append flat_hash calm LiveContext [] latin_event empty_root = (None, j)
     \<and> fst (FileRunJournal_Read flat_hash calm LiveContext example_scope 0 10 j) = Inl err)
   \<and> (\<exists>j err. FileRunJournal_Append late_hash calm LiveContext flat_digest reversed_event late_root = (None, j)
     \<and> fst (FileRunJournal_Read late_hash calm LiveContext example_scope 0 10 j) = Inl err)"
proof
  obtain m where m: "MemoryRunJournal_Append flat_hash LiveContext [] latin_event NewMemoryRunJournal = (None, m)"
      "m \<noteq> NewMemoryRunJournal" using latin_append by blast
  have calm_root: "undisturbed calm (fj_files empty_root)" "\<not> fj_closed empty_root" by simp_all
  from stream_unreadable [OF sum256_flat empty_root_facts(1) calm_root(2) latin_event_facts(2) calm_root(1) m
      disjI1 [OF latin_event_facts(3)]]
  show "\<exists>j err. FileRunJournal_Append flat_hash calm LiveContext [] latin_event empty_root = (None, j)
     \<and> fst (FileRunJournal_Read flat_hash calm LiveContext example_scope 0 10 j) = Inl err"
    by (fastforce simp: latin_event_def)
next
  obtain m where m: "MemoryRunJournal_Append late_hash LiveContext flat_digest reversed_event late_journal = (None, m)"
      "m \<noteq> late_journal" using reversed_append by blast
  have e: "event_ints reversed_event" "\<not> fj_closed late_root" "ev_scope reversed_event = example_scope"
      "\<not> monotone_after (mj_stream late_journal (sc_identity (ev_scope reversed_event))) reversed_event"
    by (simp_all add: reversed_event_def available_event_def event_ints_def int64_def late_root_def monotone_after_def
        late_journal_def mj_stream_def map_get_def opened_late_def)
  from stream_unreadable [OF sum256_late late_represents e(2,1) late_undisturbed m disjI2 [OF e(4)]] e(3)
  show "\<exists>j err. FileRunJournal_Append late_hash calm LiveContext flat_digest reversed_event late_root = (None, j)
     \<and> fst (FileRunJournal_Read late_hash calm LiveContext example_scope 0 10 j) = Inl err"
    by fastforce
qed

definition durable_open :: "FileRunJournal \<times> file_io stream" where
  "durable_open = snd (Coordinator_Open flat_hash (fileJournal flat_hash) LiveContext example_plan
     (time_of_millis 1000) (empty_root, sconst calm))"

theorem durable_safety_witness:
  "\<exists>es. loadStream flat_hash calm example_scope (fj_files (fst durable_open)) = Inr es
     \<and> (replayable flat_hash example_plan es \<or> stalled flat_hash example_plan es)"
proof -
  have "coordinator_step flat_hash (fileJournal flat_hash) utf8_ValidString example_plan
      (empty_root, sconst calm) (fst durable_open, snd durable_open)"
    unfolding durable_open_def by (rule coordinator_step.open_run) (simp add: prod_eq_iff)
  then have steps: "(coordinator_step flat_hash (fileJournal flat_hash) utf8_ValidString example_plan)\<^sup>*\<^sup>*
      (empty_root, sconst calm) (fst durable_open, snd durable_open)" by (rule r_into_rtranclp)
  have "replays_or_stalled flat_hash example_plan (mj_stream NewMemoryRunJournal (sc_identity (rp_scope example_plan)))"
    by (simp add: replays_or_stalled_def replayable_def)
  from durable_safety [OF sum256_flat example_plan_wf empty_root_facts(1) _ this calm_sconst steps]
  show ?thesis by auto
qed

section \<open>Two processes on one root\<close>

definition no_locks :: lock_table where
  "no_locks = \<lparr>lt_holder = (\<lambda>_. None), lt_opened = 0\<rparr>"

definition new_root :: journal_root where
  "new_root = \<lparr>jr_kind = RootMissing, jr_perm = 0, jr_files = [], jr_locks = no_locks\<rparr>"

lemma new_root_facts [simp]:
  "root_represents H NewMemoryRunJournal new_root" "table_ok (jr_locks new_root)"
  using represents_empty by (simp_all add: root_represents_def new_root_def table_ok_def no_locks_def)

definition opened_root :: journal_root where
  "opened_root = \<lparr>jr_kind = RootDirectory, jr_perm = 448,
     jr_files = [(runJournalWriterLockName, private_file [])],
     jr_locks = \<lparr>lt_holder = [runJournalWriterLockName \<mapsto> 0], lt_opened = 1\<rparr>\<rparr>"

definition opened_journal :: FileRunJournal where
  "opened_journal = \<lparr>fj_files = [(runJournalWriterLockName, private_file [])],
     fj_lockFile = Some \<lparr>lk_name = runJournalWriterLockName, lk_file = 0, lk_closed = False\<rparr>, fj_closed = False\<rparr>"

lemma lock_name_nonempty [simp]: "runJournalWriterLockName \<noteq> []"
  by (simp add: runJournalWriterLockName_def)

lemma first_open_eval: "NewFileRunJournal calm ''root'' new_root = (Inr opened_journal, opened_root)"
  by (simp add: NewFileRunJournal_def new_root_def no_locks_def Acquire_def platformLock_def syncRoot_def sync_directory_def
      private_file_def opened_journal_def opened_root_def Let_def)

text \<open>The second process is refused while the first has the journal open.\<close>

lemma second_open_eval: "\<exists>r. NewFileRunJournal calm ''root'' opened_root = (Inl ErrRunJournalLocked, r)"
  by (simp add: NewFileRunJournal_def opened_root_def Acquire_def platformLock_def private_file_def Let_def)

theorem single_writer_witness:
  "\<exists>r js es. (host_step flat_hash example_plan releases)\<^sup>*\<^sup>* (new_root, []) (r, js)
     \<and> (\<exists>j\<in>set js. \<not> fj_closed j)
     \<and> loadStream flat_hash calm example_scope (jr_files r) = Inr es
     \<and> (replayable flat_hash example_plan es \<or> stalled flat_hash example_plan es)"
proof -
  let ?step = "host_step flat_hash example_plan releases"
  obtain r where r: "NewFileRunJournal calm ''root'' opened_root = (Inl ErrRunJournalLocked, r)"
    using second_open_eval by blast
  have "?step (new_root, []) (opened_root, [] @ [opened_journal])"
    by (rule host_step.opened [OF first_open_eval])
  moreover have "?step (opened_root, [] @ [opened_journal]) (r, [] @ [opened_journal])"
    by (rule host_step.refused [OF r])
  ultimately have steps: "?step\<^sup>*\<^sup>* (new_root, []) (r, [] @ [opened_journal])" by simp
  have "replays_or_stalled flat_hash example_plan (mj_stream NewMemoryRunJournal (sc_identity (rp_scope example_plan)))"
    by (simp add: replays_or_stalled_def replayable_def)
  from single_writer [OF sum256_flat example_plan_wf new_root_facts(1) this new_root_facts(2) steps] obtain es where
      "loadStream flat_hash calm example_scope (jr_files r) = Inr es"
      "replayable flat_hash example_plan es \<or> stalled flat_hash example_plan es" by auto
  with steps show ?thesis by (intro exI [of _ r] exI [of _ "[] @ [opened_journal]"] exI [of _ es])
    (simp add: opened_journal_def)
qed

definition unlock_fails :: file_io where
  "unlock_fails = calm\<lparr>io_fails := (\<lambda>call. call = UnlockCall runJournalWriterLockName)\<rparr>"

theorem failed_close_unlocks_witness:
  "\<exists>j' locks' j2 r2. FileRunJournal_Close unlock_fails opened_journal (jr_locks opened_root)
        = (Some ErrRunJournalPersistence, j', locks')
     \<and> \<not> fj_closed j' \<and> NewFileRunJournal calm ''root'' (opened_root\<lparr>jr_locks := locks'\<rparr>) = (Inr j2, r2)"
proof -
  obtain err j' locks' where c: "FileRunJournal_Close unlock_fails opened_journal (jr_locks opened_root) = (err, j', locks')"
    by (metis prod.collapse)
  have "live_lock (jr_locks opened_root) opened_journal" "\<not> fj_closed opened_journal" "jr_kind opened_root = RootDirectory"
      "map_of (jr_files opened_root) runJournalWriterLockName = Some (private_file [])"
      "io_fails unlock_fails (UnlockCall runJournalWriterLockName) \<or> io_fails unlock_fails (CloseCall runJournalWriterLockName)"
    by (simp_all add: live_lock_def opened_root_def opened_journal_def unlock_fails_def)
  from failed_close_unlocks [OF this(1,2) _ this(3-5) c, of "''root''"] c show ?thesis by auto
qed

end
