(* ===== verification/Safety_Chain.thy ===== *)
theory Safety_Chain
  imports Examples
begin

text \<open>
  What the safety rules of a plan ensure of a run. They ask, for instance, that a task that generates
  candidates has a task that assembles the context among its ancestors. A task that is worked on has
  such an ancestor, and the ancestor has succeeded, with one exception: the path between the two may
  lead through an optional task, and an optional task that was skipped or failed settles the
  dependency on it. The run at the end of the theory shows that the exception occurs.
\<close>


section \<open>The chain of ancestors\<close>

lemma chain_step:
  assumes wf: "plan_wf H plan" and inv: "state_inv plan s" and a: "a \<in> set (rp_tasks plan)" "td_required a"
  shows "(k, td_key a) \<in> (dep_rel (rp_tasks plan))\<^sup>+ \<Longrightarrow> t \<in> set (rp_tasks plan) \<Longrightarrow> k = td_key t \<Longrightarrow>
    rt_status (runtime_at s (td_key t)) \<in>
      {TaskRuntimeAvailable, TaskRuntimeLeased, TaskRuntimeSucceeded, TaskRuntimeFailed} \<Longrightarrow>
    rt_status (runtime_at s (td_key a)) = TaskRuntimeSucceeded
    \<or> (\<exists>d. ancestor plan d t \<and> ancestor plan a d \<and> \<not> td_required d
         \<and> rt_status (runtime_at s (td_key d)) \<in> {TaskRuntimeSkipped, TaskRuntimeFailed})"
proof (induction arbitrary: t rule: converse_trancl_induct)
  case (base k)
  then have "td_key a \<in> set (td_dependencies t)" by (simp add: plan_wf_deps_of [OF wf])
  from dependency_settled [OF wf inv base(2) a(1) this base(4)] a(2) show ?case by blast
next
  case (step k k')
  then have k': "k' \<in> set (td_dependencies t)" by (simp add: plan_wf_deps_of [OF wf])
  with plan_wf_graph(1) [OF wf] step.prems(1) obtain d where d: "d \<in> set (rp_tasks plan)" "k' = td_key d"
    by (auto simp: deps_present_def)
  have up: "ancestor plan d t" "ancestor plan a d"
    using step.hyps step.prems(2) d a(1) by (auto simp: ancestor_def)
  from dependency_settled [OF wf inv step.prems(1) d(1) k' [unfolded d(2)] step.prems(3)] show ?case
  proof (elim disjE conjE)
    assume "rt_status (runtime_at s (td_key d)) = TaskRuntimeSucceeded"
    with step.IH [OF d(1,2)] up(1) show ?thesis by (blast intro: ancestor_trans)
  next
    assume "\<not> td_required d" "rt_status (runtime_at s (td_key d)) = TaskRuntimeSkipped"
    with up show ?thesis by blast
  next
    assume "\<not> td_required d" "failedWithoutRetry (runtime_at s (td_key d))"
    with up show ?thesis by (auto simp: failedWithoutRetry_def)
  qed
qed

text \<open>
  C38. In every replayed run, a task that was made available has, for every kind that the
  safety rules of the plan demand above its own (source acquisition, change construction, context
  assembly, candidate generation, verification, publication evaluation), an ancestor of that kind,
  and the ancestor has succeeded. The one exception is a path to it that leads through an optional
  inspection or retrieval task which was skipped or failed. In a plan whose tasks are all required
  there is none.
\<close>

theorem safety_chain:
  assumes "sum256 H" and "plan_wf H plan" and "ReplayReviewRun H plan es = Inr s"
    and "t \<in> set (rp_tasks plan)" and "kind \<in> set (ancestor_kinds (td_kind t))"
    and "rt_status (runtime_at s (td_key t)) \<in>
      {TaskRuntimeAvailable, TaskRuntimeLeased, TaskRuntimeSucceeded, TaskRuntimeFailed}"
  shows "\<exists>a. ancestor plan a t \<and> td_kind a = kind
    \<and> (rt_status (runtime_at s (td_key a)) = TaskRuntimeSucceeded
       \<or> (\<exists>d. ancestor plan d t \<and> ancestor plan a d
            \<and> \<not> td_required d \<and> td_kind d \<in> {TaskInspectDeterministic, TaskRetrieveContext}
            \<and> rt_status (runtime_at s (td_key d)) \<in> {TaskRuntimeSkipped, TaskRuntimeFailed}))"
proof -
  have ctx: "replay_context H plan" using assms by (simp add: replay_context_def)
  note inv = replay_inv [OF ctx assms(3)]
  from ancestor_kinds_exist [OF assms(2,4,5)] obtain a where a: "ancestor plan a t" "td_kind a = kind" by blast
  have "kind \<notin> {TaskInspectDeterministic, TaskRetrieveContext}" using assms(5) by (cases "td_kind t") auto
  then have "td_required a" using plan_wf_required [OF assms(2) ancestor_in [OF a(1)]] a(2) by blast
  moreover have "td_kind d \<in> {TaskInspectDeterministic, TaskRetrieveContext}"
    if "ancestor plan d t" "\<not> td_required d" for d
    using plan_wf_required [OF assms(2) ancestor_in [OF that(1)]] that(2) by blast
  ultimately show ?thesis
    using chain_step [OF assms(2) inv ancestor_in [OF a(1)] _ _ assms(4) refl assms(6)] a by (fastforce simp: ancestor_def)
qed


section \<open>A plan with an optional task on the path\<close>

definition bypass_tasks :: "TaskDefinition list" where
  "bypass_tasks =
     [example_task ''acquire'' TaskAcquireSource [] 1 True,
      example_task ''assemble'' TaskAssembleContext [''build''] 1 True,
      example_task ''build'' TaskBuildChange [''acquire''] 1 True,
      example_task ''generate'' TaskGenerateCandidates [''retrieve''] 1 True,
      example_task ''retrieve'' TaskRetrieveContext [''assemble''] 1 False]"

definition bypass_plan :: ReviewRunPlan where
  "bypass_plan = \<lparr>rp_identity = flat_digest, rp_scope = example_scope,
     rp_requestIdentity = flat_digest, rp_policyIdentity = flat_digest, rp_mode = ReviewRunLocal,
     rp_tasks = bypass_tasks\<rparr>"

definition skipped_event :: "nat \<Rightarrow> string \<Rightarrow> int \<Rightarrow> RunEvent" where
  "skipped_event n key occurred =
     example_event n RunEventTaskSkipped key 0 [] [] 0 [] RunFailureDependency 0 occurred"

definition bypass_events :: "RunEvent list" where
  "bypass_events =
     [opened_event, available_event 2 ''acquire'' 1000, leased_event 3 ''acquire'' 1 1000,
      succeeded_event 4 ''acquire'' 1 1000, available_event 5 ''build'' 1000, leased_event 6 ''build'' 1 1000,
      succeeded_event 7 ''build'' 1 1000, available_event 8 ''assemble'' 1000, leased_event 9 ''assemble'' 1 1000,
      failed_event 10 ''assemble'' 1 RunFailurePolicy 0 1000, skipped_event 11 ''retrieve'' 1000,
      available_event 12 ''generate'' 1000, leased_event 13 ''generate'' 1 1000]"

lemma bypass_keys:
  "list_all validReviewTaskKey [''acquire'', ''assemble'', ''build'', ''generate'', ''retrieve'']"
  by code_simp

lemma bypass_tasks_ok: "t \<in> set bypass_tasks \<Longrightarrow> task_ok flat_hash t"
  using bypass_keys
  by (auto simp: bypass_tasks_def dependencies_ok_def TaskKind_Validate_None intro!: example_task_ok)

lemma bypass_deps [simp]:
  "deps_of bypass_tasks ''acquire'' = []" "deps_of bypass_tasks ''build'' = [''acquire'']"
  "deps_of bypass_tasks ''assemble'' = [''build'']" "deps_of bypass_tasks ''retrieve'' = [''assemble'']"
  "deps_of bypass_tasks ''generate'' = [''retrieve'']"
  "parent_of bypass_tasks ''acquire'' = example_task ''acquire'' TaskAcquireSource [] 1 True"
  "parent_of bypass_tasks ''build'' = example_task ''build'' TaskBuildChange [''acquire''] 1 True"
  "parent_of bypass_tasks ''assemble'' = example_task ''assemble'' TaskAssembleContext [''build''] 1 True"
  "parent_of bypass_tasks ''retrieve'' = example_task ''retrieve'' TaskRetrieveContext [''assemble''] 1 False"
  by (simp_all add: bypass_tasks_def deps_of_def by_key_def parent_of_def)

lemma bypass_graph: "validateReviewRunGraph flat_hash ReviewRunLocal bypass_tasks = None"
proof -
  have visit: "\<exists>V. visit_all bypass_tasks (map td_key bypass_tasks) {} {} = Inr V"
  proof -
    have "map td_key bypass_tasks = [''acquire'', ''assemble'', ''build'', ''generate'', ''retrieve'']"
      by (simp add: bypass_tasks_def)
    then show ?thesis by (simp add: visit.simps)
  qed
  have anc: "fst (taskHasAncestorKind bypass_tasks TaskAcquireSource [''acquire''] {})"
      "fst (taskHasAncestorKind bypass_tasks TaskBuildChange [''build''] {})"
      "fst (taskHasAncestorKind bypass_tasks TaskBuildChange [''assemble''] {})"
      "fst (taskHasAncestorKind bypass_tasks TaskAssembleContext [''retrieve''] {})"
    by simp_all
  have members: "set bypass_tasks =
      {example_task ''acquire'' TaskAcquireSource [] 1 True,
       example_task ''assemble'' TaskAssembleContext [''build''] 1 True,
       example_task ''build'' TaskBuildChange [''acquire''] 1 True,
       example_task ''generate'' TaskGenerateCandidates [''retrieve''] 1 True,
       example_task ''retrieve'' TaskRetrieveContext [''assemble''] 1 False}"
    by (simp add: bypass_tasks_def)
  have "check_task_safety bypass_tasks t = None" if "t \<in> set bypass_tasks" for t
    using that anc unfolding members check_task_safety_def by (elim insertE) simp_all
  then have safe: "first_err (check_task_safety bypass_tasks) bypass_tasks = None"
    by (simp add: first_err_None_iff)
  have "TaskDefinition_Validate flat_hash (example_task ''generate'' TaskGenerateCandidates [''retrieve''] 1 True) = None"
    by (simp add: TaskDefinition_Validate_None bypass_tasks_ok bypass_tasks_def)
  then have "\<exists>t. resultTaskFromDefinitions flat_hash bypass_tasks = Inr t"
    by (simp add: resultTaskFromDefinitions_def bypass_tasks_def)
  with safe have "validateReviewRunSafety flat_hash ReviewRunLocal bypass_tasks = None"
    by (auto simp: validateReviewRunSafety_def kind_count_def) (simp_all add: bypass_tasks_def)
  moreover have "deps_present bypass_tasks" by (simp add: deps_present_def bypass_tasks_def)
  ultimately show ?thesis using visit unfolding validateReviewRunGraph_def deps_present_check by auto
qed

lemma bypass_plan_wf: "plan_wf flat_hash bypass_plan"
proof -
  have "sorted_wrt (<) (map td_key bypass_tasks)" by (simp add: bypass_tasks_def)
  then show ?thesis
    using bypass_graph bypass_tasks_ok
    by (simp add: plan_wf_def bypass_plan_def deriveReviewRunPlanIdentity_def ReviewRunMode_Validate_def)
      (simp add: bypass_tasks_def)
qed

section \<open>The run\<close>

lemma bypass_plan_sel [simp]:
  "rp_identity bypass_plan = flat_digest" "rp_scope bypass_plan = example_scope"
  "rp_tasks bypass_plan = bypass_tasks"
  by (simp_all add: bypass_plan_def)

lemma bypass_initial_tasks:
  "initial_tasks bypass_plan =
     [(''acquire'', newTaskRuntimeState (example_task ''acquire'' TaskAcquireSource [] 1 True) TaskRuntimePending),
      (''assemble'', newTaskRuntimeState (example_task ''assemble'' TaskAssembleContext [''build''] 1 True) TaskRuntimePending),
      (''build'', newTaskRuntimeState (example_task ''build'' TaskBuildChange [''acquire''] 1 True) TaskRuntimePending),
      (''generate'', newTaskRuntimeState (example_task ''generate'' TaskGenerateCandidates [''retrieve''] 1 True) TaskRuntimePending),
      (''retrieve'', newTaskRuntimeState (example_task ''retrieve'' TaskRetrieveContext [''assemble''] 1 False) TaskRuntimePending)]"
  by (simp add: initial_tasks_def bypass_plan_def bypass_tasks_def)

lemma bypass_replayed:
  "\<exists>s. replayed flat_hash bypass_plan bypass_events s
     \<and> rt_status (runtime_at s ''assemble'') = TaskRuntimeFailed
     \<and> rt_status (runtime_at s ''generate'') = TaskRuntimeLeased"
  using bypass_keys
  by (simp add: bypass_events_def skipped_event_def example_run_simps bypass_initial_tasks)

text \<open>
  The exception occurs: the plan passes every safety rule, and yet the generation of candidates is
  leased to a worker although the context assembly, a required task, has failed.
\<close>

lemma bypass_state:
  "\<exists>state. ReplayReviewRun flat_hash bypass_plan bypass_events = Inr state
     \<and> rt_status (runtime_at state ''assemble'') = TaskRuntimeFailed
     \<and> rt_status (runtime_at state ''generate'') = TaskRuntimeLeased"
proof -
  have "replay_context flat_hash bypass_plan" by (simp add: replay_context_def bypass_plan_wf)
  moreover have "bypass_events \<noteq> []" by (simp add: bypass_events_def)
  ultimately show ?thesis using bypass_replayed replay_iff by blast
qed

lemma safety_chain_bypassed:
  "ReviewRunPlan_Validate flat_hash bypass_plan = None"
  "requiredAncestor TaskGenerateCandidates = Some TaskAssembleContext"
  using ReviewRunPlan_Validate_wf [OF bypass_plan_wf] by simp_all

text \<open>
  The theorem at the two runs: the change of the example plan is built on an acquired source; the
  generation of the plan above has an optional task that was skipped between it and the assembly.
\<close>

theorem safety_chain_witness:
  "(\<exists>a. ancestor example_plan a (example_task ''build'' TaskBuildChange [''acquire''] 1 True)
      \<and> td_kind a = TaskAcquireSource
      \<and> rt_status (runtime_at (example_state example_events) (td_key a)) = TaskRuntimeSucceeded)
   \<and> (\<exists>state. ReplayReviewRun flat_hash bypass_plan bypass_events = Inr state
      \<and> (\<exists>a. ancestor bypass_plan a (example_task ''generate'' TaskGenerateCandidates [''retrieve''] 1 True)
           \<and> td_kind a = TaskAssembleContext
           \<and> rt_status (runtime_at state (td_key a)) \<noteq> TaskRuntimeSucceeded
           \<and> (\<exists>d. ancestor bypass_plan a d \<and> \<not> td_required d
                \<and> rt_status (runtime_at state (td_key d)) \<in> {TaskRuntimeSkipped, TaskRuntimeFailed})))"
proof
  have req: "td_required d" if "ancestor example_plan d t" for d t
    using ancestor_in [OF that] by (auto simp: example_tasks_def)
  have "example_task ''build'' TaskBuildChange [''acquire''] 1 True \<in> set (rp_tasks example_plan)"
    by (simp add: example_tasks_def)
  from safety_chain [OF sum256_flat example_plan_wf example_facts(1) this, of TaskAcquireSource] example_facts(3) req
  show "\<exists>a. ancestor example_plan a (example_task ''build'' TaskBuildChange [''acquire''] 1 True)
      \<and> td_kind a = TaskAcquireSource
      \<and> rt_status (runtime_at (example_state example_events) (td_key a)) = TaskRuntimeSucceeded"
    by auto
next
  from bypass_state obtain state where st: "ReplayReviewRun flat_hash bypass_plan bypass_events = Inr state"
      "rt_status (runtime_at state ''assemble'') = TaskRuntimeFailed"
      "rt_status (runtime_at state ''generate'') = TaskRuntimeLeased" by blast
  have gen: "example_task ''generate'' TaskGenerateCandidates [''retrieve''] 1 True \<in> set (rp_tasks bypass_plan)"
    by (simp add: bypass_tasks_def)
  have only: "td_key a = ''assemble''" if "ancestor bypass_plan a t" "td_kind a = TaskAssembleContext" for a t
    using ancestor_in [OF that(1)] that(2) by (auto simp: bypass_tasks_def)
  from safety_chain [OF sum256_flat bypass_plan_wf st(1) gen, of TaskAssembleContext] st(3) obtain a where
      a: "ancestor bypass_plan a (example_task ''generate'' TaskGenerateCandidates [''retrieve''] 1 True)"
        "td_kind a = TaskAssembleContext"
      and kept: "rt_status (runtime_at state (td_key a)) = TaskRuntimeSucceeded
        \<or> (\<exists>d. ancestor bypass_plan a d \<and> \<not> td_required d
             \<and> rt_status (runtime_at state (td_key d)) \<in> {TaskRuntimeSkipped, TaskRuntimeFailed})"
    by auto
  have no: "rt_status (runtime_at state (td_key a)) \<noteq> TaskRuntimeSucceeded"
    using only [OF a] st(2) by simp
  show "\<exists>state. ReplayReviewRun flat_hash bypass_plan bypass_events = Inr state
      \<and> (\<exists>a. ancestor bypass_plan a (example_task ''generate'' TaskGenerateCandidates [''retrieve''] 1 True)
           \<and> td_kind a = TaskAssembleContext
           \<and> rt_status (runtime_at state (td_key a)) \<noteq> TaskRuntimeSucceeded
           \<and> (\<exists>d. ancestor bypass_plan a d \<and> \<not> td_required d
                \<and> rt_status (runtime_at state (td_key d)) \<in> {TaskRuntimeSkipped, TaskRuntimeFailed}))"
    using st(1) a no kept by blast
qed

end
