(* ===== verification/Notification_Supervisor.thy ===== *)
theory Notification_Supervisor
  imports Task_Notification "HOL-Library.Stream"
begin

text \<open>
  The supervisor (controlplane/task\_notification\_supervisor.go), which drives the scheduler and
  the finalizer over the repositories of a tenant: once before it reports readiness, and again
  after every wake-up.

  Durations are numbers of nanoseconds. The channels \<open>localWake\<close>, which has one slot, and \<open>ready\<close>,
  which is only ever closed, are flags. What the clock, the context and the waiter do is input: a
  \<open>pass_env\<close> for each attempt, a \<open>wake\<close> for each turn of the loop of \<open>Run\<close>. Nil arguments are not
  modelled, except for the context.
\<close>


section \<open>Construction and local wake-ups\<close>

definition minimumTaskNotificationReconcileInterval :: int where
  "minimumTaskNotificationReconcileInterval = 1000000000"

definition maximumTaskNotificationReconcileInterval :: int where
  "maximumTaskNotificationReconcileInterval = 300000000000"

definition maximumTaskNotificationSupervisorRetries :: nat where
  "maximumTaskNotificationSupervisorRetries = 10"

record TaskNotificationSupervisorOptions =
  so_ReconcileInterval :: int
  so_MaximumRetries :: nat
  so_RetryDelay :: int

record TaskNotificationSupervisor =
  ts_tenantID :: string
  ts_repositoryIDs :: "string list"
  ts_options :: TaskNotificationSupervisorOptions
  ts_localWake :: bool
  ts_ready :: bool
  ts_running :: bool

definition validSupervisorOptions :: "TaskNotificationSupervisorOptions \<Rightarrow> bool" where
  "validSupervisorOptions options \<longleftrightarrow>
     so_ReconcileInterval options \<ge> minimumTaskNotificationReconcileInterval
     \<and> so_ReconcileInterval options \<le> maximumTaskNotificationReconcileInterval
     \<and> so_MaximumRetries options > 0
     \<and> so_MaximumRetries options \<le> maximumTaskNotificationSupervisorRetries
     \<and> so_RetryDelay options \<ge> 10000000 \<and> so_RetryDelay options \<le> 60000000000"

definition NewTaskNotificationSupervisor ::
    "string \<Rightarrow> string list \<Rightarrow> TaskNotificationSupervisorOptions \<Rightarrow> error + TaskNotificationSupervisor" where
  "NewTaskNotificationSupervisor tenantID repositoryIDs options =
     (let repositories = sort repositoryIDs;
          validRepositories = (length repositories > 0 \<and> length repositories \<le> 256
            \<and> list_all validRunPlanQuery repositories \<and> \<not> adjacent_duplicate repositories)
      in if \<not> (validRunPlanQuery tenantID \<and> validRepositories \<and> validSupervisorOptions options)
         then Inl ErrInvalidTaskNotificationSupervisor
         else Inr \<lparr>ts_tenantID = tenantID, ts_repositoryIDs = repositories, ts_options = options,
                   ts_localWake = False, ts_ready = False, ts_running = False\<rparr>)"

definition notificationSupervisorAllowsRepository :: "string list \<Rightarrow> string \<Rightarrow> bool" where
  "notificationSupervisorAllowsRepository repositories candidate =
     (let index = sort_Search (length repositories) (\<lambda>i. repositories ! i \<ge> candidate)
      in index < length repositories \<and> repositories ! index = candidate)"

definition TaskNotificationSupervisor_Notify ::
    "sha \<Rightarrow> ReviewScope \<Rightarrow> TaskNotificationSupervisor \<Rightarrow> bool \<times> TaskNotificationSupervisor" where
  "TaskNotificationSupervisor_Notify H scope s =
     (if ReviewScope_Validate H scope \<noteq> None \<or> sc_tenantID scope \<noteq> ts_tenantID s
         \<or> \<not> notificationSupervisorAllowsRepository (ts_repositoryIDs s) (sc_repositoryID scope)
      then (False, s)
      else if ts_localWake s then (False, s)
      else (True, s\<lparr>ts_localWake := True\<rparr>))"


section \<open>A pass over the repositories\<close>

text \<open>
  The circumstances of one attempt: the time of the clock, the context the calls see, whether the
  context is done after the calls, and when it ends during the delay that follows, if it does.
\<close>

record pass_env =
  pe_now :: gotime
  pe_ctx :: gocontext
  pe_done :: bool
  pe_interrupted :: "int option"

fun reconcile_repositories ::
    "sha \<Rightarrow> 's RunJournal \<Rightarrow> 'q TaskNotificationQueue \<Rightarrow> gocontext \<Rightarrow> string \<Rightarrow> gotime \<Rightarrow> string list \<Rightarrow> 's \<times> 'q
      \<Rightarrow> bool \<times> 's \<times> 'q" where
  "reconcile_repositories H J Q ctx tenantID now [] w = (True, w)"
| "reconcile_repositories H J Q ctx tenantID now (repositoryID # rest) w =
     (case TaskNotificationScheduler_ReconcileRepository H J Q ctx tenantID repositoryID now w of
        ((_, _, Some _), w1) \<Rightarrow> (False, w1)
      | ((_, _, None), (s1, q1)) \<Rightarrow>
          (case RunFinalizer_ReconcileRepository H J ctx tenantID repositoryID now s1 of
             ((_, _, Some _), s2) \<Rightarrow> (False, (s2, q1))
           | ((_, _, None), s2) \<Rightarrow> reconcile_repositories H J Q ctx tenantID now rest (s2, q1)))"

definition supervisorDelay :: "int \<Rightarrow> nat \<Rightarrow> int" where
  "supervisorDelay base attempt =
     (let delay = base * 2 ^ min (attempt - 1) 6
      in if delay > 60000000000 then 60000000000 else delay)"

text \<open>The delay was waited out; a context that ends together with it counts as having ended first.\<close>

definition waitSupervisorDelay :: "int \<Rightarrow> nat \<Rightarrow> int option \<Rightarrow> bool" where
  "waitSupervisorDelay base attempt interrupted =
     (case interrupted of None \<Rightarrow> True | Some t \<Rightarrow> t > supervisorDelay base attempt)"

text \<open>The loop over the attempts; \<open>n\<close> are left, \<open>attempt\<close> is the number of the next.\<close>

fun reconcile_attempts ::
    "sha \<Rightarrow> 's RunJournal \<Rightarrow> 'q TaskNotificationQueue \<Rightarrow> TaskNotificationSupervisor \<Rightarrow> nat \<Rightarrow> nat
      \<Rightarrow> pass_env stream \<Rightarrow> 's \<times> 'q \<Rightarrow> error option \<times> pass_env stream \<times> 's \<times> 'q" where
  "reconcile_attempts H J Q sv 0 attempt envs w = (Some ErrTaskNotificationSupervisorUnavailable, envs, w)"
| "reconcile_attempts H J Q sv (Suc n) attempt envs w =
     (let env = shd envs
      in case reconcile_repositories H J Q (pe_ctx env) (ts_tenantID sv) (pe_now env) (ts_repositoryIDs sv) w of
           (succeeded, w1) \<Rightarrow>
             if succeeded then (None, stl envs, w1)
             else if pe_done env then (None, stl envs, w1)
             else if attempt = so_MaximumRetries (ts_options sv)
             then (Some ErrTaskNotificationSupervisorUnavailable, stl envs, w1)
             else if \<not> waitSupervisorDelay (so_RetryDelay (ts_options sv)) attempt (pe_interrupted env)
             then (None, stl envs, w1)
             else reconcile_attempts H J Q sv n (attempt + 1) (stl envs) w1)"

definition reconcileWithRetry ::
    "sha \<Rightarrow> 's RunJournal \<Rightarrow> 'q TaskNotificationQueue \<Rightarrow> TaskNotificationSupervisor
      \<Rightarrow> pass_env stream \<Rightarrow> 's \<times> 'q \<Rightarrow> error option \<times> pass_env stream \<times> 's \<times> 'q" where
  "reconcileWithRetry H J Q sv envs w =
     reconcile_attempts H J Q sv (so_MaximumRetries (ts_options sv)) 1 envs w"


section \<open>The loop\<close>

text \<open>
  What ends a wait: the context, a local wake-up, or the waiter with its error and whether the
  context of the wait was done by then. A local wake-up can only be received when one was sent.
\<close>

datatype wake =
    ContextEnded
  | LocalWake
  | WaiterReturned "error option" bool

record turn =
  tu_notified :: "ReviewScope list"
  tu_wake :: wake
  tu_done :: bool
  tu_interrupted :: "int option"

definition TaskNotificationSupervisor_wait ::
    "wake \<Rightarrow> TaskNotificationSupervisor \<Rightarrow> ((error + bool) \<times> TaskNotificationSupervisor) option" where
  "TaskNotificationSupervisor_wait wk sv =
     (case wk of
        ContextEnded \<Rightarrow> Some (Inr False, sv)
      | LocalWake \<Rightarrow> if ts_localWake sv then Some (Inr True, sv\<lparr>ts_localWake := False\<rparr>) else None
      | WaiterReturned None _ \<Rightarrow> Some (Inr True, sv)
      | WaiterReturned (Some err) expired \<Rightarrow>
          Some (if err = ErrTaskNotificationWaitCanceled \<and> expired then Inr True else Inl err, sv))"

text \<open>The calls of \<open>Notify\<close> that come in before the wait ends.\<close>

definition notified :: "sha \<Rightarrow> ReviewScope list \<Rightarrow> TaskNotificationSupervisor \<Rightarrow> TaskNotificationSupervisor" where
  "notified H scopes sv = foldl (\<lambda>sv scope. snd (TaskNotificationSupervisor_Notify H scope sv)) sv scopes"

text \<open>
  The loop of \<open>Run\<close> over the turns that have happened. \<open>None\<close> stands for a run that is still
  waiting; a turn that the wait does not receive is one that did not happen.
\<close>

fun run_loop ::
    "sha \<Rightarrow> 's RunJournal \<Rightarrow> 'q TaskNotificationQueue \<Rightarrow> turn list \<Rightarrow> nat \<Rightarrow> pass_env stream
      \<Rightarrow> TaskNotificationSupervisor \<times> 's \<times> 'q \<Rightarrow> error option option \<times> TaskNotificationSupervisor \<times> 's \<times> 'q" where
  "run_loop H J Q [] waitFailures envs (sv, w) = (None, (sv, w))"
| "run_loop H J Q (turn # turns) waitFailures envs (sv, w) =
     (case TaskNotificationSupervisor_wait (tu_wake turn) (notified H (tu_notified turn) sv) of
        None \<Rightarrow> run_loop H J Q turns waitFailures envs (notified H (tu_notified turn) sv, w)
      | Some (result, sv1) \<Rightarrow>
          if tu_done turn \<or> tu_wake turn = ContextEnded then (Some None, (sv1, w))
          else (case result of
                  Inl _ \<Rightarrow>
                    (let failures = waitFailures + 1
                     in if failures \<ge> so_MaximumRetries (ts_options sv1)
                        then (Some (Some ErrTaskNotificationSupervisorUnavailable), (sv1, w))
                        else if \<not> waitSupervisorDelay (so_RetryDelay (ts_options sv1)) failures (tu_interrupted turn)
                        then (Some None, (sv1, w))
                        else run_loop H J Q turns failures envs (sv1, w))
                | Inr False \<Rightarrow> run_loop H J Q turns 0 envs (sv1, w)
                | Inr True \<Rightarrow>
                    (case reconcileWithRetry H J Q sv1 envs w of
                       (Some err, _, w1) \<Rightarrow> (Some (Some err), (sv1, w1))
                     | (None, envs1, w1) \<Rightarrow> run_loop H J Q turns 0 envs1 (sv1, w1))))"

definition TaskNotificationSupervisor_Run ::
    "sha \<Rightarrow> 's RunJournal \<Rightarrow> 'q TaskNotificationQueue \<Rightarrow> gocontext \<Rightarrow> turn list \<Rightarrow> pass_env stream
      \<Rightarrow> TaskNotificationSupervisor \<times> 's \<times> 'q \<Rightarrow> error option option \<times> TaskNotificationSupervisor \<times> 's \<times> 'q" where
  "TaskNotificationSupervisor_Run H J Q ctx turns envs w =
     (case w of (sv, w) \<Rightarrow>
        if ctx = NilContext then (Some (Some ErrInvalidTaskNotificationSupervisor), (sv, w))
        else if ts_running sv then (Some (Some ErrTaskNotificationSupervisorRunning), (sv, w))
        else (case reconcileWithRetry H J Q (sv\<lparr>ts_running := True\<rparr>) envs w of
                (Some err, _, w1) \<Rightarrow> (Some (Some err), (sv\<lparr>ts_running := False\<rparr>, w1))
              | (None, envs1, w1) \<Rightarrow>
                  (case run_loop H J Q turns 0 envs1 (sv\<lparr>ts_running := True, ts_ready := True\<rparr>, w1) of
                     (None, (sv2, w2)) \<Rightarrow> (None, (sv2, w2))
                   | (Some err, (sv2, w2)) \<Rightarrow> (Some err, (sv2\<lparr>ts_running := False\<rparr>, w2)))))"

end
