(* ===== verification/Supervisor_Passes.thy ===== *)
theory Supervisor_Passes
  imports Notification_Scheduler Notification_Supervisor
begin

text \<open>
  What a pass of the supervisor over its repositories achieves on a memory journal that nobody else
  uses meanwhile. The contract of a journal is interpreted once more, for the plan a pass is at:
  the plans and the streams of all other runs stay as they are.
\<close>


section \<open>The journal during the work on one run\<close>

definition solo_ok ::
    "sha \<Rightarrow> ReviewRunPlan \<Rightarrow> (string \<times> ReviewRunPlan) list \<Rightarrow> (string \<Rightarrow> RunEvent list) \<Rightarrow> MemoryRunJournal \<Rightarrow> bool" where
  "solo_ok H plan plans rest j \<longleftrightarrow>
     replayable H plan (plan_stream plan j) \<and> mj_plans j = plans
     \<and> map_of plans (sc_identity (rp_scope plan)) = Some plan
     \<and> (\<forall>k. k \<noteq> sc_identity (rp_scope plan) \<longrightarrow> mj_stream j k = rest k)"

lemma SavePlan_held:
  "map_of (mj_plans j) (sc_identity (rp_scope p)) = Some p \<Longrightarrow> MemoryRunJournal_SavePlan H c p j = (err, j') \<Longrightarrow> j' = j"
  by (auto simp: MemoryRunJournal_SavePlan_def Let_def split: option.splits if_splits)

interpretation solo: planned_journal H plan "memoryJournal H" "plan_stream plan" "solo_ok H plan plans rest" "\<lambda>_. True"
  for H plan plans rest
proof (unfold_locales, goal_cases)
  case (1 j)
  then show ?case by (simp add: solo_ok_def)
next
  case (4 j c after limit res j')
  then have "MemoryRunJournal_Read H c (rp_scope plan) after limit j = (res, j')" by (simp add: memoryJournal_def)
  from Read_page [OF this] 4(1) show ?case by (auto simp: plan_stream_def)
next
  case (5 j h e c err j')
  then have "MemoryRunJournal_Append H c h e j = (err, j')" by (simp add: memoryJournal_def)
  then show ?case
  proof (cases rule: Append_cases)
    case same
    with 5 show ?thesis by (simp add: plan_stream_def fits_def)
  next
    case grown
    have scope: "ev_scope e = rp_scope plan" using 5(2) by (simp add: fits_def)
    have "replayable H plan (plan_stream plan j @ [e])"
      using 5(1,2) grown(3,5) unfolding fits_def by (auto simp: solo_ok_def plan_stream_def)
    with 5(1) grown scope show ?thesis by (auto simp: solo_ok_def plan_stream_def mj_stream_update)
  qed
next
  case (6 j c err j')
  then show ?case by (auto simp: memoryJournal_def solo_ok_def dest!: SavePlan_held [rotated])
next
  case (7 j c res j')
  then show ?case
    by (auto simp: memoryJournal_def MemoryRunJournal_LoadPlan_def solo_ok_def split: option.splits)
qed simp_all

interpretation solo_scheduler: scheduler_contract H plan "memoryJournal H" "plan_stream plan" "solo_ok H plan plans rest"
  "\<lambda>_. True" "memoryNotificationQueue H" "\<lambda>q. fst ` set (mq_items q)" items_inv for H plan plans rest
  by unfold_locales

text \<open>Loading a run does not change a memory journal.\<close>

lemma memory_read_pages:
  "read_pages (memoryJournal H) c scope events after j = (res, j') \<Longrightarrow> j' = j"
proof (induction "memoryJournal H" c scope events after j rule: read_pages.induct)
  case (1 ctx scope events after j)
  obtain page j1 where rd: "MemoryRunJournal_Read H ctx scope after (int maxRunJournalReadLimit) j = (page, j1)"
    by (cases "MemoryRunJournal_Read H ctx scope after (int maxRunJournalReadLimit) j")
  with Read_page(1) have j1: "j1 = j" by blast
  have rj: "rj_Read (memoryJournal H) ctx scope after (int maxRunJournalReadLimit) j = (page, j)"
    using rd by (simp add: memoryJournal_def j1)
  show ?case
  proof (cases page)
    case (Inl err)
    with "1.prems" rj show ?thesis by (simp add: read_pages.simps [of "memoryJournal H"])
  next
    case (Inr es)
    with "1.prems" rj "1.hyps" [OF rj [symmetric] Inr] show ?thesis
      by (auto simp: read_pages.simps [of "memoryJournal H" ctx scope events after j] Let_def split: if_splits)
  qed
qed

lemma memory_load: "Coordinator_load H (memoryJournal H) c plan j = (res, j') \<Longrightarrow> j' = j"
  by (auto simp: Coordinator_load_def readAllRunEvents_def dest: memory_read_pages split: prod.splits sum.splits if_splits)

section \<open>Closing a run\<close>

text \<open>
  The journal takes an event for recorded when it has the identity of the head. The event by which
  the finalizer would close the run at a given time could have it only if its own digest were the
  digest it continues.
\<close>

definition head_clash :: "sha \<Rightarrow> ReviewRunPlan \<Rightarrow> gotime \<Rightarrow> ReviewRunState \<Rightarrow> bool" where
  "head_clash H plan now st \<longleftrightarrow>
     (case TerminalCompletion H st of
        Inr (Some completion) \<Rightarrow>
          (case (if tc_status completion = TaskCompletionSucceeded
                 then succeed_decide H plan (tc_outputIdentity completion) now 0 st
                 else fail_decide H plan (tc_failure completion) now 0 st) of
             Try (Inr e) \<Rightarrow> ev_identity e = rs_headIdentity st
           | _ \<Rightarrow> False)
      | _ \<Rightarrow> False)"

definition closing_kind :: "RunEventKind \<Rightarrow> bool" where
  "closing_kind k \<longleftrightarrow> k = RunEventSucceeded \<or> k = RunEventFailed"

lemma closed_by_event:
  assumes "replay_context H plan" and "ReplayReviewRun H plan (es @ [e]) = Inr st" and "closing_kind (ev_kind e)"
  shows "rs_status st \<noteq> ReviewRunActive"
proof -
  from assms(2) obtain s where step: "run_step H plan s e = Inr st"
    by (auto simp: replay_iff [OF assms(1)] fold_err_snoc)
  have v: "validateFields e = None" using run_step_valid [OF step] by simp
  from step obtain s1 where s1: "apply_event s e = Inr s1" "st = set_head e s1"
    by (auto simp: run_step_def replay_step_Inr)
  have "ev_taskKey e = []"
    using v assms(3) unfolding closing_kind_def
    by (elim disjE) (simp_all add: validateFields_def event_hasTask_def res_simps)
  with s1 assms(3) show ?thesis
    by (auto simp: apply_event_def closing_kind_def set_head_def split: if_splits)
qed

lemma solo_retry:
  assumes ctx: "replay_context H plan"
    and ext: "\<And>n es st e. ReplayReviewRun H plan es = Inr st \<Longrightarrow> length es \<le> maxRunJournalStreamEvents \<Longrightarrow>
      decide n st = Try (Inr e) \<Longrightarrow> extends H plan es st e"
    and kind: "\<And>n st e. decide n st = Try (Inr e) \<Longrightarrow> closing_kind (ev_kind e)"
    and ret: "\<And>n st st'. decide n st = Return (Inr st') \<Longrightarrow> rs_status st' \<noteq> ReviewRunActive"
  shows "retry_loop n H (memoryJournal H) c plan decide (finish_load H (memoryJournal H) c plan) j = (Inr st, j') \<Longrightarrow>
    solo_ok H plan plans rest j \<Longrightarrow> rs_status st \<noteq> ReviewRunActive
      \<or> j' = j \<and> (\<exists>n e. decide n st = Try (Inr e) \<and> ev_identity e = rs_headIdentity st)"
proof (induction n)
  case (Suc n)
  let ?J = "memoryJournal H"
  obtain lres j1 where ld: "Coordinator_load H ?J c plan j = (lres, j1)" by (cases "Coordinator_load H ?J c plan j")
  note j1 = memory_load [OF ld]
  from Suc.prems(1) ld obtain st1 where st1: "lres = Inr st1" by (cases lres) auto
  note replay = solo.load_state(2,3) [OF ctx ld Suc.prems(2) st1, unfolded j1]
  show ?case
  proof (cases "decide n st1")
    case (Return r)
    with ld st1 Suc.prems(1) ret show ?thesis by auto
  next
    case (Try built)
    obtain e where e: "built = Inr e"
      using ld st1 Suc.prems(1) Try by (cases built) (auto simp: append_event_def)
    note extends = ext [OF replay Try [unfolded e]]
    obtain err j2 where ap: "MemoryRunJournal_Append H c (rs_headIdentity st1) e j = (err, j2)"
      by (cases "MemoryRunJournal_Append H c (rs_headIdentity st1) e j")
    have ap': "rj_Append ?J c (rs_headIdentity st1) e j = (err, j2)" using ap by (simp add: memoryJournal_def)
    have scope: "ev_scope e = rp_scope plan" using extends by (simp add: extends_def built_on_def)
    from ap show ?thesis
    proof (cases rule: Append_cases)
      case same
      show ?thesis
      proof (cases "err = None")
        case True
        then have id: "ev_identity (last (plan_stream plan j)) = ev_identity e" "plan_stream plan j \<noteq> []"
          using same scope by (auto simp: plan_stream_def)
        have head: "rs_headIdentity st1 = ev_identity e"
          using replay(1) replayed_revision id by (auto simp: replay_iff [OF ctx])
        have "Coordinator_load H ?J c plan j = (Inr st, j')"
          using Suc.prems(1) ld st1 Try ap' True same by (simp add: j1 e append_event_def finish_load_def)
        with ld st1 head Try e show ?thesis by (auto dest: memory_load)
      next
        case False
        with Suc ld st1 Try ap' same show ?thesis
          by (auto simp: j1 e append_event_def split: if_splits)
      qed
    next
      case grown
      with Suc.prems(1) ld st1 Try ap' have ld2: "Coordinator_load H ?J c plan j2 = (Inr st, j')"
        by (simp add: j1 e append_event_def finish_load_def)
      have es: "plan_stream plan j2 = plan_stream plan j @ [e]"
        using grown scope by (simp add: plan_stream_def mj_stream_update)
      have "solo_ok H plan plans rest j2"
        using solo.append_law [OF Suc.prems(2) replaying.built_fits [OF ctx replay(1) replaying.extends_continues [OF extends]] _ _ ap'] extends
        by (simp add: extends_def)
      from solo.load_state(2) [OF ctx ld2 this refl] memory_load [OF ld2] es closed_by_event [OF ctx _ kind] Try e
      show ?thesis by auto
    qed
  qed
qed simp

text \<open>A run with nothing to schedule: advancing it changes nothing.\<close>

definition quiet :: "sha \<Rightarrow> ReviewRunPlan \<Rightarrow> gotime \<Rightarrow> MemoryRunJournal \<Rightarrow> bool" where
  "quiet H plan now j \<longleftrightarrow> (\<forall>st. ReplayReviewRun H plan (plan_stream plan j) = Inr st \<longrightarrow>
     rs_status st = ReviewRunActive \<longrightarrow> advance_event H plan st now = None)"

lemma quiet_advance:
  assumes ctx: "replay_context H plan" and ok: "solo_ok H plan plans rest j" and "quiet H plan now j"
    and "Coordinator_Advance H (memoryJournal H) c plan now j = (res, j')"
  shows "j' = j"
proof -
  let ?J = "memoryJournal H"
  obtain lres j1 where ld: "Coordinator_load H ?J c plan j = (lres, j1)" by (cases "Coordinator_load H ?J c plan j")
  note j1 = memory_load [OF ld]
  have still: "j' = j" if "advance_loop n H ?J c plan now j = (res, j')" for n
  proof (cases n)
    case (Suc m)
    show ?thesis
    proof (cases lres)
      case (Inl err)
      with that Suc ld j1 show ?thesis by simp
    next
      case (Inr st)
      from solo.load_state(2) [OF ctx ld ok Inr] assms(3) j1
      have "rs_status st = ReviewRunActive \<Longrightarrow> advance_event H plan st now = None" by (simp add: quiet_def)
      with that Suc ld j1 Inr show ?thesis by (auto split: if_splits)
    qed
  qed (use that in simp)
  from assms(4) still show ?thesis by (auto simp: Coordinator_Advance_def split: option.splits)
qed

text \<open>What closes a run does not depend on how many conflicts there were.\<close>

lemma succeed_decide_any: "succeed_decide H plan out now n st = succeed_decide H plan out now m st"
  by (simp add: succeed_decide_def)

lemma fail_decide_any: "fail_decide H plan failure now n st = fail_decide H plan failure now m st"
  by (simp add: fail_decide_def)

lemma solo_succeed:
  assumes ctx: "replay_context H plan" and ok: "solo_ok H plan plans rest j"
    and "Coordinator_SucceedRun H (memoryJournal H) c plan out now j = (Inr st, j')"
  shows "rs_status st \<noteq> ReviewRunActive
    \<or> j' = j \<and> (\<exists>e. succeed_decide H plan out now 0 st = Try (Inr e) \<and> ev_identity e = rs_headIdentity st)"
proof -
  have kind: "ev_kind e = RunEventSucceeded" if "succeed_decide H plan out now n s = Try (Inr e)" for n s e
    using that by (auto simp: succeed_decide_def event_fields_def dest!: next_event_fields split: if_splits sum.splits option.splits)
  have ret: "rs_status st' \<noteq> ReviewRunActive" if "succeed_decide H plan out now n s = Return (Inr st')" for n s st'
    using that by (auto simp: succeed_decide_def split: if_splits sum.splits option.splits)
  have "retry_loop maxCoordinatorConflicts H (memoryJournal H) c plan (succeed_decide H plan out now)
      (finish_load H (memoryJournal H) c plan) j = (Inr st, j')"
    using assms(3) by (auto simp: Coordinator_SucceedRun_def split: option.splits if_splits)
  from solo_retry [OF ctx _ _ _ this ok]
  have "rs_status st \<noteq> ReviewRunActive
    \<or> j' = j \<and> (\<exists>n e. succeed_decide H plan out now n st = Try (Inr e) \<and> ev_identity e = rs_headIdentity st)"
    using decide_extends(4) [OF ctx] kind ret by (auto simp: closing_kind_def)
  then show ?thesis using succeed_decide_any by metis
qed

lemma solo_fail:
  assumes ctx: "replay_context H plan" and ok: "solo_ok H plan plans rest j"
    and res: "Coordinator_FailRun H (memoryJournal H) c plan failure now j = (Inr st, j')"
    and "quiet H plan now j"
  shows "rs_status st \<noteq> ReviewRunActive
    \<or> j' = j \<and> (\<exists>e. fail_decide H plan failure now 0 st = Try (Inr e) \<and> ev_identity e = rs_headIdentity st)"
proof -
  let ?J = "memoryJournal H"
  have kind: "ev_kind e = RunEventFailed" if "fail_decide H plan failure now n s = Try (Inr e)" for n s e
    using that by (auto simp: fail_decide_def event_fields_def dest!: next_event_fields split: if_splits sum.splits option.splits)
  have ret: "rs_status st' \<noteq> ReviewRunActive" if "fail_decide H plan failure now n s = Return (Inr st')" for n s st'
    using that by (auto simp: fail_decide_def split: if_splits sum.splits option.splits)
  obtain ares j1 where ad: "Coordinator_Advance H ?J c plan now j = (ares, j1)" by (cases "Coordinator_Advance H ?J c plan now j")
  with quiet_advance [OF ctx ok assms(4)] have j1: "j1 = j" by blast
  have "retry_loop maxCoordinatorConflicts H ?J c plan (fail_decide H plan failure now)
      (finish_load H ?J c plan) j = (Inr st, j')"
    using res ad j1 by (auto simp: Coordinator_FailRun_def split: option.splits if_splits sum.splits)
  from solo_retry [OF ctx _ _ _ this ok]
  have "rs_status st \<noteq> ReviewRunActive
    \<or> j' = j \<and> (\<exists>n e. fail_decide H plan failure now n st = Try (Inr e) \<and> ev_identity e = rs_headIdentity st)"
    using decide_extends(5) [OF ctx] kind ret by (auto simp: closing_kind_def)
  then show ?thesis using fail_decide_any by metis
qed

lemma finalize_run:
  assumes ctx: "replay_context H plan" and ok: "solo_ok H plan plans rest j"
    and res: "RunFinalizer_ReconcileRun H (memoryJournal H) c (rp_scope plan) now j = (Inr (st, changed), j')"
    and active: "rs_status st = ReviewRunActive"
  shows "TerminalCompletion H st = Inr None \<or> head_clash H plan now st" and "quiet H plan now j \<Longrightarrow> j' = j"
    and "quiet H plan now j'"
proof -
  let ?J = "memoryJournal H"
  obtain r1 j1 where r1: "Coordinator_Resume H ?J c (rp_scope plan) j = (r1, j1)"
    by (cases "Coordinator_Resume H ?J c (rp_scope plan) j")
  from r1 have j1: "j1 = j"
    by (auto simp: Coordinator_Resume_def memoryJournal_def MemoryRunJournal_LoadPlan_def
        dest!: memory_load [unfolded memoryJournal_def] split: option.splits prod.splits sum.splits if_splits)
  note resume = solo.Resume_state [OF ctx ok r1]
  obtain r2 j2 where r2: "Coordinator_Advance H ?J c plan now j = (r2, j2)"
    by (cases "Coordinator_Advance H ?J c plan now j")
  note ok2 = solo.moves_ok [OF solo.Advance_moves [OF ctx r2 ok]]
  obtain st1 where st1: "r1 = Inr (plan, st1)"
    using res r1 resume(2) by (cases r1) (auto simp: RunFinalizer_ReconcileRun_def split: if_splits)
  have active1: "rs_status st1 = ReviewRunActive"
    using res r1 st1 active by (auto simp: RunFinalizer_ReconcileRun_def split: if_splits)
  obtain st2 where st2: "r2 = Inr st2"
    using res r1 st1 active1 r2 by (cases r2) (auto simp: RunFinalizer_ReconcileRun_def j1 split: if_splits)
  note adv = solo.Advance_result [OF ctx r2 [unfolded st2] ok]
  have quiet2: "quiet H plan now j2" using adv by (simp add: quiet_def)
  have active2: "rs_status st2 = ReviewRunActive"
    using res r1 st1 active1 r2 st2 active by (auto simp: RunFinalizer_ReconcileRun_def j1 split: if_splits)
  have "(TerminalCompletion H st = Inr None \<or> head_clash H plan now st) \<and> j' = j2"
  proof (cases "TerminalCompletion H st2")
    case (Inl err)
    with res r1 st1 active1 active2 r2 st2 show ?thesis
      by (auto simp: RunFinalizer_ReconcileRun_def j1 split: if_splits)
  next
    case (Inr completion)
    show ?thesis
    proof (cases completion)
      case None
      with res r1 st1 active1 active2 r2 st2 Inr show ?thesis
        by (auto simp: RunFinalizer_ReconcileRun_def j1 split: if_splits)
    next
      case (Some closing)
      have "if tc_status closing = TaskCompletionSucceeded
        then Coordinator_SucceedRun H ?J c plan (tc_outputIdentity closing) now j2 = (Inr st, j')
        else Coordinator_FailRun H ?J c plan (tc_failure closing) now j2 = (Inr st, j')" (is ?closed)
        using res r1 st1 active1 active2 r2 st2 Inr Some
        by (auto simp: RunFinalizer_ReconcileRun_def j1 split: if_splits prod.splits sum.splits)
      note closed = this
      have same: "st2 = st" if "j' = j2"
        using closed solo.Succeed_result [OF ctx ok2] solo.Fail_result [OF ctx ok2] adv(1) that
        by (fastforce split: if_splits)
      have "j' = j2 \<and> (\<exists>e. (if tc_status closing = TaskCompletionSucceeded
             then succeed_decide H plan (tc_outputIdentity closing) now 0 st
             else fail_decide H plan (tc_failure closing) now 0 st) = Try (Inr e) \<and> ev_identity e = rs_headIdentity st)"
        using closed solo_succeed [OF ctx ok2] solo_fail [OF ctx ok2 _ quiet2] active by (auto split: if_splits)
      with same Inr Some show ?thesis by (auto simp: head_clash_def)
    qed
  qed
  then show "TerminalCompletion H st = Inr None \<or> head_clash H plan now st" and "quiet H plan now j'"
    and "quiet H plan now j \<Longrightarrow> j' = j"
    using quiet2 quiet_advance [OF ctx ok _ r2] by auto
qed

section \<open>All runs\<close>

text \<open>The journal between passes: every plan is stored under its scope, and its stream replays.\<close>

definition fleet :: "sha \<Rightarrow> (string \<times> ReviewRunPlan) list \<Rightarrow> MemoryRunJournal \<Rightarrow> bool" where
  "fleet H plans j \<longleftrightarrow> mj_plans j = plans \<and> distinct (map fst plans)
     \<and> (\<forall>(k, p)\<in>set plans. k = sc_identity (rp_scope p) \<and> plan_wf H p \<and> replayable H p (plan_stream p j))"

lemma fleet_solo:
  assumes "fleet H plans j" and "p \<in> snd ` set plans"
  shows "solo_ok H p plans (mj_stream j) j" "plan_wf H p"
proof -
  from assms(2) obtain k where k: "(k, p) \<in> set plans" by auto
  with assms(1) have "k = sc_identity (rp_scope p)" "plan_wf H p" "replayable H p (plan_stream p j)" "map_of plans k = Some p"
    by (auto simp: fleet_def)
  with assms(1) show "solo_ok H p plans (mj_stream j) j" "plan_wf H p" by (simp_all add: solo_ok_def fleet_def)
qed

lemma fleet_same_key:
  assumes "fleet H plans j" and "p \<in> snd ` set plans" and "q \<in> snd ` set plans"
    and "sc_identity (rp_scope p) = sc_identity (rp_scope q)"
  shows "p = q"
  using fleet_solo(1) [OF assms(1,2)] fleet_solo(1) [OF assms(1,3)] assms(4) by (simp add: solo_ok_def)

lemma solo_fleet:
  assumes "fleet H plans j" and "p \<in> snd ` set plans" and "solo_ok H p plans (mj_stream j) j'"
  shows "fleet H plans j'"
    and "q \<in> snd ` set plans \<Longrightarrow> q \<noteq> p \<Longrightarrow> plan_stream q j' = plan_stream q j"
proof -
  show other: "plan_stream q j' = plan_stream q j" if "q \<in> snd ` set plans" "q \<noteq> p" for q
    using fleet_same_key [OF assms(1) that(1) assms(2)] that(2) assms(3) by (auto simp: solo_ok_def plan_stream_def)
  have "replayable H q (plan_stream q j')" if "(k, q) \<in> set plans" for k q
  proof (cases "q = p")
    case True
    with assms(3) show ?thesis by (simp add: solo_ok_def)
  next
    case False
    have q: "q \<in> snd ` set plans" using that by force
    from fleet_solo(1) [OF assms(1) q] show ?thesis unfolding other [OF q False] by (simp add: solo_ok_def)
  qed
  with assms(1,3) show "fleet H plans j'" by (auto simp: fleet_def solo_ok_def)
qed

text \<open>
  What a pass should leave of a run, given the journal and the queue: the scheduler leaves nothing
  to schedule and every task that can be claimed announced, the finalizer no run that could be
  closed.
\<close>

definition announced_run :: "sha \<Rightarrow> gotime \<Rightarrow> ReviewRunPlan \<Rightarrow> MemoryRunJournal \<times> MemoryTaskNotificationQueue \<Rightarrow> bool" where
  "announced_run H now p w \<longleftrightarrow> (case w of (j, q) \<Rightarrow>
     \<forall>st. ReplayReviewRun H p (plan_stream p j) = Inr st \<longrightarrow> rs_status st = ReviewRunActive \<longrightarrow>
       advance_event H p st now = None
       \<and> (\<forall>d\<in>set (rp_tasks p). \<forall>n. NewTaskNotification H st (runtime_at st (td_key d)) now = Inr n \<longrightarrow>
            tn_identity n \<in> fst ` set (mq_items q)))"

definition settled_run :: "sha \<Rightarrow> gotime \<Rightarrow> ReviewRunPlan \<Rightarrow> MemoryRunJournal \<Rightarrow> bool" where
  "settled_run H now p j \<longleftrightarrow>
     (\<forall>st. ReplayReviewRun H p (plan_stream p j) = Inr st \<longrightarrow> rs_status st = ReviewRunActive \<longrightarrow>
        TerminalCompletion H st = Inr None \<or> head_clash H p now st)"

text \<open>The loop over the pages visits every plan of the repository after the cursor.\<close>

lemma page_cover:
  assumes step: "\<And>p w res w'. Inv w \<Longrightarrow> p \<in> R \<Longrightarrow> run (rp_scope p) w = (res, w') \<Longrightarrow>
      Inv w' \<and> (\<forall>n. res = Inr n \<longrightarrow> K w \<longrightarrow> K w' \<and> D p w' \<and> (\<forall>q\<in>R. D q w \<longrightarrow> D q w'))"
  shows "reconcile_page err run ps runs changes w = ((runs', changes', e), w') \<Longrightarrow> Inv w \<Longrightarrow> set ps \<subseteq> R \<Longrightarrow>
    Inv w' \<and> (e = None \<longrightarrow> K w \<longrightarrow> K w' \<and> (\<forall>q\<in>R. D q w \<longrightarrow> D q w') \<and> (\<forall>p\<in>set ps. D p w'))"
proof (induction ps arbitrary: runs changes w)
  case (Cons p ps)
  obtain r w1 where r: "run (rp_scope p) w = (r, w1)" by (cases "run (rp_scope p) w")
  have p: "p \<in> R" using Cons.prems(3) by simp
  note one = step [OF Cons.prems(2) p r]
  show ?case
  proof (cases "runs \<ge> maximumReconciledRuns \<or> (\<exists>err. r = Inl err)")
    case True
    with Cons.prems r one show ?thesis by (auto split: if_splits)
  next
    case False
    then obtain n where n: "r = Inr n" by (cases r) auto
    with False Cons.prems(1) r have "reconcile_page err run ps (runs + 1) (changes + n) w1 = ((runs', changes', e), w')" by simp
    from Cons.IH [OF this] one n p Cons.prems(3) show ?thesis by auto
  qed
qed simp

lemma take_sorted_cover:
  assumes "sorted_wrt (\<lambda>x y. f x < (f y :: 'b :: linorder)) xs" and "n \<le> length xs" and "0 < n"
    and "x \<in> set xs" and "f x \<le> f (last (take n xs))"
  shows "x \<in> set (take n xs)"
proof -
  from assms(4) obtain i where i: "i < length xs" "x = xs ! i" by (auto simp: in_set_conv_nth)
  have "last (take n xs) = xs ! (n - 1)" using assms(2,3) by (subst last_conv_nth) (auto simp: min_def)
  with assms(1,5) i have "\<not> n - 1 < i" by (metis leD sorted_wrt_nth_less)
  with i assms(2,3) show ?thesis by (auto simp: in_set_conv_nth intro!: exI [of _ i])
qed

lemma strict_listing:
  assumes "distinct xs" and "inj_on f (set xs)"
  shows "sorted_wrt (\<lambda>x y. f x < (f y :: 'b :: linorder)) (sort_key f xs)"
proof -
  have "sorted_wrt (<) (map f (sort_key f xs))"
    using assms by (simp add: strict_sorted_iff distinct_map)
  then show ?thesis by (simp add: sorted_wrt_map)
qed

lemma pages_cover:
  fixes plans :: "(string \<times> ReviewRunPlan) list" and tenant repository :: string
  defines "R \<equiv> {p \<in> snd ` set plans. sc_tenantID (rp_scope p) = tenant \<and> sc_repositoryID (rp_scope p) = repository}"
  defines "listing \<equiv> \<lambda>after. sort_key run_of (filter (selected tenant repository after) (map snd plans))"
  assumes step: "\<And>p w res w'. Inv w \<Longrightarrow> p \<in> R \<Longrightarrow> run (rp_scope p) w = (res, w') \<Longrightarrow>
      Inv w' \<and> (\<forall>n. res = Inr n \<longrightarrow> K w \<longrightarrow> K w' \<and> D p w' \<and> (\<forall>q\<in>R. D q w \<longrightarrow> D q w'))"
    and page: "\<And>after w res w'. Inv w \<Longrightarrow> page after w = (res, w') \<Longrightarrow>
      w' = w \<and> (\<forall>ps. res = Inr ps \<longrightarrow> ps = take reconcilePageSize (listing after))"
    and listed: "distinct (map snd plans)" "inj_on run_of R"
  shows "reconcile_pages err page run after runs changes w = ((runs', changes', e), w') \<Longrightarrow> Inv w \<Longrightarrow>
    Inv w' \<and> (e = None \<longrightarrow> K w \<longrightarrow>
      K w' \<and> (\<forall>q\<in>R. D q w \<longrightarrow> D q w') \<and> (\<forall>p\<in>R. selected tenant repository after p \<longrightarrow> D p w'))"
proof (induction "maximumReconciledRuns - runs" arbitrary: after runs changes w rule: less_induct)
  case less
  obtain lres w1 where ls: "page after w = (lres, w1)" by (cases "page after w")
  note w1 = page [OF less.prems(2) ls, THEN conjunct1]
  have set_listing: "set (listing after) = {p \<in> R. selected tenant repository after p}" for after
    by (auto simp: listing_def R_def selected_def)
  show ?case
  proof (cases lres)
    case (Inl a)
    with ls w1 less.prems show ?thesis by (auto simp: reconcile_pages.simps [of err page run])
  next
    case (Inr ps)
    have ps: "ps = take reconcilePageSize (listing after)" using page [OF less.prems(2) ls] Inr by blast
    then have sub: "set ps \<subseteq> R" using set_listing [of after] by (auto dest: in_set_takeD)
    obtain r1 c1 e1 w2 where pg: "reconcile_page err run ps runs changes w = ((r1, c1, e1), w2)"
      by (metis prod.collapse)
    note cover = page_cover [of Inv R run K D, OF step pg less.prems(2) sub]
    show ?thesis
    proof (cases "e1 = None \<and> \<not> length ps < reconcilePageSize")
      case False
      have "((r1, c1, e1), w2) = ((runs', changes', e), w')"
      proof (cases e1)
        case None
        with False have "length ps < reconcilePageSize" by simp
        with less.prems(1) ls w1 Inr pg None show ?thesis by (subst (asm) reconcile_pages.simps) simp
      next
        case (Some x)
        with less.prems(1) ls w1 Inr pg show ?thesis by (subst (asm) reconcile_pages.simps) simp
      qed
      then have out: "e = e1" "w' = w2" by simp_all
      have "ps = listing after" if "e1 = None" using False that ps by (auto simp: min_def split: if_splits)
      then have "\<forall>p\<in>R. selected tenant repository after p \<longrightarrow> p \<in> set ps" if "e1 = None"
        using that set_listing [of after] by simp
      with cover show ?thesis unfolding out by blast
    next
      case True
      let ?next = "sc_reviewRunID (rp_scope (last ps))"
      have rec: "reconcile_pages err page run ?next r1 c1 w2 = ((runs', changes', e), w')"
        using True ls w1 Inr pg less.prems(1) by (simp add: reconcile_pages.simps [of err page run after])
      have "maximumReconciledRuns - r1 < maximumReconciledRuns - runs"
        using reconcile_page_runs [of err run ps runs changes w r1 c1 w2] pg True
        by (auto simp: reconcilePageSize_def)
      note rest = less.hyps [OF this rec]
      have "p \<in> set ps" if p: "p \<in> R" "selected tenant repository after p" "\<not> selected tenant repository ?next p" for p
        unfolding ps
      proof (rule take_sorted_cover [where f = run_of])
        have "inj_on run_of (set (filter (selected tenant repository after) (map snd plans)))"
          by (rule inj_on_subset [OF listed(2)]) (auto simp: R_def selected_def)
        then show "sorted_wrt (\<lambda>x y. run_of x < run_of y) (listing after)"
          unfolding listing_def using listed(1) by (intro strict_listing) simp_all
        show "p \<in> set (listing after)" using p set_listing by auto
        show "run_of p \<le> run_of (last (take reconcilePageSize (listing after)))"
          using p(2,3) unfolding ps [symmetric] by (simp add: selected_def)
      qed (use True ps in \<open>auto simp: reconcilePageSize_def\<close>)
      with cover rest True show ?thesis by blast
    qed
  qed
qed

section \<open>A pass over one repository\<close>

lemma fleet_listed:
  assumes "fleet H plans j"
  shows "distinct (map snd plans)"
    and "inj_on run_of {p \<in> snd ` set plans. sc_tenantID (rp_scope p) = tenant \<and> sc_repositoryID (rp_scope p) = repository}"
    and "p \<in> snd ` set plans \<Longrightarrow> [] < run_of p"
proof -
  have key: "fst x = sc_identity (rp_scope (snd x))" if "x \<in> set plans" for x
    using assms that by (auto simp: fleet_def)
  have "map fst plans = map (\<lambda>p. sc_identity (rp_scope p)) (map snd plans)" using key by simp
  with assms show "distinct (map snd plans)" unfolding fleet_def by (metis distinct_map)
  show "inj_on run_of {p \<in> snd ` set plans. sc_tenantID (rp_scope p) = tenant \<and> sc_repositoryID (rp_scope p) = repository}"
  proof (rule inj_onI)
    fix p q assume "p \<in> {p \<in> snd ` set plans. sc_tenantID (rp_scope p) = tenant \<and> sc_repositoryID (rp_scope p) = repository}"
      "q \<in> {p \<in> snd ` set plans. sc_tenantID (rp_scope p) = tenant \<and> sc_repositoryID (rp_scope p) = repository}"
      and run: "run_of p = run_of q"
    then have pq: "p \<in> snd ` set plans" "q \<in> snd ` set plans"
        and scope: "sc_tenantID (rp_scope p) = sc_tenantID (rp_scope q)" "sc_repositoryID (rp_scope p) = sc_repositoryID (rp_scope q)"
      by auto
    from fleet_same_key [OF assms pq scope_determined [OF fleet_solo(2) [OF assms pq(1)] fleet_solo(2) [OF assms pq(2)] scope run]]
    show "p = q" .
  qed
  show "[] < run_of p" if "p \<in> snd ` set plans"
  proof -
    have "ReviewScope_Validate H (rp_scope p) = None"
      using plan_scope_valid ReviewRunPlan_Validate_wf [OF fleet_solo(2) [OF assms that]] by blast
    then have "run_of p \<noteq> []" by (auto simp: ReviewScope_Validate_def validAuditScopeIdentifier_def split: if_splits)
    then show ?thesis by (cases "run_of p") auto
  qed
qed

text \<open>The invariant of a pass that began on the journal \<open>j0\<close>.\<close>

definition pass_inv ::
    "sha \<Rightarrow> (string \<times> ReviewRunPlan) list \<Rightarrow> MemoryRunJournal \<Rightarrow> MemoryRunJournal \<times> MemoryTaskNotificationQueue \<Rightarrow> bool" where
  "pass_inv H plans j0 w \<longleftrightarrow> fleet H plans (fst w) \<and> items_inv (snd w)
     \<and> (\<forall>p\<in>snd ` set plans. prefix (plan_stream p j0) (plan_stream p (fst w)))"

text \<open>Work on one run: the others keep their streams, the queue only grows.\<close>

definition works_on ::
    "(string \<times> ReviewRunPlan) list \<Rightarrow> ReviewRunPlan \<Rightarrow> MemoryRunJournal \<times> MemoryTaskNotificationQueue
      \<Rightarrow> MemoryRunJournal \<times> MemoryTaskNotificationQueue \<Rightarrow> bool" where
  "works_on plans p w w' \<longleftrightarrow>
     (\<forall>q\<in>snd ` set plans. q \<noteq> p \<longrightarrow> plan_stream q (fst w') = plan_stream q (fst w))
     \<and> fst ` set (mq_items (snd w)) \<subseteq> fst ` set (mq_items (snd w'))"

lemma works_on_keeps:
  assumes "works_on plans p w w'" and "q \<in> snd ` set plans" and "q \<noteq> p"
  shows "announced_run H now q w \<Longrightarrow> announced_run H now q w'" and "settled_run H now q (fst w) \<Longrightarrow> settled_run H now q (fst w')"
proof -
  have stream: "plan_stream q (fst w') = plan_stream q (fst w)"
    and queue: "fst ` set (mq_items (snd w)) \<subseteq> fst ` set (mq_items (snd w'))"
    using assms unfolding works_on_def by blast+
  show "announced_run H now q w'" if "announced_run H now q w"
    using that queue unfolding announced_run_def case_prod_beta stream by blast
  show "settled_run H now q (fst w')" if "settled_run H now q (fst w)"
    using that unfolding settled_run_def stream .
qed

lemma pass_inv_moves:
  assumes inv: "pass_inv H plans j0 (j, q)" and p: "p \<in> snd ` set plans" and "solo.moves p H plans (mj_stream j) j j'"
    and "items_inv q'" and "fst ` set (mq_items q) \<subseteq> fst ` set (mq_items q')"
  shows "pass_inv H plans j0 (j', q')" and "works_on plans p (j, q) (j', q')"
proof -
  have f: "fleet H plans j" using inv by (simp add: pass_inv_def)
  have solo: "solo_ok H p plans (mj_stream j) j'" and pre: "prefix (plan_stream p j) (plan_stream p j')"
    using assms(3) by (simp_all add: solo.moves_def)
  note new = solo_fleet [OF f p solo]
  have "prefix (plan_stream x j0) (plan_stream x j')" if "x \<in> snd ` set plans" for x
    using inv that pre new(2) [OF that] by (cases "x = p") (auto simp: pass_inv_def intro: prefix_order.trans)
  with new(1) assms(4) show "pass_inv H plans j0 (j', q')" by (simp add: pass_inv_def)
  show "works_on plans p (j, q) (j', q')" using new(2) assms(5) by (simp add: works_on_def)
qed

lemma schedule_step:
  assumes "sum256 H" and inv: "pass_inv H plans j0 (j, q)" and p: "p \<in> snd ` set plans"
    and run: "TaskNotificationScheduler_ReconcileRun H (memoryJournal H) (memoryNotificationQueue H) c (rp_scope p) now (j, q)
      = ((created, res), (j', q'))"
  shows "pass_inv H plans j0 (j', q')" and "works_on plans p (j, q) (j', q')"
    and "res = Inr st \<Longrightarrow> announced_run H now p (j', q')"
proof -
  have f: "fleet H plans j" and qi: "items_inv q" using inv by (simp_all add: pass_inv_def)
  note solo = fleet_solo [OF f p]
  have ctx: "replay_context H p" using assms(1) solo(2) by (simp add: replay_context_def)
  note sched = solo_scheduler.schedule_run [OF ctx solo(1) qi run]
  show "pass_inv H plans j0 (j', q')" and "works_on plans p (j, q) (j', q')"
    using pass_inv_moves [OF inv p] sched by blast+
  show "announced_run H now p (j', q')" if "res = Inr st" using sched that by (auto simp: announced_run_def)
qed

lemma finalize_step:
  assumes "sum256 H" and inv: "pass_inv H plans j0 (j, q)" and p: "p \<in> snd ` set plans"
    and run: "RunFinalizer_ReconcileRun H (memoryJournal H) c (rp_scope p) now j = (res, j')"
  shows "pass_inv H plans j0 (j', q)" and "works_on plans p (j, q) (j', q)"
    and "res = Inr (st, changed) \<Longrightarrow> settled_run H now p j'"
    and "res = Inr (st, changed) \<Longrightarrow> announced_run H now p (j, q) \<Longrightarrow> announced_run H now p (j', q)"
proof -
  have f: "fleet H plans j" and qi: "items_inv q" using inv by (simp_all add: pass_inv_def)
  note solo = fleet_solo [OF f p]
  have ctx: "replay_context H p" using assms(1) solo(2) by (simp add: replay_context_def)
  note fin = solo.ReconcileRun_moves [OF ctx solo(1) run]
  show "pass_inv H plans j0 (j', q)" and "works_on plans p (j, q) (j', q)"
    using pass_inv_moves [OF inv p] fin qi by blast+
  show "settled_run H now p j'" if "res = Inr (st, changed)"
    using fin that finalize_run(1) [OF ctx solo(1) run [unfolded that]] by (auto simp: settled_run_def)
  show "announced_run H now p (j', q)" if r: "res = Inr (st, changed)" and a: "announced_run H now p (j, q)"
  proof (cases "rs_status st = ReviewRunActive")
    case True
    have "quiet H p now j" using a by (auto simp: announced_run_def quiet_def)
    from finalize_run(2) [OF ctx solo(1) run [unfolded r] True this] a show ?thesis by simp
  qed (use fin r in \<open>auto simp: announced_run_def\<close>)
qed

text \<open>The runs of a repository, and what is known of the runs \<open>S\<close> that a pass is through with.\<close>

definition runs_of :: "(string \<times> ReviewRunPlan) list \<Rightarrow> string \<Rightarrow> string \<Rightarrow> ReviewRunPlan set" where
  "runs_of plans tenant repository =
     {p \<in> snd ` set plans. sc_tenantID (rp_scope p) = tenant \<and> sc_repositoryID (rp_scope p) = repository}"

definition through ::
    "sha \<Rightarrow> gotime \<Rightarrow> ReviewRunPlan set \<Rightarrow> MemoryRunJournal \<times> MemoryTaskNotificationQueue \<Rightarrow> bool" where
  "through H now S w \<longleftrightarrow> (\<forall>q\<in>S. announced_run H now q w \<and> settled_run H now q (fst w))"

lemma works_on_through:
  assumes "works_on plans p w w'" and "S \<subseteq> snd ` set plans" and "p \<notin> S" and "through H now S w"
  shows "through H now S w'"
  using assms works_on_keeps [OF assms(1)] unfolding through_def by blast

lemma listing_page:
  assumes "rj_ListPlans (memoryJournal H) c tenant repository after (int reconcilePageSize) j = (res, j')"
    and "fleet H plans j"
  shows "j' = j \<and> (\<forall>ps. res = Inr ps \<longrightarrow>
    ps = take reconcilePageSize (sort_key run_of (filter (selected tenant repository after) (map snd plans))))"
  using ListPlans_page [of c tenant repository after "int reconcilePageSize" j res j'] assms
  by (auto simp: memoryJournal_def fleet_def)

lemma scheduler_pass:
  assumes "sum256 H" and inv: "pass_inv H plans j0 w" and S: "S \<subseteq> snd ` set plans" "S \<inter> runs_of plans tenant repository = {}"
    and pass: "TaskNotificationScheduler_ReconcileRepository H (memoryJournal H) (memoryNotificationQueue H) c
      tenant repository now w = ((runs, created, err), w')"
  shows "pass_inv H plans j0 w'"
    and "err = None \<Longrightarrow> through H now S w \<Longrightarrow>
      through H now S w' \<and> (\<forall>p\<in>runs_of plans tenant repository. announced_run H now p w')"
proof -
  let ?J = "memoryJournal H" and ?Q = "memoryNotificationQueue H" and ?R = "runs_of plans tenant repository"
  let ?page = "\<lambda>after (s, q). case rj_ListPlans ?J c tenant repository after (int reconcilePageSize) s of (plans, s') \<Rightarrow> (plans, (s', q))"
  let ?run = "\<lambda>scope w. case TaskNotificationScheduler_ReconcileRun H ?J ?Q c scope now w of
      ((created, Inl err), w1) \<Rightarrow> (Inl err, w1) | ((created, Inr _), w1) \<Rightarrow> (Inr created, w1)"
  have f: "fleet H plans (fst w)" using inv by (simp add: pass_inv_def)
  have step: "pass_inv H plans j0 w' \<and> (\<forall>n. res = Inr n \<longrightarrow> through H now S w \<longrightarrow>
      through H now S w' \<and> announced_run H now p w' \<and> (\<forall>q\<in>?R. announced_run H now q w \<longrightarrow> announced_run H now q w'))"
    if "pass_inv H plans j0 w" "p \<in> ?R" "?run (rp_scope p) w = (res, w')" for p w res w'
  proof -
    obtain j q j' q' where w: "w = (j, q)" "w' = (j', q')" by (cases w; cases w')
    obtain n r j1 q1 where run: "TaskNotificationScheduler_ReconcileRun H ?J ?Q c (rp_scope p) now (j, q) = ((n, r), (j1, q1))"
      by (metis prod.collapse)
    have p: "p \<in> snd ` set plans" "p \<notin> S" using that(2) S(2) by (auto simp: runs_of_def)
    note one = schedule_step [OF assms(1) that(1) [unfolded w] p(1) run]
    have out: "(j1, q1) = (j', q')" "res = Inr k \<Longrightarrow> \<exists>st. r = Inr st" for k
      using that(3) run by (auto simp: w split: sum.splits)
    have ann: "announced_run H now p w'" if "res = Inr k" for k using one(3) out that by (auto simp: w)
    have "announced_run H now x w'" if "x \<in> ?R" "announced_run H now x w" "res = Inr k" for x k
      using that works_on_keeps(1) [OF one(2), of x] ann out(1) by (cases "x = p") (auto simp: w runs_of_def)
    with one(1,2) out ann works_on_through [OF one(2) S(1) p(2)] show ?thesis by (auto simp: w)
  qed
  have page: "w' = w \<and> (\<forall>ps. res = Inr ps \<longrightarrow>
      ps = take reconcilePageSize (sort_key run_of (filter (selected tenant repository after) (map snd plans))))"
    if "pass_inv H plans j0 w" "?page after w = (res, w')" for after w res w'
    using that listing_page [of H c tenant repository after "fst w"] by (fastforce simp: pass_inv_def split: prod.splits)
  show "pass_inv H plans j0 w'" and "err = None \<Longrightarrow> through H now S w \<Longrightarrow>
      through H now S w' \<and> (\<forall>p\<in>?R. announced_run H now p w')"
  proof -
    consider "w' = w" "err \<noteq> None" | "reconcile_pages ErrInvalidTaskNotificationQueue ?page ?run [] 0 0 w = ((runs, created, err), w')"
      using pass by (auto simp: TaskNotificationScheduler_ReconcileRepository_def split: if_splits)
    then have "pass_inv H plans j0 w' \<and> (err = None \<longrightarrow> through H now S w \<longrightarrow>
      through H now S w' \<and> (\<forall>p\<in>?R. announced_run H now p w'))"
    proof cases
      case 2
      have "p \<in> ?R \<Longrightarrow> selected tenant repository [] p" for p
        using fleet_listed(3) [OF f] by (auto simp: runs_of_def selected_def)
      with pages_cover [of "pass_inv H plans j0" plans tenant repository ?run "through H now S" "announced_run H now" ?page, folded runs_of_def,
          OF step page fleet_listed(1,2) [OF f, folded runs_of_def] 2 inv]
      show ?thesis by blast
    qed (use inv in auto)
    then show "pass_inv H plans j0 w'" and "err = None \<Longrightarrow> through H now S w \<Longrightarrow>
      through H now S w' \<and> (\<forall>p\<in>?R. announced_run H now p w')" by blast+
  qed
qed

lemma finalizer_pass:
  assumes "sum256 H" and inv: "pass_inv H plans j0 (j, q)" and S: "S \<subseteq> snd ` set plans" "S \<inter> runs_of plans tenant repository = {}"
    and pass: "RunFinalizer_ReconcileRepository H (memoryJournal H) c tenant repository now j = ((runs, changes, err), j')"
  shows "pass_inv H plans j0 (j', q)"
    and "err = None \<Longrightarrow> through H now S (j, q) \<Longrightarrow> \<forall>p\<in>runs_of plans tenant repository. announced_run H now p (j, q) \<Longrightarrow>
      through H now (S \<union> runs_of plans tenant repository) (j', q)"
proof -
  let ?J = "memoryJournal H" and ?R = "runs_of plans tenant repository"
  let ?K = "\<lambda>j. through H now S (j, q) \<and> (\<forall>p\<in>?R. announced_run H now p (j, q))"
  let ?page = "\<lambda>after s. rj_ListPlans ?J c tenant repository after (int reconcilePageSize) s"
  let ?run = "\<lambda>scope s. case RunFinalizer_ReconcileRun H ?J c scope now s of
      (Inl err, s1) \<Rightarrow> (Inl err, s1) | (Inr (_, changed), s1) \<Rightarrow> (Inr (if changed then 1 else 0 :: nat), s1)"
  have f: "fleet H plans j" using inv by (simp add: pass_inv_def)
  have step: "pass_inv H plans j0 (j', q) \<and> (\<forall>n. res = Inr n \<longrightarrow> ?K j \<longrightarrow>
      ?K j' \<and> settled_run H now p j' \<and> (\<forall>x\<in>?R. settled_run H now x j \<longrightarrow> settled_run H now x j'))"
    if "pass_inv H plans j0 (j, q)" "p \<in> ?R" and step: "?run (rp_scope p) j = (res, j')" for p j res j'
  proof -
    obtain r where run: "RunFinalizer_ReconcileRun H ?J c (rp_scope p) now j = (r, j')"
      and out: "\<And>k. res = Inr k \<Longrightarrow> \<exists>st changed. r = Inr (st, changed)"
      using step by (auto split: prod.splits sum.splits if_splits)
    have p: "p \<in> snd ` set plans" "p \<notin> S" using that(2) S(2) by (auto simp: runs_of_def)
    note one = finalize_step [OF assms(1) that(1) p(1) run]
    have other: "x \<in> snd ` set plans" if "x \<in> ?R" for x using that by (simp add: runs_of_def)
    note keeps = works_on_keeps [OF one(2) other]
    have settled: "settled_run H now x j'" if "res = Inr k" "x = p \<or> settled_run H now x j" "x \<in> ?R" for k x
      using out [OF that(1)] one(3) keeps(2) [OF that(3)] that(2) by (cases "x = p") auto
    have announced: "announced_run H now x (j', q)" if "res = Inr k" "announced_run H now x (j, q)" "x \<in> ?R" for k x
      using out [OF that(1)] one(4) keeps(1) [OF that(3)] that(2) by (cases "x = p") auto
    show ?thesis using one(1) works_on_through [OF one(2) S(1) p(2)] settled announced that(2) by blast
  qed
  have page: "j' = j \<and> (\<forall>ps. res = Inr ps \<longrightarrow>
      ps = take reconcilePageSize (sort_key run_of (filter (selected tenant repository after) (map snd plans))))"
    if "pass_inv H plans j0 (j, q)" "?page after j = (res, j')" for after j res j'
    by (rule listing_page [OF that(2)]) (use that(1) in \<open>simp add: pass_inv_def\<close>)
  consider "j' = j" "err \<noteq> None" | "reconcile_pages ErrInvalidRunFinalizer ?page ?run [] 0 0 j = ((runs, changes, err), j')"
    using pass by (auto simp: RunFinalizer_ReconcileRepository_def split: if_splits)
  then have "pass_inv H plans j0 (j', q) \<and> (err = None \<longrightarrow> ?K j \<longrightarrow> ?K j' \<and> (\<forall>p\<in>?R. settled_run H now p j'))"
  proof cases
    case 2
    have "p \<in> ?R \<Longrightarrow> selected tenant repository [] p" for p
      using fleet_listed(3) [OF f] by (auto simp: runs_of_def selected_def)
    with pages_cover [of "\<lambda>j. pass_inv H plans j0 (j, q)" plans tenant repository ?run ?K "settled_run H now" ?page, folded runs_of_def,
        OF step page fleet_listed(1,2) [OF f, folded runs_of_def] 2 inv]
    show ?thesis by blast
  qed (use inv in auto)
  then show "pass_inv H plans j0 (j', q)" and "err = None \<Longrightarrow> through H now S (j, q) \<Longrightarrow>
      \<forall>p\<in>?R. announced_run H now p (j, q) \<Longrightarrow> through H now (S \<union> ?R) (j', q)"
    by (auto simp: through_def)
qed

end
