(* ===== verification/Supervisor_Properties.thy ===== *)
theory Supervisor_Properties
  imports Supervisor_Passes
begin

text \<open>
  What the supervisor promises: when it reports success, every run of its repositories is scheduled,
  announced and, if its tasks determine the outcome, closed; it gives up after the configured number
  of attempts.
\<close>


section \<open>A pass over all repositories\<close>

lemma repositories_pass:
  assumes "sum256 H"
  shows "reconcile_repositories H (memoryJournal H) (memoryNotificationQueue H) c tenant now repositories w = (succeeded, w') \<Longrightarrow>
    pass_inv H plans j0 w \<Longrightarrow> distinct repositories \<Longrightarrow> S \<subseteq> snd ` set plans \<Longrightarrow>
    \<forall>r\<in>set repositories. S \<inter> runs_of plans tenant r = {} \<Longrightarrow> through H now S w \<Longrightarrow>
    pass_inv H plans j0 w' \<and> (succeeded \<longrightarrow> through H now (S \<union> (\<Union>r\<in>set repositories. runs_of plans tenant r)) w')"
proof (induction repositories arbitrary: w S)
  case (Cons r rs)
  let ?J = "memoryJournal H" and ?Q = "memoryNotificationQueue H"
  obtain a b e1 j1 q1 where s: "TaskNotificationScheduler_ReconcileRepository H ?J ?Q c tenant r now w = ((a, b, e1), (j1, q1))"
    by (metis prod.collapse)
  have r: "S \<inter> runs_of plans tenant r = {}" using Cons.prems(5) by simp
  note sched = scheduler_pass [OF assms Cons.prems(2,4) r s]
  obtain a' b' e2 j2 where f: "RunFinalizer_ReconcileRepository H ?J c tenant r now j1 = ((a', b', e2), j2)"
    by (metis prod.collapse)
  note fin = finalizer_pass [OF assms sched(1) Cons.prems(4) r f]
  show ?case
  proof (cases "e1 = None \<and> e2 = None")
    case False
    with Cons.prems(1) s f sched(1) fin(1) show ?thesis by (auto split: option.splits)
  next
    case True
    let ?S = "S \<union> runs_of plans tenant r"
    have rec: "reconcile_repositories H ?J ?Q c tenant now rs (j2, q1) = (succeeded, w')"
      using True Cons.prems(1) s f by simp
    have thr: "through H now ?S (j2, q1)" using True sched(2) fin(2) Cons.prems(6) by blast
    have sub: "?S \<subseteq> snd ` set plans" using Cons.prems(4) by (auto simp: runs_of_def)
    have dis: "\<forall>x\<in>set rs. ?S \<inter> runs_of plans tenant x = {}"
      using Cons.prems(3,5) by (auto simp: runs_of_def)
    have "distinct rs" using Cons.prems(3) by simp
    from Cons.IH [OF rec fin(1) this sub dis thr] show ?thesis by (simp add: Un_assoc)
  qed
qed simp


section \<open>Attempts\<close>

definition undisturbed_env :: "pass_env \<Rightarrow> bool" where
  "undisturbed_env env \<longleftrightarrow> \<not> pe_done env \<and> pe_interrupted env = None"

lemma attempts_settle:
  assumes "sum256 H" and repos: "distinct (ts_repositoryIDs sv)"
  shows "reconcile_attempts H (memoryJournal H) (memoryNotificationQueue H) sv n attempt envs w = (None, envs', w') \<Longrightarrow>
    pass_inv H plans j0 w \<Longrightarrow> \<forall>env\<in>sset envs. undisturbed_env env \<Longrightarrow>
    \<exists>env\<in>sset envs. pass_inv H plans j0 w'
      \<and> through H (pe_now env) (\<Union>r\<in>set (ts_repositoryIDs sv). runs_of plans (ts_tenantID sv) r) w'"
proof (induction n arbitrary: attempt envs w)
  case (Suc n)
  let ?env = "shd envs"
  have envs: "?env \<in> sset envs" "sset (stl envs) \<subseteq> sset envs" by (cases envs; auto)+
  then have calm: "\<not> pe_done ?env" "pe_interrupted ?env = None" using Suc.prems(3) by (auto simp: undisturbed_env_def)
  obtain succeeded w1 where pass: "reconcile_repositories H (memoryJournal H) (memoryNotificationQueue H) (pe_ctx ?env)
      (ts_tenantID sv) (pe_now ?env) (ts_repositoryIDs sv) w = (succeeded, w1)" by (metis prod.collapse)
  from repositories_pass [OF assms(1) pass Suc.prems(2) repos, of "{}"]
  have one: "pass_inv H plans j0 w1" "succeeded \<Longrightarrow>
      through H (pe_now ?env) (\<Union>r\<in>set (ts_repositoryIDs sv). runs_of plans (ts_tenantID sv) r) w1"
    by (auto simp: through_def)
  show ?case
  proof (cases succeeded)
    case True
    with Suc.prems(1) pass have "w' = w1" by simp
    with one True envs(1) show ?thesis by blast
  next
    case False
    with Suc.prems(1) pass calm have "reconcile_attempts H (memoryJournal H) (memoryNotificationQueue H) sv n (attempt + 1)
        (stl envs) w1 = (None, envs', w')"
      by (auto simp: waitSupervisorDelay_def split: if_splits)
    from Suc.IH [OF this one(1)] Suc.prems(3) envs(2) show ?thesis by blast
  qed
qed simp

lemma NewTaskNotificationSupervisor_Inr:
  assumes "NewTaskNotificationSupervisor tenant repositories options = Inr sv"
  shows "ts_tenantID sv = tenant" "set (ts_repositoryIDs sv) = set repositories" "distinct (ts_repositoryIDs sv)"
    "ts_options sv = options" "validSupervisorOptions options" "\<not> ts_running sv" "\<not> ts_ready sv"
  using assms adjacent_duplicate_sorted [of "sort repositories"]
  by (auto simp: NewTaskNotificationSupervisor_def Let_def strict_sorted_iff split: if_splits)

text \<open>
  C5. When a reconciliation of the supervisor ends without an error on a memory
  journal nobody else uses meanwhile, and was not cut short by its context, then every run of its
  repositories is in order at the time of its last attempt: its stream was only extended and replays,
  nothing of it is left to schedule, every task that can be claimed is announced in the queue, and no
  run that is still active could be closed. The one exception the journal leaves is the run whose
  closing event, as the finalizer builds it at that time, has the very digest it continues
  (\<open>head_clash\<close>): the journal takes such an event for recorded.
\<close>

theorem supervisor_settles:
  assumes "sum256 H" and "fleet H plans j" and "items_inv q"
    and "NewTaskNotificationSupervisor tenant repositories options = Inr sv"
    and "\<forall>env\<in>sset envs. undisturbed_env env"
    and "reconcileWithRetry H (memoryJournal H) (memoryNotificationQueue H) sv envs (j, q) = (None, envs', (j', q'))"
  shows "\<exists>env\<in>sset envs. \<forall>p\<in>snd ` set plans.
    sc_tenantID (rp_scope p) = tenant \<longrightarrow> sc_repositoryID (rp_scope p) \<in> set repositories \<longrightarrow>
      prefix (plan_stream p j) (plan_stream p j') \<and> replayable H p (plan_stream p j')
      \<and> announced_run H (pe_now env) p (j', q') \<and> settled_run H (pe_now env) p j'"
proof -
  note sv = NewTaskNotificationSupervisor_Inr [OF assms(4)]
  have "pass_inv H plans j (j, q)" using assms(2,3) by (simp add: pass_inv_def)
  from attempts_settle [OF assms(1) sv(3) assms(6) [unfolded reconcileWithRetry_def] this assms(5)]
  obtain env where env: "env \<in> sset envs" and inv: "pass_inv H plans j (j', q')"
    and thr: "through H (pe_now env) (\<Union>r\<in>set repositories. runs_of plans tenant r) (j', q')"
    unfolding sv(1,2) by blast
  have "p \<in> (\<Union>r\<in>set repositories. runs_of plans tenant r)"
    if "p \<in> snd ` set plans" "sc_tenantID (rp_scope p) = tenant" "sc_repositoryID (rp_scope p) \<in> set repositories" for p
    using that by (auto simp: runs_of_def)
  moreover have "replayable H p (plan_stream p j')" if "p \<in> snd ` set plans" for p
    using inv that by (auto simp: pass_inv_def fleet_def)
  moreover have "prefix (plan_stream p j) (plan_stream p j')" if "p \<in> snd ` set plans" for p
    using inv that unfolding pass_inv_def fst_conv by blast
  ultimately show ?thesis using thr unfolding through_def fst_conv by (intro bexI [OF _ env] ballI impI) blast
qed


section \<open>Giving up\<close>

lemma attempts_consumed:
  "reconcile_attempts H J Q sv n attempt envs w = (res, envs', w') \<Longrightarrow>
     n + attempt = Suc (so_MaximumRetries (ts_options sv)) \<Longrightarrow> 0 < n \<Longrightarrow>
     \<exists>k. 0 < k \<and> k \<le> n \<and> envs' = sdrop k envs
       \<and> (res = None \<or> res = Some ErrTaskNotificationSupervisorUnavailable \<and> k = n)"
proof (induction n arbitrary: attempt envs w)
  case (Suc n)
  show ?case
  proof (cases "envs' = stl envs \<and> (res = None \<or> res = Some ErrTaskNotificationSupervisorUnavailable \<and> n = 0)")
    case True
    then show ?thesis by (intro exI [of _ 1]) auto
  next
    case False
    with Suc.prems obtain w1 where rec: "reconcile_attempts H J Q sv n (attempt + 1) (stl envs) w1 = (res, envs', w')"
      and "attempt \<noteq> so_MaximumRetries (ts_options sv)"
      by (auto simp: Let_def split: prod.splits if_splits)
    then have "0 < n" using Suc.prems(2) by (cases n) auto
    from Suc.IH [OF rec _ this] Suc.prems(2) obtain k where k: "0 < k" "k \<le> n" "envs' = sdrop k (stl envs)"
        "res = None \<or> res = Some ErrTaskNotificationSupervisorUnavailable \<and> k = n" by auto
    then show ?thesis by (intro exI [of _ "Suc k"]) auto
  qed
qed simp

text \<open>
  C40. A reconciliation makes at least one attempt and at most ten; it gives up
  only after the configured number of attempts, and any delay between two attempts lies between the
  configured delay and a minute. It reports no error when its context ends during the first
  attempt, whether the attempt succeeded or not, so \<open>Run\<close> then reports readiness all the same. The
  documentation (docs/task-notifications.md, docs/automatic-finalization.md) promises otherwise: it
  says that all plans are scheduled and finalized before readiness is reported.
\<close>

theorem supervisor_retries:
  assumes "NewTaskNotificationSupervisor tenant repositories options = Inr sv"
    and "reconcileWithRetry H J Q sv envs w = (res, envs', w')"
  shows "(\<exists>k. 1 \<le> k \<and> k \<le> 10 \<and> envs' = sdrop k envs
      \<and> (res = None \<or> res = Some ErrTaskNotificationSupervisorUnavailable \<and> k = so_MaximumRetries options))
    \<and> (\<forall>attempt. so_RetryDelay options \<le> supervisorDelay (so_RetryDelay options) attempt
        \<and> supervisorDelay (so_RetryDelay options) attempt \<le> 60000000000)
    \<and> (pe_done (shd envs) \<longrightarrow> res = None
        \<and> ts_ready (fst (snd (TaskNotificationSupervisor_Run H J Q DoneContext [] envs (sv, w)))))"
proof -
  note sv = NewTaskNotificationSupervisor_Inr [OF assms(1)]
  have opts: "0 < so_MaximumRetries options" "so_MaximumRetries options \<le> 10" "0 < so_RetryDelay options"
      "so_RetryDelay options \<le> 60000000000"
    using sv(5) by (auto simp: validSupervisorOptions_def maximumTaskNotificationSupervisorRetries_def)
  have "so_RetryDelay options * 1 \<le> so_RetryDelay options * 2 ^ min (attempt - 1) 6" for attempt
    using opts(3) by (intro mult_left_mono) auto
  then have delay: "so_RetryDelay options \<le> supervisorDelay (so_RetryDelay options) attempt"
      "supervisorDelay (so_RetryDelay options) attempt \<le> 60000000000" for attempt
    using opts(4) by (simp_all add: supervisorDelay_def Let_def)
  have none: "fst (reconcileWithRetry H J Q (sv\<lparr>ts_running := True\<rparr>) envs w) = None"
      "fst (reconcileWithRetry H J Q sv envs w) = None" if "pe_done (shd envs)"
  proof -
    obtain n where n: "so_MaximumRetries options = Suc n" using opts(1) by (cases "so_MaximumRetries options") auto
    have "fst (reconcile_attempts H J Q s (Suc n) 1 envs w) = None" for s
      using that by (simp add: Let_def split: prod.splits)
    then show "fst (reconcileWithRetry H J Q (sv\<lparr>ts_running := True\<rparr>) envs w) = None"
        "fst (reconcileWithRetry H J Q sv envs w) = None"
      by (simp_all add: reconcileWithRetry_def sv(4) n del: reconcile_attempts.simps)
  qed
  obtain envs1 w1 where "pe_done (shd envs) \<Longrightarrow>
      reconcileWithRetry H J Q (sv\<lparr>ts_running := True\<rparr>) envs w = (None, envs1, w1)"
    using none(1) by (metis prod.collapse)
  then have ready: "ts_ready (fst (snd (TaskNotificationSupervisor_Run H J Q DoneContext [] envs (sv, w))))" if "pe_done (shd envs)"
    using that sv(6) by (simp add: TaskNotificationSupervisor_Run_def)
  from attempts_consumed [OF assms(2) [unfolded reconcileWithRetry_def sv(4)]] opts(1) obtain k where
      "0 < k" "k \<le> so_MaximumRetries options" "envs' = sdrop k envs"
      "res = None \<or> res = Some ErrTaskNotificationSupervisorUnavailable \<and> k = so_MaximumRetries options"
    unfolding sv(4) by auto
  then have "\<exists>k. 1 \<le> k \<and> k \<le> 10 \<and> envs' = sdrop k envs
      \<and> (res = None \<or> res = Some ErrTaskNotificationSupervisorUnavailable \<and> k = so_MaximumRetries options)"
    using opts(2) by (intro exI [of _ k]) auto
  with delay ready none(2) assms(2) show ?thesis by simp
qed

end
