(* ===== verification/Supervisor_Witnesses.thy ===== *)
theory Supervisor_Witnesses
  imports Notification_Witnesses Supervisor_Properties
begin

text \<open>
  The theorems on the supervisor applied to two journals: a run whose first task waits for a worker,
  which is announced, and a run whose tasks have all succeeded, which is closed.
\<close>

definition example_options :: TaskNotificationSupervisorOptions where
  "example_options = \<lparr>so_ReconcileInterval = 1000000000, so_MaximumRetries = 2, so_RetryDelay = 10000000\<rparr>"

definition example_supervisor :: TaskNotificationSupervisor where
  "example_supervisor = \<lparr>ts_tenantID = ''tenant'', ts_repositoryIDs = [''repo''], ts_options = example_options,
     ts_localWake = False, ts_ready = False, ts_running = False\<rparr>"

lemma example_query: "validRunPlanQuery ''tenant'' \<and> validRunPlanQuery ''repo''"
  by code_simp

lemma example_supervisor_new: "NewTaskNotificationSupervisor ''tenant'' [''repo''] example_options = Inr example_supervisor"
  using example_query
  by (simp add: NewTaskNotificationSupervisor_def example_supervisor_def validSupervisorOptions_def example_options_def
      minimumTaskNotificationReconcileInterval_def maximumTaskNotificationReconcileInterval_def
      maximumTaskNotificationSupervisorRetries_def)

definition example_env :: pass_env where
  "example_env = \<lparr>pe_now = time_of_millis 4000, pe_ctx = LiveContext, pe_done = False, pe_interrupted = None\<rparr>"

lemma example_env_calm: "\<forall>env\<in>sset (sconst example_env). undisturbed_env env"
  by (simp add: sset_sconst undisturbed_env_def example_env_def)

lemma empty_queue: "items_inv NewMemoryTaskNotificationQueue"
  by (simp add: items_inv_def NewMemoryTaskNotificationQueue_def)


section \<open>A pass over one run\<close>

lemma late_context: "replay_context late_hash example_plan"
  by (simp add: replay_context_def)

lemma late_scope [simp]: "ReviewScope_Validate late_hash example_scope = None"
  by (simp add: plain_scope_valid)

lemma late_load:
  assumes "ReplayReviewRun late_hash example_plan es = Inr st" and "length es < 100"
  shows "Coordinator_load late_hash (memoryJournal late_hash) LiveContext example_plan (journal_with es)
      = (Inr st, journal_with es)"
    and "Coordinator_Resume late_hash (memoryJournal late_hash) LiveContext example_scope (journal_with es)
      = (Inr (example_plan, st), journal_with es)"
proof -
  have "rj_Read (memoryJournal late_hash) LiveContext example_scope 0 (int maxRunJournalReadLimit) (journal_with es)
      = (Inr es, journal_with es)"
    using assms(2)
    by (simp add: memoryJournal_def MemoryRunJournal_Read_def validateRunJournalOperation_def maxRunJournalReadLimit_def)
  moreover have "es \<noteq> []" using assms(1) by (auto simp: ReplayReviewRun_def ReviewRunPlan_Validate_wf check_def)
  ultimately show load: "Coordinator_load late_hash (memoryJournal late_hash) LiveContext example_plan (journal_with es)
      = (Inr st, journal_with es)"
    using assms
    by (simp add: Coordinator_load_def readAllRunEvents_def read_pages.simps [of "memoryJournal late_hash"]
        maxRunJournalReadLimit_def maxRunJournalStreamEvents_def)
  then show "Coordinator_Resume late_hash (memoryJournal late_hash) LiveContext example_scope (journal_with es)
      = (Inr (example_plan, st), journal_with es)"
    by (simp add: Coordinator_Resume_def)
      (simp add: memoryJournal_def MemoryRunJournal_LoadPlan_def validateRunJournalOperation_def journal_with_def)
qed

lemma late_validate: "Coordinator_validate late_hash LiveContext example_plan = None"
  by (simp add: Coordinator_validate_def ReviewRunPlan_Validate_wf)

lemma late_advance:
  assumes "ReplayReviewRun late_hash example_plan es = Inr st" and "length es < 100"
    and "transitionTimeAllowed st now" and "rs_status st = ReviewRunActive"
    and "advance_event late_hash example_plan st now = None"
  shows "Coordinator_Advance late_hash (memoryJournal late_hash) LiveContext example_plan now (journal_with es)
    = (Inr st, journal_with es)"
  using late_load(1) [OF assms(1,2)] assms(3-5)
  by (simp add: Coordinator_Advance_def late_validate maxReviewRunTasks_def maxCoordinatorConflicts_def eval_nat_numeral)

lemma late_listing:
  "rj_ListPlans (memoryJournal late_hash) LiveContext ''tenant'' ''repo'' [] (int reconcilePageSize) (journal_with es)
    = (Inr [example_plan], journal_with es)"
  using example_query
  by (simp add: memoryJournal_def MemoryRunJournal_ListPlans_def reconcilePageSize_def maxRunJournalReadLimit_def
      journal_with_def) (simp add: example_plan_def example_scope_def)

lemma late_pass:
  assumes "TaskNotificationScheduler_ReconcileRun late_hash (memoryJournal late_hash) (memoryNotificationQueue late_hash)
      LiveContext example_scope (time_of_millis 4000) (journal_with es, q) = ((n, Inr st), (journal_with es, q'))"
    and "RunFinalizer_ReconcileRun late_hash (memoryJournal late_hash) LiveContext example_scope (time_of_millis 4000)
      (journal_with es) = (Inr (st', changed), j')"
  shows "reconcileWithRetry late_hash (memoryJournal late_hash) (memoryNotificationQueue late_hash) example_supervisor
      (sconst example_env) (journal_with es, q) = (None, sconst example_env, (j', q'))"
proof -
  have time: "validRunMillis 4000" by (simp add: validRunMillis_def maxRunEventUnixMilliseconds_def)
  have s: "TaskNotificationScheduler_ReconcileRepository late_hash (memoryJournal late_hash) (memoryNotificationQueue late_hash)
      LiveContext ''tenant'' ''repo'' (time_of_millis 4000) (journal_with es, q) = ((1, n, None), (journal_with es, q'))"
    using example_query time assms(1)
    by (simp add: TaskNotificationScheduler_ReconcileRepository_def reconcile_pages.simps late_listing
        maximumReconciledRuns_def) (simp add: reconcilePageSize_def)
  have f: "\<exists>c. RunFinalizer_ReconcileRepository late_hash (memoryJournal late_hash) LiveContext ''tenant'' ''repo''
      (time_of_millis 4000) (journal_with es) = ((1, c, None), j')"
    using example_query time assms(2)
    by (simp add: RunFinalizer_ReconcileRepository_def reconcile_pages.simps late_listing
        maximumReconciledRuns_def) (simp add: reconcilePageSize_def)
  then show ?thesis
    by (auto simp: reconcileWithRetry_def example_supervisor_def example_options_def numeral_2_eq_2 example_env_def s)
qed

lemma late_fleet:
  assumes "ReplayReviewRun late_hash example_plan es = Inr st"
  shows "fleet late_hash [(flat_digest, example_plan)] (journal_with es)"
  using assms by (auto simp: fleet_def journal_with_def replayable_def plan_stream_def mj_stream_def map_get_def)



section \<open>A run that is closed\<close>

definition closing_event :: RunEvent where
  "closing_event = (run_succeeded_event 8 4000)\<lparr>ev_identity := late_digest\<rparr>"

lemma done_facts:
  "rs_revision (example_state example_events) = 7" "rs_headIdentity (example_state example_events) = flat_digest"
  "rs_lastOccurredAtMillis (example_state example_events) = 3000" "rs_plan (example_state example_events) = example_plan"
proof -
  have "replayed late_hash example_plan example_events (example_state example_events)"
    using late_example by (simp add: replay_iff [OF late_context])
  from replayed_revision [OF this] show "rs_revision (example_state example_events) = 7"
      "rs_headIdentity (example_state example_events) = flat_digest"
    by (simp_all add: example_events_def event_shape_defs)
  show "rs_lastOccurredAtMillis (example_state example_events) = 3000"
    using replayed_last_time [OF late_context late_example example_events_nonempty]
    by (simp add: example_events_def event_shape_defs)
  show "rs_plan (example_state example_events) = example_plan"
    using replay_inv [OF late_context late_example] by (simp add: state_inv_def tasks_inv_def)
qed

lemma done_time: "transitionTimeAllowed (example_state example_events) (time_of_millis 4000)"
  using pos_millis_not_zero_time [of "time_of_millis 4000"]
  by (simp add: transitionTimeAllowed_def done_facts validRunMillis_def maxRunEventUnixMilliseconds_def)

lemma done_quiescent: "quiescent (example_state example_events) (time_of_millis 4000)"
  using example_facts(3-5) done_facts(4)
  by (auto simp: quiescent_def ReadyTasks_def SkippableTasks_def RetryableAt_def Let_def example_tasks_def list_all_iff)

lemma done_advance:
  "Coordinator_Advance late_hash (memoryJournal late_hash) LiveContext example_plan (time_of_millis 4000)
     (journal_with example_events) = (Inr (example_state example_events), journal_with example_events)"
proof (rule late_advance [OF late_example _ done_time example_facts(2)])
  show "advance_event late_hash example_plan (example_state example_events) (time_of_millis 4000) = None"
    by (rule advance_event_quiescent [OF replay_inv [OF late_context late_example] example_facts(2) late_plan_wf done_quiescent])
qed (simp add: example_events_def)

lemma done_no_notice:
  "NewTaskNotification late_hash (example_state example_events) (runtime_at (example_state example_events) k)
     (time_of_millis 4000) = Inl ErrInvalidTaskNotification" if "k = ''acquire'' \<or> k = ''build''"
  using that example_facts(3,5) by (auto simp: NewTaskNotification_def Let_def split: option.splits)

lemma done_schedule:
  "TaskNotificationScheduler_ReconcileRun late_hash (memoryJournal late_hash) (memoryNotificationQueue late_hash)
     LiveContext example_scope (time_of_millis 4000) (journal_with example_events, NewMemoryTaskNotificationQueue)
   = ((0, Inr (example_state example_events)), (journal_with example_events, NewMemoryTaskNotificationQueue))"
proof -
  have "notify_tasks late_hash (memoryNotificationQueue late_hash) LiveContext (example_state example_events)
      (time_of_millis 4000) (rp_tasks example_plan) 0 NewMemoryTaskNotificationQueue = ((0, None), NewMemoryTaskNotificationQueue)"
    using done_no_notice by (simp add: example_tasks_def)
  then show ?thesis
    using late_load(2) [OF late_example] done_advance example_facts(2)
    by (simp add: TaskNotificationScheduler_ReconcileRun_def example_events_def)
qed

lemma done_completion:
  obtains c where "TerminalCompletion late_hash (example_state example_events) = Inr (Some c)"
    "tc_status c = TaskCompletionSucceeded" "tc_outputIdentity c = flat_digest"
proof -
  note inv = replay_inv [OF late_context late_example]
  have valid: "ReviewRunState_Validate late_hash (example_state example_events) = None"
    using late_example by (simp add: ReplayReviewRun_Inr)
  have over: "\<forall>t\<in>set (rp_tasks example_plan).
      rt_status (runtime_at (example_state example_events) (td_key t)) = TaskRuntimeSucceeded"
    using example_facts by (simp add: example_tasks_def)
  then have "canSucceed (example_state example_events)" "\<not> canFail (example_state example_events)"
    using canSucceed_iff [OF late_plan_wf inv] canFail_iff [OF late_plan_wf inv] by (auto simp: blocked_def parked_def)
  from TerminalCompletion_succeed [OF late_plan_wf inv valid example_facts(2) this(2,1)] obtain c t where
      c: "TerminalCompletion late_hash (example_state example_events) = Inr (Some c)"
        "tc_status c = TaskCompletionSucceeded" "t \<in> set (rp_tasks example_plan)"
        "tc_outputIdentity c = rt_outputIdentity (runtime_at (example_state example_events) (td_key t))" by blast
  have "rt_outputIdentity (runtime_at (example_state example_events) (td_key t)) = flat_digest"
    using c(3) example_facts(6,7) by (auto simp: example_tasks_def)
  with c that show ?thesis by simp
qed


lemma closing_valid: "RunEvent_Validate late_hash closing_event = None"
proof -
  have time: "validRunMillis 4000" by (simp add: validRunMillis_def maxRunEventUnixMilliseconds_def)
  have "RunEvent_Validate flat_hash (run_succeeded_event 8 4000) = None"
    using example_events_valid(8) [OF time, of 8] by (simp add: run_succeeded_event_def)
  moreover have "deriveRunEventIdentity late_hash closing_event = late_digest"
    by (rule late_times(2)) (simp add: closing_event_def run_succeeded_event_def)
  ultimately show ?thesis
    by (simp add: RunEvent_Validate_None closing_event_def) (simp add: run_succeeded_event_def)
qed

lemma closing_decided:
  "succeed_decide late_hash example_plan flat_digest (time_of_millis 4000) n (example_state example_events)
     = Try (Inr closing_event)"
proof -
  obtain c where c: "TerminalCompletion late_hash (example_state example_events) = Inr (Some c)"
      "tc_status c = TaskCompletionSucceeded" "tc_outputIdentity c = flat_digest" by (rule done_completion)
  have "canSucceed (example_state example_events)"
    using canSucceed_iff [OF late_plan_wf replay_inv [OF late_context late_example]] example_facts
    by (simp add: example_tasks_def)
  moreover have "deriveRunEventIdentity late_hash (run_succeeded_event 8 4000) = late_digest"
    by (rule late_times(2)) (simp add: run_succeeded_event_def)
  then have "deriveRunEventIdentity late_hash (closing_event\<lparr>ev_identity := []\<rparr>) = late_digest"
    by (simp add: closing_event_def deriveRunEventIdentity_def)
  then have "next_event late_hash example_plan (example_state example_events) RunEventSucceeded zeroTaskDefinition 0 [] []
      zero_time flat_digest NoRunFailure zero_time (time_of_millis 4000) = Inr closing_event"
    using pos_millis_not_zero_time [of "time_of_millis 4000"]
    by (simp add: next_example done_facts zeroTaskDefinition_def validRunMillis_def maxRunEventUnixMilliseconds_def
        closing_event_def run_succeeded_event_def example_event_def)
  ultimately show ?thesis
    using c example_facts(2) done_time by (simp add: succeed_decide_def)
qed

lemma closing_append:
  "rj_Append (memoryJournal late_hash) LiveContext flat_digest closing_event (journal_with example_events)
     = (None, journal_with (example_events @ [closing_event]))"
proof -
  have "ev_identity (last example_events) = flat_digest" "ev_planIdentity (hd example_events) = flat_digest"
      "length example_events = 7"
    by (simp_all add: example_events_def event_shape_defs)
  moreover have "ev_scope closing_event = example_scope" "ev_planIdentity closing_event = flat_digest"
      "ev_identity closing_event = late_digest" "ev_previousIdentity closing_event = flat_digest" "ev_sequence closing_event = 8"
    by (simp_all add: closing_event_def run_succeeded_event_def)
  ultimately show ?thesis
    using closing_valid
    by (simp add: memoryJournal_def MemoryRunJournal_Append_def maxRunJournalStreamEvents_def Let_def)
      (simp add: journal_with_def)
qed

lemma closing_replay:
  obtains st where "ReplayReviewRun late_hash example_plan (example_events @ [closing_event]) = Inr st"
    "rs_status st = ReviewRunSucceeded"
proof -
  have "\<exists>st. ReplayReviewRun late_hash example_plan (example_events @ [closing_event]) = Inr st"
    using succeed_accepted [OF late_context late_example closing_decided] .
  then obtain st where st: "ReplayReviewRun late_hash example_plan (example_events @ [closing_event]) = Inr st" by blast
  then have "run_step late_hash example_plan (example_state example_events) closing_event = Inr st"
    using late_example by (auto simp: replay_iff [OF late_context] fold_err_snoc)
  then have "rs_status st = ReviewRunSucceeded"
    by (auto simp: run_step_def replay_step_Inr apply_event_def closing_event_def run_succeeded_event_def set_head_def
        split: if_splits)
  with st that show ?thesis by blast
qed

lemma done_finalize:
  "\<exists>st. RunFinalizer_ReconcileRun late_hash (memoryJournal late_hash) LiveContext example_scope (time_of_millis 4000)
     (journal_with example_events) = (Inr (st, True), journal_with (example_events @ [closing_event]))"
proof -
  obtain c where c: "TerminalCompletion late_hash (example_state example_events) = Inr (Some c)"
      "tc_status c = TaskCompletionSucceeded" "tc_outputIdentity c = flat_digest" by (rule done_completion)
  obtain st where st: "ReplayReviewRun late_hash example_plan (example_events @ [closing_event]) = Inr st"
      "rs_status st = ReviewRunSucceeded" by (rule closing_replay)
  have len: "length example_events < 100" "length (example_events @ [closing_event]) < 100" by (simp_all add: example_events_def)
  have "retry_loop (Suc n) late_hash (memoryJournal late_hash) LiveContext example_plan
      (succeed_decide late_hash example_plan flat_digest (time_of_millis 4000)) (finish_load late_hash (memoryJournal late_hash)
      LiveContext example_plan) (journal_with example_events) = (Inr st, journal_with (example_events @ [closing_event]))" for n
    using late_load(1) [OF late_example len(1)] closing_append late_load(1) [OF st(1) len(2)]
    by (simp add: closing_decided append_event_def finish_load_def done_facts)
  then have "Coordinator_SucceedRun late_hash (memoryJournal late_hash) LiveContext example_plan flat_digest (time_of_millis 4000)
      (journal_with example_events) = (Inr st, journal_with (example_events @ [closing_event]))"
    by (simp add: Coordinator_SucceedRun_def late_validate maxCoordinatorConflicts_def eval_nat_numeral)
  then show ?thesis
    using late_load(2) [OF late_example len(1)] done_advance example_facts(2) c st(2)
    by (simp add: RunFinalizer_ReconcileRun_def)
qed

lemma done_pass:
  "reconcileWithRetry late_hash (memoryJournal late_hash) (memoryNotificationQueue late_hash) example_supervisor
     (sconst example_env) (journal_with example_events, NewMemoryTaskNotificationQueue)
   = (None, sconst example_env, (journal_with (example_events @ [closing_event]), NewMemoryTaskNotificationQueue))"
  using late_pass [OF done_schedule] done_finalize by blast


section \<open>A run with a task to announce\<close>

definition waiting_events :: "RunEvent list" where
  "waiting_events = [opened_event, available_event 2 ''acquire'' 1000]"

definition waiting_runtime :: TaskRuntimeState where
  "waiting_runtime = \<lparr>rt_definition = example_task ''acquire'' TaskAcquireSource [] 2 True,
     rt_status = TaskRuntimeAvailable, rt_attempts = 0, rt_leaseTokenIdentity = [],
     rt_workerIdentity = [], rt_leaseExpiresAtMillis = 0, rt_outputIdentity = [],
     rt_failure = NoRunFailure, rt_retryAtMillis = 0, rt_lastEventRevision = 2,
     rt_lastEventIdentity = flat_digest, rt_lastEventAtMillis = 1000\<rparr>"

lemma waiting_replayed:
  "\<exists>s. replayed flat_hash example_plan waiting_events s \<and> rs_status s = ReviewRunActive
     \<and> rs_lastOccurredAtMillis s = 1000 \<and> rs_plan s = example_plan
     \<and> map_of (rs_tasks s) ''acquire'' = Some waiting_runtime
     \<and> map_of (rs_tasks s) ''build'' =
         Some (newTaskRuntimeState (example_task ''build'' TaskBuildChange [''acquire''] 1 True) TaskRuntimePending)"
  using example_keys_valid
  by (simp add: waiting_events_def example_run_eval waiting_runtime_def)

lemma waiting_facts:
  shows "ReplayReviewRun late_hash example_plan waiting_events = Inr (example_state waiting_events)"
    and "rs_status (example_state waiting_events) = ReviewRunActive"
    and "transitionTimeAllowed (example_state waiting_events) (time_of_millis 4000)"
    and "rs_plan (example_state waiting_events) = example_plan"
    and "map_of (rs_tasks (example_state waiting_events)) ''acquire'' = Some waiting_runtime"
    and "map_of (rs_tasks (example_state waiting_events)) ''build'' =
       Some (newTaskRuntimeState (example_task ''build'' TaskBuildChange [''acquire''] 1 True) TaskRuntimePending)"
proof -
  from waiting_replayed obtain s where s: "replayed flat_hash example_plan waiting_events s" "rs_status s = ReviewRunActive"
      "rs_lastOccurredAtMillis s = 1000" "rs_plan s = example_plan" "map_of (rs_tasks s) ''acquire'' = Some waiting_runtime"
      "map_of (rs_tasks s) ''build'' =
       Some (newTaskRuntimeState (example_task ''build'' TaskBuildChange [''acquire''] 1 True) TaskRuntimePending)" by blast
  have "replayed late_hash example_plan waiting_events s"
    by (rule late_replayed [OF s(1)]) (auto simp: waiting_events_def event_shape_defs late_times)
  moreover have st: "example_state waiting_events = s"
    by (rule example_state_replay [OF s(1)]) (simp add: waiting_events_def)
  ultimately show "ReplayReviewRun late_hash example_plan waiting_events = Inr (example_state waiting_events)"
    by (simp add: replay_iff [OF late_context] waiting_events_def)
  show "transitionTimeAllowed (example_state waiting_events) (time_of_millis 4000)"
    using pos_millis_not_zero_time [of "time_of_millis 4000"] s(3)
    by (simp add: st transitionTimeAllowed_def validRunMillis_def maxRunEventUnixMilliseconds_def)
qed (use waiting_replayed example_state_replay(2) [where es = waiting_events] in \<open>auto simp: waiting_events_def\<close>)

lemma waiting_runtimes:
  "runtime_at (example_state waiting_events) ''acquire'' = waiting_runtime"
  "runtime_at (example_state waiting_events) ''build'' =
     newTaskRuntimeState (example_task ''build'' TaskBuildChange [''acquire''] 1 True) TaskRuntimePending"
  using waiting_facts(5,6) by (simp_all add: runtime_at_def map_get_def)

lemmas waiting_eval = waiting_facts(2,4) waiting_runtimes waiting_runtime_def newTaskRuntimeState_def example_tasks_def

lemma waiting_advance:
  "Coordinator_Advance late_hash (memoryJournal late_hash) LiveContext example_plan (time_of_millis 4000)
     (journal_with waiting_events) = (Inr (example_state waiting_events), journal_with waiting_events)"
proof (rule late_advance [OF waiting_facts(1) _ waiting_facts(3,2)])
  show "advance_event late_hash example_plan (example_state waiting_events) (time_of_millis 4000) = None"
    by (simp add: advance_event_def exhausted_task_def ReadyTasks_def SkippableTasks_def RetryableAt_def
        dependenciesSatisfied_def hasFailedDependency_def failedWithoutRetry_def waiting_eval)
qed (simp add: waiting_events_def)

text \<open>The second hash gives an object another identity than \<open>flat_digest\<close> only when it ends in the number 4000.\<close>

lemma late_object:
  assumes "fs \<noteq> []" and "last fs = (k, JInt 1000)"
  shows "hashControlPlaneValue late_hash (JObj fs) = flat_digest"
proof -
  have "fs = butlast fs @ [(k, JInt 1000)]" using assms by (metis append_butlast_last_id)
  then obtain front where "json_Marshal (JObj fs) = front @ dec_int 1000 @ ''}''"
    using json_object_end [of "butlast fs" k "JInt 1000"] by auto
  then show ?thesis
    by (simp add: hashControlPlaneValue_def late_hash_def flat_digest_def dec_times del: json_Marshal.simps)
qed

lemma late_notice_valid: "TaskNotification_Validate late_hash example_notice = None"
  using example_keys_valid late_object
  by (simp add: TaskNotification_Validate_def example_notice_def deriveTaskNotificationIdentity_def
      maxRunJournalStreamEvents_def)

lemma waiting_notice:
  "NewTaskNotification late_hash (example_state waiting_events) waiting_runtime (time_of_millis 4000) = Inr example_notice"
proof -
  have "ReviewRunState_Validate late_hash (example_state waiting_events) = None"
    using waiting_facts(1) by (simp add: ReplayReviewRun_Inr)
  moreover have "TaskDefinition_Validate late_hash (example_task ''acquire'' TaskAcquireSource [] 2 True) = None"
    using late_plan_wf by (simp add: plan_wf_def TaskDefinition_Validate_None example_tasks_def)
  moreover have "ReviewRunState_Task (example_state waiting_events) ''acquire'' = Some waiting_runtime"
    using waiting_facts(5) by (simp add: ReviewRunState_Task_def)
  moreover have "time_of_millis 1000 \<noteq> zero_time" using pos_millis_not_zero_time [of "time_of_millis 1000"] by simp
  ultimately show ?thesis
    using waiting_facts(2-4) late_notice_valid
    by (simp add: NewTaskNotification_def Let_def waiting_runtime_def sameTaskNotificationRuntime_def
        runMillisToTime_def u8_succ_def deriveTaskNotificationIdentity_def late_object)
      (simp add: example_notice_def time_of_millis_def)
qed

lemma waiting_schedule:
  "TaskNotificationScheduler_ReconcileRun late_hash (memoryJournal late_hash) (memoryNotificationQueue late_hash)
     LiveContext example_scope (time_of_millis 4000) (journal_with waiting_events, NewMemoryTaskNotificationQueue)
   = ((1, Inr (example_state waiting_events)),
      (journal_with waiting_events, \<lparr>mq_items = [(flat_digest, queued_item)], mq_wake = True\<rparr>))"
proof -
  have "NewTaskNotification late_hash (example_state waiting_events) (runtime_at (example_state waiting_events) ''build'')
      (time_of_millis 4000) = Inl ErrInvalidTaskNotification"
    by (auto simp: NewTaskNotification_def waiting_runtimes newTaskRuntimeState_def Let_def split: option.splits)
  moreover have "nq_Enqueue (memoryNotificationQueue late_hash) LiveContext example_notice NewMemoryTaskNotificationQueue
      = (Inr True, \<lparr>mq_items = [(flat_digest, queued_item)], mq_wake = True\<rparr>)"
    by (simp add: memoryNotificationQueue_def EnqueueTaskNotification_def invalidNotificationOperation_def late_notice_valid
        NewMemoryTaskNotificationQueue_def queued_item_def) (simp add: example_notice_def)
  ultimately have "notify_tasks late_hash (memoryNotificationQueue late_hash) LiveContext (example_state waiting_events)
      (time_of_millis 4000) (rp_tasks example_plan) 0 NewMemoryTaskNotificationQueue
      = ((1, None), \<lparr>mq_items = [(flat_digest, queued_item)], mq_wake = True\<rparr>)"
    by (simp add: example_tasks_def waiting_runtimes(1) waiting_notice)
  then show ?thesis
    using late_load(2) [OF waiting_facts(1)] waiting_advance waiting_facts(2)
    by (simp add: TaskNotificationScheduler_ReconcileRun_def waiting_events_def)
qed

lemma waiting_finalize:
  "RunFinalizer_ReconcileRun late_hash (memoryJournal late_hash) LiveContext example_scope (time_of_millis 4000)
     (journal_with waiting_events) = (Inr (example_state waiting_events, False), journal_with waiting_events)"
proof -
  note inv = replay_inv [OF late_context waiting_facts(1)]
  have "\<not> canFail (example_state waiting_events)" "\<not> canSucceed (example_state waiting_events)"
    using canFail_iff [OF late_plan_wf inv] canSucceed_iff [OF late_plan_wf inv]
    by (simp_all add: waiting_eval blocked_def parked_def)
  then have "TerminalCompletion late_hash (example_state waiting_events) = Inr None"
    using waiting_facts(1,2) by (simp add: TerminalCompletion_def ReplayReviewRun_Inr)
  then show ?thesis
    using late_load(2) [OF waiting_facts(1)] waiting_advance waiting_facts(2)
    by (simp add: RunFinalizer_ReconcileRun_def waiting_events_def)
qed

lemma waiting_pass:
  "reconcileWithRetry late_hash (memoryJournal late_hash) (memoryNotificationQueue late_hash) example_supervisor
     (sconst example_env) (journal_with waiting_events, NewMemoryTaskNotificationQueue)
   = (None, sconst example_env,
      (journal_with waiting_events, \<lparr>mq_items = [(flat_digest, queued_item)], mq_wake = True\<rparr>))"
  by (rule late_pass [OF waiting_schedule waiting_finalize])


section \<open>The theorems applied\<close>

lemma unsettled_before: "\<not> settled_run late_hash (time_of_millis 4000) example_plan (journal_with example_events)"
proof -
  obtain c where c: "TerminalCompletion late_hash (example_state example_events) = Inr (Some c)"
      "tc_status c = TaskCompletionSucceeded" "tc_outputIdentity c = flat_digest" by (rule done_completion)
  then have "\<not> head_clash late_hash example_plan (time_of_millis 4000) (example_state example_events)"
    by (simp add: head_clash_def closing_decided done_facts) (simp add: closing_event_def)
  with c late_example example_facts(2) show ?thesis
    by (simp add: settled_run_def plan_stream_def journal_with_def mj_stream_def map_get_def)
qed

lemma unannounced_before:
  "\<not> announced_run late_hash (time_of_millis 4000) example_plan (journal_with waiting_events, NewMemoryTaskNotificationQueue)"
proof -
  have "NewTaskNotification late_hash (example_state waiting_events)
      (runtime_at (example_state waiting_events) (td_key (hd example_tasks))) (time_of_millis 4000) = Inr example_notice"
    using waiting_notice by (simp add: example_tasks_def waiting_runtimes)
  moreover have "hd example_tasks \<in> set example_tasks" by (simp add: example_tasks_def)
  moreover have "ReplayReviewRun late_hash example_plan (plan_stream example_plan (journal_with waiting_events))
      = Inr (example_state waiting_events)"
    using waiting_facts(1) by (simp add: plan_stream_def journal_with_def mj_stream_def map_get_def)
  ultimately show ?thesis
    using waiting_facts(2) unfolding announced_run_def by (auto simp: NewMemoryTaskNotificationQueue_def)
qed

text \<open>
  The run whose tasks are over could be closed before the pass and is closed by it; the waiting task
  was not announced before the pass and is announced by it.
\<close>

theorem supervisor_settles_witness:
  "\<not> settled_run late_hash (time_of_millis 4000) example_plan (journal_with example_events)
   \<and> settled_run late_hash (time_of_millis 4000) example_plan (journal_with (example_events @ [closing_event]))
   \<and> replayable late_hash example_plan (example_events @ [closing_event])
   \<and> \<not> announced_run late_hash (time_of_millis 4000) example_plan
        (journal_with waiting_events, NewMemoryTaskNotificationQueue)
   \<and> announced_run late_hash (time_of_millis 4000) example_plan
        (journal_with waiting_events, \<lparr>mq_items = [(flat_digest, queued_item)], mq_wake = True\<rparr>)"
proof -
  note settles = supervisor_settles [OF sum256_late _ empty_queue example_supervisor_new example_env_calm]
  have scope: "sc_tenantID (rp_scope example_plan) = ''tenant''" "sc_repositoryID (rp_scope example_plan) = ''repo''"
    by (simp_all add: example_scope_def)
  have now: "pe_now example_env = time_of_millis 4000" by (simp add: example_env_def)
  have stream: "plan_stream example_plan (journal_with es) = es" for es
    by (simp add: plan_stream_def journal_with_def mj_stream_def map_get_def)
  from settles [OF late_fleet [OF late_example] done_pass] scope
  have "replayable late_hash example_plan (example_events @ [closing_event])
      \<and> settled_run late_hash (time_of_millis 4000) example_plan (journal_with (example_events @ [closing_event]))"
    by (simp add: sset_sconst now stream)
  moreover from settles [OF late_fleet [OF waiting_facts(1)] waiting_pass] scope
  have "announced_run late_hash (time_of_millis 4000) example_plan
        (journal_with waiting_events, \<lparr>mq_items = [(flat_digest, queued_item)], mq_wake = True\<rparr>)"
    by (simp add: sset_sconst now stream)
  ultimately show ?thesis using unsettled_before unannounced_before by blast
qed

text \<open>
  A clock that is not set makes every attempt fail: after the two attempts of the options the
  supervisor gives up. When the context ends during the first of them it does not, and \<open>Run\<close> reports
  readiness although nothing was reconciled.
\<close>

definition unset_env :: "bool \<Rightarrow> pass_env" where
  "unset_env ended = \<lparr>pe_now = 0, pe_ctx = LiveContext, pe_done = ended, pe_interrupted = None\<rparr>"

lemma unset_pass:
  "reconcile_repositories H J Q LiveContext ''tenant'' 0 [''repo''] w = (False, w)"
  by (simp add: TaskNotificationScheduler_ReconcileRepository_def validRunMillis_def UnixMilli_def)

lemma giving_up:
  "reconcileWithRetry H J Q example_supervisor (unset_env False ## unset_env False ## envs) w
     = (Some ErrTaskNotificationSupervisorUnavailable, envs, w)"
  by (simp add: reconcileWithRetry_def example_supervisor_def example_options_def numeral_2_eq_2 unset_env_def
      unset_pass waitSupervisorDelay_def del: reconcile_repositories.simps)

lemma ended_context: "reconcileWithRetry H J Q example_supervisor (unset_env True ## envs) w = (None, envs, w)"
  by (simp add: reconcileWithRetry_def example_supervisor_def example_options_def numeral_2_eq_2 unset_env_def
      unset_pass del: reconcile_repositories.simps)

theorem supervisor_retries_witness:
  "reconcileWithRetry late_hash (memoryJournal late_hash) (memoryNotificationQueue late_hash) example_supervisor
       (unset_env False ## unset_env False ## sconst example_env) (journal_with waiting_events, NewMemoryTaskNotificationQueue)
     = (Some ErrTaskNotificationSupervisorUnavailable, sconst example_env,
        (journal_with waiting_events, NewMemoryTaskNotificationQueue))
   \<and> (\<exists>k\<le>10. sconst example_env = sdrop k (unset_env False ## unset_env False ## sconst example_env)
        \<and> k = so_MaximumRetries example_options)
   \<and> reconcileWithRetry late_hash (memoryJournal late_hash) (memoryNotificationQueue late_hash) example_supervisor
       (unset_env True ## sconst example_env) (journal_with waiting_events, NewMemoryTaskNotificationQueue)
     = (None, sconst example_env, (journal_with waiting_events, NewMemoryTaskNotificationQueue))
   \<and> \<not> announced_run late_hash (time_of_millis 4000) example_plan
        (journal_with waiting_events, NewMemoryTaskNotificationQueue)
   \<and> ts_ready (fst (snd (TaskNotificationSupervisor_Run late_hash (memoryJournal late_hash)
        (memoryNotificationQueue late_hash) DoneContext [] (unset_env True ## sconst example_env)
        (example_supervisor, (journal_with waiting_events, NewMemoryTaskNotificationQueue)))))"
proof -
  have "\<exists>k\<le>10. sconst example_env = sdrop k (unset_env False ## unset_env False ## sconst example_env)
      \<and> k = so_MaximumRetries example_options"
    using supervisor_retries [OF example_supervisor_new giving_up] by blast
  moreover have "pe_done (shd (unset_env True ## sconst example_env))" by (simp add: unset_env_def)
  with supervisor_retries [OF example_supervisor_new ended_context]
  have "ts_ready (fst (snd (TaskNotificationSupervisor_Run late_hash (memoryJournal late_hash)
        (memoryNotificationQueue late_hash) DoneContext [] (unset_env True ## sconst example_env)
        (example_supervisor, (journal_with waiting_events, NewMemoryTaskNotificationQueue)))))" by blast
  ultimately show ?thesis using giving_up ended_context unannounced_before by blast
qed

end
