(* ===== verification/Audit_Event.thy ===== *)
theory Audit_Event
  imports Valid_Strings
begin

text \<open>
  One entry of the audit trail (audit/event.go): its kind, its fields and what they must satisfy,
  the identity that hashes them together with the identity of the entry before, and its canonical
  JSON. The scope of an entry is in \<open>Review_Scope\<close>. The \<open>String\<close> and \<open>Format\<close> methods that keep
  values out of logs and the methods that return a field are not modelled.
\<close>


section \<open>Kinds\<close>

definition maxAuditCausalParents :: nat where
  "maxAuditCausalParents = 16"

definition maxEncodedAuditEventBytes :: nat where
  "maxEncodedAuditEventBytes = 32768"

definition maxAuditEventUnixMilliseconds :: int where
  "maxAuditEventUnixMilliseconds = 253402300799999"

text \<open>A \<open>uint8\<close> with named values; the others are \<open>EventKindUnnamed\<close>.\<close>

datatype EventKind =
    EventRouteSelected
  | EventRouteAttemptClaimed
  | EventRouteDispatchCompleted
  | EventRouteCostReconciled
  | EventRouteContinuationPlanned
  | EventContextSourcesSelected
  | EventContextPacketAssembled
  | EventCandidateBatchAdmitted
  | EventVerificationContextAssembled
  | EventVerificationBatchAdmitted
  | EventIndependentVerificationCompleted
  | EventPublicationReadinessEvaluated
  | EventPublicationAuthorized
  | EventPublicationClaimed
  | EventPublicationHeadReconciled
  | EventPublicationCompleted
  | EventPublicationRetryAuthorized
  | EventReviewSnapshotBound
  | EventContextAcquisitionBound
  | EventArtifactDeleted
  | EventInvestigationToolClaimed
  | EventInvestigationToolCompleted
  | EventKindUnnamed nat

fun EventKind_String :: "EventKind \<Rightarrow> string" where
  "EventKind_String EventRouteSelected = ''route_selected''"
| "EventKind_String EventRouteAttemptClaimed = ''route_attempt_claimed''"
| "EventKind_String EventRouteDispatchCompleted = ''route_dispatch_completed''"
| "EventKind_String EventRouteCostReconciled = ''route_cost_reconciled''"
| "EventKind_String EventRouteContinuationPlanned = ''route_continuation_planned''"
| "EventKind_String EventContextSourcesSelected = ''context_sources_selected''"
| "EventKind_String EventContextPacketAssembled = ''context_packet_assembled''"
| "EventKind_String EventCandidateBatchAdmitted = ''candidate_batch_admitted''"
| "EventKind_String EventVerificationContextAssembled = ''verification_context_assembled''"
| "EventKind_String EventVerificationBatchAdmitted = ''verification_batch_admitted''"
| "EventKind_String EventIndependentVerificationCompleted = ''independent_verification_completed''"
| "EventKind_String EventPublicationReadinessEvaluated = ''publication_readiness_evaluated''"
| "EventKind_String EventPublicationAuthorized = ''publication_authorized''"
| "EventKind_String EventPublicationClaimed = ''publication_claimed''"
| "EventKind_String EventPublicationHeadReconciled = ''publication_head_reconciled''"
| "EventKind_String EventPublicationCompleted = ''publication_completed''"
| "EventKind_String EventPublicationRetryAuthorized = ''publication_retry_authorized''"
| "EventKind_String EventReviewSnapshotBound = ''review_snapshot_bound''"
| "EventKind_String EventContextAcquisitionBound = ''context_acquisition_bound''"
| "EventKind_String EventArtifactDeleted = ''artifact_deleted''"
| "EventKind_String EventInvestigationToolClaimed = ''investigation_tool_claimed''"
| "EventKind_String EventInvestigationToolCompleted = ''investigation_tool_completed''"
| "EventKind_String (EventKindUnnamed n) = []"

text \<open>The loop of \<open>ParseEventKind\<close> runs over the named kinds in the order of their numbers.\<close>

definition eventKinds :: "EventKind list" where
  "eventKinds = [EventRouteSelected, EventRouteAttemptClaimed, EventRouteDispatchCompleted,
     EventRouteCostReconciled, EventRouteContinuationPlanned, EventContextSourcesSelected,
     EventContextPacketAssembled, EventCandidateBatchAdmitted, EventVerificationContextAssembled,
     EventVerificationBatchAdmitted, EventIndependentVerificationCompleted,
     EventPublicationReadinessEvaluated, EventPublicationAuthorized, EventPublicationClaimed,
     EventPublicationHeadReconciled, EventPublicationCompleted, EventPublicationRetryAuthorized,
     EventReviewSnapshotBound, EventContextAcquisitionBound, EventArtifactDeleted,
     EventInvestigationToolClaimed, EventInvestigationToolCompleted]"

definition ParseEventKind :: "string \<Rightarrow> error + EventKind" where
  "ParseEventKind value = parse_named eventKinds EventKind_String ErrInvalidAuditEventKind value"

definition EventKind_Validate :: "EventKind \<Rightarrow> error option" where
  "EventKind_Validate k = (if EventKind_String k = [] then Some ErrInvalidAuditEventKind else None)"


section \<open>Events\<close>

record Event =
  ae_identity :: string
  ae_scope :: ReviewScope
  ae_sequence :: nat
  ae_previousIdentity :: string
  ae_kind :: EventKind
  ae_subjectIdentity :: string
  ae_causalParentIdentities :: "string list"
  ae_occurredAtUnixMilliseconds :: int

text \<open>
  The loop looks at the first byte of each character; a byte outside ASCII begins a character or
  follows one that does, so it stops there as a loop over all bytes would.
\<close>

definition validAuditIdentity :: "string \<Rightarrow> bool" where
  "validAuditIdentity value =
     (if length value \<noteq> 64 then False
      else list_all (\<lambda>character. CHR ''0'' \<le> character \<and> character \<le> CHR ''9''
                        \<or> CHR ''a'' \<le> character \<and> character \<le> CHR ''f'') value)"

fun validateCausalParents :: "string \<Rightarrow> string list \<Rightarrow> error option" where
  "validateCausalParents previous [] = None"
| "validateCausalParents previous (identity # rest) =
     (if \<not> validAuditIdentity identity then Some ErrInvalidAuditSubjectIdentity
      else if previous \<noteq> [] \<and> identity \<le> previous then Some ErrDuplicateAuditCausalParent
      else validateCausalParents identity rest)"

definition Event_validateFields :: "sha \<Rightarrow> Event \<Rightarrow> error option" where
  "Event_validateFields H e =
     (case ReviewScope_Validate H (ae_scope e) of
        Some err \<Rightarrow> Some err
      | None \<Rightarrow>
          if ae_sequence e = 0 then Some ErrInvalidAuditSequence
          else if ae_sequence e = 1 \<and> ae_previousIdentity e \<noteq> []
                  \<or> ae_sequence e > 1 \<and> \<not> validAuditIdentity (ae_previousIdentity e)
          then Some ErrInvalidAuditPreviousIdentity
          else (case EventKind_Validate (ae_kind e) of
                  Some err \<Rightarrow> Some err
                | None \<Rightarrow>
                    if \<not> validAuditIdentity (ae_subjectIdentity e) then Some ErrInvalidAuditSubjectIdentity
                    else if length (ae_causalParentIdentities e) > maxAuditCausalParents
                    then Some ErrTooManyAuditCausalParents
                    else (case validateCausalParents [] (ae_causalParentIdentities e) of
                            Some err \<Rightarrow> Some err
                          | None \<Rightarrow>
                              if ae_occurredAtUnixMilliseconds e \<le> 0
                                 \<or> ae_occurredAtUnixMilliseconds e > maxAuditEventUnixMilliseconds
                              then Some ErrInvalidAuditEventTime else None)))"

text \<open>The stored record; a nil slice is \<open>None\<close>.\<close>

record eventRecord =
  ar_Identity :: string
  ar_ScopeIdentity :: string
  ar_TenantID :: string
  ar_RepositoryID :: string
  ar_ReviewRunID :: string
  ar_Sequence :: nat
  ar_PreviousIdentity :: string
  ar_Kind :: string
  ar_SubjectIdentity :: string
  ar_CausalParentIdentities :: "string list option"
  ar_OccurredAtUnixMilliseconds :: int

definition eventRecord_json :: "eventRecord \<Rightarrow> json" where
  "eventRecord_json r =
     JObj [(''identity'', JStr (ar_Identity r)), (''scope_identity'', JStr (ar_ScopeIdentity r)),
           (''tenant_id'', JStr (ar_TenantID r)), (''repository_id'', JStr (ar_RepositoryID r)),
           (''review_run_id'', JStr (ar_ReviewRunID r)), (''sequence'', JInt (int (ar_Sequence r))),
           (''previous_identity'', JStr (ar_PreviousIdentity r)), (''kind'', JStr (ar_Kind r)),
           (''subject_identity'', JStr (ar_SubjectIdentity r)),
           (''causal_parent_identities'', json_list JStr (ar_CausalParentIdentities r)),
           (''occurred_at_unix_milliseconds'', JInt (ar_OccurredAtUnixMilliseconds r))]"

definition eventRecord_decode :: "json \<Rightarrow> eventRecord option" where
  "eventRecord_decode j = do {
     fs \<leftarrow> json_object j;
     identity \<leftarrow> field_str fs ''identity'';
     scopeIdentity \<leftarrow> field_str fs ''scope_identity'';
     tenant \<leftarrow> field_str fs ''tenant_id'';
     repository \<leftarrow> field_str fs ''repository_id'';
     run \<leftarrow> field_str fs ''review_run_id'';
     sequence \<leftarrow> field_uint 64 fs ''sequence'';
     previous \<leftarrow> field_str fs ''previous_identity'';
     kind \<leftarrow> field_str fs ''kind'';
     subject \<leftarrow> field_str fs ''subject_identity'';
     parents \<leftarrow> field_list item_str fs ''causal_parent_identities'';
     occurred \<leftarrow> field_int fs ''occurred_at_unix_milliseconds'';
     Some \<lparr>ar_Identity = identity, ar_ScopeIdentity = scopeIdentity, ar_TenantID = tenant,
       ar_RepositoryID = repository, ar_ReviewRunID = run, ar_Sequence = sequence,
       ar_PreviousIdentity = previous, ar_Kind = kind, ar_SubjectIdentity = subject,
       ar_CausalParentIdentities = parents, ar_OccurredAtUnixMilliseconds = occurred\<rparr>
   }"

text \<open>\<open>append([]string(nil), xs...)\<close> is nil when there is nothing to append.\<close>

definition append_nil :: "'a list \<Rightarrow> 'a list option" where
  "append_nil xs = (if xs = [] then None else Some xs)"

definition eventRecordFromEvent :: "Event \<Rightarrow> eventRecord" where
  "eventRecordFromEvent e =
     \<lparr>ar_Identity = ae_identity e, ar_ScopeIdentity = sc_identity (ae_scope e),
      ar_TenantID = sc_tenantID (ae_scope e), ar_RepositoryID = sc_repositoryID (ae_scope e),
      ar_ReviewRunID = sc_reviewRunID (ae_scope e), ar_Sequence = ae_sequence e,
      ar_PreviousIdentity = ae_previousIdentity e, ar_Kind = EventKind_String (ae_kind e),
      ar_SubjectIdentity = ae_subjectIdentity e,
      ar_CausalParentIdentities = append_nil (ae_causalParentIdentities e),
      ar_OccurredAtUnixMilliseconds = ae_occurredAtUnixMilliseconds e\<rparr>"

definition deriveEventIdentity :: "sha \<Rightarrow> Event \<Rightarrow> string" where
  "deriveEventIdentity H e =
     hex_EncodeToString (H (json_Marshal (eventRecord_json ((eventRecordFromEvent e)\<lparr>ar_Identity := []\<rparr>))))"

definition NewEvent ::
    "sha \<Rightarrow> ReviewScope \<Rightarrow> nat \<Rightarrow> string \<Rightarrow> EventKind \<Rightarrow> string \<Rightarrow> string list \<Rightarrow> gotime \<Rightarrow> error + Event" where
  "NewEvent H scope sequence previousIdentity kind subjectIdentity causalParentIdentities occurredAt =
     (if length causalParentIdentities > maxAuditCausalParents then Inl ErrTooManyAuditCausalParents
      else (let event = \<lparr>ae_identity = [], ae_scope = scope, ae_sequence = sequence,
                         ae_previousIdentity = previousIdentity, ae_kind = kind,
                         ae_subjectIdentity = subjectIdentity,
                         ae_causalParentIdentities = sort causalParentIdentities,
                         ae_occurredAtUnixMilliseconds = UnixMilli occurredAt\<rparr>
            in check (Event_validateFields H event)
                 (Inr (event\<lparr>ae_identity := deriveEventIdentity H event\<rparr>))))"

definition Event_Validate :: "sha \<Rightarrow> Event \<Rightarrow> error option" where
  "Event_Validate H e =
     (case Event_validateFields H e of
        Some err \<Rightarrow> Some err
      | None \<Rightarrow> if ae_identity e \<noteq> deriveEventIdentity H e then Some ErrInvalidAuditEventIdentity else None)"

definition EncodeEvent :: "sha \<Rightarrow> Event \<Rightarrow> error + string" where
  "EncodeEvent H e =
     check (Event_Validate H e) (Inr (json_Marshal (eventRecord_json (eventRecordFromEvent e))))"

text \<open>
  The comparison with the canonical text comes last here, after the checks of the fields. On text
  that \<open>json.Marshal\<close> cannot have written the reader of \<open>Json_Decode\<close> may fail, with the error of
  the encoding, where the code gets as far as a check of the fields and reports that; such text is
  refused in either case.
\<close>

definition ParseEvent :: "sha \<Rightarrow> string \<Rightarrow> error + Event" where
  "ParseEvent H encoded =
     (if length encoded = 0 \<or> length encoded > maxEncodedAuditEventBytes
      then Inl ErrInvalidAuditEventEncoding
      else (case Option.bind (json_Decode encoded) eventRecord_decode of
              None \<Rightarrow> Inl ErrInvalidAuditEventEncoding
            | Some record \<Rightarrow>
                and_then (ParseEventKind (ar_Kind record)) (\<lambda>kind.
                  (let event =
                     \<lparr>ae_identity = ar_Identity record,
                      ae_scope = \<lparr>sc_identity = ar_ScopeIdentity record, sc_tenantID = ar_TenantID record,
                                  sc_repositoryID = ar_RepositoryID record,
                                  sc_reviewRunID = ar_ReviewRunID record\<rparr>,
                      ae_sequence = ar_Sequence record,
                      ae_previousIdentity = ar_PreviousIdentity record, ae_kind = kind,
                      ae_subjectIdentity = ar_SubjectIdentity record,
                      ae_causalParentIdentities =
                        (case ar_CausalParentIdentities record of None \<Rightarrow> [] | Some parents \<Rightarrow> parents),
                      ae_occurredAtUnixMilliseconds = ar_OccurredAtUnixMilliseconds record\<rparr>
                   in check (Event_Validate H event)
                        (if json_Marshal (eventRecord_json (eventRecordFromEvent event)) \<noteq> encoded
                         then Inl ErrInvalidAuditEventEncoding else Inr event)))))"

section \<open>What a valid event is made of\<close>

lemma validAuditIdentity_facts:
  assumes "validAuditIdentity s"
  shows "length s = 64" and "ascii s" and "list_all json_plain_char s"
proof -
  have hex: "CHR ''0'' \<le> c \<and> c \<le> CHR ''9'' \<or> CHR ''a'' \<le> c \<and> c \<le> CHR ''f''" if "c \<in> set s" for c
    using assms that by (simp add: validAuditIdentity_def list_all_iff split: if_splits)
  show "length s = 64" using assms by (simp add: validAuditIdentity_def split: if_splits)
  have "byte_of c < 128 \<and> json_plain_char c" if "c \<in> set s" for c
    using hex [OF that] plain_range [of c] char_le_byte [of c "CHR ''f''"] char_le_byte [of c "CHR ''9''"]
    by (auto simp: less_eq_char_def)
  then show "ascii s" and "list_all json_plain_char s" by (auto simp: ascii_def list_all_iff)
qed

lemma validAuditIdentity_Nil [simp]: "\<not> validAuditIdentity []"
  by (simp add: validAuditIdentity_def)

lemma validateCausalParents_None:
  "validateCausalParents p ids = None \<longleftrightarrow>
     list_all validAuditIdentity ids \<and> sorted_wrt (<) ids \<and> (p \<noteq> [] \<and> ids \<noteq> [] \<longrightarrow> p < hd ids)"
proof (induction ids arbitrary: p)
  case (Cons i ids)
  have "sorted_wrt (<) (i # ids) \<longleftrightarrow> sorted_wrt (<) ids \<and> (ids \<noteq> [] \<longrightarrow> i < hd ids)"
    by (cases ids) auto
  with Cons show ?case by (auto simp: not_le)
qed simp

lemma Event_validateFields_None:
  "Event_validateFields H e = None \<longleftrightarrow>
     ReviewScope_Validate H (ae_scope e) = None \<and> 0 < ae_sequence e
     \<and> (if ae_sequence e = 1 then ae_previousIdentity e = [] else validAuditIdentity (ae_previousIdentity e))
     \<and> EventKind_Validate (ae_kind e) = None \<and> validAuditIdentity (ae_subjectIdentity e)
     \<and> length (ae_causalParentIdentities e) \<le> maxAuditCausalParents
     \<and> list_all validAuditIdentity (ae_causalParentIdentities e)
     \<and> sorted_wrt (<) (ae_causalParentIdentities e)
     \<and> 0 < ae_occurredAtUnixMilliseconds e \<and> ae_occurredAtUnixMilliseconds e \<le> maxAuditEventUnixMilliseconds"
  using validateCausalParents_None [of "[]" "ae_causalParentIdentities e"]
  by (cases "validateCausalParents [] (ae_causalParentIdentities e)")
    (auto simp: Event_validateFields_def split: option.splits)

lemma Event_Validate_None:
  "Event_Validate H e = None \<longleftrightarrow> Event_validateFields H e = None \<and> ae_identity e = deriveEventIdentity H e"
  by (simp add: Event_Validate_def split: option.splits)

text \<open>The constructor builds valid events, and every valid event, given its fields.\<close>

lemma deriveEventIdentity_identity [simp]: "deriveEventIdentity H (e\<lparr>ae_identity := i\<rparr>) = deriveEventIdentity H e"
  by (simp add: deriveEventIdentity_def eventRecordFromEvent_def)

lemma Event_fields_identity [simp]: "Event_validateFields H (e\<lparr>ae_identity := i\<rparr>) = Event_validateFields H e"
  by (simp add: Event_validateFields_def cong: option.case_cong)

lemma NewEvent_valid:
  assumes "NewEvent H scope sequence previous kind subject parents occurredAt = Inr e"
  shows "Event_Validate H e = None" and "ae_causalParentIdentities e = sort parents"
    and "ae_sequence e = sequence" "ae_previousIdentity e = previous" "ae_scope e = scope"
proof -
  from assms obtain x where "Event_validateFields H x = None" "e = x\<lparr>ae_identity := deriveEventIdentity H x\<rparr>"
      "ae_causalParentIdentities x = sort parents" "ae_sequence x = sequence" "ae_previousIdentity x = previous"
      "ae_scope x = scope"
    unfolding NewEvent_def Let_def res_simps by (metis Event.select_convs(2-4,7) sum.inject(2))
  then show "Event_Validate H e = None" and "ae_causalParentIdentities e = sort parents"
    and "ae_sequence e = sequence" "ae_previousIdentity e = previous" "ae_scope e = scope"
    by (simp_all add: Event_Validate_None)
qed

lemma NewEvent_complete:
  assumes "Event_Validate H e = None"
  shows "NewEvent H (ae_scope e) (ae_sequence e) (ae_previousIdentity e) (ae_kind e) (ae_subjectIdentity e)
    (ae_causalParentIdentities e) (time_of_millis (ae_occurredAtUnixMilliseconds e)) = Inr e"
proof -
  have e: "\<lparr>ae_identity = [], ae_scope = ae_scope e, ae_sequence = ae_sequence e,
      ae_previousIdentity = ae_previousIdentity e, ae_kind = ae_kind e, ae_subjectIdentity = ae_subjectIdentity e,
      ae_causalParentIdentities = ae_causalParentIdentities e,
      ae_occurredAtUnixMilliseconds = ae_occurredAtUnixMilliseconds e\<rparr> = e\<lparr>ae_identity := []\<rparr>" by (cases e) simp
  have "length (ae_causalParentIdentities e) \<le> maxAuditCausalParents"
    "sort (ae_causalParentIdentities e) = ae_causalParentIdentities e"
    using assms by (auto simp: Event_Validate_None Event_validateFields_None intro!: sort_sorted_id)
  with assms show ?thesis
    by (simp add: NewEvent_def e Event_Validate_None)
qed

lemma hex_plain: "ascii (hex_EncodeToString bs)" "list_all json_plain_char (hex_EncodeToString bs)"
  using lower_hex_EncodeToString plain_hex
  by (auto simp: ascii_def list_all_iff lower_hex_def dest!: lower_hex_EncodeToString)

lemma identity_strings:
  assumes "Event_Validate H e = None"
  shows "list_all (\<lambda>s. ascii s \<and> list_all json_plain_char s)
    [ae_identity e, sc_identity (ae_scope e), ae_previousIdentity e, ae_subjectIdentity e]"
    and "list_all (\<lambda>s. ascii s \<and> list_all json_plain_char s) (ae_causalParentIdentities e)"
  using assms hex_plain validAuditIdentity_facts
  by (auto simp: Event_Validate_None Event_validateFields_None deriveEventIdentity_def ReviewScope_Validate_def
      deriveReviewScopeIdentity_def hashControlPlaneValue_def list_all_iff split: if_splits)

section \<open>The record and its JSON\<close>

definition audit_record_ok :: "eventRecord \<Rightarrow> bool" where
  "audit_record_ok r \<longleftrightarrow>
     ar_Sequence r < 2 ^ 64 \<and> int64 (ar_OccurredAtUnixMilliseconds r)
     \<and> list_all utf8_ValidString
         [ar_Identity r, ar_ScopeIdentity r, ar_TenantID r, ar_RepositoryID r, ar_ReviewRunID r,
          ar_PreviousIdentity r, ar_Kind r, ar_SubjectIdentity r]
     \<and> (case ar_CausalParentIdentities r of None \<Rightarrow> True | Some ps \<Rightarrow> list_all utf8_ValidString ps)"

interpretation audit_codec: canonical_codec eventRecord_json eventRecord_decode audit_record_ok
proof
  fix r
  assume ok: "audit_record_ok r"
  have parents: "field_list item_str fs ''causal_parent_identities'' = Some (ar_CausalParentIdentities r)"
    if "map_of fs ''causal_parent_identities'' = Some (json_list JStr (ar_CausalParentIdentities r))" for fs
    using that by (rule field_list_json_list) (simp add: item_str_def)
  show "eventRecord_decode (eventRecord_json r) = Some r"
    using ok by (simp add: audit_record_ok_def eventRecord_decode_def eventRecord_json_def json_object_def parents)
  show "json_clean (eventRecord_json r)"
    using ok by (simp add: audit_record_ok_def eventRecord_json_def utf8_literal split: option.splits)
qed

lemma EventKind_String_facts:
  "ascii (EventKind_String k)" "list_all json_plain_char (EventKind_String k)" "length (EventKind_String k) \<le> 34"
  by (cases k; simp add: ascii_def json_plain_char_def)+

lemma EventKind_String_inj: "inj_on EventKind_String (set eventKinds)"
proof -
  have "distinct (map EventKind_String eventKinds)" by code_simp
  then show ?thesis by (simp only: distinct_map)
qed

lemma eventKinds_valid: "EventKind_Validate k = None \<longleftrightarrow> k \<in> set eventKinds"
  by (cases k) (simp_all add: eventKinds_def EventKind_Validate_def)

lemma ParseEventKind_String: "EventKind_Validate k = None \<Longrightarrow> ParseEventKind (EventKind_String k) = Inr k"
  unfolding ParseEventKind_def eventKinds_valid by (rule parse_named_name [OF _ EventKind_String_inj])

text \<open>The sequence of an event is a \<open>uint64\<close>.\<close>

abbreviation sequence_uint64 :: "Event \<Rightarrow> bool" where
  "sequence_uint64 e \<equiv> ae_sequence e < 2 ^ 64"

lemma audit_record_ok_of:
  assumes "Event_Validate H e = None" and "sequence_uint64 e" and "i = [] \<or> i = ae_identity e"
  shows "audit_record_ok ((eventRecordFromEvent e)\<lparr>ar_Identity := i\<rparr>)"
proof -
  have v: "ReviewScope_Validate H (ae_scope e) = None" "0 < ae_occurredAtUnixMilliseconds e"
      "ae_occurredAtUnixMilliseconds e \<le> maxAuditEventUnixMilliseconds"
    using assms(1) by (auto simp: Event_Validate_None Event_validateFields_None)
  then have "int64 (ae_occurredAtUnixMilliseconds e)" by (simp add: int64_def maxAuditEventUnixMilliseconds_def)
  moreover have "list_all utf8_ValidString (ae_causalParentIdentities e)"
    using identity_strings(2) [OF assms(1)] ascii_utf8 by (auto simp: list_all_iff)
  ultimately show ?thesis
    using assms(2,3) identity_strings(1) [OF assms(1)] scope_strings(1-3) [OF v(1)] EventKind_String_facts(1)
    by (auto simp: audit_record_ok_def eventRecordFromEvent_def append_nil_def ascii_utf8)
qed

definition audit_text :: "Event \<Rightarrow> string" where
  "audit_text e = json_Marshal (eventRecord_json (eventRecordFromEvent e))"

text \<open>Two kilobytes are enough for a valid event, so the limit of 32 never refuses one.\<close>

lemma audit_text_length:
  assumes "sum256 H" and "Event_Validate H e = None" and "sequence_uint64 e"
  shows "length (audit_text e) \<le> 2048"
proof -
  have v: "ReviewScope_Validate H (ae_scope e) = None" "0 < ae_occurredAtUnixMilliseconds e"
      "ae_occurredAtUnixMilliseconds e \<le> maxAuditEventUnixMilliseconds"
      "length (ae_causalParentIdentities e) \<le> 16" "list_all validAuditIdentity (ae_causalParentIdentities e)"
      "length (ae_subjectIdentity e) \<le> 64" "length (ae_previousIdentity e) \<le> 64"
    using assms(2) validAuditIdentity_facts(1)
    by (auto simp: Event_Validate_None Event_validateFields_None maxAuditCausalParents_def split: if_splits)
  have ids: "length (ae_identity e) = 64" "length (sc_identity (ae_scope e)) = 64"
    using assms(1,2) v(1)
    by (auto simp: Event_Validate_None deriveEventIdentity_def ReviewScope_Validate_def sum256_def
        deriveReviewScopeIdentity_def hashControlPlaneValue_def split: if_splits)
  have "sum_list (map (\<lambda>p. Suc (Suc (Suc (length p)))) (ae_causalParentIdentities e)) \<le> length (ae_causalParentIdentities e) * 67"
    using v(5) validAuditIdentity_facts(1) by (intro sum_list_le) (auto simp: list_all_iff)
  then have parents: "json_plain_bound (json_list JStr (append_nil (ae_causalParentIdentities e))) \<le> 1074"
    using v(4) by (simp add: json_list_def append_nil_def comp_def)
  have scope: "list_all (list_all json_plain_char)
      [sc_tenantID (ae_scope e), sc_repositoryID (ae_scope e), sc_reviewRunID (ae_scope e)]"
    using v(1) plain_scope_id by (auto simp: ReviewScope_Validate_def split: if_splits)
  have plain_list: "json_plain (json_list JStr (append_nil (ae_causalParentIdentities e)))"
    using identity_strings(2) [OF assms(2)] by (auto simp: json_list_def append_nil_def list_all_iff)
  have "json_plain (eventRecord_json (eventRecordFromEvent e))"
    using identity_strings(1) [OF assms(2)] EventKind_String_facts(2) [of "ae_kind e"] scope plain_list
    by (simp add: eventRecord_json_def eventRecordFromEvent_def) (simp add: json_plain_char_def)
  moreover have "length (dec_int (int (ae_sequence e))) \<le> 21" "length (dec_int (ae_occurredAtUnixMilliseconds e)) \<le> 21"
    using assms(3) v(2,3) by (auto intro!: length_dec_int simp: maxAuditEventUnixMilliseconds_def)
  then have "json_plain_bound (eventRecord_json (eventRecordFromEvent e)) \<le> 2048"
    using v(6,7) ids parents scope_strings(4-6) [OF v(1)] EventKind_String_facts(3) [of "ae_kind e"]
    by (simp add: eventRecord_json_def eventRecordFromEvent_def)
  ultimately show ?thesis unfolding audit_text_def using length_json_plain le_trans by blast
qed

section \<open>Round trips\<close>

lemma EncodeEvent_text: "EncodeEvent H e = Inr s \<longleftrightarrow> Event_Validate H e = None \<and> s = audit_text e"
  by (auto simp: EncodeEvent_def audit_text_def res_simps)

lemma ParseEvent_text:
  assumes "sum256 H" and v: "Event_Validate H e = None" and "sequence_uint64 e"
  shows "ParseEvent H (audit_text e) = Inr e"
proof -
  let ?r = "eventRecordFromEvent e"
  have ok: "audit_record_ok ?r"
    using audit_record_ok_of [OF v assms(3), of "ae_identity e"] by (simp add: eventRecordFromEvent_def)
  have decode: "Option.bind (json_Decode (audit_text e)) eventRecord_decode = Some ?r"
    using audit_codec.inverse [OF ok] json_Decode_Marshal [OF audit_codec.clean [OF ok]] by (simp add: audit_text_def)
  have size: "audit_text e \<noteq> []" "length (audit_text e) \<le> maxEncodedAuditEventBytes"
    using Marshal_hd audit_text_length [OF assms] by (simp_all add: audit_text_def maxEncodedAuditEventBytes_def)
  have kind: "ParseEventKind (EventKind_String (ae_kind e)) = Inr (ae_kind e)"
    using v by (intro ParseEventKind_String) (simp add: Event_Validate_None Event_validateFields_None)
  have parents: "(case append_nil (ae_causalParentIdentities e) of None \<Rightarrow> [] | Some ps \<Rightarrow> ps)
      = ae_causalParentIdentities e" by (simp add: append_nil_def)
  have rebuilt: "\<lparr>ae_identity = ae_identity e,
      ae_scope = \<lparr>sc_identity = sc_identity (ae_scope e), sc_tenantID = sc_tenantID (ae_scope e),
        sc_repositoryID = sc_repositoryID (ae_scope e), sc_reviewRunID = sc_reviewRunID (ae_scope e)\<rparr>,
      ae_sequence = ae_sequence e, ae_previousIdentity = ae_previousIdentity e, ae_kind = ae_kind e,
      ae_subjectIdentity = ae_subjectIdentity e, ae_causalParentIdentities = ae_causalParentIdentities e,
      ae_occurredAtUnixMilliseconds = ae_occurredAtUnixMilliseconds e\<rparr> = e"
    by (cases e; cases "ae_scope e") simp
  show ?thesis
    using size kind v
    by (simp add: ParseEvent_def decode) (simp add: eventRecordFromEvent_def parents rebuilt audit_text_def)
qed

lemma ParseEvent_Inr:
  assumes "ParseEvent H s = Inr e"
  shows "Event_Validate H e = None" and "s = audit_text e"
  using assms by (auto simp: ParseEvent_def res_simps Let_def audit_text_def split: option.splits if_splits)

text \<open>
  C31. The audit entries that can be written and read back are exactly the valid ones. What
  the constructor builds is valid, every valid entry can be built, and it has one text, of at most
  two kilobytes, which is the only one the parser accepts for it.
\<close>

theorem audit_event_exact:
  assumes "sum256 H" and "ae_sequence e < 2 ^ 64"
  shows "(Event_Validate H e = None \<longleftrightarrow>
      (\<exists>scope sequence previous kind subject parents occurredAt.
         NewEvent H scope sequence previous kind subject parents occurredAt = Inr e))
    \<and> (Event_Validate H e = None \<longleftrightarrow>
      (\<exists>s. length s \<le> 2048 \<and> EncodeEvent H e = Inr s \<and> (\<forall>s'. ParseEvent H s' = Inr e \<longleftrightarrow> s' = s)))"
  using NewEvent_valid(1) NewEvent_complete ParseEvent_Inr ParseEvent_text [OF assms(1) _ assms(2)]
    audit_text_length [OF assms(1) _ assms(2)] EncodeEvent_text [of H e]
  by blast


section \<open>An identity stands for its event\<close>

text \<open>The hashed text of an event: its record without the identity.\<close>

definition audit_preimage :: "Event \<Rightarrow> string" where
  "audit_preimage e = json_Marshal (eventRecord_json ((eventRecordFromEvent e)\<lparr>ar_Identity := []\<rparr>))"

lemma hexdigit_inj: "hexdigit m = hexdigit n \<Longrightarrow> m mod 16 = n mod 16"
  using unhex_hexdigit [of m] unhex_hexdigit [of n] by simp

lemma byte_of_hex:
  assumes "hexdigit (byte_of c div 16) = hexdigit (byte_of d div 16)" and "hexdigit (byte_of c) = hexdigit (byte_of d)"
  shows "c = d"
proof -
  define a b where "a = byte_of c" and "b = byte_of d"
  have "a < 256" "b < 256" using byte_of_less by (simp_all add: a_def b_def)
  then have "a div 16 = (a div 16) mod 16" "b div 16 = (b div 16) mod 16" by simp_all
  then have "a div 16 = b div 16" "a mod 16 = b mod 16"
    using assms [folded a_def b_def] hexdigit_inj by metis+
  then have "a = b" by (metis div_mult_mod_eq)
  then show ?thesis by (simp add: a_def b_def)
qed

lemma hex_EncodeToString_inj: "hex_EncodeToString x = hex_EncodeToString y \<Longrightarrow> x = y"
proof (induction x arbitrary: y)
  case Nil
  then show ?case by (cases y) (simp_all add: hex_EncodeToString_def)
next
  case (Cons c x)
  then obtain d y' where y: "y = d # y'" by (cases y) (simp_all add: hex_EncodeToString_def)
  with Cons show ?case by (auto simp: hex_EncodeToString_def dest: byte_of_hex)
qed

lemma same_identity_same_event:
  assumes "Event_Validate H e = None" and "Event_Validate H e' = None"
    and "sequence_uint64 e" and "sequence_uint64 e'"
    and "ae_identity e = ae_identity e'"
    and "H (audit_preimage e) = H (audit_preimage e') \<longrightarrow> audit_preimage e = audit_preimage e'"
  shows "e = e'"
proof -
  have v: "ae_identity e = deriveEventIdentity H e" "ae_identity e' = deriveEventIdentity H e'"
      "ae_kind e \<in> set eventKinds" "ae_kind e' \<in> set eventKinds"
    using assms(1,2) by (auto simp: Event_Validate_None Event_validateFields_None eventKinds_valid)
  then have "H (audit_preimage e) = H (audit_preimage e')"
    using assms(5) hex_EncodeToString_inj by (simp add: deriveEventIdentity_def audit_preimage_def)
  with assms(6) have "audit_preimage e = audit_preimage e'" by blast
  then have "(eventRecordFromEvent e)\<lparr>ar_Identity := []\<rparr> = (eventRecordFromEvent e')\<lparr>ar_Identity := []\<rparr>"
    unfolding audit_preimage_def
    by (rule audit_codec.Marshal_inject [OF audit_record_ok_of [OF assms(1,3)] audit_record_ok_of [OF assms(2,4)], rotated 2])
      simp_all
  moreover from this have "ae_kind e = ae_kind e'"
    using inj_onD [OF EventKind_String_inj _ v(3,4)] by (simp add: eventRecordFromEvent_def)
  ultimately show ?thesis
    using assms(5)
    by (cases e; cases e') (auto simp: eventRecordFromEvent_def append_nil_def intro: ReviewScope.equality split: if_splits)
qed

end
