(* ===== verification/Audit_Ledger.thy ===== *)
theory Audit_Ledger
  imports Audit_Event Run_Journal
begin

text \<open>
  The audit ledger (audit/ledger.go): the interface \<open>Ledger\<close> as a record of its methods, the ledger
  in memory, and the contract every ledger fulfils. From the contract alone follows what the trail
  is for: a stream is only ever extended, and whoever knows the identity of its last event can tell
  whether any event before it was changed.

  Every method of the memory ledger holds the lock while it works, so each is one step on the
  state. The context may end while a call waits for the lock: \<open>expired\<close>. A nil receiver is not
  modelled; a zero ledger, whose map is nil, behaves as an empty one.
\<close>

definition maxAuditReadEvents :: nat where
  "maxAuditReadEvents = 1000"

fun validateAuditContext :: "gocontext \<Rightarrow> error option" where
  "validateAuditContext NilContext = Some ErrInvalidAuditContext"
| "validateAuditContext DoneContext = Some ErrAuditContextDone"
| "validateAuditContext LiveContext = None"

text \<open>The methods over a state \<open>'s\<close>; \<open>'w\<close> is what may happen outside the program during a call.\<close>

record ('w, 's) Ledger =
  lg_Append :: "'w \<Rightarrow> gocontext \<Rightarrow> string \<Rightarrow> Event \<Rightarrow> 's \<Rightarrow> error option \<times> 's"
  lg_Head :: "'w \<Rightarrow> gocontext \<Rightarrow> ReviewScope \<Rightarrow> 's \<Rightarrow> error + Event option"
  lg_Read :: "'w \<Rightarrow> gocontext \<Rightarrow> ReviewScope \<Rightarrow> nat \<Rightarrow> nat \<Rightarrow> 's \<Rightarrow> error + Event list"

record MemoryLedger =
  ml_streams :: "(string \<times> Event list) list"

definition NewMemoryLedger :: MemoryLedger where
  "NewMemoryLedger = \<lparr>ml_streams = []\<rparr>"

definition ml_stream :: "MemoryLedger \<Rightarrow> string \<Rightarrow> Event list" where
  "ml_stream l scope = map_get [] (ml_streams l) scope"

definition audit_head :: "Event list \<Rightarrow> string" where
  "audit_head stream = (if stream = [] then [] else ae_identity (last stream))"

definition MemoryLedger_Append ::
    "sha \<Rightarrow> bool \<Rightarrow> gocontext \<Rightarrow> string \<Rightarrow> Event \<Rightarrow> MemoryLedger \<Rightarrow> error option \<times> MemoryLedger" where
  "MemoryLedger_Append H expired ctx expectedHead event l =
     (case validateAuditContext ctx of
        Some err \<Rightarrow> (Some err, l)
      | None \<Rightarrow>
          if expectedHead \<noteq> [] \<and> \<not> validAuditIdentity expectedHead then (Some ErrInvalidAuditExpectedHead, l)
          else (case Event_Validate H event of
                  Some err \<Rightarrow> (Some err, l)
                | None \<Rightarrow>
                    if expired then (Some ErrAuditContextDone, l)
                    else (let key = sc_identity (ae_scope event);
                              stream = ml_stream l key;
                              currentHead = audit_head stream;
                              expectedSequence = length stream + 1
                          in if expectedHead \<noteq> currentHead then (Some ErrAuditHeadConflict, l)
                             else if ae_sequence event \<noteq> expectedSequence
                                     \<or> ae_previousIdentity event \<noteq> currentHead
                             then (Some ErrAuditChainMismatch, l)
                             else (None, l\<lparr>ml_streams := AList.update key (stream @ [event]) (ml_streams l)\<rparr>))))"

definition MemoryLedger_Head ::
    "sha \<Rightarrow> bool \<Rightarrow> gocontext \<Rightarrow> ReviewScope \<Rightarrow> MemoryLedger \<Rightarrow> error + Event option" where
  "MemoryLedger_Head H expired ctx scope l =
     check (validateAuditContext ctx)
       (check (ReviewScope_Validate H scope)
          (if expired then Inl ErrAuditContextDone
           else (let stream = ml_stream l (sc_identity scope)
                 in if stream = [] then Inr None else Inr (Some (last stream)))))"

text \<open>The events after a sequence number, at most \<open>limit\<close>.\<close>

definition audit_page :: "nat \<Rightarrow> nat \<Rightarrow> Event list \<Rightarrow> Event list" where
  "audit_page afterSequence limit stream =
     (if afterSequence \<ge> length stream then []
      else (let stop = min (afterSequence + limit) (length stream)
            in drop afterSequence (take stop stream)))"

definition MemoryLedger_Read ::
    "sha \<Rightarrow> bool \<Rightarrow> gocontext \<Rightarrow> ReviewScope \<Rightarrow> nat \<Rightarrow> nat \<Rightarrow> MemoryLedger \<Rightarrow> error + Event list" where
  "MemoryLedger_Read H expired ctx scope afterSequence limit l =
     check (validateAuditContext ctx)
       (check (ReviewScope_Validate H scope)
          (if limit = 0 \<or> limit > maxAuditReadEvents then Inl ErrInvalidAuditReadLimit
           else if expired then Inl ErrAuditContextDone
           else Inr (audit_page afterSequence limit (ml_stream l (sc_identity scope)))))"

definition memoryLedger :: "sha \<Rightarrow> (bool, MemoryLedger) Ledger" where
  "memoryLedger H =
     \<lparr>lg_Append = MemoryLedger_Append H, lg_Head = MemoryLedger_Head H, lg_Read = MemoryLedger_Read H\<rparr>"


section \<open>Chains\<close>

text \<open>The event continues the stream \<open>es\<close> of the scope with the identity \<open>k\<close>.\<close>

definition audit_link :: "sha \<Rightarrow> string \<Rightarrow> Event list \<Rightarrow> Event \<Rightarrow> bool" where
  "audit_link H k es e \<longleftrightarrow>
     Event_Validate H e = None \<and> sequence_uint64 e \<and> sc_identity (ae_scope e) = k
     \<and> ae_sequence e = Suc (length es) \<and> ae_previousIdentity e = audit_head es"

definition audit_chain :: "sha \<Rightarrow> string \<Rightarrow> Event list \<Rightarrow> bool" where
  "audit_chain H k es \<longleftrightarrow> (\<forall>es1 e es2. es = es1 @ e # es2 \<longrightarrow> audit_link H k es1 e)"

lemma audit_chain_Nil [simp]: "audit_chain H k []"
  by (simp add: audit_chain_def)

lemma audit_chain_snoc: "audit_chain H k (es @ [e]) \<longleftrightarrow> audit_chain H k es \<and> audit_link H k es e"
proof
  assume c: "audit_chain H k (es @ [e])"
  then have "audit_link H k es1 e1" if "es = es1 @ e1 # es2" for es1 e1 es2
    using that unfolding audit_chain_def by (metis append.assoc append_Cons)
  with c show "audit_chain H k es \<and> audit_link H k es e" by (simp add: audit_chain_def)
next
  assume c: "audit_chain H k es \<and> audit_link H k es e"
  have "audit_link H k es1 e1" if "es @ [e] = es1 @ e1 # es2" for es1 e1 es2
    using c that by (cases es2 rule: rev_cases) (auto simp: audit_chain_def)
  then show "audit_chain H k (es @ [e])" by (simp add: audit_chain_def)
qed

lemma audit_chain_events:
  "audit_chain H k es \<Longrightarrow> e \<in> set es \<Longrightarrow> Event_Validate H e = None \<and> sequence_uint64 e \<and> sc_identity (ae_scope e) = k"
  by (auto simp: audit_chain_def audit_link_def dest!: split_list)

lemma audit_identity_nonempty:
  assumes "sum256 H" and "Event_Validate H e = None"
  shows "ae_identity e \<noteq> []"
proof -
  have "length (ae_identity e) = 64"
    using assms by (simp add: Event_Validate_None deriveEventIdentity_def sum256_def)
  then show ?thesis by auto
qed

text \<open>
  Two chains with the same head are the same chain, if the hash keeps the texts of their events
  apart. Each identity fixes its event and with it the identity of the event before.
\<close>

lemma same_head_same_chain:
  assumes "sum256 H"
  shows "audit_chain H k es \<Longrightarrow> audit_chain H k' es' \<Longrightarrow> audit_head es = audit_head es' \<Longrightarrow>
    \<forall>e\<in>set es. \<forall>e'\<in>set es'. H (audit_preimage e) = H (audit_preimage e') \<longrightarrow> audit_preimage e = audit_preimage e' \<Longrightarrow>
    es = es'"
proof (induction es arbitrary: es' rule: rev_induct)
  case Nil
  then show ?case
    using audit_identity_nonempty [OF assms] audit_chain_events [OF Nil(2) last_in_set]
    by (cases "es' = []") (auto simp: audit_head_def dest: sym)
next
  case (snoc e es)
  have e: "audit_chain H k es" "audit_link H k es e" using snoc.prems(1) by (simp_all add: audit_chain_snoc)
  then have "audit_head es' \<noteq> []"
    using snoc.prems(3) audit_identity_nonempty [OF assms] by (auto simp: audit_head_def audit_link_def)
  then obtain xs x where es': "es' = xs @ [x]" by (cases es' rule: rev_cases) (auto simp: audit_head_def)
  then have x: "audit_chain H k' xs" "audit_link H k' xs x" using snoc.prems(2) by (simp_all add: audit_chain_snoc)
  have "e = x"
    using e(2) x(2) snoc.prems(3,4)
    by (intro same_identity_same_event [of H]) (auto simp: audit_link_def audit_head_def es')
  moreover have "es = xs"
    using snoc.IH [OF e(1) x(1)] e(2) x(2) \<open>e = x\<close> snoc.prems(4) by (auto simp: audit_link_def es')
  ultimately show ?case by (simp add: es')
qed

section \<open>The contract\<close>

text \<open>
  Sequences of calls of a ledger. \<open>meets\<close> restricts what may happen outside the program; the caller
  may use any contexts, expected heads and events.
\<close>

inductive ledger_step :: "('w, 's) Ledger \<Rightarrow> ('w \<Rightarrow> bool) \<Rightarrow> 's \<Rightarrow> 's \<Rightarrow> bool" for L meets where
  append: "meets w \<Longrightarrow> sequence_uint64 e \<Longrightarrow> lg_Append L w ctx h e s = (err, s') \<Longrightarrow> ledger_step L meets s s'"

text \<open>
  What a ledger promises about the streams \<open>stream s\<close> that a state \<open>s\<close> stands for. An \<open>Append\<close> that
  reports success has appended exactly the given event at the expected head; one that fails may have
  done that or nothing. \<open>Head\<close> and \<open>Read\<close> return what is there, or fail.
\<close>

locale audit_ledger =
  fixes H :: sha and L :: "('w, 's) Ledger" and meets :: "'w \<Rightarrow> bool"
    and stream :: "'s \<Rightarrow> string \<Rightarrow> Event list" and ok :: "'s \<Rightarrow> bool"
  assumes append_law: "ok s \<Longrightarrow> meets w \<Longrightarrow> sequence_uint64 e \<Longrightarrow> lg_Append L w ctx h e s = (err, s') \<Longrightarrow>
      ok s' \<and> (err \<noteq> None \<and> stream s' = stream s
        \<or> h = audit_head (stream s (sc_identity (ae_scope e)))
          \<and> audit_link H (sc_identity (ae_scope e)) (stream s (sc_identity (ae_scope e))) e
          \<and> stream s' = (stream s)(sc_identity (ae_scope e) := stream s (sc_identity (ae_scope e)) @ [e]))"
    and head_law: "ok s \<Longrightarrow> meets w \<Longrightarrow> lg_Head L w ctx scope s = Inr head \<Longrightarrow>
      head = (if stream s (sc_identity scope) = [] then None else Some (last (stream s (sc_identity scope))))"
    and read_law: "ok s \<Longrightarrow> meets w \<Longrightarrow> lg_Read L w ctx scope after limit s = Inr events \<Longrightarrow>
      events = audit_page after limit (stream s (sc_identity scope))"
begin

definition moves :: "'s \<Rightarrow> 's \<Rightarrow> bool" where
  "moves s s' \<longleftrightarrow> ok s' \<and> (\<forall>k. prefix (stream s k) (stream s' k) \<and> (audit_chain H k (stream s k) \<longrightarrow> audit_chain H k (stream s' k)))"

lemma step_moves:
  assumes "ledger_step L meets s s'" and "ok s"
  shows "moves s s'"
  using assms
proof (cases rule: ledger_step.cases)
  case (append w e ctx h err)
  note law = append_law [OF assms(2) append]
  show ?thesis
  proof (cases "stream s' = stream s")
    case True
    with law show ?thesis by (simp add: moves_def)
  next
    case False
    with law show ?thesis by (auto simp: moves_def audit_chain_snoc)
  qed
qed

lemma steps_move:
  assumes "(ledger_step L meets)\<^sup>*\<^sup>* s s'" and "ok s"
  shows "moves s s'"
  using assms(1)
proof (induction rule: rtranclp_induct)
  case base
  then show ?case using assms(2) by (simp add: moves_def)
next
  case (step y z)
  with step_moves [OF step.hyps(2)] show ?case
    unfolding moves_def by (meson prefix_order.trans)
qed

text \<open>
  The history of a scope is fixed by the identity of its last event: two ledgers that started from
  chains and report the same head for a scope have the same events.
\<close>

lemma steps_chain:
  assumes "(ledger_step L meets)\<^sup>*\<^sup>* s s'" and "ok s" and "\<forall>k. audit_chain H k (stream s k)"
  shows "ok s' \<and> audit_chain H k (stream s' k) \<and> prefix (stream s k) (stream s' k)"
  using steps_move [OF assms(1,2)] assms(3) by (simp add: moves_def)

lemma reported_head:
  assumes "ok s" and "meets w" and "lg_Head L w ctx scope s = Inr head"
  shows "audit_head (stream s (sc_identity scope)) = (case head of None \<Rightarrow> [] | Some e \<Rightarrow> ae_identity e)"
  using head_law [OF assms] by (simp add: audit_head_def)

end


section \<open>The memory ledger fulfils it\<close>

lemma ml_stream_update:
  "ml_stream (l\<lparr>ml_streams := AList.update k es (ml_streams l)\<rparr>) = (ml_stream l)(k := es)"
  by (auto simp: ml_stream_def map_get_update)

interpretation memory_ledger: audit_ledger H "memoryLedger H" "\<lambda>_. True" ml_stream "\<lambda>_. True" for H
proof (unfold_locales, goal_cases)
  case (1 s w e ctx h err s')
  then show ?case
    by (cases "validateAuditContext ctx"; cases "Event_Validate H e")
      (auto simp: memoryLedger_def MemoryLedger_Append_def Let_def audit_link_def ml_stream_update
        split: option.splits if_splits dest!: sym [of "Some _"])
next
  case (2 s w ctx scope head)
  then show ?case by (auto simp: memoryLedger_def MemoryLedger_Head_def Let_def res_simps split: if_splits)
next
  case (3 s w ctx scope after limit events)
  then show ?case by (auto simp: memoryLedger_def MemoryLedger_Read_def res_simps)
qed

end
