(* ===== verification/Audit_File_Ledger.thy ===== *)
theory Audit_File_Ledger
  imports Audit_Ledger Durable_Files
begin

text \<open>
  The durable ledger (audit/file\_ledger.go): \<open>FileLedger\<close> keeps one file of lines per scope in a
  directory that it alone writes. Every method holds the mutex while it works, so each is one step
  on the state; \<open>io\<close> is what the operating system and the context do during it (\<open>File_Lock\<close>). A
  nil receiver is not modelled.
\<close>


section \<open>The ledger\<close>

definition auditStreamFileSuffix :: string where
  "auditStreamFileSuffix = ''.audit.jsonl''"

definition auditWriterLockName :: string where
  "auditWriterLockName = ''.writer.lock''"

definition maxAuditStreamBytes :: nat where
  "maxAuditStreamBytes = 67108864"

definition maxAuditStreamEvents :: nat where
  "maxAuditStreamEvents = 10000"

record FileLedger =
  fl_files :: directory
  fl_lock :: "Lock option"
  fl_closed :: bool

definition FileLedger_syncRoot :: "file_io \<Rightarrow> error option" where
  "FileLedger_syncRoot io = sync_directory io ErrAuditPersistence"

definition NewFileLedger ::
    "file_io \<Rightarrow> string \<Rightarrow> journal_root \<Rightarrow> (error + FileLedger) \<times> journal_root" where
  "NewFileLedger io root r =
     (if root = [] then (Inl ErrInvalidAuditLedgerRoot, r)
      else if io_fails io AbsCall then (Inl ErrInvalidAuditLedgerRoot, r)
      else if io_fails io MkdirRootCall \<or> jr_kind r = RootOther then (Inl ErrAuditPersistence, r)
      else (let r1 = (if jr_kind r = RootMissing
                      then r\<lparr>jr_kind := RootDirectory, jr_perm := 448, jr_files := []\<rparr> else r)
            in if io_fails io LstatRootCall \<or> jr_kind r1 \<noteq> RootDirectory then (Inl ErrInvalidAuditLedgerRoot, r1)
               else if io_fails io ChmodRootCall then (Inl ErrAuditPersistence, r1)
               else (let r2 = r1\<lparr>jr_perm := 448\<rparr>
                     in case Acquire io auditWriterLockName (jr_files r2) (jr_locks r2) of
                          (Inl err, files, locks) \<Rightarrow>
                            (Inl (if err = ErrLocked then ErrAuditLedgerLocked else ErrAuditPersistence),
                             r2\<lparr>jr_files := files, jr_locks := locks\<rparr>)
                        | (Inr lock, files, locks) \<Rightarrow>
                            (case FileLedger_syncRoot io of
                               Some err \<Rightarrow>
                                 (case Lock_Close io lock locks of
                                    (_, _, locks1) \<Rightarrow> (Inl err, r2\<lparr>jr_files := files, jr_locks := locks1\<rparr>))
                             | None \<Rightarrow>
                                 (Inr \<lparr>fl_files = files, fl_lock = Some lock, fl_closed = False\<rparr>,
                                  r2\<lparr>jr_files := files, jr_locks := locks\<rparr>)))))"

definition FileLedger_Close ::
    "file_io \<Rightarrow> FileLedger \<Rightarrow> lock_table \<Rightarrow> error option \<times> FileLedger \<times> lock_table" where
  "FileLedger_Close io l locks =
     (if fl_closed l then (None, l, locks)
      else (case fl_lock l of
              None \<Rightarrow> (FileLedger_syncRoot io, l\<lparr>fl_closed := True\<rparr>, locks)
            | Some lock \<Rightarrow>
                (case Lock_Close io lock locks of
                   (Some _, lock1, locks1) \<Rightarrow> (Some ErrAuditPersistence, l\<lparr>fl_lock := Some lock1\<rparr>, locks1)
                 | (None, _, locks1) \<Rightarrow>
                     (FileLedger_syncRoot io, l\<lparr>fl_lock := None, fl_closed := True\<rparr>, locks1))))"

definition FileLedger_streamPath :: "ReviewScope \<Rightarrow> string" where
  "FileLedger_streamPath scope = sc_identity scope @ auditStreamFileSuffix"

text \<open>The loop over the lines of a stream; the scope is compared field by field.\<close>

fun scan_audit_events ::
    "sha \<Rightarrow> file_io \<Rightarrow> ReviewScope \<Rightarrow> Event list \<Rightarrow> string \<Rightarrow> string list \<Rightarrow> error + Event list" where
  "scan_audit_events H io scope events previous [] =
     (if io_fails io (ReadCall (FileLedger_streamPath scope) (length events)) then Inl ErrCorruptAuditStream
      else Inr events)"
| "scan_audit_events H io scope events previous (line # rest) =
     (if io_fails io (ReadCall (FileLedger_streamPath scope) (length events))
         \<or> length line + 1 > maxEncodedAuditEventBytes + 1
      then Inl ErrCorruptAuditStream
      else if length events \<ge> maxAuditStreamEvents then Inl ErrAuditStreamTooLarge
      else (case ParseEvent H (dropCR line) of
              Inl _ \<Rightarrow> Inl ErrCorruptAuditStream
            | Inr event \<Rightarrow>
                if ae_scope event \<noteq> scope \<or> ae_sequence event \<noteq> length events + 1
                   \<or> ae_previousIdentity event \<noteq> previous
                then Inl ErrCorruptAuditStream
                else scan_audit_events H io scope (events @ [event]) (ae_identity event) rest))"

definition FileLedger_loadStream :: "sha \<Rightarrow> file_io \<Rightarrow> ReviewScope \<Rightarrow> directory \<Rightarrow> error + Event list" where
  "FileLedger_loadStream H io scope dir =
     (let path = FileLedger_streamPath scope
      in if io_fails io (LstatCall path) then Inl ErrAuditPersistence
         else (case map_of dir path of
                 None \<Rightarrow> Inr []
               | Some file \<Rightarrow>
                   if de_kind file \<noteq> RegularFile then Inl ErrCorruptAuditStream
                   else if io_fails io (OpenCall path) then Inl ErrAuditPersistence
                   else if io_fails io (StatCall path) then Inl ErrAuditPersistence
                   else if open_to_others file then Inl ErrCorruptAuditStream
                   else if length (de_content file) = 0 \<or> length (de_content file) > maxAuditStreamBytes
                   then Inl ErrAuditStreamTooLarge
                   else if io_fails io (SeekEndCall path) then Inl ErrCorruptAuditStream
                   else if io_fails io (ReadLastCall path) \<or> last (de_content file) \<noteq> CHR 0x0A
                   then Inl ErrCorruptAuditStream
                   else if io_fails io (SeekStartCall path) then Inl ErrAuditPersistence
                   else scan_audit_events H io scope [] [] (scanner_lines (de_content file))))"

fun encode_audit_events :: "sha \<Rightarrow> nat \<Rightarrow> Event list \<Rightarrow> error + string list" where
  "encode_audit_events H totalBytes [] = Inr []"
| "encode_audit_events H totalBytes (event # rest) =
     (case EncodeEvent H event of
        Inl err \<Rightarrow> Inl err
      | Inr encoded \<Rightarrow>
          (let totalBytes = totalBytes + length encoded + 1
           in if totalBytes > maxAuditStreamBytes then Inl ErrAuditStreamTooLarge
              else (case encode_audit_events H totalBytes rest of
                      Inl err \<Rightarrow> Inl err
                    | Inr encodedEvents \<Rightarrow> Inr (encoded # encodedEvents))))"

definition FileLedger_replaceStream ::
    "sha \<Rightarrow> file_io \<Rightarrow> ReviewScope \<Rightarrow> Event list \<Rightarrow> directory \<Rightarrow> error option \<times> directory" where
  "FileLedger_replaceStream H io scope events dir =
     (case encode_audit_events H 0 events of
        Inl err \<Rightarrow> (Some err, dir)
      | Inr encodedEvents \<Rightarrow>
          replace_file io ErrAuditPersistence ''.audit-write-'' (FileLedger_streamPath scope)
            (stream_content encodedEvents)
            ((ChmodTempCall, ErrAuditPersistence)
             # concat (map (\<lambda>index. [(ContextCheck (Suc index), ErrAuditContextDone),
                                     (WriteTempCall index, ErrAuditPersistence)])
                         [0..<length encodedEvents])
             @ [(FlushTempCall, ErrAuditPersistence), (SyncTempCall, ErrAuditPersistence),
                (CloseTempCall, ErrAuditPersistence)]) dir)"

definition FileLedger_Append ::
    "sha \<Rightarrow> file_io \<Rightarrow> gocontext \<Rightarrow> string \<Rightarrow> Event \<Rightarrow> FileLedger \<Rightarrow> error option \<times> FileLedger" where
  "FileLedger_Append H io ctx expectedHead event l =
     (case validateAuditContext ctx of
        Some err \<Rightarrow> (Some err, l)
      | None \<Rightarrow>
     if expectedHead \<noteq> [] \<and> \<not> validAuditIdentity expectedHead then (Some ErrInvalidAuditExpectedHead, l)
     else (case Event_Validate H event of
        Some err \<Rightarrow> (Some err, l)
      | None \<Rightarrow>
          if fl_closed l then (Some ErrAuditLedgerClosed, l)
          else if io_fails io (ContextCheck 0) then (Some ErrAuditContextDone, l)
          else (case FileLedger_loadStream H io (ae_scope event) (fl_files l) of
             Inl err \<Rightarrow> (Some err, l)
           | Inr stream \<Rightarrow>
               (let currentHead = audit_head stream
                in if expectedHead \<noteq> currentHead then (Some ErrAuditHeadConflict, l)
                   else if ae_sequence event \<noteq> length stream + 1 \<or> ae_previousIdentity event \<noteq> currentHead
                   then (Some ErrAuditChainMismatch, l)
                   else if length stream \<ge> maxAuditStreamEvents then (Some ErrAuditStreamTooLarge, l)
                   else (case FileLedger_replaceStream H io (ae_scope event) (stream @ [event]) (fl_files l) of
                           (err, files) \<Rightarrow> (err, l\<lparr>fl_files := files\<rparr>))))))"

definition FileLedger_Head ::
    "sha \<Rightarrow> file_io \<Rightarrow> gocontext \<Rightarrow> ReviewScope \<Rightarrow> FileLedger \<Rightarrow> error + Event option" where
  "FileLedger_Head H io ctx scope l =
     check (validateAuditContext ctx)
       (check (ReviewScope_Validate H scope)
          (if fl_closed l then Inl ErrAuditLedgerClosed
           else and_then (FileLedger_loadStream H io scope (fl_files l)) (\<lambda>stream.
             Inr (if stream = [] then None else Some (last stream)))))"

definition FileLedger_Read ::
    "sha \<Rightarrow> file_io \<Rightarrow> gocontext \<Rightarrow> ReviewScope \<Rightarrow> nat \<Rightarrow> nat \<Rightarrow> FileLedger \<Rightarrow> error + Event list" where
  "FileLedger_Read H io ctx scope afterSequence limit l =
     check (validateAuditContext ctx)
       (check (ReviewScope_Validate H scope)
          (if limit = 0 \<or> limit > maxAuditReadEvents then Inl ErrInvalidAuditReadLimit
           else if fl_closed l then Inl ErrAuditLedgerClosed
           else and_then (FileLedger_loadStream H io scope (fl_files l)) (\<lambda>stream.
             Inr (audit_page afterSequence limit stream))))"

definition fileLedger :: "sha \<Rightarrow> (file_io, FileLedger) Ledger" where
  "fileLedger H =
     \<lparr>lg_Append = FileLedger_Append H, lg_Head = FileLedger_Head H, lg_Read = FileLedger_Read H\<rparr>"

end
