(* ===== verification/Audit_Refinement.thy ===== *)
theory Audit_Refinement
  imports Audit_File_Ledger
begin

text \<open>
  The durable ledger implements the memory ledger and fulfils the contract of a ledger, whatever the
  operating system refuses.
\<close>


section \<open>The files of a ledger\<close>

text \<open>A stream as it is stored: a chain of one scope that is not too long.\<close>

definition audit_stored :: "sha \<Rightarrow> string \<Rightarrow> Event list \<Rightarrow> bool" where
  "audit_stored H k es \<longleftrightarrow> audit_chain H k es \<and> length es \<le> maxAuditStreamEvents
     \<and> (\<forall>e\<in>set es. ae_scope e = ae_scope (hd es))"

lemma audit_stored_events:
  "audit_stored H k es \<Longrightarrow> e \<in> set es \<Longrightarrow> Event_Validate H e = None \<and> sequence_uint64 e"
  by (auto simp: audit_stored_def dest: audit_chain_events)

lemma audit_stored_snoc:
  assumes "audit_stored H k es" and "audit_link H k es e" and "length es < maxAuditStreamEvents"
    and "\<forall>x\<in>set es. ae_scope x = ae_scope e"
  shows "audit_stored H k (es @ [e])"
proof -
  have "ae_scope (hd (es @ [e])) = ae_scope e" using assms(4) by (cases es) simp_all
  then have "\<forall>x\<in>set (es @ [e]). ae_scope x = ae_scope (hd (es @ [e]))" using assms(4) by simp
  with assms(1-3) show ?thesis unfolding audit_stored_def by (simp add: audit_chain_snoc)
qed

definition audit_stream_text :: "Event list \<Rightarrow> string" where
  "audit_stream_text es = stream_content (map audit_text es)"

definition ledger_represents :: "sha \<Rightarrow> (string \<Rightarrow> Event list) \<Rightarrow> directory \<Rightarrow> bool" where
  "ledger_represents H ss dir \<longleftrightarrow>
     (\<forall>k. map_of dir (k @ auditStreamFileSuffix) =
        (if ss k = [] then None else Some (private_file (audit_stream_text (ss k)))))
     \<and> (\<forall>k. audit_stored H k (ss k))"

text \<open>What the files say, read without any check.\<close>

definition ledger_streams :: "sha \<Rightarrow> directory \<Rightarrow> string \<Rightarrow> Event list" where
  "ledger_streams H dir k =
     (case map_of dir (k @ auditStreamFileSuffix) of
        None \<Rightarrow> []
      | Some file \<Rightarrow> map (\<lambda>line. projr (ParseEvent H line)) (scanner_lines (de_content file)))"

lemma audit_text_facts: "CHR 0x0A \<notin> set (audit_text e)" "dropCR (audit_text e) = audit_text e" "audit_text e \<noteq> []"
proof -
  show ne: "audit_text e \<noteq> []" using Marshal_hd by (simp add: audit_text_def)
  show "CHR 0x0A \<notin> set (audit_text e)"
    using printable_no_newline(1) [OF printable_Marshal] by (simp add: audit_text_def)
  have "CHR 0x0D \<notin> set (audit_text e)"
    using printable_no_newline(2) [OF printable_Marshal] by (simp add: audit_text_def)
  with ne show "dropCR (audit_text e) = audit_text e" by (metis dropCR_def last_in_set)
qed

lemma scanner_audit_text: "scanner_lines (audit_stream_text es) = map audit_text es"
  by (induction es) (simp_all add: audit_stream_text_def stream_content_def scanner_line audit_text_facts)

lemma audit_stream_text_last: "es \<noteq> [] \<Longrightarrow> audit_stream_text es \<noteq> [] \<and> last (audit_stream_text es) = CHR 0x0A"
  by (cases es rule: rev_cases) (simp_all add: audit_stream_text_def stream_content_def)

lemma audit_stream_text_length:
  assumes "sum256 H"
  shows "\<forall>e\<in>set es. Event_Validate H e = None \<and> sequence_uint64 e \<Longrightarrow> length (audit_stream_text es) \<le> 2049 * length es"
proof (induction es)
  case (Cons e es)
  then have "length (audit_text e) \<le> 2048" using audit_text_length [OF assms] by simp
  with Cons show ?case by (simp add: audit_stream_text_def stream_content_def)
qed (simp add: audit_stream_text_def stream_content_def)

lemma ledger_streams_represents:
  assumes "sum256 H" and "ledger_represents H ss dir"
  shows "ledger_streams H dir = ss"
proof
  fix k
  have "map (\<lambda>line. projr (ParseEvent H line)) (map audit_text (ss k)) = ss k"
    using assms audit_stored_events [of H k "ss k"] ParseEvent_text [OF assms(1)]
    by (auto simp: ledger_represents_def intro!: map_idI)
  with assms show "ledger_streams H dir k = ss k"
    by (simp add: ledger_streams_def ledger_represents_def scanner_audit_text)
qed


section \<open>Loading\<close>

lemma scan_audit_text:
  assumes "sum256 H"
  shows "audit_chain H k (es @ es') \<Longrightarrow> length (es @ es') \<le> maxAuditStreamEvents \<Longrightarrow>
    \<forall>e\<in>set es'. ae_scope e = scope \<Longrightarrow>
    scan_audit_events H io scope es (audit_head es) (map audit_text es') = Inr (es @ es')
    \<or> (\<exists>err. scan_audit_events H io scope es (audit_head es) (map audit_text es') = Inl err) \<and> (\<exists>call. io_fails io call)"
proof (induction es' arbitrary: es)
  case (Cons e es')
  then have link: "audit_link H k es e" by (simp add: audit_chain_def)
  then have "ParseEvent H (audit_text e) = Inr e" "length (audit_text e) \<le> maxEncodedAuditEventBytes"
    using ParseEvent_text [OF assms, of e] audit_text_length [OF assms, of e]
    by (simp_all add: audit_link_def maxEncodedAuditEventBytes_def)
  with Cons.IH [of "es @ [e]"] Cons.prems link show ?case
    by (auto simp: audit_link_def audit_text_facts audit_head_def)
qed auto

lemma load_audit_stream:
  assumes "sum256 H" and r: "ledger_represents H ss dir" and es_def: "es = ss (sc_identity scope)"
  shows "FileLedger_loadStream H io scope dir = Inr es \<and> (\<forall>e\<in>set es. ae_scope e = scope)
    \<or> (\<exists>err. FileLedger_loadStream H io scope dir = Inl err)
      \<and> ((\<exists>call. io_fails io call) \<or> (\<exists>e\<in>set es. ae_scope e \<noteq> scope))"
proof (cases "es = []")
  case True
  with r show ?thesis
    by (auto simp: ledger_represents_def FileLedger_loadStream_def FileLedger_streamPath_def Let_def es_def)
next
  case False
  have wf: "audit_stored H (sc_identity scope) es" using r by (simp add: ledger_represents_def es_def)
  have "length (audit_stream_text es) \<le> maxAuditStreamBytes"
    using audit_stream_text_length [OF assms(1), of es] audit_stored_events [OF wf] wf
    by (auto simp: audit_stored_def maxAuditStreamBytes_def maxAuditStreamEvents_def)
  with False audit_stream_text_last [OF False] r
  have load: "FileLedger_loadStream H io scope dir = scan_audit_events H io scope [] [] (map audit_text es)
      \<or> (\<exists>err. FileLedger_loadStream H io scope dir = Inl err) \<and> (\<exists>call. io_fails io call)"
    by (auto simp: ledger_represents_def FileLedger_loadStream_def FileLedger_streamPath_def Let_def es_def scanner_audit_text)
  show ?thesis
  proof (cases "\<forall>e\<in>set es. ae_scope e = scope")
    case True
    with scan_audit_text [OF assms(1), of "sc_identity scope" "[]" es scope io] wf load show ?thesis
      by (auto simp: audit_stored_def audit_head_def)
  next
    case other: False
    obtain e rest where es: "es = e # rest" using False by (cases es) auto
    have "ae_scope e \<noteq> scope" using other wf es by (auto simp: audit_stored_def)
    moreover have "ParseEvent H (audit_text e) = Inr e"
      using ParseEvent_text [OF assms(1), of e] audit_stored_events [OF wf, of e] es by simp
    ultimately have "\<exists>err. scan_audit_events H io scope [] [] (map audit_text es) = Inl err"
      by (simp add: es audit_text_facts)
    with load other show ?thesis by auto
  qed
qed


section \<open>Storing\<close>

lemma encode_audit_text:
  assumes "sum256 H"
  shows "\<forall>e\<in>set es. Event_Validate H e = None \<and> sequence_uint64 e \<Longrightarrow>
    n + 2049 * length es \<le> maxAuditStreamBytes \<Longrightarrow> encode_audit_events H n es = Inr (map audit_text es)"
proof (induction es arbitrary: n)
  case (Cons e es)
  then have "EncodeEvent H e = Inr (audit_text e)" "length (audit_text e) \<le> 2048"
    using audit_text_length [OF assms] by (auto simp: EncodeEvent_text)
  with Cons.IH [of "n + length (audit_text e) + 1"] Cons.prems show ?case by simp
qed simp

lemma ledger_represents_update:
  assumes "ledger_represents H ss dir" and "audit_stored H k es" and "es \<noteq> []"
  shows "ledger_represents H (ss(k := es))
    (AList.update (k @ auditStreamFileSuffix) (private_file (audit_stream_text es)) dir)"
  using assms by (auto simp: ledger_represents_def update_conv')

lemma ledger_represents_other:
  assumes "ledger_represents H ss dir" and "last name \<noteq> CHR ''l''"
  shows "ledger_represents H ss (AList.update name file dir)"
proof -
  have "k @ auditStreamFileSuffix \<noteq> name" for k using assms(2) by (auto simp: auditStreamFileSuffix_def)
  with assms(1) show ?thesis by (simp add: ledger_represents_def update_conv')
qed

lemma audit_temporary: "decimal s \<Longrightarrow> last (''.audit-write-'' @ s) \<noteq> CHR ''l''"
proof (cases "s = []")
  case False
  assume "decimal s"
  with False have "last s \<le> CHR ''9''" by (simp add: decimal_def)
  with False show ?thesis by (auto simp: less_eq_char_def)
qed simp

text \<open>Nothing fails and the name of the temporary file is free.\<close>

definition audit_calm :: "file_io \<Rightarrow> directory \<Rightarrow> bool" where
  "audit_calm io dir \<longleftrightarrow> (\<forall>call. \<not> io_fails io call) \<and> map_of dir (''.audit-write-'' @ io_random io) = None"

lemma replace_audit_stream:
  assumes "sum256 H" and r: "ledger_represents H ss dir" and wf: "audit_stored H k (ss k @ [e])"
    and scope: "sc_identity scope = k" and dec: "decimal (io_random io)"
    and f: "FileLedger_replaceStream H io scope (ss k @ [e]) dir = (err, dir')"
  shows "ledger_represents H (ss(k := ss k @ [e])) dir' \<or> err \<noteq> None \<and> ledger_represents H ss dir'"
    and "audit_calm io dir \<Longrightarrow> err = None"
proof -
  let ?es = "ss k @ [e]"
  have "0 + 2049 * length ?es \<le> maxAuditStreamBytes"
    using wf by (simp add: audit_stored_def maxAuditStreamBytes_def maxAuditStreamEvents_def)
  then have "encode_audit_events H 0 ?es = Inr (map audit_text ?es)"
    using encode_audit_text [OF assms(1)] audit_stored_events [OF wf] by blast
  with f obtain calls where rep: "replace_file io ErrAuditPersistence ''.audit-write-'' (k @ auditStreamFileSuffix)
      (audit_stream_text ?es) calls dir = (err, dir')"
    by (auto simp: FileLedger_replaceStream_def audit_stream_text_def FileLedger_streamPath_def scope)
  from replace_file_result(1) [OF rep] ledger_represents_update [OF r wf] r
    ledger_represents_other [OF r audit_temporary [OF dec]]
  show "ledger_represents H (ss(k := ss k @ [e])) dir' \<or> err \<noteq> None \<and> ledger_represents H ss dir'" by auto
  show "err = None" if "audit_calm io dir" using replace_file_result(2) [OF rep] that by (simp add: audit_calm_def)
qed

section \<open>The contract\<close>

text \<open>The outcomes of \<open>Append\<close> on an open ledger, with the stream that was loaded.\<close>

lemma Append_loaded:
  assumes "FileLedger_Append H io ctx h e l = (err, l')"
  obtains (refused) "err \<noteq> None" "l' = l"
  | (stored) es files where "FileLedger_loadStream H io (ae_scope e) (fl_files l) = Inr es" "\<not> fl_closed l"
      "Event_Validate H e = None" "h = audit_head es" "ae_sequence e = Suc (length es)"
      "ae_previousIdentity e = audit_head es" "length es < maxAuditStreamEvents"
      "FileLedger_replaceStream H io (ae_scope e) (es @ [e]) (fl_files l) = (err, files)"
      "l' = l\<lparr>fl_files := files\<rparr>"
proof (cases "\<exists>es. validateAuditContext ctx = None \<and> (h = [] \<or> validAuditIdentity h) \<and> Event_Validate H e = None
    \<and> \<not> fl_closed l \<and> \<not> io_fails io (ContextCheck 0)
    \<and> FileLedger_loadStream H io (ae_scope e) (fl_files l) = Inr es \<and> h = audit_head es
    \<and> ae_sequence e = length es + 1 \<and> ae_previousIdentity e = audit_head es \<and> length es < maxAuditStreamEvents")
  case True
  then obtain es where es: "validateAuditContext ctx = None" "h = [] \<or> validAuditIdentity h"
      "Event_Validate H e = None" "\<not> fl_closed l" "\<not> io_fails io (ContextCheck 0)"
      "FileLedger_loadStream H io (ae_scope e) (fl_files l) = Inr es" "h = audit_head es"
      "ae_sequence e = length es + 1" "ae_previousIdentity e = audit_head es" "length es < maxAuditStreamEvents"
    by blast
  obtain err1 files where f: "FileLedger_replaceStream H io (ae_scope e) (es @ [e]) (fl_files l) = (err1, files)"
    by (cases "FileLedger_replaceStream H io (ae_scope e) (es @ [e]) (fl_files l)")
  have "err = err1" "l' = l\<lparr>fl_files := files\<rparr>" using assms es f by (auto simp: FileLedger_Append_def Let_def)
  with stored es f show ?thesis by simp
next
  case False
  then have "fst (FileLedger_Append H io ctx h e l) \<noteq> None \<and> snd (FileLedger_Append H io ctx h e l) = l"
    by (auto simp: FileLedger_Append_def Let_def split: option.split sum.split)
  with refused assms show ?thesis by simp
qed

lemma FileLedger_Append_result:
  assumes "sum256 H" and r: "ledger_represents H ss (fl_files l)" and "decimal (io_random io)"
    and "sequence_uint64 e" and f: "FileLedger_Append H io ctx h e l = (err, l')"
  defines "k \<equiv> sc_identity (ae_scope e)"
  shows "fl_closed l' = fl_closed l" and "fl_lock l' = fl_lock l"
    and "err \<noteq> None \<and> ledger_represents H ss (fl_files l')
      \<or> h = audit_head (ss k) \<and> audit_link H k (ss k) e \<and> ledger_represents H (ss(k := ss k @ [e])) (fl_files l')"
proof -
  have "\<exists>files. l' = l\<lparr>fl_files := files\<rparr>"
    using f
  proof (cases rule: Append_loaded)
    case refused
    then show ?thesis by (intro exI [of _ "fl_files l"]) simp
  qed blast
  then show "fl_closed l' = fl_closed l" "fl_lock l' = fl_lock l" by auto
  from f show "err \<noteq> None \<and> ledger_represents H ss (fl_files l')
      \<or> h = audit_head (ss k) \<and> audit_link H k (ss k) e \<and> ledger_represents H (ss(k := ss k @ [e])) (fl_files l')"
  proof (cases rule: Append_loaded)
    case refused
    with r show ?thesis by simp
  next
    case (stored es files)
    have es: "es = ss k" "\<forall>x\<in>set es. ae_scope x = ae_scope e"
      using load_audit_stream [OF assms(1) r refl, of io "ae_scope e"] stored(1) by (auto simp: k_def)
    have link: "audit_link H k es e" using stored assms(4) by (simp add: audit_link_def k_def)
    have "audit_stored H k es" using r by (simp add: ledger_represents_def es(1))
    from audit_stored_snoc [OF this link stored(7) es(2)] have wf: "audit_stored H k (ss k @ [e])" by (simp add: es(1))
    have "sc_identity (ae_scope e) = k" by (simp add: k_def)
    from replace_audit_stream(1) [OF assms(1) r wf this assms(3) stored(8) [unfolded es(1)]] link stored(4,9) es
    show ?thesis by auto
  qed
qed

definition decimal_names :: "file_io \<Rightarrow> bool" where
  "decimal_names io \<longleftrightarrow> decimal (io_random io)"

text \<open>A directory as the ledger leaves it, and a missing one.\<close>

definition audit_directory :: "sha \<Rightarrow> directory \<Rightarrow> bool" where
  "audit_directory H dir \<longleftrightarrow> sum256 H \<and> (\<exists>ss. ledger_represents H ss dir)"

lemma audit_directory_streams:
  assumes "audit_directory H dir"
  shows "ledger_represents H (ledger_streams H dir) dir" and "audit_chain H k (ledger_streams H dir k)" and "sum256 H"
proof -
  from assms obtain ss where ss: "sum256 H" "ledger_represents H ss dir" by (auto simp: audit_directory_def)
  note eq = ledger_streams_represents [OF ss]
  from ss show "ledger_represents H (ledger_streams H dir) dir" "sum256 H" by (simp_all add: eq)
  from ss(2) show "audit_chain H k (ledger_streams H dir k)"
    by (simp add: eq ledger_represents_def audit_stored_def)
qed

interpretation file_ledger: audit_ledger H "fileLedger H" decimal_names "\<lambda>l. ledger_streams H (fl_files l)"
    "\<lambda>l. audit_directory H (fl_files l)" for H
proof (unfold_locales, goal_cases)
  case (1 l io e ctx h err l')
  note dir = audit_directory_streams [OF 1(1)]
  have dec: "decimal (io_random io)" and f: "FileLedger_Append H io ctx h e l = (err, l')"
    using 1 by (simp_all add: decimal_names_def fileLedger_def)
  from FileLedger_Append_result(3) [OF dir(3,1) dec 1(3) f] ledger_streams_represents [OF dir(3)] dir(3)
  show ?case by (auto simp: audit_directory_def)
next
  case (2 l io ctx scope head)
  note dir = audit_directory_streams [OF 2(1)]
  from 2 load_audit_stream [OF dir(3,1) refl, of io scope] show ?case
    by (auto simp: fileLedger_def FileLedger_Head_def res_simps)
next
  case (3 l io ctx scope after limit events)
  note dir = audit_directory_streams [OF 3(1)]
  from 3 load_audit_stream [OF dir(3,1) refl, of io scope] show ?case
    by (auto simp: fileLedger_def FileLedger_Read_def res_simps)
qed

section \<open>Opening and closing\<close>

text \<open>While a ledger holds the lock of a root, no other can be opened on it, and the lock stays.\<close>

lemma NewFileLedger_locked:
  assumes "NewFileLedger io root r = (res, r')" and "table_ok (jr_locks r)"
    and "lt_holder (jr_locks r) auditWriterLockName = Some file"
  shows "(\<exists>err. res = Inl err) \<and> lt_holder (jr_locks r') auditWriterLockName = Some file"
proof -
  have locked: "(\<exists>err. a = Inl err) \<and> lt_holder locks auditWriterLockName = Some file"
    if "Acquire io auditWriterLockName dir (jr_locks r) = (a, files, locks)" for dir a files locks
    using Acquire_result(2) [OF that assms(2,3)] by simp
  show ?thesis
    using assms(1,3) locked
    by (fastforce simp: NewFileLedger_def Let_def split: if_splits prod.splits sum.splits)
qed

text \<open>A new ledger is open, holds the lock, and its directory says what the root said before.\<close>

lemma NewFileLedger_opened:
  assumes "NewFileLedger io root r = (Inr l, r')" and "table_ok (jr_locks r)"
    and "ledger_represents H ss (if jr_kind r = RootMissing then [] else jr_files r)"
  shows "\<not> fl_closed l" and "ledger_represents H ss (fl_files l)"
    and "\<exists>lock. fl_lock l = Some lock \<and> lt_holder (jr_locks r') auditWriterLockName = Some (lk_file lock)"
proof -
  obtain lock where acq: "Acquire io auditWriterLockName (if jr_kind r = RootMissing then [] else jr_files r) (jr_locks r)
      = (Inr lock, fl_files l, jr_locks r')" and l: "fl_lock l = Some lock" "\<not> fl_closed l"
    using assms(1)
    by (auto simp: NewFileLedger_def Let_def split: if_splits prod.splits sum.splits option.splits)
  note res = Acquire_result [OF acq assms(2)]
  have "last auditWriterLockName \<noteq> CHR ''l''" by (simp add: auditWriterLockName_def)
  from res(4) assms(3) ledger_represents_other [OF assms(3) this] show "ledger_represents H ss (fl_files l)" by auto
  show "\<not> fl_closed l" by (rule l)
  show "\<exists>lock. fl_lock l = Some lock \<and> lt_holder (jr_locks r') auditWriterLockName = Some (lk_file lock)"
    using l(1) res(3) by simp
qed

text \<open>A closed ledger refuses every call.\<close>

lemma closed_ledger:
  assumes "fl_closed l"
  shows "\<exists>err. FileLedger_Append H io ctx h e l = (Some err, l)"
    and "\<exists>err. FileLedger_Head H io ctx scope l = Inl err"
    and "\<exists>err. FileLedger_Read H io ctx scope after limit l = Inl err"
    and "FileLedger_Close io l locks = (None, l, locks)"
  using assms
  by (auto simp: FileLedger_Append_def FileLedger_Head_def FileLedger_Read_def FileLedger_Close_def check_def
      split: option.splits)

text \<open>
  When either of the two calls by which \<open>Close\<close> gives the lock back is refused, \<open>Close\<close> reports an
  error and leaves the ledger open, although the lock is gone with the closed file.
\<close>

lemma ledger_close_unlocks:
  assumes "FileLedger_Close io l locks = (err, l', locks')" and "\<not> fl_closed l"
    and "fl_lock l = Some lock" "\<not> lk_closed lock" "lk_name lock = auditWriterLockName"
    and "lt_holder locks auditWriterLockName = Some (lk_file lock)"
    and "io_fails io (UnlockCall auditWriterLockName) \<or> io_fails io (CloseCall auditWriterLockName)"
  shows "err = Some ErrAuditPersistence" and "\<not> fl_closed l'" and "lt_holder locks' auditWriterLockName = None"
  using assms
  by (auto simp: FileLedger_Close_def Lock_Close_def platformUnlock_def close_file_def release_def Let_def
      split: if_splits)



section \<open>Refinement\<close>

text \<open>With the stream loaded, the two ledgers make the same decision.\<close>

lemma Append_agrees:
  assumes es: "ml_stream m (sc_identity (ae_scope e)) = es"
    and load: "FileLedger_loadStream H io (ae_scope e) (fl_files l) = Inr es"
    and l: "\<not> fl_closed l" "length es < maxAuditStreamEvents"
    and f: "FileLedger_Append H io ctx h e l = (err, l')"
    and mm: "MemoryLedger_Append H (io_fails io (ContextCheck 0)) ctx h e m = (merr, m')"
  shows "err = merr \<and> l' = l \<and> m' = m
    \<or> merr = None \<and> (sequence_uint64 e \<longrightarrow> audit_link H (sc_identity (ae_scope e)) es e)
      \<and> ml_stream m' = (ml_stream m)(sc_identity (ae_scope e) := es @ [e])
      \<and> FileLedger_replaceStream H io (ae_scope e) (es @ [e]) (fl_files l) = (err, fl_files l')"
proof (cases "validateAuditContext ctx = None \<and> (h = [] \<or> validAuditIdentity h) \<and> Event_Validate H e = None
    \<and> \<not> io_fails io (ContextCheck 0)")
  case False
  have "\<exists>x. FileLedger_Append H io ctx h e l = (Some x, l)
      \<and> MemoryLedger_Append H (io_fails io (ContextCheck 0)) ctx h e m = (Some x, m)"
    using False l(1) by (auto simp: FileLedger_Append_def MemoryLedger_Append_def split: option.split)
  with f mm show ?thesis by auto
next
  case True
  have durable: "FileLedger_Append H io ctx h e l =
      (if h \<noteq> audit_head es then (Some ErrAuditHeadConflict, l)
       else if ae_sequence e \<noteq> length es + 1 \<or> ae_previousIdentity e \<noteq> audit_head es then (Some ErrAuditChainMismatch, l)
       else (case FileLedger_replaceStream H io (ae_scope e) (es @ [e]) (fl_files l) of
               (err, files) \<Rightarrow> (err, l\<lparr>fl_files := files\<rparr>)))"
    using True l load by (auto simp: FileLedger_Append_def Let_def)
  have memory: "MemoryLedger_Append H (io_fails io (ContextCheck 0)) ctx h e m =
      (if h \<noteq> audit_head es then (Some ErrAuditHeadConflict, m)
       else if ae_sequence e \<noteq> length es + 1 \<or> ae_previousIdentity e \<noteq> audit_head es then (Some ErrAuditChainMismatch, m)
       else (None, m\<lparr>ml_streams := AList.update (sc_identity (ae_scope e)) (es @ [e]) (ml_streams m)\<rparr>))"
    using True by (auto simp: MemoryLedger_Append_def Let_def es)
  show ?thesis
  proof (cases "h = audit_head es \<and> ae_sequence e = length es + 1 \<and> ae_previousIdentity e = audit_head es")
    case False
    with f mm show ?thesis unfolding durable memory by (auto split: if_splits)
  next
    case acc: True
    then have "audit_link H (sc_identity (ae_scope e)) es e" if "sequence_uint64 e"
      using True that by (simp add: audit_link_def)
    moreover obtain err1 files where
      "FileLedger_replaceStream H io (ae_scope e) (es @ [e]) (fl_files l) = (err1, files)" by (metis prod.collapse)
    ultimately show ?thesis using acc f mm unfolding durable memory by (auto simp: ml_stream_update)
  qed
qed

text \<open>Without it the durable one fails and changes nothing.\<close>

lemma Append_unloaded:
  assumes "ledger_represents H (ml_stream m) (fl_files l)" and "FileLedger_Append H io ctx h e l = (err, l')"
    and "MemoryLedger_Append H (io_fails io (ContextCheck 0)) ctx h e m = (merr, m')"
    and "(\<exists>err. FileLedger_loadStream H io (ae_scope e) (fl_files l) = Inl err) \<and> (\<exists>call. io_fails io call)"
    and "\<not> fl_closed l"
  shows "(ledger_represents H (ml_stream m) (fl_files l') \<or> ledger_represents H (ml_stream m') (fl_files l'))
    \<and> (err = None \<or> audit_calm io (fl_files l) \<longrightarrow> err = merr \<and> ledger_represents H (ml_stream m') (fl_files l'))"
  using assms(2)
proof (cases rule: Append_loaded)
  case refused
  with assms(1,4) show ?thesis by (auto simp: audit_calm_def)
next
  case (stored es files)
  with assms(4) show ?thesis by simp
qed

text \<open>
  C8. Every call of the durable ledger, whatever the operating system refuses during it,
  answers as the ledger in memory or fails, and leaves a directory that stands for the memory ledger
  before the call or after it; an \<open>Append\<close> that reports success has had the effect of the memory
  ledger's, and if nothing fails it reports what that one reports. Up to the limit of events per stream, and for events of one scope
  under each identity.
\<close>

theorem file_ledger_refines:
  assumes "sum256 H" and "ledger_represents H (ml_stream m) (fl_files l)" and "\<not> fl_closed l"
    and "decimal (io_random io)" and "ae_sequence e < 2 ^ 64"
    and "\<forall>x\<in>set (ml_stream m (sc_identity (ae_scope e))). ae_scope x = ae_scope e"
    and "length (ml_stream m (sc_identity (ae_scope e))) < maxAuditStreamEvents"
    and "FileLedger_Append H io ctx h e l = (err, l')"
    and "MemoryLedger_Append H (io_fails io (ContextCheck 0)) ctx h e m = (merr, m')"
  shows "(ledger_represents H (ml_stream m) (fl_files l') \<or> ledger_represents H (ml_stream m') (fl_files l'))
    \<and> (err = None \<or> audit_calm io (fl_files l) \<longrightarrow> err = merr \<and> ledger_represents H (ml_stream m') (fl_files l'))
    \<and> (FileLedger_Head H io ctx (ae_scope e) l = MemoryLedger_Head H False ctx (ae_scope e) m
        \<or> (\<exists>err. FileLedger_Head H io ctx (ae_scope e) l = Inl err) \<and> (\<exists>call. io_fails io call))
    \<and> (FileLedger_Read H io ctx (ae_scope e) after limit l = MemoryLedger_Read H False ctx (ae_scope e) after limit m
        \<or> (\<exists>err. FileLedger_Read H io ctx (ae_scope e) after limit l = Inl err) \<and> (\<exists>call. io_fails io call))"
proof (intro conjI)
  let ?k = "sc_identity (ae_scope e)"
  let ?es = "ml_stream m ?k"
  have load: "FileLedger_loadStream H io (ae_scope e) (fl_files l) = Inr ?es
      \<or> (\<exists>err. FileLedger_loadStream H io (ae_scope e) (fl_files l) = Inl err) \<and> (\<exists>call. io_fails io call)"
    using load_audit_stream [OF assms(1,2) refl, of io "ae_scope e"] assms(6) by blast
  then show "FileLedger_Head H io ctx (ae_scope e) l = MemoryLedger_Head H False ctx (ae_scope e) m
        \<or> (\<exists>err. FileLedger_Head H io ctx (ae_scope e) l = Inl err) \<and> (\<exists>call. io_fails io call)"
    and "FileLedger_Read H io ctx (ae_scope e) after limit l = MemoryLedger_Read H False ctx (ae_scope e) after limit m
        \<or> (\<exists>err. FileLedger_Read H io ctx (ae_scope e) after limit l = Inl err) \<and> (\<exists>call. io_fails io call)"
    using assms(3)
    by (auto simp: FileLedger_Head_def MemoryLedger_Head_def FileLedger_Read_def MemoryLedger_Read_def check_def Let_def
        split: option.splits)
  have append: "(ledger_represents H (ml_stream m) (fl_files l') \<or> ledger_represents H (ml_stream m') (fl_files l'))
    \<and> (err = None \<or> audit_calm io (fl_files l) \<longrightarrow> err = merr \<and> ledger_represents H (ml_stream m') (fl_files l'))"
    using load
  proof (elim disjE)
    assume "(\<exists>err. FileLedger_loadStream H io (ae_scope e) (fl_files l) = Inl err) \<and> (\<exists>call. io_fails io call)"
    then show ?thesis using assms(3) by (rule Append_unloaded [OF assms(2,8,9)])
  next
    assume es: "FileLedger_loadStream H io (ae_scope e) (fl_files l) = Inr ?es"
    from Append_agrees [OF refl es assms(3,7,8,9)] show ?thesis
    proof (elim disjE conjE)
      assume "err = merr" "l' = l" "m' = m"
      with assms(2) show ?thesis by simp
    next
      assume acc: "merr = None" "sequence_uint64 e \<longrightarrow> audit_link H ?k ?es e"
        "ml_stream m' = (ml_stream m)(?k := ?es @ [e])"
        "FileLedger_replaceStream H io (ae_scope e) (?es @ [e]) (fl_files l) = (err, fl_files l')"
      have "audit_stored H ?k ?es" using assms(2) by (simp add: ledger_represents_def)
      from audit_stored_snoc [OF this _ assms(7,6)] acc(2) assms(5) have "audit_stored H ?k (?es @ [e])" by simp
      from replace_audit_stream [OF assms(1,2) this refl assms(4) acc(4)] acc(1,3) show ?thesis by auto
    qed
  qed
  then show "ledger_represents H (ml_stream m) (fl_files l') \<or> ledger_represents H (ml_stream m') (fl_files l')"
    and "err = None \<or> audit_calm io (fl_files l) \<longrightarrow> err = merr \<and> ledger_represents H (ml_stream m') (fl_files l')"
    by blast+
qed

section \<open>The history\<close>

text \<open>
  C7. The trail of a scope is only ever extended, whatever is appended and whatever fails meanwhile;
  it stays a chain of valid events, numbered from one, each naming the identity of the one before. If
  two durable ledgers report a last event with the same identity for a scope, they hold the same
  events for it, unless the hash fails to tell two of their texts apart: whoever knows the identity of
  the last event would notice a change to any event before it.
\<close>

theorem audit_history:
  assumes "audit_directory H (fl_files l0)" and "(ledger_step (fileLedger H) decimal_names)\<^sup>*\<^sup>* l0 l"
    and "audit_directory H (fl_files l0')" and "(ledger_step (fileLedger H) decimal_names)\<^sup>*\<^sup>* l0' l'"
    and "FileLedger_Head H io ctx scope l = Inr (Some e)" and "FileLedger_Head H io' ctx' scope l' = Inr (Some e')"
    and "ae_identity e = ae_identity e'"
    and "\<forall>x\<in>set (ledger_streams H (fl_files l) (sc_identity scope)).
      \<forall>y\<in>set (ledger_streams H (fl_files l') (sc_identity scope)).
        H (audit_preimage x) = H (audit_preimage y) \<longrightarrow> audit_preimage x = audit_preimage y"
  shows "(\<forall>k. prefix (ledger_streams H (fl_files l0) k) (ledger_streams H (fl_files l) k)
        \<and> audit_chain H k (ledger_streams H (fl_files l) k))
    \<and> ledger_streams H (fl_files l) (sc_identity scope) = ledger_streams H (fl_files l') (sc_identity scope)"
proof -
  note chain = file_ledger.steps_chain [OF assms(2,1)] file_ledger.steps_chain [OF assms(4,3)]
    audit_directory_streams(2) [OF assms(1)] audit_directory_streams(2) [OF assms(3)]
  have head: "audit_head (ledger_streams H (fl_files x) (sc_identity scope)) = ae_identity y"
    if "audit_directory H (fl_files x)" "FileLedger_Head H w c scope x = Inr (Some y)" for x w c y
    using load_audit_stream [OF audit_directory_streams(3,1) [OF that(1)] refl, of w scope] that(2)
    by (auto simp: FileLedger_Head_def audit_head_def res_simps split: if_splits)
  have "ledger_streams H (fl_files l) (sc_identity scope) = ledger_streams H (fl_files l') (sc_identity scope)"
    by (rule same_head_same_chain [OF audit_directory_streams(3) [OF assms(1)] _ _ _ assms(8)])
      (use chain head assms(5-7) in auto)
  with chain show ?thesis by simp
qed

end
