(* ===== verification/Audit_Witnesses.thy ===== *)
theory Audit_Witnesses
  imports Audit_Refinement Examples
begin

text \<open>The theorems on the audit trail applied to an empty directory and its first event.\<close>

definition audit_entry :: Event where
  "audit_entry = \<lparr>ae_identity = flat_digest, ae_scope = example_scope, ae_sequence = 1, ae_previousIdentity = [],
     ae_kind = EventRouteSelected, ae_subjectIdentity = flat_digest, ae_causalParentIdentities = [flat_digest],
     ae_occurredAtUnixMilliseconds = 1000\<rparr>"

definition empty_ledger :: FileLedger where
  "empty_ledger = \<lparr>fl_files = [], fl_lock = None, fl_closed = False\<rparr>"

definition one_entry_ledger :: FileLedger where
  "one_entry_ledger = empty_ledger\<lparr>fl_files :=
     [(FileLedger_streamPath example_scope, private_file (audit_stream_text [audit_entry]))]\<rparr>"

lemma audit_flat [simp]: "deriveEventIdentity flat_hash e = flat_digest"
  using hash_flat by (simp add: deriveEventIdentity_def hashControlPlaneValue_def)

lemma flat_digest_audit [simp]: "validAuditIdentity flat_digest"
  by code_simp

lemma audit_entry_valid: "Event_Validate flat_hash audit_entry = None"
  by (simp add: Event_Validate_None Event_validateFields_None audit_entry_def EventKind_Validate_def
      maxAuditCausalParents_def maxAuditEventUnixMilliseconds_def)

lemma empty_streams: "ledger_represents H (ml_stream NewMemoryLedger) (fl_files empty_ledger)"
  by (simp add: ledger_represents_def NewMemoryLedger_def ml_stream_def map_get_def empty_ledger_def audit_stored_def)

lemma empty_ledger_directory: "audit_directory flat_hash (fl_files empty_ledger)"
  using empty_streams by (auto simp: audit_directory_def)

lemma calm_audit [simp]: "io_fails calm call = False" "decimal (io_random calm)" "decimal_names calm"
  by (simp_all add: calm_def decimal_def decimal_names_def)

lemma first_entry: "FileLedger_Append flat_hash calm LiveContext [] audit_entry empty_ledger = (None, one_entry_ledger)"
proof -
  have "length (audit_text audit_entry) \<le> 2048"
    using audit_text_length [OF sum256_flat audit_entry_valid] by (simp add: audit_entry_def)
  then have "encode_audit_events flat_hash 0 [audit_entry] = Inr [audit_text audit_entry]"
    using audit_entry_valid EncodeEvent_text [of flat_hash audit_entry "audit_text audit_entry"]
    by (simp add: maxAuditStreamBytes_def)
  then have "FileLedger_replaceStream flat_hash calm example_scope [audit_entry] [] =
      (None, fl_files one_entry_ledger)"
    by (simp add: FileLedger_replaceStream_def replace_file_def sync_directory_def one_entry_ledger_def
        audit_stream_text_def Let_def)
  moreover have "ae_scope audit_entry = example_scope" "ae_sequence audit_entry = 1" "ae_previousIdentity audit_entry = []"
    by (simp_all add: audit_entry_def)
  ultimately show ?thesis
    using audit_entry_valid
    by (simp add: FileLedger_Append_def FileLedger_loadStream_def Let_def maxAuditStreamEvents_def audit_head_def
        empty_ledger_def one_entry_ledger_def)
qed

lemma audit_entry_uint64: "ae_sequence audit_entry < 2 ^ 64"
  by (simp add: audit_entry_def)

lemma one_entry_represents:
  "ledger_represents flat_hash ((\<lambda>_. [])(sc_identity example_scope := [audit_entry])) (fl_files one_entry_ledger)"
proof -
  have empty: "ledger_represents flat_hash (\<lambda>_. []) (fl_files empty_ledger)"
    by (simp add: ledger_represents_def empty_ledger_def audit_stored_def)
  have "ae_scope audit_entry = example_scope" by (simp add: audit_entry_def)
  with FileLedger_Append_result(3) [OF sum256_flat empty calm_audit(2) audit_entry_uint64 first_entry]
  show ?thesis by simp
qed

theorem audit_event_exact_witness:
  "\<exists>s. EncodeEvent flat_hash audit_entry = Inr s \<and> ParseEvent flat_hash s = Inr audit_entry"
  using audit_event_exact [OF sum256_flat, of audit_entry] audit_entry_valid by (auto simp: audit_entry_def)

theorem file_ledger_refines_witness:
  "\<exists>m. MemoryLedger_Append flat_hash False LiveContext [] audit_entry NewMemoryLedger = (None, m)
     \<and> ledger_represents flat_hash (ml_stream m) (fl_files one_entry_ledger)"
proof -
  obtain merr m where m: "MemoryLedger_Append flat_hash False LiveContext [] audit_entry NewMemoryLedger = (merr, m)"
    by (metis prod.collapse)
  have none: "ml_stream NewMemoryLedger k = []" for k by (simp add: ml_stream_def NewMemoryLedger_def map_get_def)
  have "audit_calm calm (fl_files empty_ledger)" by (simp add: audit_calm_def empty_ledger_def)
  moreover have "ae_sequence audit_entry < 2 ^ 64" "\<not> fl_closed empty_ledger"
    by (simp_all add: audit_entry_def empty_ledger_def)
  ultimately show ?thesis
    using file_ledger_refines [OF sum256_flat empty_streams, of calm audit_entry LiveContext "[]" None one_entry_ledger merr m]
      m first_entry none by (simp add: maxAuditStreamEvents_def)
qed

theorem audit_history_witness:
  "(ledger_step (fileLedger flat_hash) decimal_names)\<^sup>*\<^sup>* empty_ledger one_entry_ledger
   \<and> FileLedger_Head flat_hash calm LiveContext example_scope one_entry_ledger = Inr (Some audit_entry)
   \<and> (\<forall>k. audit_chain flat_hash k (ledger_streams flat_hash (fl_files one_entry_ledger) k))"
proof -
  have "ledger_step (fileLedger flat_hash) decimal_names empty_ledger one_entry_ledger"
    by (rule ledger_step.append [of _ calm audit_entry _ LiveContext "[]" _ None])
      (use first_entry audit_entry_uint64 in \<open>simp_all add: fileLedger_def\<close>)
  then have steps: "(ledger_step (fileLedger flat_hash) decimal_names)\<^sup>*\<^sup>* empty_ledger one_entry_ledger" by blast
  note rep = one_entry_represents
  have streams: "ledger_streams flat_hash (fl_files one_entry_ledger) = (\<lambda>_. [])(sc_identity example_scope := [audit_entry])"
    by (rule ledger_streams_represents [OF sum256_flat rep])
  have head: "FileLedger_Head flat_hash calm LiveContext example_scope one_entry_ledger = Inr (Some audit_entry)"
    using load_audit_stream [OF sum256_flat rep refl, of calm example_scope]
    by (auto simp: FileLedger_Head_def one_entry_ledger_def empty_ledger_def audit_entry_def)
  from audit_history [OF empty_ledger_directory steps empty_ledger_directory steps head head refl] steps head
  show ?thesis by (simp add: streams)
qed

end
