(* ===== verification/Spec2Isabelle.thy ===== *)
theory Spec2Isabelle
  imports Run_Witnesses Notification_Witnesses File_Witnesses Safety_Chain Supervisor_Witnesses Audit_Witnesses
begin

text \<open>
  A verification of the control plane and the audit trail of Open Trestle.

  \<^bold>\<open>The program.\<close> The control plane (src/controlplane) runs the reviews of a repository. A review run
  is a plan: a graph of tasks with attempt limits and lease durations. What happens to a run is a
  stream of events, each carrying the digest of the one before; the state of a run is never stored
  but replayed from its stream. Workers claim tasks under leases, renew them and complete them
  through the coordinator, which appends one event at a time to a journal by compare-and-append and
  starts over when another client was faster. Journals are kept in memory or in files. The
  finalizer closes runs whose tasks determine the outcome, the scheduler announces tasks that can be
  claimed in a notification queue, and the supervisor drives both over the repositories of a tenant.
  Plans, events, leases, completions, receipts and notifications travel as canonical JSON. Beside it,
  the audit package (src/audit) keeps a trail of what was decided about a review: a stream of entries
  per scope, chained by their identities, in a ledger in memory or in files.

  \<^bold>\<open>Layout.\<close> A source file is modelled by the theory of the same subject. A struct is a \<open>record\<close>
  with the fields of the code under a short prefix, an enumeration a \<open>datatype\<close> with one constructor
  for the values that have no name, an error a value of \<open>error\<close> (theory \<open>Cp_Errors\<close>, one datatype per
  source file), a fallible function one into \<open>error + 'a\<close> or \<open>error option\<close>, and a method that
  changes state a function that returns the new state. Strings are byte strings. The hash function
  is a parameter \<open>H\<close> of every definition that needs it; \<open>sum256 H\<close> says of it only that it returns 32
  bytes, not all of them zero. Names are those of the code, \<open>Type_Method\<close> for methods.

  \<^item> \<open>Go_Prelude\<close>, \<open>Go_Encoding\<close>, \<open>Json_Decode\<close>, \<open>Valid_Strings\<close>: what the code uses of Go: results and
    loops over slices, maps, binary search, time, UTF-8, encoding/json in both directions.
  \<^item> \<open>Review_Scope\<close> (audit/event.go), \<open>Run_Plan\<close> (run\_plan.go, task\_attempt\_policy.go): scopes; task
    definitions, plans, the check of the graph and the safety rules. \<open>graph_check_exact\<close>: the marking
    depth-first searches decide reachability and acyclicity.
  \<^item> \<open>Run_Event\<close> (run\_event.go), \<open>Run_State\<close> (run\_state.go), \<open>Task_Completion\<close>: events, replay and the
    conditions on a state. \<open>Event_Fold\<close>, \<open>Run_State_Invariants\<close> and \<open>Run_State_Properties\<close> show the
    invariant of a replayed state and from it: fencing by attempt and token, dependencies before
    work, bounded attempts, one result per task, bounded length, finality and outcome of the
    terminal event, what closes a run (\<open>terminal_completion_derived\<close>), and that a run with nothing left
    to do can be closed (\<open>no_deadlock\<close>). \<open>Safety_Chain\<close> shows what the safety rules of plans mean for
    a run (\<open>safety_chain\<close>), and a run for the exception they leave.
  \<^item> \<open>Run_Journal\<close> (run\_journal.go): the journal interface as a record of methods, and the memory
    journal. \<open>Coordinator\<close> (coordinator.go): every operation, with the conflict loop. \<open>Coordinator_Steps\<close>
    and \<open>Event_Range\<close> show that what an operation builds on a loaded state replays and can be written.
    \<open>Journal_Contract\<close> has the locale \<open>run_journal\<close>: what the coordinator relies on of a journal,
    including what other clients may do between two accesses, and the lemmas on the operations,
    proved once from it. It takes the promise on a stream as a parameter (\<open>stream_promise\<close>), which is
    interpreted twice: that the stream replays, which every operation but a renewal keeps, and that
    it replays or is \<open>stalled\<close>, that is, ends in a renewal no replay accepts, which every operation
    keeps (\<open>renewing_journal\<close>). \<open>Shared_Journal\<close> interprets both for the memory journal under
    interference (\<open>coordinator_safety\<close>); \<open>Coordinator_Properties\<close> adds what each operation returns.
  \<^item> \<open>File_Lock\<close> (internal/filelock, with the Unix variant of the lock): the directory, whose every
    access may fail, and its lock. \<open>Durable_Files\<close>: what the two durable stores share, scanning and
    replacing a file of lines. \<open>File_Run_Journal\<close> (file\_run\_journal.go): the durable journal.
    \<open>Stream_Text\<close> is about the text of a stream. \<open>File_Journal_Refinement\<close> shows that it implements the
    memory journal (\<open>file_refines_memory\<close>), \<open>File_Coordinator\<close> interprets \<open>renewing_journal\<close> for it
    (\<open>durable_safety\<close>), and \<open>File_Writers\<close> puts processes around it that open, use, close and abandon
    it (\<open>single_writer\<close>).
  \<^item> \<open>Audit_Event\<close> (audit/event.go): the entries of the audit trail, their identity and canonical JSON.
    \<open>Audit_Ledger\<close> (audit/ledger.go): the ledger interface, the memory ledger, and the locale
    \<open>audit_ledger\<close>, the contract of a ledger with its lemmas: streams are only extended and stay chains.
    \<open>Audit_File_Ledger\<close> (audit/file\_ledger.go): the durable ledger. \<open>Audit_Refinement\<close> interprets the
    contract for it, shows that it implements the memory ledger (\<open>file_ledger_refines\<close>) and that the
    last identity of a trail determines the trail (\<open>audit_history\<close>).
  \<^item> \<open>Canonical_Codec\<close> with \<open>Run_Event_Encoding\<close>, \<open>Run_Plan_Encoding\<close>, \<open>Task_Wire\<close>, \<open>Run_Receipt\<close> and
    \<open>Notification_Encoding\<close>: the canonical encodings; the locale of \<open>Canonical_Codec\<close> is the common part of the
    parsers. The theorems named \<open>exact\<close> say that a valid value has one encoding and the parser
    accepts exactly that text for it.
  \<^item> \<open>Run_Finalizer\<close> (run\_finalizer.go), \<open>Run_Receipt\<close> (run\_receipt.go), \<open>Task_Handler\<close>
    (task\_handler.go): closing runs, receipts, and the dispatch of a leased task to the handler the
    plan names, which is a parameter. The locale \<open>planned_journal\<close> extends \<open>run_journal\<close>.
  \<^item> \<open>Task_Notification\<close> (task\_notification.go), with \<open>Notification_Queue\<close> on histories of the queue and
    \<open>Notification_Scheduler\<close> on the scheduler under the contracts of a journal and a queue;
    \<open>Notification_Supervisor\<close> (task\_notification\_supervisor.go), with \<open>Supervisor_Passes\<close> and
    \<open>Supervisor_Properties\<close> on what a pass over the repositories achieves (\<open>supervisor_settles\<close>).
  \<^item> \<open>Examples\<close> and the theories ending in \<open>Witnesses\<close> apply the theorems to concrete plans, runs and
    directories. The hash there is a constant function, or one that keeps the events of one instant
    apart from the rest, where an event has to be appended.

  \<^bold>\<open>Bounds and loops.\<close> Loops over slices are structural recursion. The conflict loops of the
  coordinator run at most \<open>maxCoordinatorConflicts\<close> times in the code and by structural recursion on
  that number here. Reading a stream page by page, the searches in a plan and the passes over the
  pages of a repository are total by a measure: the bound on the stream, the tasks not yet visited,
  the bound on the runs of a pass. The loop of the supervisor runs over the turns that have
  happened. No definition carries fuel that the code does not have. Attempts and deliveries wrap at
  8 bits where the code adds to them; sequence numbers, times and lengths are unbounded in the
  model, and \<open>event_ints\<close> states the range within which an event can be written.

  \<^bold>\<open>Assumptions.\<close> A method that holds a mutex is one step. Other clients of a shared memory journal
  take legal steps: they only extend a stream and keep the promise on it, as \<open>append_legal\<close> shows of a
  pending append of another coordinator. A renewal may be made at any time; one that moves the expiry
  by less than a millisecond stalls the stream (\<open>submillisecond_renewal_breaks_replay\<close>), which the
  safety theorems name as their exception. The theorems whose conclusion is a replayed state
  (\<open>advance_leaves_nothing\<close>, \<open>finalizer_safety\<close>, \<open>scheduler_announces\<close>, \<open>supervisor_settles\<close>) start from a
  stream that replays. On the durable journal, workers have
  names in UTF-8; \<open>stream_unreadable\<close> shows why. Renaming a file is atomic, and the operating system
  releases a lock when its file is closed, even when it reports an error of that call, and when its
  process ends; \<open>single_writer\<close> is about journals whose \<open>Close\<close> is not refused, \<open>failed_close_unlocks\<close>
  about the others. A temporary file whose name is taken counts as one that could not be
  created, as when \<open>os.CreateTemp\<close> gives up. That the hash keeps two texts apart is assumed in
  \<open>audit_history\<close> of the texts of the two trails compared. The durable ledger compares
  whole scopes where the memory ledger compares their identities; \<open>file_ledger_refines\<close> is about streams
  in which the two agree, and about streams below the limit that only the durable ledger has.

  \<^bold>\<open>Not modelled.\<close> Nil receivers and arguments (except contexts), the text that errors wrap, and
  the methods that print redacted values. The database and queue adapters, which reimplement the
  journal and queue interfaces in SQL, the HTTP transport, webhook ingress, the workers and the
  handlers behind the tasks (source acquisition, analysis, model calls, publication), the command
  line programs, evaluation, and the front ends: they are clients of what is modelled here or do
  input and output. The Windows variant of the file lock.
\<close>

end
